(* ===== verification/Prelude.thy ===== *)
theory Prelude
  imports Main "HOL-Library.Word" "HOL-Library.Sublist"
begin

text \<open>
  Shared material of the development: the result and state-passing action types
  used by every component, the Hoare-style calculus for actions, and generic facts
  on lists and strings.

  A Rust \<open>Result<T, E>\<close> is the sum \<open>'e + 'a\<close> (\<open>Inl\<close> is \<open>Err\<close>, \<open>Inr\<close> is \<open>Ok\<close>).  An
  \<open>async fn\<close> over the durable store is an action: a function from the store to the
  result and the store afterwards.  The question-mark operator is \<open>act_bind\<close>, a
  \<open>.map_err(f)\<close> before it is \<open>act_map_err f\<close>.  A Rust \<open>str\<close> is its UTF-8 bytes, an
  Isabelle \<open>string\<close> (whose characters are bytes).
\<close>

named_theorems frame_intro "rules that show that an action leaves a view of the state alone"
named_theorems triple_intro "rules for triples over actions"

section \<open>Results and actions\<close>

type_synonym bytes = "8 word list"
type_synonym ('s, 'e, 'a) act = "'s \<Rightarrow> ('e + 'a) \<times> 's"

definition ok_or :: "'e \<Rightarrow> 'a option \<Rightarrow> 'e + 'a" where
  "ok_or e x = (case x of None \<Rightarrow> Inl e | Some v \<Rightarrow> Inr v)"

definition map_err :: "('e \<Rightarrow> 'f) \<Rightarrow> 'e + 'a \<Rightarrow> 'f + 'a" where
  "map_err f x = (case x of Inl e \<Rightarrow> Inl (f e) | Inr v \<Rightarrow> Inr v)"

definition res_bind :: "'e + 'a \<Rightarrow> ('a \<Rightarrow> 'e + 'b) \<Rightarrow> 'e + 'b" where
  "res_bind x f = (case x of Inl e \<Rightarrow> Inl e | Inr v \<Rightarrow> f v)"

definition act_ok :: "'a \<Rightarrow> ('s, 'e, 'a) act" where
  "act_ok x = (\<lambda>s. (Inr x, s))"

definition act_err :: "'e \<Rightarrow> ('s, 'e, 'a) act" where
  "act_err e = (\<lambda>s. (Inl e, s))"

definition act_lift :: "'e + 'a \<Rightarrow> ('s, 'e, 'a) act" where
  "act_lift r = (\<lambda>s. (r, s))"

definition act_map_err :: "('e \<Rightarrow> 'f) \<Rightarrow> ('s, 'e, 'a) act \<Rightarrow> ('s, 'f, 'a) act" where
  "act_map_err f m = (\<lambda>s. case m s of (r, s') \<Rightarrow> (map_err f r, s'))"

definition act_bind :: "('s, 'e, 'a) act \<Rightarrow> ('a \<Rightarrow> ('s, 'e, 'b) act) \<Rightarrow> ('s, 'e, 'b) act" where
  "act_bind m f = (\<lambda>s. case m s of (Inl e, s') \<Rightarrow> (Inl e, s') | (Inr x, s') \<Rightarrow> f x s')"

lemma ok_or_simps [simp]:
  "ok_or e None = Inl e" "ok_or e (Some v) = Inr v"
  by (simp_all add: ok_or_def)

lemma map_err_simps [simp]:
  "map_err f (Inl e) = Inl (f e)" "map_err f (Inr v) = Inr v"
  by (simp_all add: map_err_def)

lemma res_bind_simps [simp]:
  "res_bind (Inl e) f = Inl e" "res_bind (Inr v) f = f v"
  by (simp_all add: res_bind_def)

lemma res_bind_Inr: "res_bind x f = Inr y \<longleftrightarrow> (\<exists>v. x = Inr v \<and> f v = Inr y)"
  by (cases x) auto

lemma map_err_Inr [simp]: "map_err f r = Inr v \<longleftrightarrow> r = Inr v"
  by (cases r) auto

lemma ok_or_Inr [simp]: "ok_or e r = Inr v \<longleftrightarrow> r = Some v"
  by (cases r) auto

lemma act_simps [simp]:
  "act_ok x s = (Inr x, s)" "act_err e s = (Inl e, s)" "act_lift r s = (r, s)"
  by (simp_all add: act_ok_def act_err_def act_lift_def)

lemma act_map_err_apply: "act_map_err f m s = (map_err f (fst (m s)), snd (m s))"
  by (simp add: act_map_err_def case_prod_beta)

lemma act_bind_Inl: "m s = (Inl e, s') \<Longrightarrow> act_bind m f s = (Inl e, s')"
  by (simp add: act_bind_def)

lemma act_bind_Inr: "m s = (Inr x, s') \<Longrightarrow> act_bind m f s = f x s'"
  by (simp add: act_bind_def)

lemma act_map_err_Inr: "m s = (Inr x, s') \<Longrightarrow> act_map_err f m s = (Inr x, s')"
  by (simp add: act_map_err_def)

lemma act_map_err_Inl: "m s = (Inl e, s') \<Longrightarrow> act_map_err f m s = (Inl (f e), s')"
  by (simp add: act_map_err_def)

lemma act_map_err_Inr_iff:
  "act_map_err f m s = (Inr x, s') \<longleftrightarrow> m s = (Inr x, s')"
  by (simp add: act_map_err_def split: prod.split)

lemma act_bind_Inr_iff:
  "act_bind m f s = (Inr y, s'') \<longleftrightarrow> (\<exists>x s'. m s = (Inr x, s') \<and> f x s' = (Inr y, s''))"
  by (auto simp: act_bind_def split: prod.splits sum.splits)

lemma act_bind_Inl_iff:
  "act_bind m f s = (Inl e, s'') \<longleftrightarrow>
     m s = (Inl e, s'') \<or> (\<exists>x s'. m s = (Inr x, s') \<and> f x s' = (Inl e, s''))"
  by (auto simp: act_bind_def split: prod.splits sum.splits)

lemma act_map_err_Inl_iff:
  "act_map_err f m s = (Inl e, s') \<longleftrightarrow> (\<exists>e0. m s = (Inl e0, s') \<and> e = f e0)"
  by (auto simp: act_map_err_def map_err_def split: prod.splits sum.splits)

lemma act_bind_ok_assoc [simp]: "act_bind (act_ok x) f = f x"
  by (rule ext) (simp add: act_bind_def)

lemma act_bind_lift:
  "act_bind (act_lift r) f s = (case r of Inl e \<Rightarrow> (Inl e, s) | Inr v \<Rightarrow> f v s)"
  by (cases r) (simp_all add: act_bind_def)

section \<open>Frames and triples\<close>

text \<open>\<open>frame v m\<close>: whatever the outcome, \<open>m\<close> leaves the view \<open>v\<close> of the state as it was.\<close>

definition frame :: "('s \<Rightarrow> 'v) \<Rightarrow> ('s, 'e, 'a) act \<Rightarrow> bool" where
  "frame v m \<longleftrightarrow> (\<forall>s. v (snd (m s)) = v s)"

lemma frameI: "(\<And>s. v (snd (m s)) = v s) \<Longrightarrow> frame v m"
  by (simp add: frame_def)

lemma frameD: "frame v m \<Longrightarrow> m s = (r, s') \<Longrightarrow> v s' = v s"
  unfolding frame_def by (metis snd_conv)

lemma frame_ok [frame_intro]: "frame v (act_ok x)"
  and frame_err [frame_intro]: "frame v (act_err e)"
  and frame_lift [frame_intro]: "frame v (act_lift r)"
  by (simp_all add: frame_def)

lemma frame_map_err [frame_intro]: "frame v m \<Longrightarrow> frame v (act_map_err f m)"
  by (simp add: frame_def act_map_err_apply)

lemma frame_bind [frame_intro]:
  "frame v m \<Longrightarrow> (\<And>x. frame v (f x)) \<Longrightarrow> frame v (act_bind m f)"
  by (auto simp: frame_def act_bind_def split: prod.splits sum.splits) (metis snd_conv)+

lemma frame_option [frame_intro]:
  "frame v m \<Longrightarrow> (\<And>x. frame v (f x)) \<Longrightarrow> frame v (case y of None \<Rightarrow> m | Some x \<Rightarrow> f x)"
  by (cases y) auto

lemma frame_sum [frame_intro]:
  "(\<And>x. frame v (g x)) \<Longrightarrow> (\<And>x. frame v (f x)) \<Longrightarrow> frame v (case y of Inl x \<Rightarrow> g x | Inr x \<Rightarrow> f x)"
  by (cases y) auto

lemma frame_if [frame_intro]:
  "frame v m \<Longrightarrow> frame v n \<Longrightarrow> frame v (if b then m else n)"
  by simp

lemma frame_prod [frame_intro]:
  "(\<And>a b. frame v (f a b)) \<Longrightarrow> frame v (case y of (a, b) \<Rightarrow> f a b)"
  by (cases y) auto

lemma frame_list [frame_intro]:
  "frame v m \<Longrightarrow> (\<And>x xs. frame v (f x xs)) \<Longrightarrow> frame v (case y of [] \<Rightarrow> m | x # xs \<Rightarrow> f x xs)"
  by (cases y) auto

text \<open>\<open>keeps I m\<close>: whatever the outcome, \<open>m\<close> preserves the relation-to-the-past \<open>I s0\<close>.\<close>

definition keeps :: "('s \<Rightarrow> bool) \<Rightarrow> ('s, 'e, 'a) act \<Rightarrow> bool" where
  "keeps I m \<longleftrightarrow> (\<forall>s. I s \<longrightarrow> I (snd (m s)))"

lemma keepsD: "keeps I m \<Longrightarrow> I s \<Longrightarrow> m s = (r, s') \<Longrightarrow> I s'"
  unfolding keeps_def by (metis snd_conv)

lemma keeps_ok [triple_intro]: "keeps I (act_ok x)"
  and keeps_err [triple_intro]: "keeps I (act_err e)"
  and keeps_lift [triple_intro]: "keeps I (act_lift r)"
  by (simp_all add: keeps_def)

lemma keeps_map_err [triple_intro]: "keeps I m \<Longrightarrow> keeps I (act_map_err f m)"
  by (simp add: keeps_def act_map_err_apply)

lemma keeps_bind [triple_intro]:
  "keeps I m \<Longrightarrow> (\<And>x. keeps I (f x)) \<Longrightarrow> keeps I (act_bind m f)"
  by (auto simp: keeps_def act_bind_def split: prod.splits sum.splits)

lemma keeps_option [triple_intro]:
  "keeps I m \<Longrightarrow> (\<And>x. keeps I (f x)) \<Longrightarrow> keeps I (case y of None \<Rightarrow> m | Some x \<Rightarrow> f x)"
  by (cases y) auto

lemma keeps_sum [triple_intro]:
  "(\<And>x. keeps I (g x)) \<Longrightarrow> (\<And>x. keeps I (f x)) \<Longrightarrow> keeps I (case y of Inl x \<Rightarrow> g x | Inr x \<Rightarrow> f x)"
  by (cases y) auto

lemma keeps_if [triple_intro]: "keeps I m \<Longrightarrow> keeps I n \<Longrightarrow> keeps I (if b then m else n)"
  by simp

lemma keeps_prod [triple_intro]:
  "(\<And>a b. keeps I (f a b)) \<Longrightarrow> keeps I (case y of (a, b) \<Rightarrow> f a b)"
  by (cases y) auto

lemma keeps_list [triple_intro]:
  "keeps I m \<Longrightarrow> (\<And>x xs. keeps I (f x xs)) \<Longrightarrow> keeps I (case y of [] \<Rightarrow> m | x # xs \<Rightarrow> f x xs)"
  by (cases y) auto

section \<open>Loops over a list that stop at the first error\<close>

fun res_fold :: "('a \<Rightarrow> 'b \<Rightarrow> 'e + 'b) \<Rightarrow> 'a list \<Rightarrow> 'b \<Rightarrow> 'e + 'b" where
  "res_fold f [] b = Inr b"
| "res_fold f (x # xs) b = res_bind (f x b) (res_fold f xs)"

fun act_map :: "('a \<Rightarrow> ('s, 'e, 'b) act) \<Rightarrow> 'a list \<Rightarrow> ('s, 'e, 'b list) act" where
  "act_map f [] = act_ok []"
| "act_map f (x # xs) = act_bind (f x) (\<lambda>y. act_bind (act_map f xs) (\<lambda>ys. act_ok (y # ys)))"

lemma frame_act_map [frame_intro]: "(\<And>x. frame v (f x)) \<Longrightarrow> frame v (act_map f xs)"
  by (induction xs) (auto intro!: frame_intro)

lemma keeps_act_map [triple_intro]: "(\<And>x. keeps I (f x)) \<Longrightarrow> keeps I (act_map f xs)"
  by (induction xs) (auto intro!: triple_intro)

section \<open>Lists and strings\<close>

text \<open>\<open>strip_prefix\<close> is Rust's \<open>str::strip_prefix\<close>.\<close>

fun strip_prefix :: "string \<Rightarrow> string \<Rightarrow> string option" where
  "strip_prefix [] s = Some s"
| "strip_prefix (p # ps) [] = None"
| "strip_prefix (p # ps) (c # cs) = (if p = c then strip_prefix ps cs else None)"

lemma strip_prefix_append [simp]: "strip_prefix p (p @ s) = Some s"
  by (induction p) auto

lemma strip_prefix_Some: "strip_prefix p s = Some r \<longleftrightarrow> s = p @ r"
  by (induction p s rule: strip_prefix.induct) auto

lemma strip_prefix_None: "strip_prefix p s = None \<longleftrightarrow> \<not> prefix p s"
  by (induction p s rule: strip_prefix.induct) auto

text \<open>Rust's \<open>str::strip_suffix\<close>.\<close>

definition strip_suffix :: "string \<Rightarrow> string \<Rightarrow> string option" where
  "strip_suffix suf s = map_option rev (strip_prefix (rev suf) (rev s))"

lemma append_sep_eq:
  assumes "x \<notin> set xs" "x \<notin> set ys"
  shows "xs @ x # us = ys @ x # vs \<longleftrightarrow> xs = ys \<and> us = vs"
  using assms
proof (induction xs arbitrary: ys)
  case Nil
  then show ?case by (cases ys) auto
next
  case (Cons a xs)
  then show ?case by (cases ys) auto
qed

lemma append_sep_neq: "x \<notin> set xs \<Longrightarrow> xs \<noteq> ys @ x # us"
  by auto

section \<open>Serialization\<close>

text \<open>
  Payloads are encoded by \<open>serde_json\<close>, a third-party package: a codec is an argument of
  every operation that stores or reads a value.  \<open>codec_ok\<close> is its documented contract
  for derived implementations, that decoding what was encoded gives the value back;
  both directions may fail with a message.
\<close>

record 'a codec =
  ser :: "'a \<Rightarrow> string + bytes"
  de :: "bytes \<Rightarrow> string + 'a"

definition codec_ok :: "'a codec \<Rightarrow> bool" where
  "codec_ok c \<longleftrightarrow> (\<forall>x b. ser c x = Inr b \<longrightarrow> de c b = Inr x)"

definition codec_total :: "'a codec \<Rightarrow> bool" where
  "codec_total c \<longleftrightarrow> (\<forall>x. \<exists>b. ser c x = Inr b)"

lemma codec_okD: "codec_ok c \<Longrightarrow> ser c x = Inr b \<Longrightarrow> de c b = Inr x"
  by (simp add: codec_ok_def)

end
