(* ===== verification/Domain_State.thy ===== *)
theory Domain_State
  imports Prelude
begin

text \<open>
  Current state, transitions and history (\<open>spider/src/features/domain_state.rs\<close>): one
  current state per identity, a typed transition that either names the new state or
  rejects, and an append-only log of superseded states.  A Rust \<open>Transition<S>\<close> value is
  the function \<open>'s \<Rightarrow> 'r + 's\<close> its \<open>apply\<close> computes.  The wall clock read by
  \<open>CurrentState::apply\<close> is the argument \<open>now\<close> (nanoseconds since the epoch; negative
  before it).  The locale \<open>lifecycle\<close> is the contract of a domain's transitions, proved
  here for whole runs and interpreted by the watch and the session components.
\<close>

section \<open>State, entries, logs\<close>

type_synonym system_time = int

record ('id, 's) current_state =
  cs_identity :: 'id
  cs_state :: 's

record ('id, 's) history_entry =
  he_identity :: 'id
  he_state :: 's
  he_recorded_at :: system_time

record ('id, 's) applied =
  ap_current :: "('id, 's) current_state"
  ap_superseded :: "('id, 's) history_entry"

definition cs_new :: "'id \<Rightarrow> 's \<Rightarrow> ('id, 's) current_state" where
  "cs_new i st = \<lparr>cs_identity = i, cs_state = st\<rparr>"

definition cs_into_parts :: "('id, 's) current_state \<Rightarrow> 'id \<times> 's" where
  "cs_into_parts c = (cs_identity c, cs_state c)"

definition cs_apply ::
  "('s \<Rightarrow> 'r + 's) \<Rightarrow> system_time \<Rightarrow> ('id, 's) current_state
    \<Rightarrow> (('id, 's) current_state \<times> 'r) + ('id, 's) applied" where
  "cs_apply transition now c =
     (case transition (cs_state c) of
        Inr new_state \<Rightarrow>
          Inr \<lparr>ap_current = \<lparr>cs_identity = cs_identity c, cs_state = new_state\<rparr>,
               ap_superseded = \<lparr>he_identity = cs_identity c, he_state = cs_state c,
                                he_recorded_at = now\<rparr>\<rparr>
      | Inl rejection \<Rightarrow> Inl (c, rejection))"

datatype ('id, 's) history_log = HistoryLog (entries: "('id, 's) history_entry list")

definition log_new :: "('id, 's) history_log" where
  "log_new = HistoryLog []"

definition log_append :: "('id, 's) history_log \<Rightarrow> ('id, 's) history_entry \<Rightarrow> ('id, 's) history_log" where
  "log_append l e = HistoryLog (entries l @ [e])"

definition log_len :: "('id, 's) history_log \<Rightarrow> nat" where
  "log_len l = length (entries l)"

definition log_is_empty :: "('id, 's) history_log \<Rightarrow> bool" where
  "log_is_empty l = (entries l = [])"

definition log_iter :: "('id, 's) history_log \<Rightarrow> ('id, 's) history_entry list" where
  "log_iter l = entries l"

definition log_last :: "('id, 's) history_log \<Rightarrow> ('id, 's) history_entry option" where
  "log_last l = (if entries l = [] then None else Some (last (entries l)))"

lemma cs_apply_Inr:
  "cs_apply tr now c = Inr a \<longleftrightarrow>
     (\<exists>s'. tr (cs_state c) = Inr s' \<and> ap_current a = cs_new (cs_identity c) s' \<and>
       ap_superseded a = \<lparr>he_identity = cs_identity c, he_state = cs_state c, he_recorded_at = now\<rparr>)"
  by (auto simp: cs_apply_def cs_new_def split: sum.splits)

lemma cs_apply_Inl:
  "cs_apply tr now c = Inl (c', r) \<longleftrightarrow> c' = c \<and> tr (cs_state c) = Inl r"
  by (auto simp: cs_apply_def split: sum.splits)

section \<open>Runs of transitions with their log\<close>

text \<open>
  The documented use of the module: each accepted transition replaces the current state
  and appends what it superseded; each rejected one leaves both alone.
\<close>

fun run_logged ::
  "('s \<Rightarrow> 'r + 's) list \<Rightarrow> system_time \<Rightarrow> ('id, 's) current_state \<times> ('id, 's) history_log
    \<Rightarrow> ('id, 's) current_state \<times> ('id, 's) history_log" where
  "run_logged [] now cl = cl"
| "run_logged (t # ts) now (c, l) =
     run_logged ts now
       (case cs_apply t now c of
          Inr a \<Rightarrow> (ap_current a, log_append l (ap_superseded a))
        | Inl (c', _) \<Rightarrow> (c', l))"

text \<open>Every consecutive pair of the states of a list is related by some transition of \<open>T\<close>.\<close>

fun chained :: "('s \<Rightarrow> 'r + 's) set \<Rightarrow> 's list \<Rightarrow> bool" where
  "chained T (a # b # xs) = ((\<exists>t \<in> T. t a = Inr b) \<and> chained T (b # xs))"
| "chained T _ = True"

lemma chained_snoc:
  "chained T (xs @ [a]) \<Longrightarrow> t \<in> T \<Longrightarrow> t a = Inr b \<Longrightarrow> chained T (xs @ [a, b])"
proof (induction xs)
  case (Cons x xs)
  then show ?case by (cases xs) auto
qed auto

definition log_states :: "('id, 's) current_state \<times> ('id, 's) history_log \<Rightarrow> 's list" where
  "log_states cl = map he_state (entries (snd cl)) @ [cs_state (fst cl)]"

lemma run_logged_chained:
  "set ts \<subseteq> T \<Longrightarrow> chained T (log_states (c, l)) \<Longrightarrow>
    chained T (log_states (run_logged ts now (c, l)))"
proof (induction ts arbitrary: c l)
  case (Cons t ts)
  show ?case
  proof (cases "t (cs_state c)")
    case (Inl r)
    then show ?thesis using Cons by (simp add: cs_apply_def)
  next
    case (Inr s')
    have "chained T (map he_state (entries l) @ [cs_state c, s'])"
      using Cons.prems Inr chained_snoc [where xs = "map he_state (entries l)" and t = t]
      by (simp add: log_states_def)
    then have "chained T (log_states (cs_new (cs_identity c) s',
        log_append l \<lparr>he_identity = cs_identity c, he_state = cs_state c, he_recorded_at = now\<rparr>))"
      by (simp add: log_states_def log_append_def cs_new_def)
    then show ?thesis using Cons.IH Cons.prems(1) Inr
      by (simp add: cs_apply_def cs_new_def)
  qed
qed simp

lemma run_logged_prefix:
  "prefix (entries l) (entries (snd (run_logged ts now (c, l)))) \<and>
   cs_identity (fst (run_logged ts now (c, l))) = cs_identity c"
proof (induction ts arbitrary: c l)
  case (Cons t ts)
  show ?case
  proof (cases "t (cs_state c)")
    case (Inr s')
    have "prefix (entries l) (entries (log_append l e))" for e
      by (simp add: log_append_def)
    with Inr show ?thesis
      using Cons.IH by (simp add: cs_apply_def) (metis current_state.select_convs(1) prefix_order.trans)
  qed (use Cons.IH in \<open>simp add: cs_apply_def\<close>)
qed simp

section \<open>The contract of a domain's transitions\<close>

text \<open>\<open>run_transitions\<close> applies a list of named transitions; a rejected one changes nothing.\<close>

fun run_transitions :: "('t \<Rightarrow> 's \<Rightarrow> 'r + 's) \<Rightarrow> 't list \<Rightarrow> 's \<Rightarrow> 's" where
  "run_transitions step [] s = s"
| "run_transitions step (t # ts) s =
     run_transitions step ts (case step t s of Inl _ \<Rightarrow> s | Inr s' \<Rightarrow> s')"

locale lifecycle =
  fixes step :: "'t \<Rightarrow> 's \<Rightarrow> 'r + 's"
    and terminal :: "'s \<Rightarrow> bool"
    and owner :: "'s \<Rightarrow> 'v"
  assumes terminal_rejects: "terminal s \<Longrightarrow> \<exists>r. step t s = Inl r"
    and owner_kept: "step t s = Inr s' \<Longrightarrow> owner s' = owner s"
begin

lemma terminal_run: "terminal s \<Longrightarrow> run_transitions step ts s = s"
proof (induction ts)
  case (Cons t ts)
  with terminal_rejects [of s t] show ?case by auto
qed simp

lemma owner_run: "owner (run_transitions step ts s) = owner s"
proof (induction ts arbitrary: s)
  case (Cons t ts)
  then show ?case using owner_kept [of t s] by (auto split: sum.splits)
qed simp

lemma accepted_not_terminal: "step t s = Inr s' \<Longrightarrow> \<not> terminal s"
  by (metis sum.distinct(1) terminal_rejects)

end

end
