(* ===== verification/Rust_Str.thy ===== *)
theory Rust_Str
  imports Prelude "HOL-Library.Char_ord" "HOL-Library.List_Lexorder"
begin

text \<open>
  The parts of the Rust standard library's strings and ordered maps that the components
  use: \<open>str::trim\<close> (the Unicode \<open>White_Space\<close> characters in their UTF-8 encoding),
  ASCII case folding, splitting, parsing and printing of unsigned numbers, and
  \<open>BTreeMap\<close> as an association list in increasing key order.
\<close>

section \<open>Trimming and case\<close>

text \<open>A string read byte by byte; \<open>byte_is c n\<close> compares a byte with a number.\<close>

definition byte_in :: "nat list \<Rightarrow> char \<Rightarrow> bool" where
  "byte_in ns c = (of_char c \<in> set ns)"

definition ascii_space :: "char \<Rightarrow> bool" where
  "ascii_space = byte_in [9, 10, 11, 12, 13, 32]"

definition wide_space2 :: "char \<Rightarrow> char \<Rightarrow> bool" where
  "wide_space2 a b = (byte_in [0xC2] a \<and> byte_in [0x85, 0xA0] b)"

definition wide_space3 :: "char \<Rightarrow> char \<Rightarrow> char \<Rightarrow> bool" where
  "wide_space3 a b c =
     (byte_in [0xE1] a \<and> byte_in [0x9A] b \<and> byte_in [0x80] c
      \<or> byte_in [0xE2] a \<and> byte_in [0x80] b \<and> byte_in ([0x80..<0x8B] @ [0xA8, 0xA9, 0xAF]) c
      \<or> byte_in [0xE2] a \<and> byte_in [0x81] b \<and> byte_in [0x9F] c
      \<or> byte_in [0xE3] a \<and> byte_in [0x80] b \<and> byte_in [0x80] c)"

fun trim_start :: "string \<Rightarrow> string" where
  "trim_start (a # b # c # s) =
     (if ascii_space a then trim_start (b # c # s)
      else if wide_space2 a b then trim_start (c # s)
      else if wide_space3 a b c then trim_start s
      else a # b # c # s)"
| "trim_start [a, b] =
     (if ascii_space a then trim_start [b] else if wide_space2 a b then [] else [a, b])"
| "trim_start [a] = (if ascii_space a then [] else [a])"
| "trim_start [] = []"

text \<open>The same from the end: the string reversed, so a multi-byte character is read backwards.\<close>

fun trim_rev :: "string \<Rightarrow> string" where
  "trim_rev (c # b # a # s) =
     (if ascii_space c then trim_rev (b # a # s)
      else if wide_space2 b c then trim_rev (a # s)
      else if wide_space3 a b c then trim_rev s
      else c # b # a # s)"
| "trim_rev [b, a] =
     (if ascii_space b then trim_rev [a] else if wide_space2 a b then [] else [b, a])"
| "trim_rev [a] = (if ascii_space a then [] else [a])"
| "trim_rev [] = []"

definition trim_end :: "string \<Rightarrow> string" where
  "trim_end s = rev (trim_rev (rev s))"

definition trim :: "string \<Rightarrow> string" where
  "trim s = trim_end (trim_start s)"

definition lower_char :: "char \<Rightarrow> char" where
  "lower_char c =
     (let n = of_char c :: nat in if 65 \<le> n \<and> n \<le> 90 then char_of (n + 32) else c)"

definition to_ascii_lowercase :: "string \<Rightarrow> string" where
  "to_ascii_lowercase s = map lower_char s"

definition eq_ignore_ascii_case :: "string \<Rightarrow> string \<Rightarrow> bool" where
  "eq_ignore_ascii_case a b = (to_ascii_lowercase a = to_ascii_lowercase b)"

lemma lower_char_idem [simp]: "lower_char (lower_char c) = lower_char c"
proof -
  have "(of_char c :: nat) < 256" by simp
  then show ?thesis by (auto simp: lower_char_def Let_def)
qed

lemma to_ascii_lowercase_idem [simp]:
  "to_ascii_lowercase (to_ascii_lowercase s) = to_ascii_lowercase s"
  by (simp add: to_ascii_lowercase_def)

lemma length_to_ascii_lowercase [simp]: "length (to_ascii_lowercase s) = length s"
  by (simp add: to_ascii_lowercase_def)

section \<open>UTF-8\<close>

definition continuation_byte :: "char \<Rightarrow> bool" where
  "continuation_byte c \<longleftrightarrow> 128 \<le> (of_char c :: nat) \<and> (of_char c :: nat) < 192"

text \<open>The range of the second byte after a leading byte of three or four.\<close>

definition second_byte :: "nat \<Rightarrow> nat \<Rightarrow> bool" where
  "second_byte n b \<longleftrightarrow>
     (if n = 0xE0 then 0xA0 else if n = 0xF0 then 0x90 else 0x80) \<le> b \<and>
     b \<le> (if n = 0xED then 0x9F else if n = 0xF4 then 0x8F else 0xBF)"

fun utf8_ok :: "string \<Rightarrow> bool" where
  "utf8_ok [] = True"
| "utf8_ok (a # s) =
     (let n = of_char a :: nat
      in if n < 0x80 then utf8_ok s
         else if 0xC2 \<le> n \<and> n < 0xE0 then
           (case s of b # s \<Rightarrow> continuation_byte b \<and> utf8_ok s | _ \<Rightarrow> False)
         else if 0xE0 \<le> n \<and> n < 0xF0 then
           (case s of b # c # s \<Rightarrow> second_byte n (of_char b) \<and> continuation_byte c \<and> utf8_ok s
                    | _ \<Rightarrow> False)
         else if 0xF0 \<le> n \<and> n < 0xF5 then
           (case s of b # c # d # s \<Rightarrow>
                      second_byte n (of_char b) \<and> continuation_byte c \<and> continuation_byte d \<and> utf8_ok s
                    | _ \<Rightarrow> False)
         else False)"

text \<open>\<open>std::str::from_utf8\<close>, and \<open>str::as_bytes\<close>.\<close>

definition str_from_utf8 :: "bytes \<Rightarrow> string option" where
  "str_from_utf8 b =
     (let s = map (\<lambda>w. char_of (unat w)) b in if utf8_ok s then Some s else None)"

definition str_bytes :: "string \<Rightarrow> bytes" where
  "str_bytes s = map of_char s"

text \<open>\<open>[String]::join\<close>.\<close>

fun join_with :: "string \<Rightarrow> string list \<Rightarrow> string" where
  "join_with sep [] = []"
| "join_with sep [x] = x"
| "join_with sep (x # xs) = x @ sep @ join_with sep xs"

section \<open>Searching and splitting\<close>

fun split_on :: "char \<Rightarrow> string \<Rightarrow> string list" where
  "split_on d [] = [[]]"
| "split_on d (c # cs) =
     (if c = d then [] # split_on d cs
      else case split_on d cs of [] \<Rightarrow> [[c]] | w # ws \<Rightarrow> (c # w) # ws)"

lemma split_on_not_Nil [simp]: "split_on d s \<noteq> []"
  by (induction s) (auto split: list.splits)

fun find_char :: "char \<Rightarrow> string \<Rightarrow> nat option" where
  "find_char d [] = None"
| "find_char d (c # cs) = (if c = d then Some 0 else map_option Suc (find_char d cs))"

lemma find_char_Some: "find_char d s = Some i \<Longrightarrow> i < length s \<and> s ! i = d \<and> d \<notin> set (take i s)"
  by (induction s arbitrary: i) (auto split: if_splits)

lemma find_char_None: "find_char d s = None \<longleftrightarrow> d \<notin> set s"
  by (induction s) auto

fun str_contains :: "string \<Rightarrow> string \<Rightarrow> bool" where
  "str_contains [] p = (p = [])"
| "str_contains (c # cs) p = (prefix p (c # cs) \<or> str_contains cs p)"

section \<open>Numbers\<close>

definition digit_char :: "nat \<Rightarrow> char" where
  "digit_char n = ''0123456789'' ! n"

fun show_nat :: "nat \<Rightarrow> string" where
  "show_nat n = (if n < 10 then [digit_char n] else show_nat (n div 10) @ [digit_char (n mod 10)])"

declare show_nat.simps [simp del]

definition digit_value :: "char \<Rightarrow> nat option" where
  "digit_value c =
     (let n = of_char c :: nat in if 48 \<le> n \<and> n \<le> 57 then Some (n - 48) else None)"

fun parse_digits :: "nat \<Rightarrow> string \<Rightarrow> nat option" where
  "parse_digits acc [] = Some acc"
| "parse_digits acc (c # cs) =
     (case digit_value c of None \<Rightarrow> None | Some d \<Rightarrow> parse_digits (10 * acc + d) cs)"

text \<open>
  \<open>str::parse\<close> for an unsigned type of \<open>bits\<close> bits: an optional \<open>+\<close>, then at least one
  digit; an overflow is an error (the running value only grows, so checking the final
  value is checking every step).
\<close>

fun drop_plus :: "string \<Rightarrow> string" where
  "drop_plus [] = []"
| "drop_plus (c # cs) = (if c = CHR ''+'' then cs else c # cs)"

definition parse_unsigned :: "nat \<Rightarrow> string \<Rightarrow> nat option" where
  "parse_unsigned bits s =
     (let ds = drop_plus s in
      if ds = [] then None
      else case parse_digits 0 ds of
             None \<Rightarrow> None
           | Some n \<Rightarrow> if n < 2 ^ bits then Some n else None)"

lemma less_10_cases:
  "(n :: nat) < 10 \<Longrightarrow> n = 9 \<or> n = 8 \<or> n = 7 \<or> n = 6 \<or> n = 5 \<or> n = 4 \<or> n = 3 \<or> n = 2 \<or> n = 1 \<or> n = 0"
  by arith

lemma digit_value_char [simp]: "n < 10 \<Longrightarrow> digit_value (digit_char n) = Some n"
  by (drule less_10_cases) (elim disjE; simp add: digit_char_def digit_value_def)

lemma parse_digits_append:
  "parse_digits acc (xs @ ys) =
     (case parse_digits acc xs of None \<Rightarrow> None | Some a \<Rightarrow> parse_digits a ys)"
  by (induction xs arbitrary: acc) (auto split: option.splits)

lemma parse_digits_show: "parse_digits 0 (show_nat n) = Some n"
proof (induction n rule: show_nat.induct)
  case (1 n)
  show ?case
  proof (cases "n < 10")
    case False
    then show ?thesis using 1 by (subst show_nat.simps) (simp add: parse_digits_append)
  qed (subst show_nat.simps, simp)
qed

lemma show_nat_digits: "set (show_nat n) \<subseteq> set ''0123456789''"
proof (induction n rule: show_nat.induct)
  case (1 n)
  have "k < 10 \<Longrightarrow> digit_char k \<in> set ''0123456789''" for k
    by (drule less_10_cases) (elim disjE; simp add: digit_char_def)
  then show ?case using 1 by (subst show_nat.simps) auto
qed

lemma show_nat_not_Nil [simp]: "show_nat n \<noteq> []"
  by (subst show_nat.simps) simp

lemma show_nat_inj [simp]: "show_nat m = show_nat n \<longleftrightarrow> m = n"
proof
  assume "show_nat m = show_nat n"
  then have "parse_digits 0 (show_nat m) = parse_digits 0 (show_nat n)" by simp
  then show "m = n" by (simp add: parse_digits_show)
qed simp

lemma drop_plus_show [simp]: "drop_plus (show_nat n) = show_nat n"
  using show_nat_digits [of n] by (cases "show_nat n") auto

lemma parse_unsigned_show: "n < 2 ^ bits \<Longrightarrow> parse_unsigned bits (show_nat n) = Some n"
  by (simp add: parse_unsigned_def parse_digits_show)

section \<open>Ordered maps\<close>

fun btree_insert :: "'k::linorder \<Rightarrow> 'v \<Rightarrow> ('k \<times> 'v) list \<Rightarrow> ('k \<times> 'v) list" where
  "btree_insert k v [] = [(k, v)]"
| "btree_insert k v ((k', v') # m) =
     (if k < k' then (k, v) # (k', v') # m
      else if k = k' then (k, v) # m
      else (k', v') # btree_insert k v m)"

abbreviation btree_sorted :: "('k::linorder \<times> 'v) list \<Rightarrow> bool" where
  "btree_sorted m \<equiv> sorted_wrt (<) (map fst m)"

lemma map_of_btree_insert: "map_of (btree_insert k v m) = (map_of m)(k \<mapsto> v)"
  by (induction m) (auto simp: fun_eq_iff)

lemma keys_btree_insert: "fst ` set (btree_insert k v m) = insert k (fst ` set m)"
  using dom_map_of_conv_image_fst [of "btree_insert k v m"] dom_map_of_conv_image_fst [of m]
  by (simp add: map_of_btree_insert)

lemma btree_sorted_insert: "btree_sorted m \<Longrightarrow> btree_sorted (btree_insert k v m)"
proof (induction m)
  case (Cons kv m)
  then show ?case
    using keys_btree_insert [of k v m] by (cases kv) (auto simp: image_iff)
qed simp

end
