(* ===== verification/Persistence.thy ===== *)
theory Persistence
  imports Domain_State Rust_Str
begin

text \<open>
  The durable store (\<open>spider/src/features/domain_persistence.rs\<close>).  SQLite and \<open>sqlx\<close> are
  third-party; the two tables the code creates are the fields \<open>current_rows\<close> and
  \<open>history_rows\<close>, and every SQL call the code awaits first consults \<open>db_faults\<close>, the
  errors the backend will report (an exhausted list means no further errors), so that
  every \<open>?\<close> of the source is a branch of the model.  A write transaction (\<open>BEGIN
  IMMEDIATE\<close> up to \<open>COMMIT\<close>) is one action: its table change happens at the commit, and
  an error before it rolls back.  Revisions are counters that grow by one per
  write; they are natural numbers here (a \<open>u64\<close> stored as \<open>i64\<close> in the code).
\<close>

section \<open>Errors\<close>

datatype sqlx_error =
    SqlxDatabase (sqlx_code: "string option") (is_unique_violation: bool) (sqlx_message: string)
  | SqlxOther string

datatype persistence_error =
    CurrentStateConflict "nat option"
  | HistoryAlreadyExists
  | Backend sqlx_error

text \<open>
  The message of a backend error is its \<open>Display\<close>; \<open>{actual:?}\<close> is the derived \<open>Debug\<close> of
  an \<open>Option<u64>\<close>.
\<close>

fun sqlx_display :: "sqlx_error \<Rightarrow> string" where
  "sqlx_display (SqlxDatabase code u msg) = msg"
| "sqlx_display (SqlxOther msg) = msg"

fun debug_revision :: "nat option \<Rightarrow> string" where
  "debug_revision None = ''None''"
| "debug_revision (Some r) = ''Some('' @ show_nat r @ '')''"

fun persistence_error_display :: "persistence_error \<Rightarrow> string" where
  "persistence_error_display (CurrentStateConflict actual) =
     ''current-state write rejected: expected revision did not match actual stored revision ''
     @ debug_revision actual"
| "persistence_error_display HistoryAlreadyExists =
     ''historical record already exists for this identity/revision; historical records are never replaced''"
| "persistence_error_display (Backend e) = ''persistence backend error: '' @ sqlx_display e"

text \<open>\<open>Error::source\<close>.\<close>

fun persistence_error_source :: "persistence_error \<Rightarrow> sqlx_error option" where
  "persistence_error_source (Backend e) = Some e"
| "persistence_error_source _ = None"

section \<open>The store\<close>

record hist_row =
  hr_identity :: string
  hr_revision :: nat
  hr_state :: bytes
  hr_recorded_ms :: nat

record domain_persistence =
  current_rows :: "string \<rightharpoonup> nat \<times> bytes"
  history_rows :: "hist_row list"
  db_faults :: "sqlx_error option list"

type_synonym ('e, 'a) dact = "(domain_persistence, 'e, 'a) act"

definition tables :: "domain_persistence \<Rightarrow> (string \<rightharpoonup> nat \<times> bytes) \<times> hist_row list" where
  "tables s = (current_rows s, history_rows s)"

definition empty_store :: "sqlx_error option list \<Rightarrow> domain_persistence" where
  "empty_store fs = \<lparr>current_rows = Map.empty, history_rows = [], db_faults = fs\<rparr>"

definition sql_call :: "(sqlx_error, unit) dact" where
  "sql_call s =
     (case db_faults s of
        [] \<Rightarrow> (Inr (), s)
      | None # fs \<Rightarrow> (Inr (), s\<lparr>db_faults := fs\<rparr>)
      | Some e # fs \<Rightarrow> (Inl e, s\<lparr>db_faults := fs\<rparr>))"

definition backend_call :: "(persistence_error, unit) dact" where
  "backend_call = act_map_err Backend sql_call"

section \<open>Opening\<close>

fun is_sqlite_busy :: "persistence_error \<Rightarrow> bool" where
  "is_sqlite_busy (Backend (SqlxDatabase code _ _)) = (code = Some ''5'')"
| "is_sqlite_busy _ = False"

text \<open>Connect, begin, create the two tables if absent, commit.\<close>

definition open_with_options :: "(persistence_error, unit) dact" where
  "open_with_options =
     act_bind backend_call (\<lambda>_.
     act_bind backend_call (\<lambda>_.
     act_bind backend_call (\<lambda>_.
     act_bind backend_call (\<lambda>_. backend_call))))"

definition MAX_ATTEMPTS :: nat where "MAX_ATTEMPTS = 5"

text \<open>
  The retry loop of \<open>DomainPersistence::open\<close>; the second component of a result is the
  list of back-off sleeps, in milliseconds.
\<close>

function open_loop :: "nat \<Rightarrow> nat list \<Rightarrow> domain_persistence
    \<Rightarrow> (persistence_error + unit) \<times> nat list \<times> domain_persistence" where
  "open_loop attempt slept s =
     (let attempt = attempt + 1 in
      case open_with_options s of
        (Inr _, s') \<Rightarrow> (Inr (), slept, s')
      | (Inl e, s') \<Rightarrow>
          if attempt < MAX_ATTEMPTS \<and> is_sqlite_busy e
          then open_loop attempt (slept @ [20 * attempt]) s'
          else (Inl e, slept, s'))"
  by pat_completeness auto
termination
  by (relation "measure (\<lambda>(a, _, _). MAX_ATTEMPTS - a)") auto

declare open_loop.simps [simp del]

text \<open>\<open>options\<close> is what parsing the path into connection options gave.\<close>

definition open_store ::
  "sqlx_error + unit \<Rightarrow> domain_persistence \<Rightarrow> (persistence_error + unit) \<times> nat list \<times> domain_persistence" where
  "open_store options s =
     (case options of
        Inl e \<Rightarrow> (Inl (Backend e), [], s)
      | Inr _ \<Rightarrow> open_loop 0 [] s)"

section \<open>Current state\<close>

definition read_current :: "string \<Rightarrow> (persistence_error, (nat \<times> bytes) option) dact" where
  "read_current k = act_bind backend_call (\<lambda>_ s. (Inr (current_rows s k), s))"

definition sql_update_current :: "string \<Rightarrow> nat \<Rightarrow> bytes \<Rightarrow> domain_persistence \<Rightarrow> domain_persistence" where
  "sql_update_current k r st s =
     (case current_rows s k of
        None \<Rightarrow> s
      | Some _ \<Rightarrow> s\<lparr>current_rows := (current_rows s)(k \<mapsto> (r, st))\<rparr>)"

definition sql_insert_current :: "string \<Rightarrow> nat \<Rightarrow> bytes \<Rightarrow> domain_persistence \<Rightarrow> domain_persistence" where
  "sql_insert_current k r st s = s\<lparr>current_rows := (current_rows s)(k \<mapsto> (r, st))\<rparr>"

definition write_current :: "string \<Rightarrow> nat option \<Rightarrow> bytes \<Rightarrow> (persistence_error, nat) dact" where
  "write_current k expected_revision new_state =
     act_bind backend_call (\<lambda>_.
     act_bind backend_call (\<lambda>_ s.
       let actual = map_option fst (current_rows s k) in
       if actual \<noteq> expected_revision then (Inl (CurrentStateConflict actual), s)
       else
         let new_revision = (case expected_revision of None \<Rightarrow> 0 | Some r \<Rightarrow> r) + 1 in
         act_bind backend_call (\<lambda>_.
         act_bind backend_call (\<lambda>_ s.
           (Inr new_revision,
            if expected_revision \<noteq> None then sql_update_current k new_revision new_state s
            else sql_insert_current k new_revision new_state s))) s))"

section \<open>History\<close>

definition unix_ms :: "system_time \<Rightarrow> nat" where
  "unix_ms t = (if t < 0 then 0 else nat (t div 1000000))"

definition time_of_unix_ms :: "nat \<Rightarrow> system_time" where
  "time_of_unix_ms ms = int ms * 1000000"

definition history_key :: "hist_row \<Rightarrow> string \<times> nat" where
  "history_key r = (hr_identity r, hr_revision r)"

text \<open>An \<open>INSERT\<close> into a table whose primary key is \<open>(identity, revision)\<close>.\<close>

definition sql_insert_history :: "hist_row \<Rightarrow> (sqlx_error, unit) dact" where
  "sql_insert_history row =
     act_bind sql_call (\<lambda>_ s.
       if history_key row \<in> set (map history_key (history_rows s))
       then (Inl (SqlxDatabase (Some ''1555'') True ''UNIQUE constraint failed''), s)
       else (Inr (), s\<lparr>history_rows := history_rows s @ [row]\<rparr>))"

definition append_history :: "string \<Rightarrow> nat \<Rightarrow> bytes \<Rightarrow> system_time \<Rightarrow> (persistence_error, unit) dact" where
  "append_history k revision st recorded_at s =
     (case sql_insert_history
             \<lparr>hr_identity = k, hr_revision = revision, hr_state = st,
              hr_recorded_ms = unix_ms recorded_at\<rparr> s of
        (Inr _, s') \<Rightarrow> (Inr (), s')
      | (Inl (SqlxDatabase code True msg), s') \<Rightarrow> (Inl HistoryAlreadyExists, s')
      | (Inl e, s') \<Rightarrow> (Inl (Backend e), s'))"

definition history_of :: "domain_persistence \<Rightarrow> string \<Rightarrow> (nat \<times> bytes \<times> system_time) list" where
  "history_of s k =
     map (\<lambda>r. (hr_revision r, hr_state r, time_of_unix_ms (hr_recorded_ms r)))
       (sort_key hr_revision (filter (\<lambda>r. hr_identity r = k) (history_rows s)))"

definition read_history :: "string \<Rightarrow> (persistence_error, (nat \<times> bytes \<times> system_time) list) dact" where
  "read_history k = act_bind backend_call (\<lambda>_ s. (Inr (history_of s k), s))"

section \<open>What each call does\<close>

abbreviation healthy :: "domain_persistence \<Rightarrow> bool" where
  "healthy s \<equiv> db_faults s = []"

lemma sql_call_healthy [simp]: "healthy s \<Longrightarrow> sql_call s = (Inr (), s)"
  by (simp add: sql_call_def)

lemma sql_call_tables: "sql_call s = (r, s') \<Longrightarrow> tables s' = tables s"
  by (auto simp: sql_call_def tables_def split: list.splits option.splits)

lemma sql_call_rows:
  "sql_call s = (r, s') \<Longrightarrow> current_rows s' = current_rows s \<and> history_rows s' = history_rows s"
  using sql_call_tables by (simp add: tables_def)

lemma backend_call_rows:
  "backend_call s = (r, s') \<Longrightarrow> current_rows s' = current_rows s \<and> history_rows s' = history_rows s"
  by (auto simp: backend_call_def act_map_err_def split: prod.splits dest: sql_call_rows)

lemma backend_call_healthy [simp]: "healthy s \<Longrightarrow> backend_call s = (Inr (), s)"
  by (simp add: backend_call_def act_map_err_def)

lemma backend_call_Inl: "backend_call s = (Inl e, s') \<Longrightarrow> \<exists>x. e = Backend x"
  by (auto simp: backend_call_def act_map_err_def map_err_def split: prod.splits sum.splits)

lemma frame_sql_call [frame_intro]: "frame tables sql_call"
  by (rule frameI) (use sql_call_tables in \<open>metis surjective_pairing\<close>)

lemma frame_backend_call [frame_intro]: "frame tables backend_call"
  unfolding backend_call_def by (intro frame_intro)

lemma frame_result [frame_intro]: "frame v (\<lambda>s. (f s, s))"
  by (simp add: frame_def)

lemma frame_read_current [frame_intro]: "frame tables (read_current k)"
  unfolding read_current_def by (intro frame_intro)

lemma frame_read_history [frame_intro]: "frame tables (read_history k)"
  unfolding read_history_def by (intro frame_intro)

lemma frame_open [frame_intro]: "frame tables open_with_options"
  unfolding open_with_options_def by (intro frame_intro)

lemma read_current_Inr:
  "read_current k s = (Inr x, s') \<Longrightarrow> x = current_rows s k \<and> tables s' = tables s"
  by (auto simp: read_current_def act_bind_Inr_iff tables_def dest: backend_call_rows)

lemma read_history_Inr:
  "read_history k s = (Inr x, s') \<Longrightarrow> x = history_of s k \<and> tables s' = tables s"
  by (auto simp: read_history_def act_bind_Inr_iff tables_def history_of_def dest: backend_call_rows)

lemma read_current_healthy [simp]: "healthy s \<Longrightarrow> read_current k s = (Inr (current_rows s k), s)"
  by (simp add: read_current_def act_bind_def)

lemma read_history_healthy [simp]: "healthy s \<Longrightarrow> read_history k s = (Inr (history_of s k), s)"
  by (simp add: read_history_def act_bind_def)

definition next_revision :: "nat option \<Rightarrow> nat" where
  "next_revision e = (case e of None \<Rightarrow> 0 | Some r \<Rightarrow> r) + 1"

lemma write_current_Inr:
  assumes "write_current k e st s = (Inr r, s')"
  shows "map_option fst (current_rows s k) = e" "r = next_revision e"
    "current_rows s' = (current_rows s)(k \<mapsto> (r, st))" "history_rows s' = history_rows s"
  using assms
  by (auto simp: write_current_def act_bind_Inr_iff next_revision_def Let_def sql_update_current_def
      sql_insert_current_def split: if_splits option.splits dest!: backend_call_rows)

lemma write_current_Inl: "write_current k e st s = (Inl err, s') \<Longrightarrow> tables s' = tables s"
  by (auto simp: write_current_def act_bind_def tables_def Let_def split: prod.splits sum.splits if_splits
      dest!: backend_call_rows)

lemma write_current_conflict: 
  assumes "write_current k e st s = (Inl (CurrentStateConflict actual), s')"
  shows "actual = map_option fst (current_rows s k) \<and> actual \<noteq> e"
proof -
  have nb: "backend_call t \<noteq> (Inl (CurrentStateConflict a), t')" for t a t'
    using backend_call_Inl by blast
  from assms obtain s1 s2 where "backend_call s = (Inr (), s1)" "backend_call s1 = (Inr (), s2)"
    and "actual = map_option fst (current_rows s2 k)" "actual \<noteq> e"
    unfolding write_current_def act_bind_Inl_iff Let_def
    by (auto simp: nb act_bind_Inl_iff split: if_splits)
  then show ?thesis by (auto dest!: backend_call_rows)
qed
lemma write_current_healthy:
  "healthy s \<Longrightarrow> write_current k e st s =
     (if map_option fst (current_rows s k) = e
      then (Inr (next_revision e), s\<lparr>current_rows := (current_rows s)(k \<mapsto> (next_revision e, st))\<rparr>)
      else (Inl (CurrentStateConflict (map_option fst (current_rows s k))), s))"
  by (auto simp: write_current_def act_bind_def Let_def next_revision_def sql_update_current_def
      sql_insert_current_def split: option.splits)

lemma append_history_Inr:
  assumes "append_history k r st t s = (Inr u, s')"
  shows "(k, r) \<notin> set (map history_key (history_rows s))"
    "history_rows s' = history_rows s @
       [\<lparr>hr_identity = k, hr_revision = r, hr_state = st, hr_recorded_ms = unix_ms t\<rparr>]"
    "current_rows s' = current_rows s"
  using assms
  by (auto simp: append_history_def sql_insert_history_def act_bind_def history_key_def
      split: prod.splits sum.splits if_splits sqlx_error.splits bool.splits dest!: sql_call_rows)

lemma append_history_Inl: "append_history k r st t s = (Inl e, s') \<Longrightarrow> tables s' = tables s"
  by (auto simp: append_history_def sql_insert_history_def act_bind_def tables_def
      split: prod.splits sum.splits if_splits sqlx_error.splits bool.splits dest!: sql_call_rows)

lemma append_history_healthy:
  "healthy s \<Longrightarrow> append_history k r st t s =
     (if (k, r) \<in> set (map history_key (history_rows s)) then (Inl HistoryAlreadyExists, s)
      else (Inr (), s\<lparr>history_rows := history_rows s @
        [\<lparr>hr_identity = k, hr_revision = r, hr_state = st, hr_recorded_ms = unix_ms t\<rparr>]\<rparr>))"
  by (auto simp: append_history_def sql_insert_history_def act_bind_def history_key_def)

section \<open>The two contracts of the store\<close>

text \<open>
  What a client may rely on: a write-once table (an appended record is never replaced),
  and compare-and-swap cells (a write succeeds only from the expected revision, which
  grows).  The clients' lemmas are proved from the contract and interpreted below on
  the model's own \<open>append_history\<close> and \<open>write_current\<close>.
\<close>

locale write_once =
  fixes append :: "'k \<Rightarrow> 'v \<Rightarrow> ('s, 'e, unit) act"
    and look :: "'s \<Rightarrow> 'k \<Rightarrow> 'v option"
  assumes append_ok:
      "append k v s = (Inr u, s') \<Longrightarrow> look s k = None \<and> look s' = (look s)(k \<mapsto> v)"
    and append_failed: "append k v s = (Inl e, s') \<Longrightarrow> look s' = look s"
begin

lemma recorded_stays: "look s k = Some v \<Longrightarrow> append k' v' s = (r, s') \<Longrightarrow> look s' k = Some v"
proof (cases r)
  case (Inr u)
  assume "look s k = Some v" "append k' v' s = (r, s')"
  with Inr append_ok [of k' v' s u s'] show ?thesis by auto
qed (use append_failed in auto)

lemma second_append_fails:
  assumes "append k v s = (Inr u, s1)" "append k w s1 = (r, s2)"
  shows "\<exists>e. r = Inl e"
  using append_ok [OF assms(1)] append_ok [of k w s1 _ s2] assms(2) by (cases r) auto

end

locale cas_cells =
  fixes cas :: "'k \<Rightarrow> nat option \<Rightarrow> 'v \<Rightarrow> ('s, 'e, nat) act"
    and cell :: "'s \<Rightarrow> 'k \<Rightarrow> (nat \<times> 'v) option"
  assumes write_ok:
      "cas k e v s = (Inr r, s') \<Longrightarrow>
        map_option fst (cell s k) = e \<and> r = next_revision e \<and> cell s' = (cell s)(k \<mapsto> (r, v))"
    and write_failed: "cas k e v s = (Inl err, s') \<Longrightarrow> cell s' = cell s"
begin

definition revision :: "'s \<Rightarrow> 'k \<Rightarrow> nat" where
  "revision s k = (case cell s k of None \<Rightarrow> 0 | Some (r, _) \<Rightarrow> r)"

lemma write_revision:
  assumes "cas k e v s = (r, s')"
  shows "revision s k' \<le> revision s' k'" "r = Inr n \<Longrightarrow> revision s k < revision s' k"
  using write_ok [of k e v s _ s'] write_failed [of k e v s _ s'] assms
  by (cases r; cases "cell s k"; force simp: revision_def next_revision_def split: option.splits)+

lemma stale_write_fails:
  assumes "cas k (Some r) v s = (res, s')" "r < revision s k"
  shows "\<exists>err. res = Inl err"
  using write_ok [of k "Some r" v s _ s'] assms by (cases res) (auto simp: revision_def)

lemma second_first_write_fails:
  assumes "cas k None v s = (Inr r, s1)" "cas k None w s1 = (res, s2)"
  shows "\<exists>err. res = Inl err"
  using write_ok [OF assms(1)] write_ok [of k None w s1 _ s2] assms(2) by (cases res) auto

end

definition history_at :: "domain_persistence \<Rightarrow> string \<times> nat \<Rightarrow> (bytes \<times> nat) option" where
  "history_at s =
     map_of (map (\<lambda>row. (history_key row, (hr_state row, hr_recorded_ms row))) (history_rows s))"

definition append_record :: "string \<times> nat \<Rightarrow> bytes \<times> nat \<Rightarrow> (persistence_error, unit) dact" where
  "append_record kr v = append_history (fst kr) (snd kr) (fst v) (time_of_unix_ms (snd v))"

lemma unix_ms_inverse [simp]: "unix_ms (time_of_unix_ms ms) = ms"
  by (simp add: unix_ms_def time_of_unix_ms_def)

lemma history_at_None: "history_at s kr = None \<longleftrightarrow> kr \<notin> set (map history_key (history_rows s))"
  by (auto simp: history_at_def map_of_eq_None_iff image_image)

lemma map_of_snoc_fresh:
  "k \<notin> fst ` set xs \<Longrightarrow> map_of (xs @ [(k, v)]) = (map_of xs)(k \<mapsto> v)"
  by (rule ext) (auto simp: map_add_def map_of_eq_None_iff [THEN iffD2] split: option.splits)

lemma append_history_at:
  assumes "append_history k r st t s = (Inr u, s')"
  shows "history_at s (k, r) = None" "history_at s' = (history_at s)((k, r) \<mapsto> (st, unix_ms t))"
proof -
  note ap = append_history_Inr [OF assms]
  show fresh: "history_at s (k, r) = None" unfolding history_at_None by (rule ap(1))
  then have "(k, r) \<notin> fst ` set (map (\<lambda>row. (history_key row, (hr_state row, hr_recorded_ms row)))
      (history_rows s))"
    by (auto simp: history_at_None)
  then show "history_at s' = (history_at s)((k, r) \<mapsto> (st, unix_ms t))"
    by (simp add: history_at_def ap(2) map_of_snoc_fresh history_key_def del: map_of_append)
qed

interpretation history: write_once append_record history_at
proof
  fix k v s s' and u :: unit
  assume "append_record k v s = (Inr u, s')"
  then show "history_at s k = None \<and> history_at s' = (history_at s)(k \<mapsto> v)"
    using append_history_at by (cases k; cases v) (fastforce simp: append_record_def)
next
  fix k v s e s'
  assume "append_record k v s = (Inl e, s')"
  then show "history_at s' = history_at s"
    by (auto simp: append_record_def history_at_def tables_def dest: append_history_Inl)
qed

interpretation current: cas_cells write_current current_rows
  by unfold_locales (auto dest: write_current_Inr write_current_Inl simp: tables_def)

section \<open>Invariants\<close>

text \<open>No two historical records share identity and revision.\<close>

definition hist_distinct :: "domain_persistence \<Rightarrow> bool" where
  "hist_distinct s \<longleftrightarrow> distinct (map history_key (history_rows s))"

lemma keeps_tables_frame: "frame tables m \<Longrightarrow> keeps (\<lambda>s. P (tables s)) m"
  by (simp add: frame_def keeps_def)

lemma keeps_hist_frame: "frame tables m \<Longrightarrow> keeps hist_distinct m"
  unfolding hist_distinct_def using keeps_tables_frame [of m "\<lambda>t. distinct (map history_key (snd t))"]
  by (simp add: tables_def)

lemma keeps_hist_write [triple_intro]: "keeps hist_distinct (write_current k e st)"
proof -
  have "hist_distinct s'" if "hist_distinct s" "write_current k e st s = (r, s')" for s r s'
    using that write_current_Inr(4) [of k e st s _ s'] write_current_Inl [of k e st s _ s']
    by (cases r) (auto simp: hist_distinct_def tables_def)
  then show ?thesis unfolding keeps_def by (metis surjective_pairing)
qed

lemma keeps_hist_append [triple_intro]: "keeps hist_distinct (append_history k r st t)"
proof -
  have "hist_distinct s'" if "hist_distinct s" "append_history k r st t s = (x, s')" for s x s'
    using that append_history_Inr [of k r st t s _ s'] append_history_Inl [of k r st t s _ s']
    by (cases x) (auto simp: hist_distinct_def tables_def history_key_def)
  then show ?thesis unfolding keeps_def by (metis surjective_pairing)
qed

text \<open>The history only grows at its end.\<close>

lemma keeps_prefix_write [triple_intro]: "keeps (\<lambda>s. prefix h (history_rows s)) (write_current k e st)"
proof -
  have "history_rows s' = history_rows s" if "write_current k e st s = (r, s')" for s r s'
    using that write_current_Inr(4) [of k e st s _ s'] write_current_Inl [of k e st s _ s']
    by (cases r) (auto simp: tables_def)
  then show ?thesis unfolding keeps_def by (metis surjective_pairing)
qed

lemma keeps_prefix_append [triple_intro]: "keeps (\<lambda>s. prefix h (history_rows s)) (append_history k r st t)"
proof -
  have "prefix (history_rows s) (history_rows s')" if "append_history k r st t s = (x, s')" for s x s'
    using that append_history_Inr [of k r st t s _ s'] append_history_Inl [of k r st t s _ s']
    by (cases x) (auto simp: tables_def)
  then show ?thesis unfolding keeps_def by (metis prefix_order.trans surjective_pairing)
qed

lemma keeps_prefix_frame: "frame tables m \<Longrightarrow> keeps (\<lambda>s. prefix h (history_rows s)) m"
  using keeps_tables_frame [of m "\<lambda>t. prefix h (snd t)"] by (simp add: tables_def)

lemmas keeps_read [triple_intro] =
  keeps_hist_frame [OF frame_read_current] keeps_hist_frame [OF frame_read_history]
  keeps_prefix_frame [OF frame_read_current] keeps_prefix_frame [OF frame_read_history]

section \<open>Reading a key's history\<close>

lemma insort_key_snoc: "f a \<le> f x \<Longrightarrow> insort_key f a (ys @ [x]) = insort_key f a ys @ [x]"
  by (induction ys) auto

lemma sort_key_snoc: "\<forall>y \<in> set xs. f y \<le> f x \<Longrightarrow> sort_key f (xs @ [x]) = sort_key f xs @ [x]"
  by (induction xs) (auto simp: insort_key_snoc)

lemma history_of_other:
  "append_history k r st t s = (Inr u, s') \<Longrightarrow> k' \<noteq> k \<Longrightarrow> history_of s' k' = history_of s k'"
  by (auto dest!: append_history_Inr(2) simp: history_of_def)

lemma history_of_snoc:
  assumes "history_rows s' = history_rows s @ [row]" "hr_identity row = k"
    and "\<forall>x \<in> set (history_of s k). fst x \<le> hr_revision row"
  shows "history_of s' k =
    history_of s k @ [(hr_revision row, hr_state row, time_of_unix_ms (hr_recorded_ms row))]"
proof -
  let ?f = "filter (\<lambda>row. hr_identity row = k) (history_rows s)"
  have "\<forall>y \<in> set ?f. hr_revision y \<le> hr_revision row" using assms(3) by (auto simp: history_of_def)
  then show ?thesis using assms(1,2) by (simp add: history_of_def sort_key_snoc)
qed

lemma history_of_append:
  "append_history k r st t s = (Inr u, s') \<Longrightarrow> \<forall>x \<in> set (history_of s k). fst x \<le> r \<Longrightarrow>
    history_of s' k = history_of s k @ [(r, st, time_of_unix_ms (unix_ms t))]"
  by (drule append_history_Inr(2), drule history_of_snoc) auto

lemma history_of_tables: "tables s' = tables s \<Longrightarrow> history_of s' k = history_of s k"
  by (simp add: history_of_def tables_def)

lemma history_of_rows: "history_rows s' = history_rows s \<Longrightarrow> history_of s' k = history_of s k"
  by (simp add: history_of_def)

lemma history_of_Nil: "history_of s k = [] \<longleftrightarrow> k \<notin> hr_identity ` set (history_rows s)"
  unfolding history_of_def map_is_Nil_conv length_0_conv [symmetric, of "sort_key _ _"] length_sort
  by (auto simp: filter_empty_conv)

end
