(* ===== verification/Durable.thy ===== *)
theory Durable
  imports Persistence
begin

text \<open>
  The two patterns by which every durable component uses the store, written once: a
  write-once record read back as the first entry of its key's history, and an entity
  with a current state that transitions replace by compare-and-swap before the
  superseded state is appended to its history.  The watch, session, schedule, change
  and evidence components are instances with their own keys, codecs and error types;
  their lemmas rest on those of this file.
\<close>

section \<open>Write-once records\<close>

definition read_first_record ::
  "'a codec \<Rightarrow> (persistence_error \<Rightarrow> 'e) \<Rightarrow> (string \<Rightarrow> 'e) \<Rightarrow> string \<Rightarrow> ('e, 'a option) dact" where
  "read_first_record c perr serr key =
     act_bind (act_map_err perr (read_history key)) (\<lambda>history.
       case history of
         [] \<Rightarrow> act_ok None
       | (revision, payload, recorded_at) # _ \<Rightarrow>
           act_bind (act_lift (map_err serr (de c payload))) (\<lambda>x. act_ok (Some x)))"

definition write_record ::
  "'a codec \<Rightarrow> (persistence_error \<Rightarrow> 'e) \<Rightarrow> (string \<Rightarrow> 'e) \<Rightarrow> string \<Rightarrow> 'a \<Rightarrow> system_time \<Rightarrow> ('e, unit) dact" where
  "write_record c perr serr key x now =
     act_bind (act_lift (map_err serr (ser c x))) (\<lambda>payload.
       act_map_err perr (append_history key 1 payload now))"

text \<open>
  A content-addressed record: an entry that is already there can only be the same fact, so
  \<open>HistoryAlreadyExists\<close> counts as success.
\<close>

definition append_once ::
  "(persistence_error \<Rightarrow> 'e) \<Rightarrow> string \<Rightarrow> bytes \<Rightarrow> system_time \<Rightarrow> 'a \<Rightarrow> ('e, 'a) dact" where
  "append_once perr key payload now x s =
     (case append_history key 1 payload now s of
        (Inr _, s') \<Rightarrow> (Inr x, s')
      | (Inl HistoryAlreadyExists, s') \<Rightarrow> (Inr x, s')
      | (Inl other, s') \<Rightarrow> (Inl (perr other), s'))"

lemma append_once_cases:
  assumes "append_once perr key payload now x s = (r, s')"
  obtains "r = Inr x" "append_history key 1 payload now s = (Inr (), s')"
    | "r = Inr x" "append_history key 1 payload now s = (Inl HistoryAlreadyExists, s')" "tables s' = tables s"
    | e where "r = Inl (perr e)" "append_history key 1 payload now s = (Inl e, s')" "tables s' = tables s"
  using assms append_history_Inl [of key 1 payload now s]
  by (auto simp: append_once_def split: prod.splits sum.splits persistence_error.splits)

lemma keeps_append_once: "keeps I (append_history key 1 payload now) \<Longrightarrow> keeps I (append_once perr key payload now x)"
  unfolding keeps_def append_once_def
  by (auto split: prod.splits sum.splits persistence_error.splits)

lemma frame_append_once: "frame v (append_history key 1 payload now) \<Longrightarrow> frame v (append_once perr key payload now x)"
  unfolding frame_def append_once_def
  by (auto split: prod.splits sum.splits persistence_error.splits) (metis snd_conv)+

text \<open>Revisions start at one, so the record a key was first written with is its first entry.\<close>

definition hist_positive :: "domain_persistence \<Rightarrow> bool" where
  "hist_positive s \<longleftrightarrow> (\<forall>row \<in> set (history_rows s). 0 < hr_revision row)"

definition store_wf :: "domain_persistence \<Rightarrow> bool" where
  "store_wf s \<longleftrightarrow> hist_distinct s \<and> hist_positive s"

lemma store_wf_empty [simp]: "store_wf (empty_store fs)"
  by (simp add: store_wf_def hist_distinct_def hist_positive_def empty_store_def)

lemma keeps_wf_frame: "frame tables m \<Longrightarrow> keeps store_wf m"
  unfolding store_wf_def hist_distinct_def hist_positive_def
  using keeps_tables_frame [of m "\<lambda>t. distinct (map history_key (snd t)) \<and> (\<forall>row \<in> set (snd t). 0 < hr_revision row)"]
  by (simp add: tables_def)

lemma keeps_wf_write [triple_intro]: "keeps store_wf (write_current k e st)"
proof -
  have "history_rows s' = history_rows s" if "write_current k e st s = (r, s')" for s r s'
    using that write_current_Inr(4) [of k e st s _ s'] write_current_Inl [of k e st s _ s']
    by (cases r) (auto simp: tables_def)
  then show ?thesis
    unfolding keeps_def store_wf_def hist_distinct_def hist_positive_def by (metis surjective_pairing)
qed

lemma keeps_wf_append [triple_intro]: "0 < r \<Longrightarrow> keeps store_wf (append_history k r st t)"
proof -
  assume r: "0 < r"
  have "hist_positive s'" if "hist_positive s" "append_history k r st t s = (x, s')" for s x s'
    using that r append_history_Inr [of k r st t s _ s'] append_history_Inl [of k r st t s _ s']
    by (cases x) (auto simp: hist_positive_def tables_def)
  then show ?thesis using keeps_hist_append [of k r st t]
    unfolding keeps_def store_wf_def by (metis surjective_pairing)
qed

lemmas keeps_wf_reads [triple_intro] =
  keeps_wf_frame [OF frame_read_current] keeps_wf_frame [OF frame_read_history]

lemma sorted_history: "sorted (map fst (history_of s k))"
  by (simp add: history_of_def comp_def)

lemma in_history_iff:
  "(r, p, t) \<in> set (history_of s k) \<longleftrightarrow>
     (\<exists>row \<in> set (history_rows s). hr_identity row = k \<and> hr_revision row = r \<and> hr_state row = p \<and>
        t = time_of_unix_ms (hr_recorded_ms row))"
  by (auto simp: history_of_def)

lemma hist_row_eq_iff:
  "row = \<lparr>hr_identity = k, hr_revision = r, hr_state = p, hr_recorded_ms = ms\<rparr> \<longleftrightarrow>
     hr_identity row = k \<and> hr_revision row = r \<and> hr_state row = p \<and> hr_recorded_ms row = ms"
  by (cases row) auto

lemma history_at_row:
  "hist_distinct s \<Longrightarrow> history_at s (k, r) = Some (p, ms) \<longleftrightarrow>
     \<lparr>hr_identity = k, hr_revision = r, hr_state = p, hr_recorded_ms = ms\<rparr> \<in> set (history_rows s)"
proof -
  let ?m = "map (\<lambda>row. (history_key row, (hr_state row, hr_recorded_ms row))) (history_rows s)"
  assume "hist_distinct s"
  then have "distinct (map fst ?m)" by (simp add: comp_def hist_distinct_def)
  then have "history_at s (k, r) = Some (p, ms) \<longleftrightarrow> ((k, r), (p, ms)) \<in> set ?m"
    by (simp add: history_at_def)
  also have "\<dots> \<longleftrightarrow> (\<exists>row \<in> set (history_rows s). hr_identity row = k \<and> hr_revision row = r \<and>
      hr_state row = p \<and> hr_recorded_ms row = ms)"
    by (auto simp: history_key_def image_iff)
  also have "\<dots> \<longleftrightarrow> (\<exists>row \<in> set (history_rows s). row =
      \<lparr>hr_identity = k, hr_revision = r, hr_state = p, hr_recorded_ms = ms\<rparr>)"
    unfolding hist_row_eq_iff ..
  finally show ?thesis by blast
qed

lemma first_record:
  assumes wf: "store_wf s" and at: "history_at s (k, 1) = Some (p, ms)"
  shows "\<exists>rest. history_of s k = (1, p, time_of_unix_ms ms) # rest"
proof -
  let ?row = "\<lparr>hr_identity = k, hr_revision = 1, hr_state = p, hr_recorded_ms = ms\<rparr>"
  have row: "?row \<in> set (history_rows s)"
    using assms history_at_row by (simp add: store_wf_def)
  then have mem: "(1, p, time_of_unix_ms ms) \<in> set (history_of s k)"
    unfolding in_history_iff by (intro bexI [of _ ?row]) simp_all
  then obtain r q t rest where hist: "history_of s k = (r, q, t) # rest"
    by (cases "history_of s k") auto
  have "r \<le> 1" using mem sorted_history [of s k] hist by auto
  from hist have "(r, q, t) \<in> set (history_of s k)" by simp
  then obtain row' where row': "row' \<in> set (history_rows s)" "hr_identity row' = k"
    "hr_revision row' = r" "hr_state row' = q" "t = time_of_unix_ms (hr_recorded_ms row')"
    unfolding in_history_iff by blast
  have "r = 1" using row' \<open>r \<le> 1\<close> wf by (force simp: store_wf_def hist_positive_def)
  then have "history_key row' = history_key ?row" using row' by (simp add: history_key_def)
  then have "row' = ?row"
    using wf row row'(1) by (auto simp: store_wf_def hist_distinct_def distinct_map dest: inj_onD)
  then show ?thesis using hist row' by auto
qed

lemma read_first_recorded:
  assumes "store_wf s" "healthy s" "history_at s (k, 1) = Some (p, ms)"
  shows "read_first_record c perr serr k s = (map_err serr (map_sum id Some (de c p)), s)"
  using first_record [OF assms(1,3)] assms(2)
  by (cases "de c p") (auto simp: read_first_record_def act_bind_def act_map_err_def)

lemma read_first_none:
  assumes "healthy s" "history_of s k = []"
  shows "read_first_record c perr serr k s = (Inr None, s)"
  using assms by (simp add: read_first_record_def act_bind_def act_map_err_def)

lemma frame_read_first [frame_intro]: "frame tables (read_first_record c perr serr k)"
  unfolding read_first_record_def by (intro frame_intro)

lemma write_record_Inr:
  assumes "write_record c perr serr k x now s = (Inr u, s')"
  shows "\<exists>p. ser c x = Inr p \<and> append_history k 1 p now s = (Inr u, s')"
  using assms by (auto simp: write_record_def act_bind_lift act_map_err_Inr_iff split: sum.splits)

lemma write_record_Inl: "write_record c perr serr k x now s = (Inl e, s') \<Longrightarrow> tables s' = tables s"
  by (auto simp: write_record_def act_bind_lift act_map_err_Inl_iff map_err_def
      dest: append_history_Inl split: sum.splits)

lemma keeps_wf_write_record [triple_intro]: "keeps store_wf (write_record c perr serr k x now)"
  unfolding write_record_def by (intro triple_intro) simp

text \<open>What was written is what is read back, at once and after any further well-formed activity
  that keeps the recorded row.\<close>

lemma write_then_read:
  assumes "codec_ok c" "store_wf s" "write_record c perr serr k x now s = (Inr u, s')"
    and "store_wf t" "healthy t" "prefix (history_rows s') (history_rows t)"
  shows "read_first_record c perr' serr' k t = (Inr (Some x), t)"
proof -
  obtain p where p: "ser c x = Inr p" "append_history k 1 p now s = (Inr u, s')"
    using write_record_Inr [OF assms(3)] by blast
  let ?row = "\<lparr>hr_identity = k, hr_revision = 1, hr_state = p, hr_recorded_ms = unix_ms now\<rparr>"
  have "?row \<in> set (history_rows s')"
    using append_history_Inr(2) [OF p(2)] by simp
  then have "?row \<in> set (history_rows t)" using assms(6) by (auto dest: set_mono_prefix)
  then have "history_at t (k, 1) = Some (p, unix_ms now)"
    using assms(4) history_at_row by (simp add: store_wf_def)
  from read_first_recorded [OF assms(4,5) this, of c perr' serr'] show ?thesis
    using codec_okD [OF assms(1) p(1)] by simp
qed

section \<open>Entities with a current state\<close>

definition read_current_as ::
  "'a codec \<Rightarrow> (persistence_error \<Rightarrow> 'e) \<Rightarrow> (string \<Rightarrow> 'e) \<Rightarrow> string \<Rightarrow> ('e, (nat \<times> 'a) option) dact" where
  "read_current_as c perr serr key =
     act_bind (act_map_err perr (read_current key)) (\<lambda>row.
       case row of
         None \<Rightarrow> act_ok None
       | Some (revision, payload) \<Rightarrow>
           act_bind (act_lift (map_err serr (de c payload))) (\<lambda>state. act_ok (Some (revision, state))))"

record ('e, 'r) transition_errors =
  te_not_found :: 'e
  te_rejected :: "'r \<Rightarrow> 'e"
  te_concurrent :: 'e
  te_persistence :: "persistence_error \<Rightarrow> 'e"
  te_serialization :: "string \<Rightarrow> 'e"

fun conflict_or :: "('e, 'r) transition_errors \<Rightarrow> persistence_error \<Rightarrow> 'e" where
  "conflict_or errs (CurrentStateConflict _) = te_concurrent errs"
| "conflict_or errs other = te_persistence errs other"

text \<open>
  Read the current state, apply the transition, compare-and-swap the new state in, append
  the superseded one at the revision it had.
\<close>

definition apply_durable ::
  "'st codec \<Rightarrow> ('e, 'r) transition_errors \<Rightarrow> string \<Rightarrow> 'id \<Rightarrow> system_time
     \<Rightarrow> ('st \<Rightarrow> 'r + 'st) \<Rightarrow> ('e, 'st) dact" where
  "apply_durable c errs key i now transition =
     act_bind (read_current_as c (te_persistence errs) (te_serialization errs) key) (\<lambda>found.
     act_bind (act_lift (ok_or (te_not_found errs) found)) (\<lambda>(revision, current_state).
     case cs_apply transition now (cs_new i current_state) of
       Inl (unchanged, rejection) \<Rightarrow> act_err (te_rejected errs rejection)
     | Inr a \<Rightarrow>
         act_bind (act_lift (map_err (te_serialization errs) (ser c (cs_state (ap_current a))))) (\<lambda>new_payload.
         act_bind (act_map_err (conflict_or errs) (write_current key (Some revision) new_payload)) (\<lambda>_.
         act_bind (act_lift (map_err (te_serialization errs) (ser c (he_state (ap_superseded a))))) (\<lambda>superseded_payload.
         act_bind (act_map_err (te_persistence errs)
             (append_history key revision superseded_payload (he_recorded_at (ap_superseded a)))) (\<lambda>_.
         act_ok (snd (cs_into_parts (ap_current a)))))))))"

lemma frame_read_current_as [frame_intro]: "frame tables (read_current_as c perr serr k)"
  unfolding read_current_as_def by (intro frame_intro)

lemma read_current_as_Inr:
  assumes "read_current_as c perr serr k s = (Inr x, s')"
  shows "tables s' = tables s"
    "x = None \<and> current_rows s k = None \<or>
     (\<exists>r p st. x = Some (r, st) \<and> current_rows s k = Some (r, p) \<and> de c p = Inr st)"
proof -
  show "tables s' = tables s" by (rule frameD [OF frame_read_current_as assms])
  show "x = None \<and> current_rows s k = None \<or>
     (\<exists>r p st. x = Some (r, st) \<and> current_rows s k = Some (r, p) \<and> de c p = Inr st)"
    using assms
    by (auto simp: read_current_as_def act_bind_Inr_iff act_map_err_Inr_iff split: option.splits
        dest!: read_current_Inr)
qed

lemma read_current_as_healthy:
  assumes "healthy s"
  shows "read_current_as c perr serr k s =
    (case current_rows s k of
       None \<Rightarrow> (Inr None, s)
     | Some (r, p) \<Rightarrow> (case de c p of Inl e \<Rightarrow> (Inl (serr e), s) | Inr st \<Rightarrow> (Inr (Some (r, st)), s)))"
  using assms
  by (auto simp: read_current_as_def act_bind_def act_map_err_def split: option.splits sum.splits)

text \<open>An accepted transition: what was read, and exactly what is stored afterwards.\<close>

lemma apply_durable_Inr:
  assumes "apply_durable c errs k i now tr s = (Inr st', s')"
  obtains r p st np sp where
    "current_rows s k = Some (r, p)" "de c p = Inr st" "tr st = Inr st'"
    "ser c st' = Inr np" "ser c st = Inr sp"
    "current_rows s' = (current_rows s)(k \<mapsto> (r + 1, np))"
    "(k, r) \<notin> set (map history_key (history_rows s))"
    "history_rows s' = history_rows s @
       [\<lparr>hr_identity = k, hr_revision = r, hr_state = sp, hr_recorded_ms = unix_ms now\<rparr>]"
    "\<And>k'. k' \<noteq> k \<Longrightarrow> history_of s' k' = history_of s k'"
proof -
  from assms obtain x s1 where rd:
    "read_current_as c (te_persistence errs) (te_serialization errs) k s = (Inr x, s1)"
    unfolding apply_durable_def act_bind_Inr_iff by blast
  note t1 = read_current_as_Inr(1) [OF rd]
  from assms rd have "x \<noteq> None"
    by (auto simp: apply_durable_def act_bind_Inr_iff)
  then obtain r p st where x: "x = Some (r, st)" "current_rows s k = Some (r, p)" "de c p = Inr st"
    using read_current_as_Inr(2) [OF rd] by blast
  from assms rd x(1) obtain np sp s2 u v s3 where
    "tr st = Inr st'" and "ser c st' = Inr np" and "ser c st = Inr sp"
    and w: "write_current k (Some r) np s1 = (Inr u, s2)"
    and ap: "append_history k r sp now s2 = (Inr v, s')"
    by (auto simp: apply_durable_def act_bind_Inr_iff act_map_err_Inr_iff cs_apply_def cs_new_def
        cs_into_parts_def split: sum.splits)
  note wr = write_current_Inr [OF w]
  have rows: "current_rows s1 = current_rows s" "history_rows s1 = history_rows s"
    using t1 by (simp_all add: tables_def)
  have other: "history_of s' k' = history_of s k'" if "k' \<noteq> k" for k'
    using history_of_other [OF ap that] history_of_rows [of s2 s k'] wr(4) rows by simp
  show thesis
    by (rule that) (use x \<open>tr st = Inr st'\<close> \<open>ser c st' = Inr np\<close> \<open>ser c st = Inr sp\<close> wr rows
        append_history_Inr [OF ap] other in \<open>simp_all add: next_revision_def\<close>)
qed

text \<open>
  A rejected transition, a lost race and a failed read change nothing.  Only a failure after
  the compare-and-swap leaves a trace: the new state is current, its predecessor is not
  in the history.
\<close>

lemma apply_durable_Inl:
  assumes "apply_durable c errs k i now tr s = (Inl e, s')"
  shows "tables s' = tables s \<or>
    (\<exists>r p st st' np. current_rows s k = Some (r, p) \<and> de c p = Inr st \<and> tr st = Inr st' \<and>
       ser c st' = Inr np \<and> current_rows s' = (current_rows s)(k \<mapsto> (r + 1, np)) \<and>
       history_rows s' = history_rows s \<and>
       (\<exists>x. e = te_persistence errs x \<or> (\<exists>m. e = te_serialization errs m)))"
proof (cases "\<exists>x s1. read_current_as c (te_persistence errs) (te_serialization errs) k s = (Inr x, s1)")
  case False
  with assms have "read_current_as c (te_persistence errs) (te_serialization errs) k s = (Inl e, s')"
    unfolding apply_durable_def act_bind_Inl_iff by blast
  then show ?thesis using frameD [OF frame_read_current_as] by blast
next
  case True
  then obtain x s1 where rd:
    "read_current_as c (te_persistence errs) (te_serialization errs) k s = (Inr x, s1)" by blast
  note t1 = read_current_as_Inr(1) [OF rd]
  show ?thesis
  proof (cases x)
    case None
    with assms rd t1 show ?thesis by (simp add: apply_durable_def act_bind_Inr [of "read_current_as _ _ _ _" s, OF rd] act_bind_lift)
  next
    case (Some rst)
    then obtain r p st where x: "x = Some (r, st)" "current_rows s k = Some (r, p)" "de c p = Inr st"
      using read_current_as_Inr(2) [OF rd] by blast
    have rest: "(case cs_apply tr now (cs_new i st) of
       Inl (unchanged, rejection) \<Rightarrow> act_err (te_rejected errs rejection)
     | Inr a \<Rightarrow>
         act_bind (act_lift (map_err (te_serialization errs) (ser c (cs_state (ap_current a))))) (\<lambda>new_payload.
         act_bind (act_map_err (conflict_or errs) (write_current k (Some r) new_payload)) (\<lambda>_.
         act_bind (act_lift (map_err (te_serialization errs) (ser c (he_state (ap_superseded a))))) (\<lambda>superseded_payload.
         act_bind (act_map_err (te_persistence errs)
             (append_history k r superseded_payload (he_recorded_at (ap_superseded a)))) (\<lambda>_.
         act_ok (snd (cs_into_parts (ap_current a)))))))) s1 = (Inl e, s')"
      using assms by (simp add: apply_durable_def act_bind_Inr [of "read_current_as _ _ _ _" s, OF rd] act_bind_lift x(1))
    show ?thesis
    proof (cases "tr st")
      case (Inl rej)
      with rest t1 show ?thesis by (simp add: cs_apply_def cs_new_def)
    next
      case (Inr st')
      show ?thesis
      proof (cases "ser c st'")
        case (Inl m)
        with rest t1 Inr show ?thesis by (simp add: cs_apply_def cs_new_def act_bind_lift)
      next
        case (Inr np)
        note np = this
        obtain w s2 where w: "write_current k (Some r) np s1 = (w, s2)" by fastforce
        show ?thesis
        proof (cases w)
          case (Inl err)
          with w rest t1 np \<open>tr st = Inr st'\<close> have "s' = s2"
            by (simp add: cs_apply_def cs_new_def act_bind_lift act_bind_def act_map_err_def)
          with write_current_Inl w Inl t1 show ?thesis by auto
        next
          case (Inr u)
          note wr = write_current_Inr [OF w [unfolded Inr]]
          have tail: "act_bind (act_lift (map_err (te_serialization errs) (ser c st))) (\<lambda>sp.
              act_bind (act_map_err (te_persistence errs) (append_history k r sp now)) (\<lambda>_. act_ok st'))
              s2 = (Inl e, s')"
            using rest np \<open>tr st = Inr st'\<close> w Inr
            by (simp add: cs_apply_def cs_new_def act_bind_lift act_bind_def act_map_err_def
                cs_into_parts_def)
          then have "tables s' = tables s2 \<and>
             (\<exists>x. e = te_persistence errs x \<or> (\<exists>m. e = te_serialization errs m))"
            by (auto simp: act_bind_Inl_iff act_map_err_Inl_iff map_err_def split: sum.splits
                dest: append_history_Inl)
          with wr t1 x np \<open>tr st = Inr st'\<close> show ?thesis
            by (auto simp: tables_def next_revision_def)
        qed
      qed
    qed
  qed
qed

lemma keeps_wf_apply:
  assumes pos: "\<And>r p. current_rows s k = Some (r, p) \<Longrightarrow> 0 < r" and wf: "store_wf s"
    and ap: "apply_durable c errs k i now tr s = (res, s')"
  shows "store_wf s'"
proof (cases res)
  case (Inl e)
  with apply_durable_Inl [of c errs k i now tr s e s'] ap wf show ?thesis
    by (auto simp: store_wf_def hist_distinct_def hist_positive_def tables_def)
next
  case (Inr st')
  with ap have "apply_durable c errs k i now tr s = (Inr st', s')" by simp
  then show ?thesis
    by (rule apply_durable_Inr)
      (use wf pos in \<open>auto simp: store_wf_def hist_distinct_def hist_positive_def history_key_def\<close>)
qed

section \<open>The life of an entity\<close>

text \<open>
  \<open>entity_inv c T k s\<close>: under key \<open>k\<close> there is nothing at all, or a current state at
  revision \<open>r\<close> whose history is the gap-free sequence of revisions \<open>1 .. r - 1\<close>, and the
  decoded states, oldest first and ending with the current one, are linked by
  transitions of \<open>T\<close>.
\<close>

definition entity_inv :: "'st codec \<Rightarrow> ('st \<Rightarrow> 'r + 'st) set \<Rightarrow> string \<Rightarrow> domain_persistence \<Rightarrow> bool" where
  "entity_inv c T k s \<longleftrightarrow>
     (case current_rows s k of
        None \<Rightarrow> history_of s k = []
      | Some (r, p) \<Rightarrow>
          0 < r \<and> map fst (history_of s k) = [1..<r] \<and>
          (\<exists>past st. map (\<lambda>h. de c (fst (snd h))) (history_of s k) = map Inr past \<and>
             de c p = Inr st \<and> chained T (past @ [st])))"

lemma entity_inv_created:
  assumes "codec_ok c" "entity_inv c T k s" "ser c st = Inr p" "write_current k None p s = (Inr r, s')"
  shows "entity_inv c T k s'"
proof -
  note w = write_current_Inr [OF assms(4)]
  then have "history_of s' k = []"
    using assms(2) history_of_rows [OF w(4)] by (simp add: entity_inv_def)
  then show ?thesis
    using w codec_okD [OF assms(1,3)] by (simp add: entity_inv_def next_revision_def)
qed

lemma entity_inv_applied:
  assumes "codec_ok c" "entity_inv c T k s" "tr \<in> T"
    and "apply_durable c errs k i now tr s = (Inr st', s')"
  shows "entity_inv c T k s'"
  using assms(4)
proof (rule apply_durable_Inr)
  fix r p st np sp
  assume cur: "current_rows s k = Some (r, p)" and st: "de c p = Inr st" "tr st = Inr st'"
    and np: "ser c st' = Inr np" and sp: "ser c st = Inr sp"
    and cur': "current_rows s' = (current_rows s)(k \<mapsto> (r + 1, np))"
    and hist: "history_rows s' = history_rows s @
       [\<lparr>hr_identity = k, hr_revision = r, hr_state = sp, hr_recorded_ms = unix_ms now\<rparr>]"
  from assms(2) cur st obtain past where r: "0 < r" "map fst (history_of s k) = [1..<r]"
    and past: "map (\<lambda>h. de c (fst (snd h))) (history_of s k) = map Inr past" "chained T (past @ [st])"
    by (auto simp: entity_inv_def)
  have "x \<in> set (history_of s k) \<Longrightarrow> fst x \<le> r" for x
    using r(2) by (metis atLeastLessThan_iff image_eqI less_imp_le list.set_map set_upt)
  then have "history_of s' k = history_of s k @ [(r, sp, time_of_unix_ms (unix_ms now))]"
    using history_of_snoc [OF hist] by auto
  moreover have "chained T (past @ [st, st'])"
    using past(2) assms(3) st(2) by (rule chained_snoc)
  moreover have "map Inr past @ [Inr st] = map Inr (past @ [st])" by simp
  ultimately show "entity_inv c T k s'"
    using cur' r past(1) codec_okD [OF assms(1) np] codec_okD [OF assms(1) sp]
    by (auto simp: entity_inv_def intro!: exI [of _ "past @ [st]"])
qed

text \<open>Anything that leaves the rows of the key alone keeps its entity.\<close>

lemma entity_inv_other:
  "entity_inv c T k s \<Longrightarrow> current_rows s' k = current_rows s k \<Longrightarrow> history_of s' k = history_of s k
    \<Longrightarrow> entity_inv c T k s'"
  by (cases "current_rows s k") (simp_all add: entity_inv_def)

text \<open>A writer that read an older revision cannot apply its transition any more.\<close>

lemma stale_compare_and_swap:
  assumes "current_rows s k = Some (r, p)" "r' \<noteq> r" "healthy s"
  shows "act_map_err (conflict_or errs) (write_current k (Some r') np) s = (Inl (te_concurrent errs), s)"
  using assms by (simp add: write_current_healthy act_map_err_def)

text \<open>On a healthy store with a codec that does not fail, the outcome is that of the transition.\<close>

lemma apply_durable_healthy:
  assumes "healthy s" "current_rows s k = Some (r, p)" "de c p = Inr st"
    and "\<And>x. \<exists>b. ser c x = Inr b" and "(k, r) \<notin> set (map history_key (history_rows s))"
  shows "fst (apply_durable c errs k i now tr s) = map_err (te_rejected errs) (tr st)"
proof (cases "tr st")
  case (Inl rej)
  with assms show ?thesis
    by (simp add: apply_durable_def act_bind_def read_current_as_healthy cs_apply_def cs_new_def)
next
  case (Inr st')
  obtain np sp where "ser c st' = Inr np" "ser c st = Inr sp" using assms(4) by meson
  with Inr assms show ?thesis
    by (simp add: apply_durable_def act_bind_def read_current_as_healthy cs_apply_def cs_new_def
        act_map_err_def write_current_healthy append_history_healthy cs_into_parts_def)
qed

end
