(* ===== verification/Identity.thy ===== *)
theory Identity
  imports Prelude
begin

text \<open>
  Canonical identities (\<open>spider/src/features/identity.rs\<close>): sixteen raw bytes behind a
  type-specific textual prefix and lowercase hexadecimal.  The file holds the shared
  formatter and parser, the five identity types, the minting of fresh bytes, and the
  lemmas every durable component needs: parsing and formatting are mutually inverse,
  formatted identities are injective, and identities of different kinds (and the
  \<open>#\<close>-suffixed keys derived from them) never share a storage key.
\<close>

unbundle bit_operations_syntax

section \<open>Parse errors\<close>

definition ID_BYTES :: nat where "ID_BYTES = 16"

datatype identity_parse_error = WrongPrefix string | InvalidBody

definition quoted :: "string \<Rightarrow> string" where
  "quoted s = CHR 0x22 # s @ [CHR 0x22]"

fun identity_parse_error_display :: "identity_parse_error \<Rightarrow> string" where
  "identity_parse_error_display (WrongPrefix p) = ''identity string must start with '' @ quoted p"
| "identity_parse_error_display InvalidBody =
     ''identity body must be exactly 32 lowercase hex characters''"

section \<open>Minting\<close>

text \<open>
  The entropy of a fresh identity comes from the \<open>ahash\<close> hasher, a third-party package:
  \<open>finish\<close> stands for hashing a sequence of inputs with it.  The process-wide counter
  is the state; the thread and the clock are inputs.
\<close>

datatype hash_input = HashU64 "64 word" | HashThread nat | HashU128 "128 word"

definition to_le_bytes :: "64 word \<Rightarrow> bytes" where
  "to_le_bytes w = map (\<lambda>i. ucast (drop_bit (8 * i) w)) [0..<8]"

definition random_bytes ::
  "(hash_input list \<Rightarrow> 64 word) \<Rightarrow> 64 word \<Rightarrow> nat \<Rightarrow> 128 word \<Rightarrow> bytes \<times> 64 word" where
  "random_bytes finish counter thread nanos =
     (let inputs = [HashU64 counter, HashThread thread, HashU128 nanos];
          first = finish inputs;
          second = finish (inputs @ [HashU64 first])
      in (to_le_bytes first @ to_le_bytes second, counter + 1))"

lemma length_random_bytes: "length (fst (random_bytes finish c t n)) = ID_BYTES"
  by (simp add: random_bytes_def to_le_bytes_def ID_BYTES_def Let_def)

section \<open>Formatting and parsing\<close>

definition hex_digit :: "8 word \<Rightarrow> char" where
  "hex_digit n = ''0123456789abcdef'' ! unat n"

definition hex_byte :: "8 word \<Rightarrow> string" where
  "hex_byte b = [hex_digit (drop_bit 4 b), hex_digit (b AND 15)]"

definition format_id :: "string \<Rightarrow> bytes \<Rightarrow> string" where
  "format_id pfx bs = pfx @ concat (map hex_byte bs)"

definition hex_nibble :: "char \<Rightarrow> 8 word option" where
  "hex_nibble c =
     (let byte = of_char c :: 8 word in
      if of_char CHR ''0'' \<le> byte \<and> byte \<le> of_char CHR ''9'' then Some (byte - of_char CHR ''0'')
      else if of_char CHR ''a'' \<le> byte \<and> byte \<le> of_char CHR ''f''
      then Some (byte - of_char CHR ''a'' + 10)
      else None)"

fun parse_pairs :: "string \<Rightarrow> identity_parse_error + bytes" where
  "parse_pairs (a # b # rest) =
     res_bind (ok_or InvalidBody (hex_nibble a)) (\<lambda>hi.
     res_bind (ok_or InvalidBody (hex_nibble b)) (\<lambda>lo.
     res_bind (parse_pairs rest) (\<lambda>bs. Inr ((push_bit 4 hi OR lo) # bs))))"
| "parse_pairs _ = Inr []"

definition parse_id :: "string \<Rightarrow> string \<Rightarrow> identity_parse_error + bytes" where
  "parse_id pfx input =
     res_bind (ok_or (WrongPrefix pfx) (strip_prefix pfx input)) (\<lambda>body.
       if length body \<noteq> ID_BYTES * 2 then Inl InvalidBody else parse_pairs body)"

section \<open>The identity types\<close>

datatype evidence_id = EvidenceId bytes
datatype research_id = ResearchId bytes
datatype watch_id = WatchId bytes
datatype auth_session_id = AuthSessionId bytes
datatype iam_trace_id = IamTraceId bytes

definition "EVIDENCE_PREFIX = ''evid_''"
definition "RESEARCH_PREFIX = ''research_''"
definition "WATCH_PREFIX = ''watch_''"
definition "AUTH_PREFIX = ''auth_''"
definition "IAM_TRACE_PREFIX = ''iam_trace_''"

lemmas prefix_defs =
  EVIDENCE_PREFIX_def RESEARCH_PREFIX_def WATCH_PREFIX_def AUTH_PREFIX_def IAM_TRACE_PREFIX_def

fun evidence_id_bytes :: "evidence_id \<Rightarrow> bytes" where "evidence_id_bytes (EvidenceId b) = b"
fun evidence_id_to_string :: "evidence_id \<Rightarrow> string" where
  "evidence_id_to_string (EvidenceId b) = format_id EVIDENCE_PREFIX b"
definition evidence_id_from_str :: "string \<Rightarrow> identity_parse_error + evidence_id" where
  "evidence_id_from_str s = map_sum id EvidenceId (parse_id EVIDENCE_PREFIX s)"

fun research_id_to_string :: "research_id \<Rightarrow> string" where
  "research_id_to_string (ResearchId b) = format_id RESEARCH_PREFIX b"
definition research_id_from_str :: "string \<Rightarrow> identity_parse_error + research_id" where
  "research_id_from_str s = map_sum id ResearchId (parse_id RESEARCH_PREFIX s)"

fun watch_id_to_string :: "watch_id \<Rightarrow> string" where
  "watch_id_to_string (WatchId b) = format_id WATCH_PREFIX b"
definition watch_id_from_str :: "string \<Rightarrow> identity_parse_error + watch_id" where
  "watch_id_from_str s = map_sum id WatchId (parse_id WATCH_PREFIX s)"

fun auth_session_id_to_string :: "auth_session_id \<Rightarrow> string" where
  "auth_session_id_to_string (AuthSessionId b) = format_id AUTH_PREFIX b"
definition auth_session_id_from_str :: "string \<Rightarrow> identity_parse_error + auth_session_id" where
  "auth_session_id_from_str s = map_sum id AuthSessionId (parse_id AUTH_PREFIX s)"

fun iam_trace_id_to_string :: "iam_trace_id \<Rightarrow> string" where
  "iam_trace_id_to_string (IamTraceId b) = format_id IAM_TRACE_PREFIX b"
definition iam_trace_id_from_str :: "string \<Rightarrow> identity_parse_error + iam_trace_id" where
  "iam_trace_id_from_str s = map_sum id IamTraceId (parse_id IAM_TRACE_PREFIX s)"

section \<open>Nibbles\<close>

lemma less_16_cases:
  assumes "(n :: 8 word) < 16"
  shows "n = 15 \<or> n = 14 \<or> n = 13 \<or> n = 12 \<or> n = 11 \<or> n = 10 \<or> n = 9 \<or> n = 8 \<or>
         n = 7 \<or> n = 6 \<or> n = 5 \<or> n = 4 \<or> n = 3 \<or> n = 2 \<or> n = 1 \<or> n = 0"
proof -
  have "unat n < 16" using assms by (simp add: word_less_nat_alt)
  then have "unat n = 15 \<or> unat n = 14 \<or> unat n = 13 \<or> unat n = 12 \<or> unat n = 11 \<or> unat n = 10 \<or>
      unat n = 9 \<or> unat n = 8 \<or> unat n = 7 \<or> unat n = 6 \<or> unat n = 5 \<or>
      unat n = 4 \<or> unat n = 3 \<or> unat n = 2 \<or> unat n = 1 \<or> unat n = 0"
    by arith
  then show ?thesis by (simp add: word_unat_eq_iff)
qed

lemma hex_nibble_digit: "n < 16 \<Longrightarrow> hex_nibble (hex_digit n) = Some n"
  by (drule less_16_cases) (elim disjE; simp add: hex_digit_def hex_nibble_def Let_def)

lemma and_15_eq_take_bit: "b AND 15 = take_bit 4 (b :: 8 word)"
  by (simp add: take_bit_eq_mask mask_eq_exp_minus_1)
lemma high_nibble_less: "drop_bit 4 b < (16 :: 8 word)"
proof -
  have "unat b < 256" using unsigned_less [of b, where 'a = nat] by simp
  then show ?thesis by (simp add: word_less_nat_alt unat_drop_bit_eq drop_bit_eq_div unat_div)
qed
lemma low_nibble_less: "b AND 15 < (16 :: 8 word)"
  unfolding and_15_eq_take_bit by (simp add: word_less_nat_alt unat_mod take_bit_eq_mod)
lemma take_bit_4_nibble: "lo < (16 :: 8 word) \<Longrightarrow> take_bit 4 lo = lo"
  by (simp add: word_less_nat_alt word_unat_eq_iff  unat_mod take_bit_eq_mod)
lemma nibbles_join: "push_bit 4 (drop_bit 4 b) OR (b AND 15) = (b :: 8 word)"
  unfolding and_15_eq_take_bit by (rule bit_word_eqI) (auto simp: bit_simps)

lemma nibbles_split:
  assumes "hi < (16 :: 8 word)" "lo < 16"
  shows "drop_bit 4 (push_bit 4 hi OR lo) = hi" "(push_bit 4 hi OR lo) AND 15 = lo"
proof -
  have hb: "bit hi i \<Longrightarrow> i < 4" for i
    using bit_take_bit_iff [of 4 hi i] take_bit_4_nibble [OF assms(1)] by simp
  have lb: "bit lo i \<Longrightarrow> i < 4" for i
    using bit_take_bit_iff [of 4 lo i] take_bit_4_nibble [OF assms(2)] by simp
  show "drop_bit 4 (push_bit 4 hi OR lo) = hi"
    by (rule bit_word_eqI) (auto simp: bit_simps dest: hb lb)
  show "(push_bit 4 hi OR lo) AND 15 = lo" unfolding and_15_eq_take_bit
    by (rule bit_word_eqI) (auto simp: bit_simps dest: hb lb)
qed
lemma hex_nibble_Some: assumes "hex_nibble c = Some n" shows "n < 16 \<and> hex_digit n = c"
proof -
  define k :: nat where "k = of_char c"
  have c: "c = char_of k" and w: "(of_char c :: 8 word) = of_nat k" and k: "k < 256"
    by (simp_all add: k_def of_nat_of_char [where 'a = "8 word"])
  have "48 \<le> k \<and> k \<le> 57 \<or> 97 \<le> k \<and> k \<le> 102"
    using assms w k by (auto simp: hex_nibble_def Let_def word_le_nat_alt unat_of_nat split: if_splits)
  then have "k = 48 \<or> k = 49 \<or> k = 50 \<or> k = 51 \<or> k = 52 \<or> k = 53 \<or> k = 54 \<or> k = 55 \<or>
      k = 56 \<or> k = 57 \<or> k = 97 \<or> k = 98 \<or> k = 99 \<or> k = 100 \<or> k = 101 \<or> k = 102"
    by arith
  then show ?thesis using assms
    unfolding hex_nibble_def w hex_digit_def
    by - (elim disjE; auto simp: Let_def c char_of_def bit_0)
qed

section \<open>Formatting and parsing are inverse\<close>

lemma hex_byte_join:
  assumes "hi < 16" "lo < 16"
  shows "hex_byte (push_bit 4 hi OR lo) = [hex_digit hi, hex_digit lo]"
  unfolding hex_byte_def nibbles_split [OF assms] ..

lemma parse_pairs_hex [simp]: "parse_pairs (concat (map hex_byte bs)) = Inr bs"
  by (induction bs)
    (simp_all add: hex_byte_def hex_nibble_digit high_nibble_less low_nibble_less nibbles_join)

lemma length_hex [simp]: "length (concat (map hex_byte bs)) = 2 * length bs"
  by (induction bs) (simp_all add: hex_byte_def)

lemma parse_format_id: "length bs = ID_BYTES \<Longrightarrow> parse_id pfx (format_id pfx bs) = Inr bs"
  by (simp add: parse_id_def format_id_def)

lemma parse_pairs_Inr:
  "parse_pairs s = Inr bs \<Longrightarrow> even (length s) \<Longrightarrow>
    concat (map hex_byte bs) = s \<and> length s = 2 * length bs"
proof (induction s arbitrary: bs rule: parse_pairs.induct)
  case (1 a b rest)
  then obtain hi lo bs' where hl: "hex_nibble a = Some hi" "hex_nibble b = Some lo"
    and rest: "parse_pairs rest = Inr bs'" and bs: "bs = (push_bit 4 hi OR lo) # bs'"
    by (auto simp: res_bind_Inr)
  have "concat (map hex_byte bs') = rest \<and> length rest = 2 * length bs'"
    using "1.IH" rest "1.prems" hl by simp
  with hl bs show ?case
    by (auto simp: hex_byte_join dest!: hex_nibble_Some)
qed auto

lemma parse_id_Inr:
  assumes "parse_id pfx s = Inr bs"
  shows "s = format_id pfx bs \<and> length bs = ID_BYTES"
proof -
  obtain body where body: "s = pfx @ body" "length body = ID_BYTES * 2" "parse_pairs body = Inr bs"
    using assms by (auto simp: parse_id_def res_bind_Inr strip_prefix_Some split: if_splits)
  with parse_pairs_Inr [of body bs] show ?thesis
    by (auto simp: format_id_def ID_BYTES_def)
qed

lemma format_id_inj [simp]: "format_id pfx a = format_id pfx b \<longleftrightarrow> a = b"
proof
  assume "format_id pfx a = format_id pfx b"
  then have "parse_pairs (concat (map hex_byte a)) = parse_pairs (concat (map hex_byte b))"
    by (simp add: format_id_def)
  then show "a = b" by simp
qed simp

section \<open>Keys do not collide\<close>

text \<open>
  A formatted identity is a prefix of lowercase letters and underscores followed by hex
  digits, so it contains no \<open>#\<close>: the derived keys \<open>id#definition\<close>, \<open>id#schedule\<close> and
  \<open>id#run#n\<close> are apart from every identity and from each other.
\<close>

lemma hex_digit_in: "n < 16 \<Longrightarrow> hex_digit n \<in> set ''0123456789abcdef''"
  by (drule less_16_cases) (elim disjE; simp add: hex_digit_def)

lemma set_hex: "set (concat (map hex_byte bs)) \<subseteq> set ''0123456789abcdef''"
proof (induction bs)
  case (Cons b bs)
  then show ?case
    using hex_digit_in [OF high_nibble_less [of b]] hex_digit_in [OF low_nibble_less [of b]]
    by (simp add: hex_byte_def)
qed simp

lemma hash_notin_format_id [simp]:
  "CHR ''#'' \<notin> set pfx \<Longrightarrow> CHR ''#'' \<notin> set (format_id pfx bs)"
  using set_hex [of bs] by (auto simp: format_id_def)

lemma hash_notin_prefixes [simp]:
  "CHR ''#'' \<notin> set EVIDENCE_PREFIX" "CHR ''#'' \<notin> set RESEARCH_PREFIX"
  "CHR ''#'' \<notin> set WATCH_PREFIX" "CHR ''#'' \<notin> set AUTH_PREFIX"
  "CHR ''#'' \<notin> set IAM_TRACE_PREFIX"
  by (simp_all add: prefix_defs)

lemma hash_notin_ids [simp]:
  "CHR ''#'' \<notin> set (evidence_id_to_string e)" "CHR ''#'' \<notin> set (research_id_to_string r)"
  "CHR ''#'' \<notin> set (watch_id_to_string w)" "CHR ''#'' \<notin> set (auth_session_id_to_string a)"
  "CHR ''#'' \<notin> set (iam_trace_id_to_string t)"
  by (cases e; cases r; cases w; cases a; cases t; simp)+

lemma to_string_inj [simp]:
  "evidence_id_to_string e = evidence_id_to_string e' \<longleftrightarrow> e = e'"
  "research_id_to_string r = research_id_to_string r' \<longleftrightarrow> r = r'"
  "watch_id_to_string w = watch_id_to_string w' \<longleftrightarrow> w = w'"
  "auth_session_id_to_string a = auth_session_id_to_string a' \<longleftrightarrow> a = a'"
  "iam_trace_id_to_string t = iam_trace_id_to_string t' \<longleftrightarrow> t = t'"
  by (cases e; cases e'; cases r; cases r'; cases w; cases w'; cases a; cases a';
      cases t; cases t'; simp)+

lemma kinds_apart [simp]:
  "evidence_id_to_string e \<noteq> watch_id_to_string w" "watch_id_to_string w \<noteq> evidence_id_to_string e"
  "evidence_id_to_string e \<noteq> research_id_to_string r" "research_id_to_string r \<noteq> evidence_id_to_string e"
  "evidence_id_to_string e \<noteq> auth_session_id_to_string a" "auth_session_id_to_string a \<noteq> evidence_id_to_string e"
  "watch_id_to_string w \<noteq> research_id_to_string r" "research_id_to_string r \<noteq> watch_id_to_string w"
  "watch_id_to_string w \<noteq> auth_session_id_to_string a" "auth_session_id_to_string a \<noteq> watch_id_to_string w"
  "research_id_to_string r \<noteq> auth_session_id_to_string a" "auth_session_id_to_string a \<noteq> research_id_to_string r"
  by (cases e; cases r; cases w; cases a; simp add: format_id_def prefix_defs)+

end
