(* ===== verification/Transport.thy ===== *)
theory Transport
  imports Rust_Str
begin

text \<open>
  Transport policy and its URL guards (\<open>spider_transport/src/transport.rs\<close>): the Tor
  endpoint grammar, the request-to-policy conversion, onion classification, the SSRF
  classifier, the redirect decision with the pinned policies built from it, and the
  crawl boundary.  The \<open>url\<close> crate is third-party: a parsed URL is the record of the
  accessors the code reads, and the parser is an argument.  The standard library's IP
  address parser is modelled (it decides what the classifier lets through).
\<close>

section \<open>URLs\<close>

record url =
  u_as_str :: string
  u_scheme :: string
  u_username :: string
  u_password :: "string option"
  u_host_str :: "string option"
  u_port :: "nat option"
  u_path :: string
  u_query :: "string option"
  u_fragment :: "string option"

type_synonym url_parser = "string \<Rightarrow> string + url"

section \<open>Policies and errors\<close>

datatype tor_transport_config = TorTransportConfig (tor_endpoint: string)

datatype transport_policy = PolicyDefault | PolicyTor tor_transport_config

datatype transport_error =
    InvalidEndpoint string
  | UnsupportedScheme string
  | CredentialsNotSupported
  | TorNotCompiled
  | OnionRequiresTor
  | ProxyBuildFailed string
  | RedirectTransportViolation string
  | IncompatibleConfiguration string
  | RequestExecutionFailed string
  | InvalidProxy string

fun transport_error_display :: "transport_error \<Rightarrow> string" where
  "transport_error_display (InvalidEndpoint m) = ''invalid Tor transport endpoint: '' @ m"
| "transport_error_display (UnsupportedScheme s) =
     ''unsupported Tor transport scheme '' @ [CHR 0x22] @ s @ [CHR 0x22] @ '': only socks5h:// is accepted''"
| "transport_error_display CredentialsNotSupported =
     ''Tor transport endpoints with embedded credentials are not supported''"
| "transport_error_display TorNotCompiled =
     ''Tor transport requested but this build was compiled without the transport_tor feature''"
| "transport_error_display OnionRequiresTor =
     ''.onion targets require TransportPolicy::Tor; refusing under the active transport policy''"
| "transport_error_display (ProxyBuildFailed m) = ''failed to build Tor proxy: '' @ m"
| "transport_error_display (RedirectTransportViolation m) = ''redirect rejected: '' @ m"
| "transport_error_display (IncompatibleConfiguration m) =
     ''transport policy is incompatible with this configuration: '' @ m"
| "transport_error_display (RequestExecutionFailed m) = ''transport request execution failed: '' @ m"
| "transport_error_display (InvalidProxy m) = ''invalid crawler proxy configuration: '' @ m"

definition tor_config_new :: "url_parser \<Rightarrow> string \<Rightarrow> transport_error + tor_transport_config" where
  "tor_config_new parse endpoint =
     res_bind (map_err InvalidEndpoint (parse endpoint)) (\<lambda>url.
       if u_scheme url \<noteq> ''socks5h'' then Inl (UnsupportedScheme (u_scheme url))
       else if u_username url \<noteq> [] \<or> u_password url \<noteq> None then Inl CredentialsNotSupported
       else if u_host_str url = None
       then Inl (InvalidEndpoint ''missing host in Tor SOCKS endpoint'')
       else if u_port url = None
       then Inl (InvalidEndpoint
         (''missing explicit port in Tor SOCKS endpoint '' @
          [CHR 0xE2, CHR 0x80, CHR 0x94] @ '' there is no default Tor port''))
       else if u_path url \<noteq> []
       then Inl (InvalidEndpoint ''Tor SOCKS endpoint must not carry a path'')
       else if u_query url \<noteq> None
       then Inl (InvalidEndpoint ''Tor SOCKS endpoint must not carry a query string'')
       else if u_fragment url \<noteq> None
       then Inl (InvalidEndpoint ''Tor SOCKS endpoint must not carry a fragment'')
       else Inr (TorTransportConfig (u_as_str url)))"

datatype transport_mode = ModeDefault | ModeTor

record transport_request =
  tr_mode :: transport_mode
  tr_proxy :: "string option"

definition em_dash :: string where
  "em_dash = [CHR 0xE2, CHR 0x80, CHR 0x94]"

definition into_policy :: "url_parser \<Rightarrow> transport_request \<Rightarrow> transport_error + transport_policy" where
  "into_policy parse req =
     (case (tr_mode req, tr_proxy req) of
        (ModeDefault, None) \<Rightarrow> Inr PolicyDefault
      | (ModeDefault, Some _) \<Rightarrow> Inl (IncompatibleConfiguration
          (''a proxy endpoint was supplied but mode is '' @ [CHR 0x22] @ ''default'' @ [CHR 0x22] @
           '' '' @ em_dash @ '' set mode to '' @ [CHR 0x22] @ ''tor'' @ [CHR 0x22] @
           '' to use it, or omit the proxy field''))
      | (ModeTor, Some endpoint) \<Rightarrow> map_sum id PolicyTor (tor_config_new parse endpoint)
      | (ModeTor, None) \<Rightarrow> Inl (IncompatibleConfiguration
          (''mode is '' @ [CHR 0x22] @ ''tor'' @ [CHR 0x22] @
           '' but no proxy endpoint was supplied '' @ em_dash @ '' Tor requires an explicit '' @
           ''socks5h://HOST:PORT endpoint; there is no implicit or environment-derived default'')))"

section \<open>Onion hosts\<close>

definition trim_end_dots :: "string \<Rightarrow> string" where
  "trim_end_dots s = rev (dropWhile (\<lambda>c. c = CHR ''.'') (rev s))"

definition is_onion_host :: "string \<Rightarrow> bool" where
  "is_onion_host host =
     (let host = trim_end_dots host in
      6 < length host \<and> suffix ''.onion'' (to_ascii_lowercase host))"

definition is_onion_url :: "url \<Rightarrow> bool" where
  "is_onion_url u = (case u_host_str u of None \<Rightarrow> False | Some h \<Rightarrow> is_onion_host h)"

definition validate_target :: "url \<Rightarrow> transport_policy \<Rightarrow> transport_error + unit" where
  "validate_target u policy =
     (let onion = is_onion_url u in
      case (onion, policy) of
        (True, PolicyDefault) \<Rightarrow> Inl OnionRequiresTor
      | _ \<Rightarrow> Inr ())"

section \<open>IP addresses (\<open>core::net::parser\<close>)\<close>

datatype ip_addr = V4 "nat list" | V6 "nat list"

definition hex_value :: "char \<Rightarrow> nat option" where
  "hex_value c =
     (let n = of_char c :: nat in
      if 48 \<le> n \<and> n \<le> 57 then Some (n - 48)
      else if 97 \<le> n \<and> n \<le> 102 then Some (n - 87)
      else if 65 \<le> n \<and> n \<le> 70 then Some (n - 55) else None)"

definition radix_value :: "nat \<Rightarrow> char \<Rightarrow> nat option" where
  "radix_value radix c =
     (case hex_value c of None \<Rightarrow> None | Some d \<Rightarrow> if d < radix then Some d else None)"

text \<open>
  \<open>read_number\<close>: digits up to \<open>maxd\<close> of them, failing on overflow past \<open>bound\<close>; the
  result carries the number of digits and the rest.
\<close>

fun read_digits :: "nat \<Rightarrow> nat \<Rightarrow> nat \<Rightarrow> nat \<Rightarrow> nat \<Rightarrow> string \<Rightarrow> (nat \<times> nat \<times> string) option" where
  "read_digits radix maxd bound acc count [] = Some (acc, count, [])"
| "read_digits radix maxd bound acc count (c # cs) =
     (case radix_value radix c of
        None \<Rightarrow> Some (acc, count, c # cs)
      | Some d \<Rightarrow>
          if bound < acc * radix + d then None
          else if maxd < count + 1 then None
          else read_digits radix maxd bound (acc * radix + d) (count + 1) cs)"

definition read_number :: "nat \<Rightarrow> nat \<Rightarrow> bool \<Rightarrow> nat \<Rightarrow> string \<Rightarrow> (nat \<times> string) option" where
  "read_number radix maxd allow_zero_prefix bound s =
     (let has_leading_zero = (s \<noteq> [] \<and> hd s = CHR ''0'') in
      case read_digits radix maxd bound 0 0 s of
        None \<Rightarrow> None
      | Some (n, count, rest) \<Rightarrow>
          if count = 0 then None
          else if \<not> allow_zero_prefix \<and> has_leading_zero \<and> 1 < count then None
          else Some (n, rest))"

definition read_given_char :: "char \<Rightarrow> string \<Rightarrow> string option" where
  "read_given_char c s = (case s of [] \<Rightarrow> None | x # xs \<Rightarrow> if x = c then Some xs else None)"

definition read_separator :: "char \<Rightarrow> nat \<Rightarrow> (string \<Rightarrow> ('a \<times> string) option) \<Rightarrow> string \<Rightarrow> ('a \<times> string) option" where
  "read_separator sep index inner s =
     (if index = 0 then inner s
      else case read_given_char sep s of None \<Rightarrow> None | Some s' \<Rightarrow> inner s')"

fun read_octets :: "nat \<Rightarrow> nat \<Rightarrow> string \<Rightarrow> (nat list \<times> string) option" where
  "read_octets 0 i s = Some ([], s)"
| "read_octets (Suc k) i s =
     (case read_separator (CHR ''.'') i (read_number 10 3 False 255) s of
        None \<Rightarrow> None
      | Some (n, s') \<Rightarrow>
          (case read_octets k (i + 1) s' of None \<Rightarrow> None | Some (ns, r) \<Rightarrow> Some (n # ns, r)))"

definition read_ipv4_addr :: "string \<Rightarrow> (nat list \<times> string) option" where
  "read_ipv4_addr = read_octets 4 0"

text \<open>\<open>read_groups\<close> over a slice of \<open>limit\<close> groups, at position \<open>i\<close>; \<open>k\<close> groups are left.\<close>

fun read_groups :: "nat \<Rightarrow> nat \<Rightarrow> string \<Rightarrow> nat list \<times> bool \<times> string" where
  "read_groups 0 i s = ([], False, s)"
| "read_groups (Suc k) i s =
     (case (if 0 < k then read_separator (CHR '':'') i read_ipv4_addr s else None) of
        Some (v4, r) \<Rightarrow> ([v4 ! 0 * 256 + v4 ! 1, v4 ! 2 * 256 + v4 ! 3], True, r)
      | None \<Rightarrow>
          (case read_separator (CHR '':'') i (read_number 16 4 True 65535) s of
             Some (g, r) \<Rightarrow> (case read_groups k (i + 1) r of (gs, v, r') \<Rightarrow> (g # gs, v, r'))
           | None \<Rightarrow> ([], False, s)))"

definition read_ipv6_addr :: "string \<Rightarrow> (nat list \<times> string) option" where
  "read_ipv6_addr s =
     (case read_groups 8 0 s of
        (head, head_ipv4, r) \<Rightarrow>
          if length head = 8 then Some (head, r)
          else if head_ipv4 then None
          else (case read_given_char (CHR '':'') r of
                  None \<Rightarrow> None
                | Some r1 \<Rightarrow>
                    (case read_given_char (CHR '':'') r1 of
                       None \<Rightarrow> None
                     | Some r2 \<Rightarrow>
                         (case read_groups (8 - (length head + 1)) 0 r2 of
                            (tail, _, r3) \<Rightarrow>
                              Some (head @ replicate (8 - length head - length tail) 0 @ tail, r3)))))"

definition parse_ip_addr :: "string \<Rightarrow> ip_addr option" where
  "parse_ip_addr s =
     (case read_ipv4_addr s of
        Some (v4, []) \<Rightarrow> Some (V4 v4)
      | Some (v4, _ # _) \<Rightarrow> None
      | None \<Rightarrow>
          (case read_ipv6_addr s of
             Some (v6, []) \<Rightarrow> Some (V6 v6)
           | _ \<Rightarrow> None))"

section \<open>The SSRF classifier\<close>

fun is_internal_v4 :: "nat list \<Rightarrow> bool" where
  "is_internal_v4 [a, b, c, d] =
     (a = 127
      \<or> a = 10 \<or> a = 172 \<and> 16 \<le> b \<and> b \<le> 31 \<or> a = 192 \<and> b = 168
      \<or> a = 169 \<and> b = 254
      \<or> [a, b, c, d] = [0, 0, 0, 0]
      \<or> [a, b, c, d] = [255, 255, 255, 255]
      \<or> a = 0)"
| "is_internal_v4 _ = False"

definition ipv4_mapped :: "nat list \<Rightarrow> nat list option" where
  "ipv4_mapped v6 =
     (if take 6 v6 = [0, 0, 0, 0, 0, 65535] \<and> length v6 = 8
      then Some [v6 ! 6 div 256, v6 ! 6 mod 256, v6 ! 7 div 256, v6 ! 7 mod 256] else None)"

definition is_internal_v6 :: "nat list \<Rightarrow> bool" where
  "is_internal_v6 v6 =
     (v6 = [0, 0, 0, 0, 0, 0, 0, 1]
      \<or> v6 = [0, 0, 0, 0, 0, 0, 0, 0]
      \<or> and (v6 ! 0) 0xfe00 = 0xfc00
      \<or> and (v6 ! 0) 0xffc0 = 0xfe80
      \<or> (case ipv4_mapped v6 of None \<Rightarrow> False | Some v4 \<Rightarrow> is_internal_v4 v4))"

definition ip_host :: "string \<Rightarrow> string" where
  "ip_host host =
     (case strip_prefix ''['' host of
        None \<Rightarrow> host
      | Some h \<Rightarrow> (case strip_suffix '']'' h of None \<Rightarrow> host | Some h' \<Rightarrow> h'))"

definition is_ssrf_redirect :: "url \<Rightarrow> bool" where
  "is_ssrf_redirect u =
     (if u_scheme u \<noteq> ''http'' \<and> u_scheme u \<noteq> ''https'' then True
      else case u_host_str u of
        None \<Rightarrow> True
      | Some host \<Rightarrow>
          if host = ''localhost'' \<or> host = ''0.0.0.0'' \<or> suffix ''.localhost'' host
             \<or> host = ''[::1]'' \<or> host = ''[::0]'' then True
          else if host = ''169.254.169.254'' \<or> host = ''metadata.google.internal''
                  \<or> host = ''metadata.goog'' then True
          else case parse_ip_addr (ip_host host) of
                 Some (V4 v4) \<Rightarrow> is_internal_v4 v4
               | Some (V6 v6) \<Rightarrow> is_internal_v6 v6
               | None \<Rightarrow> False)"

section \<open>Redirects\<close>

definition TOR_REDIRECT_LIMIT :: nat where "TOR_REDIRECT_LIMIT = 7"

definition canonical_redirect_decision ::
  "url \<Rightarrow> url list \<Rightarrow> transport_policy \<Rightarrow> nat \<Rightarrow> transport_error + unit" where
  "canonical_redirect_decision next previous policy limit =
     (if is_ssrf_redirect next
      then Inl (RedirectTransportViolation ''SSRF blocked: redirect to internal address'')
      else if limit < length previous
      then Inl (RedirectTransportViolation ''too many redirects'')
      else
        let next_onion = is_onion_url next in
        case policy of
          PolicyDefault \<Rightarrow> if next_onion then Inl OnionRequiresTor else Inr ()
        | PolicyTor _ \<Rightarrow>
            let original = (case previous of [] \<Rightarrow> next | p # _ \<Rightarrow> p);
                original_onion = is_onion_url original
            in if original_onion \<noteq> next_onion
               then Inl (RedirectTransportViolation ''cross onion/clearnet redirect rejected'')
               else if original_onion \<and> u_host_str original \<noteq> u_host_str next
               then Inl (RedirectTransportViolation ''redirect to a different onion service rejected'')
               else Inr ())"

text \<open>What a \<open>reqwest\<close> redirect policy does with one hop.\<close>

datatype hop = Follow | HopError string

definition ssrf_screened_base_policy :: "nat \<Rightarrow> url \<Rightarrow> url list \<Rightarrow> hop" where
  "ssrf_screened_base_policy limit next previous =
     (case canonical_redirect_decision next previous PolicyDefault limit of
        Inr _ \<Rightarrow> Follow
      | Inl e \<Rightarrow> HopError (transport_error_display e))"

definition pin_redirect_policy ::
  "(url \<Rightarrow> url list \<Rightarrow> hop) \<Rightarrow> transport_policy \<Rightarrow> url \<Rightarrow> url list \<Rightarrow> hop" where
  "pin_redirect_policy base policy next previous =
     (case canonical_redirect_decision next previous policy TOR_REDIRECT_LIMIT of
        Inl e \<Rightarrow> HopError (transport_error_display e)
      | Inr _ \<Rightarrow>
          if (case policy of PolicyTor _ \<Rightarrow> True | PolicyDefault \<Rightarrow> False) \<and> is_onion_url next
          then Follow
          else base next previous)"

section \<open>Acquisition transport and the crawl boundary\<close>

datatype acquisition_transport = AcqDefault | AcqTor

fun acquisition_label :: "acquisition_transport \<Rightarrow> string" where
  "acquisition_label AcqDefault = ''default''"
| "acquisition_label AcqTor = ''tor''"

definition acquisition_transport_for :: "transport_policy \<Rightarrow> acquisition_transport" where
  "acquisition_transport_for policy =
     (case policy of PolicyDefault \<Rightarrow> AcqDefault | PolicyTor _ \<Rightarrow> AcqTor)"

datatype crawl_boundary = Clearnet | Onion string

definition boundary_from_seed :: "transport_policy \<Rightarrow> url \<Rightarrow> crawl_boundary" where
  "boundary_from_seed policy seed =
     (let seed_onion = is_onion_url seed in
      case (policy, seed_onion) of
        (PolicyTor _, True) \<Rightarrow>
          Onion (to_ascii_lowercase (case u_host_str seed of None \<Rightarrow> [] | Some h \<Rightarrow> h))
      | _ \<Rightarrow> Clearnet)"

definition crawl_boundary_allows :: "crawl_boundary \<Rightarrow> url \<Rightarrow> bool" where
  "crawl_boundary_allows boundary candidate =
     (let candidate_onion = is_onion_url candidate in
      case boundary of
        Clearnet \<Rightarrow> \<not> candidate_onion
      | Onion host \<Rightarrow>
          candidate_onion \<and>
          (case u_host_str candidate of None \<Rightarrow> False | Some h \<Rightarrow> to_ascii_lowercase h = host))"

end
