(* ===== verification/Discovery.thy ===== *)
theory Discovery
  imports Transport
begin

text \<open>
  Planning and binding of acquisition targets: \<open>features/discovery_target.rs\<close> (which
  inputs become targets, and which are refused outright) and the pure half of
  \<open>features/acquisition_binding.rs\<close> (a target together with a validated transport
  policy).
\<close>

datatype discovery_target_kind = Requested | ChildSitemap | DeclaredSitemap

datatype discovery_target_error =
    TargetInvalidUrl
  | TargetUnsupportedScheme string
  | CredentialsNotAllowed

fun discovery_target_error_display :: "discovery_target_error \<Rightarrow> string" where
  "discovery_target_error_display TargetInvalidUrl = ''discovery target is not a valid URL''"
| "discovery_target_error_display (TargetUnsupportedScheme scheme) =
     ''discovery target scheme '' @ [CHR 0x22] @ scheme @ [CHR 0x22] @ '' is not supported '' @ em_dash
     @ '' only http/https are accepted''"
| "discovery_target_error_display CredentialsNotAllowed =
     ''discovery target must not include userinfo/credentials (user:pass@) '' @ em_dash
     @ '' rejected outright, never stripped and continued''"

record discovery_target =
  dt_url :: string
  dt_kind :: discovery_target_kind
  dt_discovered_via :: "string option"

definition target_is_onion :: "url_parser \<Rightarrow> discovery_target \<Rightarrow> bool" where
  "target_is_onion parse t =
     (case parse (dt_url t) of Inl _ \<Rightarrow> False | Inr parsed \<Rightarrow> is_onion_url parsed)"

text \<open>A sitemap or robots reference is used through its \<open>url\<close> field only.\<close>

datatype planning_input =
    PlanRequested string
  | PlanChildSitemap (reference_url: string) (sitemap_url: string)
  | PlanDeclaredSitemap (reference_url: string) (robots_url: string)

definition plan_one ::
  "url_parser \<Rightarrow> string \<Rightarrow> discovery_target_kind \<Rightarrow> string option
    \<Rightarrow> discovery_target_error + discovery_target" where
  "plan_one parse url kind discovered_via =
     (case parse url of
        Inl _ \<Rightarrow> Inl TargetInvalidUrl
      | Inr parsed \<Rightarrow>
          if u_scheme parsed \<noteq> ''http'' \<and> u_scheme parsed \<noteq> ''https''
          then Inl (TargetUnsupportedScheme (u_scheme parsed))
          else if u_username parsed \<noteq> [] \<or> u_password parsed \<noteq> None
          then Inl CredentialsNotAllowed
          else Inr \<lparr>dt_url = u_as_str parsed, dt_kind = kind, dt_discovered_via = discovered_via\<rparr>)"

fun plan_input :: "url_parser \<Rightarrow> planning_input \<Rightarrow> discovery_target_error + discovery_target" where
  "plan_input parse (PlanRequested url) = plan_one parse url Requested None"
| "plan_input parse (PlanChildSitemap url sitemap) = plan_one parse url ChildSitemap (Some sitemap)"
| "plan_input parse (PlanDeclaredSitemap url robots) = plan_one parse url DeclaredSitemap (Some robots)"

definition plan :: "url_parser \<Rightarrow> planning_input list \<Rightarrow> (discovery_target_error + discovery_target) list" where
  "plan parse inputs = map (plan_input parse) inputs"

section \<open>Binding\<close>

datatype acquisition_binding_error = BindTransport transport_error | InvalidTargetUrl

fun acquisition_binding_error_display :: "acquisition_binding_error \<Rightarrow> string" where
  "acquisition_binding_error_display (BindTransport e) = transport_error_display e"
| "acquisition_binding_error_display InvalidTargetUrl = ''discovery target url is not a valid URL''"

record acquisition_binding =
  ab_url :: string
  ab_transport :: transport_policy

definition bind_target ::
  "url_parser \<Rightarrow> discovery_target \<Rightarrow> transport_request \<Rightarrow> acquisition_binding_error + acquisition_binding" where
  "bind_target parse target req =
     res_bind (map_err BindTransport (into_policy parse req)) (\<lambda>policy.
     res_bind (map_err (\<lambda>_. InvalidTargetUrl) (parse (dt_url target))) (\<lambda>parsed.
     res_bind (map_err BindTransport (validate_target parsed policy)) (\<lambda>_.
       Inr \<lparr>ab_url = dt_url target, ab_transport = policy\<rparr>)))"

definition bind_all ::
  "url_parser \<Rightarrow> discovery_target list \<Rightarrow> transport_request
    \<Rightarrow> (acquisition_binding_error + acquisition_binding) list" where
  "bind_all parse targets req = map (\<lambda>t. bind_target parse t req) targets"

lemma bind_target_Inr:
  assumes "bind_target parse target req = Inr b"
  shows "ab_url b = dt_url target \<and> into_policy parse req = Inr (ab_transport b) \<and>
    (\<exists>parsed. parse (dt_url target) = Inr parsed \<and>
       validate_target parsed (ab_transport b) = Inr ())"
  using assms by (auto simp: bind_target_def res_bind_Inr)

end
