(* ===== verification/Evidence.thy ===== *)
theory Evidence
  imports Durable Identity Discovery
begin

text \<open>
  Retrieval evidence (\<open>spider/src/utils/evidence.rs\<close>): the bundle built from a fetched
  page, its provenance, content classification, and the durable ledger of bundles.
  SHA-256, byte-signature inference and the HTTP crate's header strings are third-party
  and bundled as \<open>evidence_deps\<close>; a \<open>Page\<close> is the record of the accessors that are read.
\<close>

section \<open>Inputs\<close>

datatype backend_provenance =
    BackReqwest | BackWreq | CacheLayer | NoncanonicalFetchEngine | NoncanonicalRemoteFetcher
  | UpstreamCompatibility

datatype response_origin = Network | ReconstructedCache | Synthetic

text \<open>A header map yields its entries in order; names are lowercase.\<close>

type_synonym header_map = "(string \<times> bytes) list"

record page =
  pg_bytes :: "bytes option"
  pg_screenshot_bytes :: "bytes option"
  pg_headers :: "header_map option"
  pg_links :: "string list option"
  pg_url :: string
  pg_url_final :: string
  pg_retrieved_at :: "nat option"
  pg_status_code :: nat
  pg_observed_status_code :: "nat option"
  pg_transport :: "acquisition_transport option"
  pg_backend_provenance :: "backend_provenance option"
  pg_response_origin :: "response_origin option"

record evidence_deps =
  sha256_hex :: "bytes \<Rightarrow> string"
  infer_mime :: "bytes \<Rightarrow> string option"
  header_to_str :: "bytes \<Rightarrow> string option"

section \<open>The bundle\<close>

record evidence_bundle =
  eb_id :: "evidence_id option"
  eb_requested_url :: "string option"
  eb_final_url :: "string option"
  eb_retrieved_at :: "nat option"
  eb_status_code :: "nat option"
  eb_observed_status_code :: "nat option"
  eb_content_type :: "string option"
  eb_detected_content_type :: "string option"
  eb_response_body_hash :: "string option"
  eb_transformed_content_hash :: "string option"
  eb_content :: "string option"
  eb_links :: "string list option"
  eb_source :: "string option"
  eb_provider :: "string option"
  eb_query :: "string option"
  eb_screenshot :: "string option"
  eb_screenshot_hash :: "string option"
  eb_metadata :: "string option"
  eb_transport :: "string option"
  eb_dns :: "string option"
  eb_backend_provenance :: "string option"
  eb_response_origin :: "string option"
  eb_response_headers :: "(string \<times> bytes list) list option"

definition AUDIT_RESPONSE_HEADER_ALLOWLIST :: "string list" where
  "AUDIT_RESPONSE_HEADER_ALLOWLIST =
     [''content-language'', ''x-robots-tag'', ''strict-transport-security'',
      ''content-security-policy'', ''content-security-policy-report-only'', ''x-frame-options'',
      ''x-content-type-options'', ''referrer-policy'', ''permissions-policy'',
      ''access-control-allow-origin'', ''access-control-allow-credentials'',
      ''access-control-allow-methods'', ''access-control-allow-headers'', ''server'',
      ''x-powered-by'', ''x-generator'']"

definition header_get_all :: "header_map \<Rightarrow> string \<Rightarrow> bytes list" where
  "header_get_all headers name = map snd (filter (\<lambda>h. fst h = name) headers)"

definition header_get :: "header_map \<Rightarrow> string \<Rightarrow> bytes option" where
  "header_get headers name = (case header_get_all headers name of [] \<Rightarrow> None | v # _ \<Rightarrow> Some v)"

definition audit_response_headers :: "header_map \<Rightarrow> (string \<times> bytes list) list" where
  "audit_response_headers headers =
     fold (\<lambda>name observed.
         let values = header_get_all headers name in
         if values \<noteq> [] then btree_insert name values observed else observed)
       AUDIT_RESPONSE_HEADER_ALLOWLIST []"

fun backend_provenance_label :: "backend_provenance \<Rightarrow> string" where
  "backend_provenance_label BackReqwest = ''reqwest''"
| "backend_provenance_label BackWreq = ''wreq''"
| "backend_provenance_label CacheLayer = ''cache_layer''"
| "backend_provenance_label NoncanonicalFetchEngine = ''noncanonical_fetch_engine''"
| "backend_provenance_label NoncanonicalRemoteFetcher = ''noncanonical_remote_fetcher''"
| "backend_provenance_label UpstreamCompatibility = ''upstream_compatibility''"

fun response_origin_label :: "response_origin \<Rightarrow> string" where
  "response_origin_label Network = ''network''"
| "response_origin_label ReconstructedCache = ''reconstructed_cache''"
| "response_origin_label Synthetic = ''synthetic''"

record page_provenance =
  pp_transport :: "string option"
  pp_dns :: "string option"
  pp_backend_provenance :: "string option"
  pp_response_origin :: "string option"
  pp_observed_status_code :: "nat option"

definition page_provenance_of :: "page \<Rightarrow> page_provenance" where
  "page_provenance_of page =
     (let observed_transport = pg_transport page in
      \<lparr>pp_transport = map_option acquisition_label observed_transport,
       pp_dns = (case observed_transport of Some AcqTor \<Rightarrow> Some ''proxy'' | _ \<Rightarrow> None),
       pp_backend_provenance = map_option backend_provenance_label (pg_backend_provenance page),
       pp_response_origin = map_option response_origin_label (pg_response_origin page),
       pp_observed_status_code = pg_observed_status_code page\<rparr>)"

definition build_evidence ::
  "evidence_deps \<Rightarrow> page \<Rightarrow> string option \<Rightarrow> bool \<Rightarrow> bool \<Rightarrow> evidence_bundle" where
  "build_evidence deps page content wants_screenshot used_browser =
     (let response_body_hash =
            (if \<not> used_browser then map_option (sha256_hex deps) (pg_bytes page) else None);
          detected_content_type =
            (if used_browser then None
             else Option.bind (pg_bytes page) (infer_mime deps));
          transformed_content_hash =
            (if wants_screenshot then None
             else map_option (\<lambda>text. sha256_hex deps (str_bytes text)) content);
          screenshot_hash =
            (if wants_screenshot then map_option (sha256_hex deps) (pg_screenshot_bytes page) else None);
          content_type =
            Option.bind (pg_headers page) (\<lambda>h.
              Option.bind (header_get h ''content-type'') (header_to_str deps));
          response_headers =
            (case pg_headers page of
               None \<Rightarrow> None
             | Some h \<Rightarrow> let observed = audit_response_headers h in
                 if observed \<noteq> [] then Some observed else None);
          provenance = page_provenance_of page
      in \<lparr>eb_id = None,
          eb_requested_url = Some (pg_url page),
          eb_final_url = Some (pg_url_final page),
          eb_retrieved_at = pg_retrieved_at page,
          eb_status_code = Some (pg_status_code page),
          eb_observed_status_code = pp_observed_status_code provenance,
          eb_content_type = content_type,
          eb_detected_content_type = detected_content_type,
          eb_response_body_hash = response_body_hash,
          eb_transformed_content_hash = transformed_content_hash,
          eb_content = (if \<not> wants_screenshot then content else None),
          eb_links = pg_links page,
          eb_source = None,
          eb_provider = None,
          eb_query = None,
          eb_screenshot = (if wants_screenshot then content else None),
          eb_screenshot_hash = screenshot_hash,
          eb_metadata = None,
          eb_transport = pp_transport provenance,
          eb_dns = pp_dns provenance,
          eb_backend_provenance = pp_backend_provenance provenance,
          eb_response_origin = pp_response_origin provenance,
          eb_response_headers = response_headers\<rparr>)"

section \<open>Content classification\<close>

definition declared_mime :: "string option \<Rightarrow> string option" where
  "declared_mime content_type =
     Option.bind content_type (\<lambda>value.
       let base = trim (hd (split_on (CHR '';'') value)) in
       if base \<noteq> [] then Some (to_ascii_lowercase base) else None)"

datatype detected_content_class = ClHtml | ClXml | ClPdf | ClImage | ClAudioVideo | ClUnclassifiedBinary

definition classify_detected_content :: "evidence_deps \<Rightarrow> bytes \<Rightarrow> detected_content_class option" where
  "classify_detected_content deps bs =
     map_option (\<lambda>mime.
       if mime = ''text/html'' then ClHtml
       else if mime = ''text/xml'' \<or> mime = ''application/xml'' then ClXml
       else if mime = ''application/pdf'' then ClPdf
       else if prefix ''image/'' mime then ClImage
       else if prefix ''video/'' mime \<or> prefix ''audio/'' mime then ClAudioVideo
       else ClUnclassifiedBinary) (infer_mime deps bs)"

section \<open>The ledger\<close>

datatype evidence_ledger_error = LedgerPersistence persistence_error | LedgerSerialization string

fun evidence_ledger_error_display :: "evidence_ledger_error \<Rightarrow> string" where
  "evidence_ledger_error_display (LedgerPersistence e) =
     ''evidence ledger: '' @ persistence_error_display e"
| "evidence_ledger_error_display (LedgerSerialization m) =
     ''evidence ledger: bundle serialization failed: '' @ m"

text \<open>\<open>fresh\<close> is the identity minted when the bundle carries none.\<close>

definition record_evidence ::
  "evidence_bundle codec \<Rightarrow> evidence_id \<Rightarrow> system_time \<Rightarrow> evidence_bundle
    \<Rightarrow> (evidence_ledger_error, evidence_bundle) dact" where
  "record_evidence c fresh now bundle =
     (let i = (case eb_id bundle of None \<Rightarrow> fresh | Some i \<Rightarrow> i);
          bundle = bundle\<lparr>eb_id := Some i\<rparr>
      in act_bind (write_record c LedgerPersistence LedgerSerialization (evidence_id_to_string i) bundle now)
           (\<lambda>_. act_ok bundle))"

definition read_evidence ::
  "evidence_bundle codec \<Rightarrow> evidence_id \<Rightarrow> (evidence_ledger_error, evidence_bundle option) dact" where
  "read_evidence c i =
     read_first_record c LedgerPersistence LedgerSerialization (evidence_id_to_string i)"

datatype evidence_ref = EvidenceRef (ref_id: evidence_id)

definition resolve ::
  "evidence_bundle codec \<Rightarrow> evidence_ref \<Rightarrow> (evidence_ledger_error, evidence_bundle option) dact" where
  "resolve c r = read_evidence c (ref_id r)"

lemma frame_read_evidence [frame_intro]: "frame tables (read_evidence c i)"
  unfolding read_evidence_def by (rule frame_read_first)

lemma frame_resolve [frame_intro]: "frame tables (resolve c r)"
  unfolding resolve_def by (rule frame_read_evidence)

lemma keeps_wf_record_evidence [triple_intro]: "keeps store_wf (record_evidence c fresh now b)"
  unfolding record_evidence_def Let_def by (intro triple_intro)

lemma record_evidence_Inr:
  assumes "record_evidence c fresh now b s = (Inr b', s')"
  shows "\<exists>i. eb_id b' = Some i \<and> b' = b\<lparr>eb_id := Some i\<rparr> \<and> (eb_id b = Some i \<or> eb_id b = None \<and> i = fresh) \<and>
    write_record c LedgerPersistence LedgerSerialization (evidence_id_to_string i) b' now s = (Inr (), s')"
  using assms by (auto simp: record_evidence_def act_bind_Inr_iff Let_def split: option.splits)

lemma record_evidence_Inl: "record_evidence c fresh now b s = (Inl e, s') \<Longrightarrow> tables s' = tables s"
  by (auto simp: record_evidence_def act_bind_Inl_iff Let_def dest: write_record_Inl)

lemma record_evidence_current:
  "record_evidence c fresh now b s = (r, s') \<Longrightarrow> current_rows s' = current_rows s"
proof (cases r)
  case (Inr b')
  moreover assume "record_evidence c fresh now b s = (r, s')"
  ultimately show ?thesis
    by (auto dest!: record_evidence_Inr write_record_Inr append_history_Inr(3))
qed (auto dest: record_evidence_Inl simp: tables_def)

lemma record_then_resolve:
  assumes "codec_ok c" "store_wf s" "record_evidence c fresh now b s = (Inr b', s')"
    and "eb_id b' = Some i" "store_wf t" "healthy t" "prefix (history_rows s') (history_rows t)"
  shows "resolve c (EvidenceRef i) t = (Inr (Some b'), t)"
  using record_evidence_Inr [OF assms(3)] assms write_then_read
  by (auto simp: resolve_def read_evidence_def)

end
