(* ===== verification/Watch.thy ===== *)
theory Watch
  imports Evidence
begin

text \<open>
  Watches (\<open>spider/src/features/watch.rs\<close>): the immutable definition, the two-state
  lifecycle, and its durable operations.
\<close>

section \<open>Definition, state, transitions\<close>

record watch_definition =
  wd_target :: discovery_target

datatype watch_state =
    WatchActive (ws_evidence: "evidence_ref option")
  | WatchStopped (ws_evidence: "evidence_ref option")

fun last_evidence :: "watch_state \<Rightarrow> evidence_ref option" where
  "last_evidence (WatchActive e) = e"
| "last_evidence (WatchStopped e) = e"

datatype watch_transition_rejected = WatchTerminal

fun watch_transition_rejected_display :: "watch_transition_rejected \<Rightarrow> string" where
  "watch_transition_rejected_display WatchTerminal = ''watch is stopped; no transition applies''"

fun observe_evidence :: "evidence_ref \<Rightarrow> watch_state \<Rightarrow> watch_transition_rejected + watch_state" where
  "observe_evidence e (WatchActive _) = Inr (WatchActive (Some e))"
| "observe_evidence e (WatchStopped _) = Inl WatchTerminal"

fun stop_watch :: "watch_state \<Rightarrow> watch_transition_rejected + watch_state" where
  "stop_watch (WatchActive e) = Inr (WatchStopped e)"
| "stop_watch (WatchStopped _) = Inl WatchTerminal"

datatype watch_transition = Observe evidence_ref | Stop

fun watch_step :: "watch_transition \<Rightarrow> watch_state \<Rightarrow> watch_transition_rejected + watch_state" where
  "watch_step (Observe e) = observe_evidence e"
| "watch_step Stop = stop_watch"

section \<open>Errors and keys\<close>

datatype watch_error =
    WatchNotFound
  | WatchTransitionRejected watch_transition_rejected
  | WatchConcurrentModification
  | WatchPersistence persistence_error
  | WatchSerialization string

fun watch_error_display :: "watch_error \<Rightarrow> string" where
  "watch_error_display WatchNotFound = ''no watch recorded for this identity''"
| "watch_error_display (WatchTransitionRejected r) = watch_transition_rejected_display r"
| "watch_error_display WatchConcurrentModification =
     ''watch state changed concurrently; retry with a fresh read''"
| "watch_error_display (WatchPersistence e) = ''watch ledger: '' @ persistence_error_display e"
| "watch_error_display (WatchSerialization m) = ''watch ledger: serialization failed: '' @ m"

definition watch_errors :: "(watch_error, watch_transition_rejected) transition_errors" where
  "watch_errors = \<lparr>te_not_found = WatchNotFound, te_rejected = WatchTransitionRejected,
     te_concurrent = WatchConcurrentModification, te_persistence = WatchPersistence,
     te_serialization = WatchSerialization\<rparr>"

definition definition_key :: "watch_id \<Rightarrow> string" where
  "definition_key i = watch_id_to_string i @ ''#definition''"

section \<open>Operations\<close>

text \<open>\<open>fresh\<close> is the identity minted by \<open>WatchId::new\<close>.\<close>

definition define_watch ::
  "watch_definition codec \<Rightarrow> watch_state codec \<Rightarrow> watch_id \<Rightarrow> system_time \<Rightarrow> discovery_target
    \<Rightarrow> (watch_error, watch_id \<times> watch_definition) dact" where
  "define_watch cd cs fresh now target =
     (let i = fresh; def = \<lparr>wd_target = target\<rparr> in
      act_bind (write_record cd WatchPersistence WatchSerialization (definition_key i) def now) (\<lambda>_.
      let initial_state = WatchActive None in
      act_bind (act_lift (map_err WatchSerialization (ser cs initial_state))) (\<lambda>state_payload.
      act_bind (act_map_err WatchPersistence
          (write_current (watch_id_to_string i) None state_payload)) (\<lambda>_.
      act_ok (i, def)))))"

definition read_watch_definition ::
  "watch_definition codec \<Rightarrow> watch_id \<Rightarrow> (watch_error, watch_definition option) dact" where
  "read_watch_definition cd i =
     read_first_record cd WatchPersistence WatchSerialization (definition_key i)"

definition read_current_watch_state ::
  "watch_state codec \<Rightarrow> watch_id \<Rightarrow> (watch_error, (nat \<times> watch_state) option) dact" where
  "read_current_watch_state cs i =
     read_current_as cs WatchPersistence WatchSerialization (watch_id_to_string i)"

definition apply_watch_transition ::
  "watch_state codec \<Rightarrow> watch_id \<Rightarrow> system_time \<Rightarrow> watch_transition \<Rightarrow> (watch_error, watch_state) dact" where
  "apply_watch_transition cs i now t =
     apply_durable cs watch_errors (watch_id_to_string i) i now (watch_step t)"

section \<open>The lifecycle contract\<close>

definition watch_terminal :: "watch_state \<Rightarrow> bool" where
  "watch_terminal st = (case st of WatchActive _ \<Rightarrow> False | WatchStopped _ \<Rightarrow> True)"

interpretation watch_life: lifecycle watch_step watch_terminal "\<lambda>_. ()"
proof
  fix st t
  assume "watch_terminal st"
  then show "\<exists>r. watch_step t st = Inl r"
    by (cases st; cases t) (auto simp: watch_terminal_def)
qed simp

lemma watch_step_Inr:
  "watch_step t st = Inr st' \<longleftrightarrow>
     (\<exists>e. st = WatchActive e \<and>
        (case t of Observe e' \<Rightarrow> st' = WatchActive (Some e') | Stop \<Rightarrow> st' = WatchStopped e))"
  by (cases t; cases st) auto

lemma watch_step_rejects: "watch_step t st = Inl r \<longleftrightarrow> watch_terminal st"
  by (cases t; cases st; cases r) (auto simp: watch_terminal_def)

lemma keys_of_watch [simp]:
  "definition_key i = definition_key j \<longleftrightarrow> i = j"
  "definition_key i \<noteq> watch_id_to_string j" "watch_id_to_string j \<noteq> definition_key i"
  "definition_key i \<noteq> evidence_id_to_string e" "evidence_id_to_string e \<noteq> definition_key i"
proof -
  note sep = append_sep_eq [where x = "CHR ''#''" and us = "''definition''" and vs = "''definition''"]
  show "definition_key i = definition_key j \<longleftrightarrow> i = j" by (simp add: definition_key_def)
  have "CHR ''#'' \<in> set (definition_key i)" by (simp add: definition_key_def)
  then show "definition_key i \<noteq> watch_id_to_string j" "watch_id_to_string j \<noteq> definition_key i"
    "definition_key i \<noteq> evidence_id_to_string e" "evidence_id_to_string e \<noteq> definition_key i"
    using hash_notin_ids by metis+
qed

lemma frame_read_watch_definition [frame_intro]: "frame tables (read_watch_definition cd i)"
  unfolding read_watch_definition_def by (rule frame_read_first)

lemma frame_read_current_watch_state [frame_intro]: "frame tables (read_current_watch_state cs i)"
  unfolding read_current_watch_state_def by (rule frame_read_current_as)

text \<open>The invariant of one watch in the store.\<close>

definition watch_inv :: "watch_state codec \<Rightarrow> watch_id \<Rightarrow> domain_persistence \<Rightarrow> bool" where
  "watch_inv cs i = entity_inv cs (range watch_step) (watch_id_to_string i)"

lemma define_watch_Inr:
  assumes "define_watch cd cs fresh now target s = (Inr (i, d), s')"
  obtains s1 p where "i = fresh" "d = \<lparr>wd_target = target\<rparr>"
    "write_record cd WatchPersistence WatchSerialization (definition_key i) d now s = (Inr (), s1)"
    "ser cs (WatchActive None) = Inr p"
    "write_current (watch_id_to_string i) None p s1 = (Inr 1, s')"
proof -
  from assms obtain s1 p r where
    *: "i = fresh" "d = \<lparr>wd_target = target\<rparr>"
    "write_record cd WatchPersistence WatchSerialization (definition_key i) d now s = (Inr (), s1)"
    "ser cs (WatchActive None) = Inr p"
    and w: "write_current (watch_id_to_string i) None p s1 = (Inr r, s')"
    by (auto simp: define_watch_def Let_def act_bind_Inr_iff act_map_err_Inr_iff)
  have "r = 1" using write_current_Inr(2) [OF w] by (simp add: next_revision_def)
  with * w that show thesis by simp
qed

text \<open>A watch is created in its initial state, with its definition readable.\<close>

lemma define_watch_correct:
  assumes "codec_ok cd" "codec_ok cs" "store_wf s"
    and "define_watch cd cs fresh now target s = (Inr (i, d), s')"
    and "watch_inv cs fresh s"
  shows "i = fresh" "d = \<lparr>wd_target = target\<rparr>" "watch_inv cs i s'" "store_wf s'"
    "\<exists>p. current_rows s' (watch_id_to_string i) = Some (1, p) \<and> de cs p = Inr (WatchActive None)"
    "healthy s' \<Longrightarrow> read_watch_definition cd i s' = (Inr (Some d), s')"
proof -
  from assms(4) obtain s1 p where i: "i = fresh" and d: "d = \<lparr>wd_target = target\<rparr>"
    and wr: "write_record cd WatchPersistence WatchSerialization (definition_key i) d now s = (Inr (), s1)"
    and p: "ser cs (WatchActive None) = Inr p"
    and w: "write_current (watch_id_to_string i) None p s1 = (Inr 1, s')"
    by (rule define_watch_Inr)
  show "i = fresh" "d = \<lparr>wd_target = target\<rparr>" by (fact i, fact d)
  have wf1: "store_wf s1" by (rule keepsD [OF keeps_wf_write_record assms(3) wr])
  show wf: "store_wf s'" by (rule keepsD [OF keeps_wf_write wf1 w])
  obtain q where "append_history (definition_key i) 1 q now s = (Inr (), s1)"
    using write_record_Inr [OF wr] by blast
  then have "watch_inv cs i s1"
    using assms(5) i append_history_Inr(3) history_of_other
    unfolding watch_inv_def by (metis entity_inv_other keys_of_watch(2))
  then show "watch_inv cs i s'"
    unfolding watch_inv_def using entity_inv_created [OF assms(2) _ p w] by blast
  show "\<exists>p. current_rows s' (watch_id_to_string i) = Some (1, p) \<and> de cs p = Inr (WatchActive None)"
    using write_current_Inr(3) [OF w] codec_okD [OF assms(2) p] by simp
  show "read_watch_definition cd i s' = (Inr (Some d), s')" if "healthy s'"
    unfolding read_watch_definition_def
    using write_then_read [OF assms(1,3) wr wf that] write_current_Inr(4) [OF w] by simp
qed

lemma apply_watch_inv:
  assumes "codec_ok cs" "watch_inv cs i s" "apply_watch_transition cs i now t s = (Inr st, s')"
  shows "watch_inv cs i s'"
  using entity_inv_applied [OF assms(1) assms(2) [unfolded watch_inv_def], of "watch_step t"] assms(3)
  by (auto simp: apply_watch_transition_def watch_inv_def)

lemma apply_watch_other:
  assumes "apply_watch_transition cs i now t s = (Inr st, s')" "k \<noteq> watch_id_to_string i"
  shows "current_rows s' k = current_rows s k" "history_of s' k = history_of s k"
  using assms unfolding apply_watch_transition_def by (auto elim: apply_durable_Inr)

end
