(* ===== verification/Change_Detection.thy ===== *)
theory Change_Detection
  imports Watch
begin

text \<open>
  Change detection (\<open>spider/src/features/change_detection.rs\<close>): the pure comparison of
  two evidence bundles, and the idempotent record of a comparison between two pieces of
  evidence of the same watch.
\<close>

section \<open>Comparison\<close>

datatype comparison_basis = ResponseBodyHash | TransformedContentHash

datatype uncomparable_reason = NoConsistentContentSignal

datatype change_result =
    Unchanged comparison_basis
  | Changed comparison_basis (previous_hash: string) (current_hash: string)
  | Uncomparable uncomparable_reason

definition comparable_hash :: "evidence_bundle \<Rightarrow> (comparison_basis \<times> string) option" where
  "comparable_hash b =
     (case map_option (\<lambda>h. (ResponseBodyHash, h)) (eb_response_body_hash b) of
        Some x \<Rightarrow> Some x
      | None \<Rightarrow> map_option (\<lambda>h. (TransformedContentHash, h)) (eb_transformed_content_hash b))"

definition compute_change_result :: "evidence_bundle \<Rightarrow> evidence_bundle \<Rightarrow> change_result" where
  "compute_change_result previous current =
     (case (comparable_hash previous, comparable_hash current) of
        (Some (pb, ph), Some (cb, ch)) \<Rightarrow>
          if pb = cb then (if ph = ch then Unchanged pb else Changed pb ph ch)
          else Uncomparable NoConsistentContentSignal
      | _ \<Rightarrow> Uncomparable NoConsistentContentSignal)"

section \<open>Events\<close>

datatype change_event_id = ChangeEventId (ceid_str: string)

definition CHANGE_PREFIX :: string where "CHANGE_PREFIX = ''change_''"

definition derive_change_id ::
  "(bytes \<Rightarrow> string) \<Rightarrow> watch_id \<Rightarrow> evidence_ref \<Rightarrow> evidence_ref \<Rightarrow> change_event_id" where
  "derive_change_id sha watch previous current =
     (let joined = ''change-v1|'' @ watch_id_to_string watch @ ''|'' @
            evidence_id_to_string (ref_id previous) @ ''|'' @ evidence_id_to_string (ref_id current)
      in ChangeEventId (CHANGE_PREFIX @ sha (str_bytes joined)))"

record change_event =
  ce_watch :: watch_id
  ce_previous :: evidence_ref
  ce_current :: evidence_ref
  ce_result :: change_result
  ce_detected_at :: system_time

definition change_event_id :: "(bytes \<Rightarrow> string) \<Rightarrow> change_event \<Rightarrow> change_event_id" where
  "change_event_id sha ev = derive_change_id sha (ce_watch ev) (ce_previous ev) (ce_current ev)"

datatype change_detection_error =
    EvidenceNotAssociatedWithWatch
  | PreviousEvidenceUnresolvable
  | CurrentEvidenceUnresolvable
  | ChangeWatch watch_error
  | ChangeEvidence evidence_ledger_error
  | ChangePersistence persistence_error
  | ChangeSerialization string

fun change_detection_error_display :: "change_detection_error \<Rightarrow> string" where
  "change_detection_error_display EvidenceNotAssociatedWithWatch =
     ''the supplied evidence was never recorded for this watch''"
| "change_detection_error_display PreviousEvidenceUnresolvable =
     ''the previous evidence could not be resolved''"
| "change_detection_error_display CurrentEvidenceUnresolvable =
     ''the current evidence could not be resolved''"
| "change_detection_error_display (ChangeWatch e) = watch_error_display e"
| "change_detection_error_display (ChangeEvidence e) = evidence_ledger_error_display e"
| "change_detection_error_display (ChangePersistence e) =
     ''change detection ledger: '' @ persistence_error_display e"
| "change_detection_error_display (ChangeSerialization m) =
     ''change detection ledger: serialization failed: '' @ m"

section \<open>Operations\<close>

fun decode_states ::
  "watch_state codec \<Rightarrow> (nat \<times> bytes \<times> system_time) list \<Rightarrow> string + watch_state list" where
  "decode_states cs [] = Inr []"
| "decode_states cs ((_, payload, _) # rest) =
     res_bind (de cs payload) (\<lambda>st. res_bind (decode_states cs rest) (\<lambda>sts. Inr (st # sts)))"

text \<open>\<open>Vec::extend\<close> with an \<open>Option\<close>.\<close>

definition evidence_list :: "watch_state \<Rightarrow> evidence_ref list" where
  "evidence_list st = (case last_evidence st of None \<Rightarrow> [] | Some e \<Rightarrow> [e])"

definition watch_evidence_refs ::
  "watch_state codec \<Rightarrow> watch_id \<Rightarrow> (change_detection_error, evidence_ref list) dact" where
  "watch_evidence_refs cs watch =
     act_bind (act_map_err ChangeWatch (read_current_watch_state cs watch)) (\<lambda>cur.
     act_bind (act_map_err ChangePersistence (read_history (watch_id_to_string watch))) (\<lambda>history.
     act_bind (act_lift (map_err ChangeSerialization (decode_states cs history))) (\<lambda>states.
     act_ok ((case cur of None \<Rightarrow> [] | Some (revision, st) \<Rightarrow> evidence_list st)
             @ concat (map evidence_list states)))))"

definition ensure_evidence_belongs_to_watch ::
  "watch_state codec \<Rightarrow> watch_id \<Rightarrow> evidence_ref \<Rightarrow> (change_detection_error, unit) dact" where
  "ensure_evidence_belongs_to_watch cs watch evidence =
     act_bind (watch_evidence_refs cs watch) (\<lambda>refs.
       if evidence \<in> set refs then act_ok () else act_err EvidenceNotAssociatedWithWatch)"

definition detect_and_record_change ::
  "(bytes \<Rightarrow> string) \<Rightarrow> evidence_bundle codec \<Rightarrow> watch_state codec \<Rightarrow> change_event codec
    \<Rightarrow> system_time \<Rightarrow> watch_id \<Rightarrow> evidence_ref \<Rightarrow> evidence_ref
    \<Rightarrow> (change_detection_error, change_event) dact" where
  "detect_and_record_change sha ce cs cc now watch previous current =
     act_bind (ensure_evidence_belongs_to_watch cs watch previous) (\<lambda>_.
     act_bind (ensure_evidence_belongs_to_watch cs watch current) (\<lambda>_.
     act_bind (act_map_err ChangeEvidence (resolve ce previous)) (\<lambda>found_previous.
     act_bind (act_lift (ok_or PreviousEvidenceUnresolvable found_previous)) (\<lambda>previous_bundle.
     act_bind (act_map_err ChangeEvidence (resolve ce current)) (\<lambda>found_current.
     act_bind (act_lift (ok_or CurrentEvidenceUnresolvable found_current)) (\<lambda>current_bundle.
     let result = compute_change_result previous_bundle current_bundle;
         event = \<lparr>ce_watch = watch, ce_previous = previous, ce_current = current,
                  ce_result = result, ce_detected_at = now\<rparr>;
         i = change_event_id sha event
     in act_bind (act_lift (map_err ChangeSerialization (ser cc event))) (\<lambda>payload.
          append_once ChangePersistence (ceid_str i) payload (ce_detected_at event) event)))))))"

definition read_change_event ::
  "change_event codec \<Rightarrow> change_event_id \<Rightarrow> (change_detection_error, change_event option) dact" where
  "read_change_event cc i =
     read_first_record cc ChangePersistence ChangeSerialization (ceid_str i)"

section \<open>Lemmas\<close>

lemma frame_watch_evidence_refs [frame_intro]: "frame tables (watch_evidence_refs cs w)"
  unfolding watch_evidence_refs_def by (intro frame_intro)

lemma frame_ensure [frame_intro]: "frame tables (ensure_evidence_belongs_to_watch cs w e)"
  unfolding ensure_evidence_belongs_to_watch_def by (intro frame_intro)

lemma frame_read_change_event [frame_intro]: "frame tables (read_change_event cc i)"
  unfolding read_change_event_def by (rule frame_read_first)

lemma decode_states_Inr:
  "decode_states cs h = Inr sts \<longleftrightarrow> map (\<lambda>x. de cs (fst (snd x))) h = map Inr sts"
proof (induction h arbitrary: sts)
  case (Cons x h)
  show ?case
  proof (cases sts)
    case Nil
    then show ?thesis by (cases x) (simp add: res_bind_Inr)
  next
    case (Cons y ys)
    with Cons.IH show ?thesis by (cases x) (simp add: res_bind_Inr)
  qed
qed auto

text \<open>A recorded comparison, and the only ways the call can succeed.\<close>

lemma detect_Inr:
  assumes "detect_and_record_change sha ce cs cc now w p c s = (Inr ev, s')"
  obtains s1 pb cb q where "tables s1 = tables s"
    "ev = \<lparr>ce_watch = w, ce_previous = p, ce_current = c,
           ce_result = compute_change_result pb cb, ce_detected_at = now\<rparr>"
    "ser cc ev = Inr q"
    "append_history (ceid_str (change_event_id sha ev)) 1 q now s1 = (Inr (), s')
     \<or> append_history (ceid_str (change_event_id sha ev)) 1 q now s1 = (Inl HistoryAlreadyExists, s')"
proof -
  from assms obtain s1 s2 s3 s4 u v x y where
    a: "ensure_evidence_belongs_to_watch cs w p s = (Inr u, s1)"
    and b: "ensure_evidence_belongs_to_watch cs w c s1 = (Inr v, s2)"
    and x: "resolve ce p s2 = (Inr (Some x), s3)"
    and y: "resolve ce c s3 = (Inr (Some y), s4)"
    and rest: "(let event = \<lparr>ce_watch = w, ce_previous = p, ce_current = c,
           ce_result = compute_change_result x y, ce_detected_at = now\<rparr>;
         i = change_event_id sha event
     in act_bind (act_lift (map_err ChangeSerialization (ser cc event))) (\<lambda>payload.
          append_once ChangePersistence (ceid_str i) payload (ce_detected_at event) event)) s4 = (Inr ev, s')"
    by (auto simp: detect_and_record_change_def act_bind_Inr_iff act_map_err_Inr_iff Let_def)
  have t: "tables s4 = tables s"
    using frameD [OF frame_ensure a] frameD [OF frame_ensure b] frameD [OF frame_resolve x]
      frameD [OF frame_resolve y] by simp
  define ev0 where "ev0 = \<lparr>ce_watch = w, ce_previous = p, ce_current = c,
           ce_result = compute_change_result x y, ce_detected_at = now\<rparr>"
  from rest obtain q where q: "ser cc ev0 = Inr q"
    and k: "append_once ChangePersistence (ceid_str (change_event_id sha ev0)) q now ev0 s4 = (Inr ev, s')"
    unfolding Let_def act_bind_Inr_iff ev0_def by auto
  from k have e: "ev = ev0"
    "append_history (ceid_str (change_event_id sha ev0)) 1 q now s4 = (Inr (), s')
     \<or> append_history (ceid_str (change_event_id sha ev0)) 1 q now s4 = (Inl HistoryAlreadyExists, s')"
    by (auto elim: append_once_cases)
  show thesis
    by (rule that [OF t, of x y q]) (use e q in \<open>auto simp: ev0_def\<close>)
qed

end
