(* ===== verification/Watch_Schedule.thy ===== *)
theory Watch_Schedule
  imports Change_Detection
begin

text \<open>
  Scheduled watch runs (\<open>spider/src/features/watch_schedule.rs\<close>).  Cron syntax is parsed
  by \<open>async_job\<close> and pages are fetched over the network: both are arguments.  The world of
  a run is the store together with the list of fetches performed so far; the answer of
  the network to the \<open>n\<close>-th fetch is \<open>respond n\<close>.
\<close>

record watch_schedule =
  wsch_cron_str :: string

datatype watch_schedule_error =
    InvalidCadence string
  | SchedPersistence persistence_error
  | SchedSerialization string

datatype watch_execution_error =
    NoSchedule
  | ExecWatchNotFound
  | RunAlreadyInProgress
  | ExecSchedule watch_schedule_error
  | ExecWatch watch_error
  | ExecAcquisition acquisition_binding_error
  | ExecFetch string
  | ExecEvidence evidence_ledger_error
  | ExecTransition watch_error
  | ExecPersistence persistence_error
  | ExecSerialization string

datatype scheduled_run_record = Claimed | Completed (completed_evidence: evidence_ref)

fun watch_schedule_error_display :: "watch_schedule_error \<Rightarrow> string" where
  "watch_schedule_error_display (InvalidCadence d) = ''invalid watch schedule cadence: '' @ d"
| "watch_schedule_error_display (SchedPersistence e) =
     ''watch schedule ledger: '' @ persistence_error_display e"
| "watch_schedule_error_display (SchedSerialization m) =
     ''watch schedule ledger: serialization failed: '' @ m"

fun watch_execution_error_display :: "watch_execution_error \<Rightarrow> string" where
  "watch_execution_error_display NoSchedule = ''no schedule recorded for this watch''"
| "watch_execution_error_display ExecWatchNotFound = ''no watch recorded for this identity''"
| "watch_execution_error_display RunAlreadyInProgress =
     ''this scheduled run is already claimed by another execution attempt''"
| "watch_execution_error_display (ExecSchedule e) = watch_schedule_error_display e"
| "watch_execution_error_display (ExecWatch e) = watch_error_display e"
| "watch_execution_error_display (ExecAcquisition e) = acquisition_binding_error_display e"
| "watch_execution_error_display (ExecFetch m) = ''watch acquisition failed: '' @ m"
| "watch_execution_error_display (ExecEvidence e) = evidence_ledger_error_display e"
| "watch_execution_error_display (ExecTransition e) = watch_error_display e"
| "watch_execution_error_display (ExecPersistence e) =
     ''watch execution ledger: '' @ persistence_error_display e"
| "watch_execution_error_display (ExecSerialization m) =
     ''watch execution ledger: serialization failed: '' @ m"

definition schedule_key :: "watch_id \<Rightarrow> string" where
  "schedule_key i = watch_id_to_string i @ ''#schedule''"

definition unix_seconds :: "system_time \<Rightarrow> nat" where
  "unix_seconds t = (if t < 0 then 0 else nat (t div 1000000000))"

definition run_key :: "watch_id \<Rightarrow> system_time \<Rightarrow> string" where
  "run_key i scheduled_at = watch_id_to_string i @ ''#run#'' @ show_nat (unix_seconds scheduled_at)"

section \<open>Schedules\<close>

definition define_watch_schedule ::
  "(string \<Rightarrow> string + unit) \<Rightarrow> watch_schedule codec \<Rightarrow> system_time \<Rightarrow> watch_id \<Rightarrow> string
    \<Rightarrow> (watch_schedule_error, watch_schedule) dact" where
  "define_watch_schedule parse_cron csch now i cron_str =
     act_bind (act_lift (map_err InvalidCadence (parse_cron cron_str))) (\<lambda>_.
     let schedule = \<lparr>wsch_cron_str = cron_str\<rparr> in
     act_bind (write_record csch SchedPersistence SchedSerialization (schedule_key i) schedule now) (\<lambda>_.
     act_ok schedule))"

definition read_watch_schedule ::
  "watch_schedule codec \<Rightarrow> watch_id \<Rightarrow> (watch_schedule_error, watch_schedule option) dact" where
  "read_watch_schedule csch i =
     read_first_record csch SchedPersistence SchedSerialization (schedule_key i)"

section \<open>Runs\<close>

record world =
  w_store :: domain_persistence
  w_fetches :: "acquisition_binding list"

definition with_store :: "('e, 'a) dact \<Rightarrow> (world, 'e, 'a) act" where
  "with_store m w = (case m (w_store w) of (r, s') \<Rightarrow> (r, w\<lparr>w_store := s'\<rparr>))"

definition fetch :: "(nat \<Rightarrow> acquisition_binding \<Rightarrow> string + page) \<Rightarrow> acquisition_binding
    \<Rightarrow> (world, string, page) act" where
  "fetch respond binding w =
     (respond (length (w_fetches w)) binding, w\<lparr>w_fetches := w_fetches w @ [binding]\<rparr>)"

text \<open>Everything a run takes from outside the module.\<close>

record run_env =
  re_parse_url :: url_parser
  re_deps :: evidence_deps
  re_respond :: "nat \<Rightarrow> acquisition_binding \<Rightarrow> string + page"
  re_def_codec :: "watch_definition codec"
  re_state_codec :: "watch_state codec"
  re_sched_codec :: "watch_schedule codec"
  re_bundle_codec :: "evidence_bundle codec"
  re_run_codec :: "scheduled_run_record codec"
  re_now :: system_time
  re_fresh :: evidence_id

datatype claim = Won nat | Replay evidence_ref

text \<open>
  The claim of one run identity: a first write that must find no row.  A lost claim reads
  the row that is there (the \<open>expect\<close> of the source is the \<open>None\<close> branch, which the code
  argues cannot occur).
\<close>

definition lost_claim :: "run_env \<Rightarrow> string \<Rightarrow> (watch_execution_error, claim) dact" where
  "lost_claim env key =
     act_bind (act_map_err ExecPersistence (read_current key)) (\<lambda>row.
       case row of
         None \<Rightarrow> act_err (ExecPersistence (CurrentStateConflict None))
       | Some (revision, existing) \<Rightarrow>
           act_bind (act_lift (map_err ExecSerialization (de (re_run_codec env) existing))) (\<lambda>r.
             if r = Claimed then act_err RunAlreadyInProgress
             else act_ok (Replay (completed_evidence r))))"

definition claim_run ::
  "run_env \<Rightarrow> string \<Rightarrow> (watch_execution_error, claim) dact" where
  "claim_run env key =
     act_bind (act_lift (map_err ExecSerialization (ser (re_run_codec env) Claimed))) (\<lambda>claim_payload s.
       case write_current key None claim_payload s of
         (Inr revision, s') \<Rightarrow> (Inr (Won revision), s')
       | (Inl (CurrentStateConflict actual), s') \<Rightarrow> lost_claim env key s'
       | (Inl other, s') \<Rightarrow> (Inl (ExecPersistence other), s'))"

definition execute_claimed ::
  "run_env \<Rightarrow> watch_id \<Rightarrow> string \<Rightarrow> nat \<Rightarrow> watch_definition \<Rightarrow> transport_request
    \<Rightarrow> (world, watch_execution_error, evidence_ref) act" where
  "execute_claimed env i key claim_revision def req =
     act_bind (act_lift (map_err ExecAcquisition
         (bind_target (re_parse_url env) (wd_target def) req))) (\<lambda>binding.
     act_bind (act_map_err ExecFetch (fetch (re_respond env) binding)) (\<lambda>page.
     let content = Option.bind (pg_bytes page) str_from_utf8;
         bundle = build_evidence (re_deps env) page content False False in
     act_bind (with_store (act_map_err ExecEvidence
         (record_evidence (re_bundle_codec env) (re_fresh env) (re_now env) bundle))) (\<lambda>recorded.
     let evidence_ref = EvidenceRef (case eb_id recorded of Some e \<Rightarrow> e | None \<Rightarrow> re_fresh env) in
     act_bind (with_store (act_map_err ExecTransition
         (apply_watch_transition (re_state_codec env) i (re_now env) (Observe evidence_ref)))) (\<lambda>_.
     act_bind (act_lift (map_err ExecSerialization
         (ser (re_run_codec env) (Completed evidence_ref)))) (\<lambda>completed_payload.
     act_bind (with_store (act_map_err ExecPersistence
         (write_current key (Some claim_revision) completed_payload))) (\<lambda>_.
     act_ok evidence_ref))))))"

definition execute_scheduled_watch_run ::
  "run_env \<Rightarrow> watch_id \<Rightarrow> system_time \<Rightarrow> transport_request
    \<Rightarrow> (world, watch_execution_error, evidence_ref) act" where
  "execute_scheduled_watch_run env i scheduled_at req =
     act_bind (with_store (act_map_err ExecSchedule (read_watch_schedule (re_sched_codec env) i))) (\<lambda>sched.
     act_bind (act_lift (ok_or NoSchedule sched)) (\<lambda>_.
     act_bind (with_store (act_map_err ExecWatch (read_watch_definition (re_def_codec env) i))) (\<lambda>found.
     act_bind (act_lift (ok_or ExecWatchNotFound found)) (\<lambda>def.
     act_bind (with_store (claim_run env (run_key i scheduled_at))) (\<lambda>claim.
     case claim of
       Replay evidence \<Rightarrow> act_ok evidence
     | Won claim_revision \<Rightarrow>
         execute_claimed env i (run_key i scheduled_at) claim_revision def req)))))"

section \<open>Lemmas\<close>

lemma frame_with_store: "frame tables m \<Longrightarrow> frame (\<lambda>w. tables (w_store w)) (with_store m)"
  by (auto simp: frame_def with_store_def split: prod.splits) (metis snd_conv)

lemma with_store_fetches [frame_intro]: "frame w_fetches (with_store m)"
  by (simp add: frame_def with_store_def split: prod.splits)

lemma frame_read_watch_schedule [frame_intro]: "frame tables (read_watch_schedule c i)"
  unfolding read_watch_schedule_def by (rule frame_read_first)

lemma with_store_Inr:
  "with_store m w = (Inr x, w') \<longleftrightarrow>
     (\<exists>s'. m (w_store w) = (Inr x, s') \<and> w' = w\<lparr>w_store := s'\<rparr>)"
  by (auto simp: with_store_def split: prod.splits)

lemma with_store_Inl:
  "with_store m w = (Inl x, w') \<longleftrightarrow>
     (\<exists>s'. m (w_store w) = (Inl x, s') \<and> w' = w\<lparr>w_store := s'\<rparr>)"
  by (auto simp: with_store_def split: prod.splits)

lemma run_key_inj [simp]:
  "run_key i t = run_key j u \<longleftrightarrow> i = j \<and> unix_seconds t = unix_seconds u"
  using append_sep_eq [where x = "CHR ''#''" and xs = "watch_id_to_string i"
      and ys = "watch_id_to_string j" and us = "''run#'' @ show_nat (unix_seconds t)"
      and vs = "''run#'' @ show_nat (unix_seconds u)"]
  by (simp add: run_key_def)

lemma hash_in_keys:
  "CHR ''#'' \<in> set (run_key i t)" "CHR ''#'' \<in> set (schedule_key i)" "CHR ''#'' \<in> set (definition_key i)"
  by (simp_all add: run_key_def schedule_key_def definition_key_def)

lemma schedule_keys_apart [simp]:
  "run_key i t \<noteq> watch_id_to_string j" "watch_id_to_string j \<noteq> run_key i t"
  "run_key i t \<noteq> evidence_id_to_string e" "evidence_id_to_string e \<noteq> run_key i t"
  "schedule_key i \<noteq> watch_id_to_string j" "watch_id_to_string j \<noteq> schedule_key i"
  "schedule_key i \<noteq> evidence_id_to_string e" "evidence_id_to_string e \<noteq> schedule_key i"
  using hash_in_keys hash_notin_ids by metis+

lemma watch_suffix_eq [simp]:
  "watch_id_to_string i @ CHR ''#'' # us = watch_id_to_string j @ CHR ''#'' # vs \<longleftrightarrow> i = j \<and> us = vs"
  using append_sep_eq [OF hash_notin_ids(3) hash_notin_ids(3)] by simp

lemma suffix_keys_apart [simp]:
  "schedule_key i = schedule_key j \<longleftrightarrow> i = j"
  "schedule_key i \<noteq> definition_key j" "definition_key j \<noteq> schedule_key i"
  "run_key i t \<noteq> definition_key j" "definition_key j \<noteq> run_key i t"
  "run_key i t \<noteq> schedule_key j" "schedule_key j \<noteq> run_key i t"
  unfolding schedule_key_def definition_key_def run_key_def by auto

text \<open>A claim that is won wrote the first row of its key; any other outcome wrote nothing.\<close>

lemma frame_lost_claim [frame_intro]: "frame tables (lost_claim env key)"
  unfolding lost_claim_def by (intro frame_intro)

lemma lost_claim_Inr:
  "lost_claim env key s = (Inr x, s') \<Longrightarrow> \<exists>r p e. x = Replay e \<and> current_rows s key = Some (r, p)
     \<and> de (re_run_codec env) p = Inr (Completed e)"
  by (auto simp: lost_claim_def act_bind_Inr_iff act_map_err_Inr_iff map_err_def
      split: option.splits if_splits sum.splits dest!: read_current_Inr)
     (metis scheduled_run_record.exhaust_sel)

lemma claim_run_Won:
  assumes "claim_run env key s = (Inr (Won r), s')"
  obtains p where "ser (re_run_codec env) Claimed = Inr p" "write_current key None p s = (Inr r, s')"
proof -
  from assms obtain p where p: "ser (re_run_codec env) Claimed = Inr p"
    by (cases "ser (re_run_codec env) Claimed") (auto simp: claim_run_def act_bind_lift)
  obtain x t where w: "write_current key None p s = (x, t)" by fastforce
  have "x = Inr r \<and> t = s'"
    using assms p w
    by (cases x) (auto simp: claim_run_def act_bind_lift split: persistence_error.splits
        dest: lost_claim_Inr)
  with p w that show thesis by blast
qed

lemma claim_run_not_Won:
  assumes "claim_run env key s = (res, s')" "\<And>r. res \<noteq> Inr (Won r)"
  shows "tables s' = tables s"
proof (cases "ser (re_run_codec env) Claimed")
  case (Inl m)
  with assms show ?thesis by (simp add: claim_run_def act_bind_lift)
next
  case (Inr p)
  obtain x t where w: "write_current key None p s = (x, t)" by fastforce
  with assms Inr obtain err where x: "x = Inl err" by (cases x) (auto simp: claim_run_def act_bind_lift)
  have "tables t = tables s" using write_current_Inl w x by blast
  then show ?thesis
    using assms(1) Inr w x frameD [OF frame_lost_claim]
    by (cases err) (auto simp: claim_run_def act_bind_lift)
qed

end
