(* ===== verification/Watch_Health.thy ===== *)
theory Watch_Health
  imports Watch_Schedule
begin

text \<open>
  The observational health report of a watch (\<open>spider/src/features/watch_health.rs\<close>).
\<close>

datatype health_status = Unknown | Healthy | Degraded | Failed

datatype change_detection_readiness =
    TypeLevelReady
  | ProductionExercised (pe_status: health_status) (pe_event: change_event_id)

record watch_health_report =
  whr_watch :: watch_id
  whr_scheduling :: health_status
  whr_execution :: health_status
  whr_evidence :: health_status
  whr_change_detection :: change_detection_readiness

datatype watch_health_error =
    HealthWatchNotFound
  | HealthWatch watch_error
  | HealthSchedule watch_schedule_error
  | HealthEvidence evidence_ledger_error
  | HealthChangeDetection change_detection_error
  | HealthPersistence persistence_error
  | HealthSerialization string

fun watch_health_error_display :: "watch_health_error \<Rightarrow> string" where
  "watch_health_error_display HealthWatchNotFound = ''no watch recorded for this identity''"
| "watch_health_error_display (HealthWatch e) = watch_error_display e"
| "watch_health_error_display (HealthSchedule e) = watch_schedule_error_display e"
| "watch_health_error_display (HealthEvidence e) = evidence_ledger_error_display e"
| "watch_health_error_display (HealthChangeDetection e) = change_detection_error_display e"
| "watch_health_error_display (HealthPersistence e) = ''watch health: '' @ persistence_error_display e"
| "watch_health_error_display (HealthSerialization m) =
     ''watch health: watch history decode failed: '' @ m"

definition ordered_watch_evidence ::
  "watch_state codec \<Rightarrow> watch_id \<Rightarrow> (watch_health_error, evidence_ref list) dact" where
  "ordered_watch_evidence cs i =
     act_bind (act_map_err HealthPersistence (read_history (watch_id_to_string i))) (\<lambda>history.
     act_bind (act_lift (map_err HealthSerialization (decode_states cs history))) (\<lambda>states.
     act_bind (act_map_err HealthWatch (read_current_watch_state cs i)) (\<lambda>cur.
     act_ok (concat (map evidence_list states)
             @ (case cur of None \<Rightarrow> [] | Some (revision, st) \<Rightarrow> evidence_list st)))))"

definition assess_execution :: "evidence_ref list \<Rightarrow> health_status" where
  "assess_execution ordered_evidence = (if ordered_evidence = [] then Unknown else Healthy)"

definition assess_scheduling ::
  "watch_schedule codec \<Rightarrow> watch_id \<Rightarrow> (watch_health_error, health_status) dact" where
  "assess_scheduling csch i =
     act_bind (act_map_err HealthSchedule (read_watch_schedule csch i)) (\<lambda>sched.
       case sched of Some _ \<Rightarrow> act_ok Healthy | None \<Rightarrow> act_ok Unknown)"

definition resolves :: "evidence_bundle codec \<Rightarrow> evidence_ref \<Rightarrow> (watch_health_error, bool) dact" where
  "resolves ce e = act_bind (act_map_err HealthEvidence (resolve ce e)) (\<lambda>b. act_ok (b \<noteq> None))"

fun all_historical_resolve ::
  "evidence_bundle codec \<Rightarrow> evidence_ref list \<Rightarrow> (watch_health_error, health_status) dact" where
  "all_historical_resolve ce [] = act_ok Healthy"
| "all_historical_resolve ce (e # es) =
     act_bind (resolves ce e) (\<lambda>ok. if \<not> ok then act_ok Degraded else all_historical_resolve ce es)"

definition assess_evidence ::
  "evidence_bundle codec \<Rightarrow> evidence_ref list \<Rightarrow> (watch_health_error, health_status) dact" where
  "assess_evidence ce ordered_evidence =
     (if ordered_evidence = [] then act_ok Unknown
      else act_bind (resolves ce (last ordered_evidence)) (\<lambda>current_resolves.
        if \<not> current_resolves then act_ok Failed
        else all_historical_resolve ce (butlast ordered_evidence)))"

definition assess_change_detection ::
  "(bytes \<Rightarrow> string) \<Rightarrow> change_event codec \<Rightarrow> watch_id \<Rightarrow> evidence_ref list
    \<Rightarrow> (watch_health_error, change_detection_readiness) dact" where
  "assess_change_detection sha cc i ordered_evidence =
     (if length ordered_evidence < 2 then act_ok TypeLevelReady
      else
        let previous_evidence = ordered_evidence ! (length ordered_evidence - 2);
            current_evidence = ordered_evidence ! (length ordered_evidence - 1);
            cid = derive_change_id sha i previous_evidence current_evidence
        in act_bind (act_map_err HealthChangeDetection (read_change_event cc cid)) (\<lambda>found.
             case found of
               Some event \<Rightarrow>
                 (let status = (case ce_result event of
                      Changed _ _ _ \<Rightarrow> Healthy
                    | Unchanged _ \<Rightarrow> Healthy
                    | Uncomparable _ \<Rightarrow> Degraded)
                  in act_ok (ProductionExercised status cid))
             | None \<Rightarrow> act_ok TypeLevelReady))"

definition assess_watch_health ::
  "(bytes \<Rightarrow> string) \<Rightarrow> watch_definition codec \<Rightarrow> watch_state codec \<Rightarrow> watch_schedule codec
    \<Rightarrow> evidence_bundle codec \<Rightarrow> change_event codec \<Rightarrow> watch_id
    \<Rightarrow> (watch_health_error, watch_health_report) dact" where
  "assess_watch_health sha cd cs csch ce cc i =
     act_bind (act_map_err HealthWatch (read_watch_definition cd i)) (\<lambda>def.
     act_bind (act_lift (ok_or HealthWatchNotFound def)) (\<lambda>_.
     act_bind (assess_scheduling csch i) (\<lambda>scheduling.
     act_bind (ordered_watch_evidence cs i) (\<lambda>ordered_evidence.
     let execution = assess_execution ordered_evidence in
     act_bind (assess_evidence ce ordered_evidence) (\<lambda>evidence.
     act_bind (assess_change_detection sha cc i ordered_evidence) (\<lambda>change_detection.
     act_ok \<lparr>whr_watch = i, whr_scheduling = scheduling, whr_execution = execution,
             whr_evidence = evidence, whr_change_detection = change_detection\<rparr>))))))"

section \<open>Lemmas\<close>

lemma frame_resolves [frame_intro]: "frame tables (resolves ce e)"
  unfolding resolves_def by (intro frame_intro)

lemma frame_all_historical [frame_intro]: "frame tables (all_historical_resolve ce es)"
  by (induction es) (auto intro!: frame_intro)

lemma frame_assess [frame_intro]:
  "frame tables (ordered_watch_evidence cs i)" "frame tables (assess_scheduling csch i)"
  "frame tables (assess_evidence ce es)" "frame tables (assess_change_detection sha cc i es)"
  unfolding ordered_watch_evidence_def assess_scheduling_def assess_evidence_def
    assess_change_detection_def Let_def
  by (intro frame_intro)+

lemma frame_assess_watch_health [frame_intro]:
  "frame tables (assess_watch_health sha cd cs csch ce cc i)"
  unfolding assess_watch_health_def Let_def by (intro frame_intro)

text \<open>What a healthy store says about one reference.\<close>

definition ledger_state :: "evidence_bundle codec \<Rightarrow> domain_persistence \<Rightarrow> evidence_ref
    \<Rightarrow> evidence_ledger_error + evidence_bundle option" where
  "ledger_state ce s e = fst (resolve ce e s)"

lemma resolve_healthy: "healthy s \<Longrightarrow> snd (resolve ce e s) = s"
  by (auto simp: resolve_def read_evidence_def read_first_record_def act_bind_def act_map_err_def
      split: list.splits sum.splits)

lemma resolves_healthy:
  "healthy s \<Longrightarrow> ledger_state ce s e = Inr b \<Longrightarrow> resolves ce e s = (Inr (b \<noteq> None), s)"
  using resolve_healthy [of s ce e]
  by (cases "resolve ce e s") (simp add: resolves_def ledger_state_def act_bind_def act_map_err_def)

lemma all_historical_healthy:
  assumes "healthy s" "\<And>e. e \<in> set es \<Longrightarrow> \<exists>b. ledger_state ce s e = Inr b"
  shows "all_historical_resolve ce es s =
    (Inr (if \<exists>e \<in> set es. ledger_state ce s e = Inr None then Degraded else Healthy), s)"
  using assms(2)
proof (induction es)
  case (Cons e es)
  then obtain b where b: "ledger_state ce s e = Inr b" by auto
  show ?case
    using Cons b resolves_healthy [OF assms(1) b]
    by (cases b) (auto simp: act_bind_def)
qed simp

end
