(* ===== verification/Auth_Session.thy ===== *)
theory Auth_Session
  imports Durable Identity
begin

text \<open>
  Authenticated sessions (\<open>spider/src/features/auth_session.rs\<close>): the pause, resume and
  invalidate lifecycle guarded by a continuity token, and its durable operations.
\<close>

section \<open>States and transitions\<close>

datatype authentication_profile =
    AuthNone | FormLogin | BasicAuth | BearerToken | CookieSession | OAuth | InteractiveBrowser

datatype browser_continuity_token = BrowserContinuityToken (token_str: string)

datatype auth_session_state =
    SessActive (sess_origin: string) (sess_profile: authentication_profile)
  | SessPaused (sess_origin: string) (sess_profile: authentication_profile)
      (sess_continuity: browser_continuity_token)
  | SessInvalidated (sess_origin: string) (sess_profile: authentication_profile)

fun session_kind :: "auth_session_state \<Rightarrow> string" where
  "session_kind (SessActive _ _) = ''active''"
| "session_kind (SessPaused _ _ _) = ''paused''"
| "session_kind (SessInvalidated _ _) = ''invalidated''"

datatype auth_session_transition_rejected =
    InvalidFromState (attempted: string) (from_state: string)
  | ContinuityMismatch
  | SessTerminal

fun auth_session_transition_rejected_display :: "auth_session_transition_rejected \<Rightarrow> string" where
  "auth_session_transition_rejected_display (InvalidFromState a f) =
     a @ '' does not apply from state '' @ f"
| "auth_session_transition_rejected_display ContinuityMismatch =
     ''resume rejected: presented continuity token does not match the token recorded at pause time''"
| "auth_session_transition_rejected_display SessTerminal =
     ''session is invalidated; no transition applies''"

fun pause_session ::
  "browser_continuity_token \<Rightarrow> auth_session_state
    \<Rightarrow> auth_session_transition_rejected + auth_session_state" where
  "pause_session tok (SessActive org prof) = Inr (SessPaused org prof tok)"
| "pause_session tok (SessInvalidated _ _) = Inl SessTerminal"
| "pause_session tok other = Inl (InvalidFromState ''pause'' (session_kind other))"

fun resume_session ::
  "browser_continuity_token \<Rightarrow> auth_session_state
    \<Rightarrow> auth_session_transition_rejected + auth_session_state" where
  "resume_session tok (SessPaused org prof continuity) =
     (if continuity = tok then Inr (SessActive org prof) else Inl ContinuityMismatch)"
| "resume_session tok (SessInvalidated _ _) = Inl SessTerminal"
| "resume_session tok other = Inl (InvalidFromState ''resume'' (session_kind other))"

fun invalidate_session ::
  "auth_session_state \<Rightarrow> auth_session_transition_rejected + auth_session_state" where
  "invalidate_session (SessActive org prof) = Inr (SessInvalidated org prof)"
| "invalidate_session (SessPaused org prof _) = Inr (SessInvalidated org prof)"
| "invalidate_session (SessInvalidated _ _) = Inl SessTerminal"

datatype session_transition =
    Pause browser_continuity_token | Resume browser_continuity_token | Invalidate

fun session_step ::
  "session_transition \<Rightarrow> auth_session_state
    \<Rightarrow> auth_session_transition_rejected + auth_session_state" where
  "session_step (Pause tok) = pause_session tok"
| "session_step (Resume tok) = resume_session tok"
| "session_step Invalidate = invalidate_session"

section \<open>Operations\<close>

datatype auth_session_error =
    SessNotFound
  | SessTransitionRejected auth_session_transition_rejected
  | SessConcurrentModification
  | SessPersistence persistence_error
  | SessSerialization string

fun auth_session_error_display :: "auth_session_error \<Rightarrow> string" where
  "auth_session_error_display SessNotFound = ''no authenticated session recorded''"
| "auth_session_error_display (SessTransitionRejected r) = auth_session_transition_rejected_display r"
| "auth_session_error_display SessConcurrentModification =
     ''session state changed concurrently; retry with a fresh read''"
| "auth_session_error_display (SessPersistence e) =
     ''auth session ledger: '' @ persistence_error_display e"
| "auth_session_error_display (SessSerialization m) =
     ''auth session ledger: state serialization failed: '' @ m"

definition session_errors :: "(auth_session_error, auth_session_transition_rejected) transition_errors" where
  "session_errors = \<lparr>te_not_found = SessNotFound, te_rejected = SessTransitionRejected,
     te_concurrent = SessConcurrentModification, te_persistence = SessPersistence,
     te_serialization = SessSerialization\<rparr>"

definition create_session ::
  "auth_session_state codec \<Rightarrow> auth_session_id \<Rightarrow> string \<Rightarrow> authentication_profile
    \<Rightarrow> (auth_session_error, auth_session_id \<times> auth_session_state) dact" where
  "create_session c fresh org prof =
     (let i = fresh; state = SessActive org prof in
      act_bind (act_lift (map_err SessSerialization (ser c state))) (\<lambda>payload.
      act_bind (act_map_err SessPersistence
          (write_current (auth_session_id_to_string i) None payload)) (\<lambda>_.
      act_ok (i, state))))"

definition read_current_session ::
  "auth_session_state codec \<Rightarrow> auth_session_id
    \<Rightarrow> (auth_session_error, (nat \<times> auth_session_state) option) dact" where
  "read_current_session c i =
     read_current_as c SessPersistence SessSerialization (auth_session_id_to_string i)"

definition apply_session_transition ::
  "auth_session_state codec \<Rightarrow> auth_session_id \<Rightarrow> system_time \<Rightarrow> session_transition
    \<Rightarrow> (auth_session_error, auth_session_state) dact" where
  "apply_session_transition c i now t =
     apply_durable c session_errors (auth_session_id_to_string i) i now (session_step t)"

section \<open>The lifecycle contract\<close>

definition session_terminal :: "auth_session_state \<Rightarrow> bool" where
  "session_terminal st = (case st of SessInvalidated _ _ \<Rightarrow> True | _ \<Rightarrow> False)"

definition session_owner :: "auth_session_state \<Rightarrow> string \<times> authentication_profile" where
  "session_owner st = (sess_origin st, sess_profile st)"

interpretation session_life: lifecycle session_step session_terminal session_owner
proof
  fix st t
  assume "session_terminal st"
  then show "\<exists>r. session_step t st = Inl r"
    by (cases st; cases t) (auto simp: session_terminal_def)
next
  fix t st st'
  assume "session_step t st = Inr st'"
  then show "session_owner st' = session_owner st"
    by (cases st; cases t) (auto simp: session_owner_def split: if_splits)
qed

definition session_inv :: "auth_session_state codec \<Rightarrow> auth_session_id \<Rightarrow> domain_persistence \<Rightarrow> bool" where
  "session_inv c i = entity_inv c (range session_step) (auth_session_id_to_string i)"

lemma create_session_correct:
  assumes "codec_ok c" "session_inv c fresh s"
    and "create_session c fresh org prof s = (Inr (i, st), s')"
  shows "i = fresh \<and> st = SessActive org prof \<and> session_inv c i s'"
  using assms entity_inv_created
  by (auto simp: create_session_def Let_def act_bind_Inr_iff act_map_err_Inr_iff session_inv_def)

lemma apply_session_inv:
  assumes "codec_ok c" "session_inv c i s" "apply_session_transition c i now t s = (Inr st, s')"
  shows "session_inv c i s'"
  using entity_inv_applied [OF assms(1) assms(2) [unfolded session_inv_def], of "session_step t"] assms(3)
  by (auto simp: apply_session_transition_def session_inv_def)

text \<open>Every pair of consecutive states of a chain has the same origin and profile.\<close>

lemma chained_owner:
  "chained (range session_step) sts \<Longrightarrow> a \<in> set sts \<Longrightarrow> b \<in> set sts \<Longrightarrow> session_owner a = session_owner b"
proof (induction "range session_step" sts arbitrary: a b rule: chained.induct)
  case (1 x y xs)
  have xy: "session_owner y = session_owner x"
    using 1(2) session_life.owner_kept by force
  have tail: "session_owner u = session_owner v" if "u \<in> set (y # xs)" "v \<in> set (y # xs)" for u v
    using 1(1) [OF _ that] 1(2) by simp
  have "session_owner u = session_owner y" if "u \<in> set (x # y # xs)" for u
    using that xy tail by (metis list.set_intros(1) set_ConsD)
  then show ?case using 1(3,4) by metis
qed auto

end
