(* ===== verification/Agent_Usage.thy ===== *)
theory Agent_Usage
  imports Prelude Rust_Str
begin

text \<open>
  Usage accounting of the agent (\<open>spider_agent/src/config.rs\<close>): the limits a caller may set,
  the atomic counters, and the checks made before each call.  Counters are \<open>u64\<close>; an
  \<open>AtomicU64::fetch_add\<close> wraps, so they are words.  The two-counter sum of
  \<open>total_tokens\<close> and \<open>check_token_limits\<close> is an ordinary \<open>+\<close>, which wraps in a release
  build.  The per-tool counters (a concurrent map) are an association list in the order
  of first use; \<open>sum\<close> over them wraps as well.
\<close>

type_synonym u64 = "64 word"

record usage_limits =
  max_total_tokens :: "u64 option"
  max_prompt_tokens :: "u64 option"
  max_completion_tokens :: "u64 option"
  max_llm_calls :: "u64 option"
  max_search_calls :: "u64 option"
  max_fetch_calls :: "u64 option"
  max_webbrowser_calls :: "u64 option"
  max_custom_tool_calls :: "u64 option"
  max_tool_calls :: "u64 option"

definition usage_limits_new :: usage_limits where
  "usage_limits_new = \<lparr>max_total_tokens = None, max_prompt_tokens = None,
     max_completion_tokens = None, max_llm_calls = None, max_search_calls = None,
     max_fetch_calls = None, max_webbrowser_calls = None, max_custom_tool_calls = None,
     max_tool_calls = None\<rparr>"

datatype limit_type =
    TotalTokens (lt_used: u64) (lt_limit: u64)
  | PromptTokens (lt_used: u64) (lt_limit: u64)
  | CompletionTokens (lt_used: u64) (lt_limit: u64)
  | LlmCalls (lt_used: u64) (lt_limit: u64)
  | SearchCalls (lt_used: u64) (lt_limit: u64)
  | FetchCalls (lt_used: u64) (lt_limit: u64)
  | WebbrowserCalls (lt_used: u64) (lt_limit: u64)
  | CustomToolCalls (lt_used: u64) (lt_limit: u64)
  | ToolCalls (lt_used: u64) (lt_limit: u64)

definition used_of_limit :: "u64 \<Rightarrow> u64 \<Rightarrow> string" where
  "used_of_limit used limit = '' ('' @ show_nat (unat used) @ '' used, '' @ show_nat (unat limit) @ '' limit)''"

fun limit_type_display :: "limit_type \<Rightarrow> string" where
  "limit_type_display (TotalTokens used limit) = ''total tokens'' @ used_of_limit used limit"
| "limit_type_display (PromptTokens used limit) = ''prompt tokens'' @ used_of_limit used limit"
| "limit_type_display (CompletionTokens used limit) = ''completion tokens'' @ used_of_limit used limit"
| "limit_type_display (LlmCalls used limit) = ''LLM calls'' @ used_of_limit used limit"
| "limit_type_display (SearchCalls used limit) = ''search calls'' @ used_of_limit used limit"
| "limit_type_display (FetchCalls used limit) = ''fetch calls'' @ used_of_limit used limit"
| "limit_type_display (WebbrowserCalls used limit) = ''web browser calls'' @ used_of_limit used limit"
| "limit_type_display (CustomToolCalls used limit) = ''custom tool calls'' @ used_of_limit used limit"
| "limit_type_display (ToolCalls used limit) = ''tool calls'' @ used_of_limit used limit"

record usage_stats =
  us_prompt_tokens :: u64
  us_completion_tokens :: u64
  us_llm_calls :: u64
  us_search_calls :: u64
  us_fetch_calls :: u64
  us_webbrowser_calls :: u64
  us_custom_tool_calls :: "(string \<times> u64) list"
  us_tool_calls :: u64

definition usage_stats_new :: usage_stats where
  "usage_stats_new = \<lparr>us_prompt_tokens = 0, us_completion_tokens = 0, us_llm_calls = 0,
     us_search_calls = 0, us_fetch_calls = 0, us_webbrowser_calls = 0,
     us_custom_tool_calls = [], us_tool_calls = 0\<rparr>"

section \<open>Counting\<close>

definition add_tokens :: "u64 \<Rightarrow> u64 \<Rightarrow> usage_stats \<Rightarrow> usage_stats" where
  "add_tokens prompt completion u =
     u\<lparr>us_prompt_tokens := us_prompt_tokens u + prompt,
       us_completion_tokens := us_completion_tokens u + completion\<rparr>"

definition increment_llm_calls :: "usage_stats \<Rightarrow> usage_stats" where
  "increment_llm_calls u = u\<lparr>us_llm_calls := us_llm_calls u + 1\<rparr>"

definition increment_search_calls :: "usage_stats \<Rightarrow> usage_stats" where
  "increment_search_calls u = u\<lparr>us_search_calls := us_search_calls u + 1\<rparr>"

definition increment_fetch_calls :: "usage_stats \<Rightarrow> usage_stats" where
  "increment_fetch_calls u = u\<lparr>us_fetch_calls := us_fetch_calls u + 1\<rparr>"

definition increment_webbrowser_calls :: "usage_stats \<Rightarrow> usage_stats" where
  "increment_webbrowser_calls u = u\<lparr>us_webbrowser_calls := us_webbrowser_calls u + 1\<rparr>"

definition increment_tool_calls :: "usage_stats \<Rightarrow> usage_stats" where
  "increment_tool_calls u = u\<lparr>us_tool_calls := us_tool_calls u + 1\<rparr>"

text \<open>\<open>entry(name).or_insert_with(0).fetch_add(1)\<close>.\<close>

fun bump_entry :: "string \<Rightarrow> (string \<times> u64) list \<Rightarrow> (string \<times> u64) list" where
  "bump_entry name [] = [(name, 1)]"
| "bump_entry name ((k, n) # rest) = (if k = name then (k, n + 1) # rest else (k, n) # bump_entry name rest)"

definition increment_custom_tool_calls :: "string \<Rightarrow> usage_stats \<Rightarrow> usage_stats" where
  "increment_custom_tool_calls tool_name u =
     u\<lparr>us_custom_tool_calls := bump_entry tool_name (us_custom_tool_calls u)\<rparr>"

definition get_custom_tool_calls :: "string \<Rightarrow> usage_stats \<Rightarrow> u64" where
  "get_custom_tool_calls tool_name u =
     (case map_of (us_custom_tool_calls u) tool_name of None \<Rightarrow> 0 | Some n \<Rightarrow> n)"

definition total_custom_tool_calls :: "usage_stats \<Rightarrow> u64" where
  "total_custom_tool_calls u = sum_list (map snd (us_custom_tool_calls u))"

definition total_tokens :: "usage_stats \<Rightarrow> u64" where
  "total_tokens u = us_prompt_tokens u + us_completion_tokens u"

definition reset_usage :: "usage_stats \<Rightarrow> usage_stats" where
  "reset_usage u = u\<lparr>us_prompt_tokens := 0, us_completion_tokens := 0, us_llm_calls := 0,
     us_search_calls := 0, us_fetch_calls := 0, us_webbrowser_calls := 0,
     us_custom_tool_calls := [], us_tool_calls := 0\<rparr>"

section \<open>Limit checks\<close>

definition check_llm_limit :: "usage_stats \<Rightarrow> usage_limits \<Rightarrow> limit_type option" where
  "check_llm_limit u limits =
     (case max_llm_calls limits of
        None \<Rightarrow> None
      | Some limit \<Rightarrow> let used = us_llm_calls u in
          if limit \<le> used then Some (LlmCalls used limit) else None)"

definition check_search_limit :: "usage_stats \<Rightarrow> usage_limits \<Rightarrow> limit_type option" where
  "check_search_limit u limits =
     (case max_search_calls limits of
        None \<Rightarrow> None
      | Some limit \<Rightarrow> let used = us_search_calls u in
          if limit \<le> used then Some (SearchCalls used limit) else None)"

definition check_fetch_limit :: "usage_stats \<Rightarrow> usage_limits \<Rightarrow> limit_type option" where
  "check_fetch_limit u limits =
     (case max_fetch_calls limits of
        None \<Rightarrow> None
      | Some limit \<Rightarrow> let used = us_fetch_calls u in
          if limit \<le> used then Some (FetchCalls used limit) else None)"

definition check_webbrowser_limit :: "usage_stats \<Rightarrow> usage_limits \<Rightarrow> limit_type option" where
  "check_webbrowser_limit u limits =
     (case max_webbrowser_calls limits of
        None \<Rightarrow> None
      | Some limit \<Rightarrow> let used = us_webbrowser_calls u in
          if limit \<le> used then Some (WebbrowserCalls used limit) else None)"

definition check_custom_tool_limit :: "usage_stats \<Rightarrow> usage_limits \<Rightarrow> limit_type option" where
  "check_custom_tool_limit u limits =
     (case max_custom_tool_calls limits of
        None \<Rightarrow> None
      | Some limit \<Rightarrow> let used = total_custom_tool_calls u in
          if limit \<le> used then Some (CustomToolCalls used limit) else None)"

definition check_tool_limit :: "usage_stats \<Rightarrow> usage_limits \<Rightarrow> limit_type option" where
  "check_tool_limit u limits =
     (case max_tool_calls limits of
        None \<Rightarrow> None
      | Some limit \<Rightarrow> let used = us_tool_calls u in
          if limit \<le> used then Some (ToolCalls used limit) else None)"

definition exceeds :: "u64 option \<Rightarrow> u64 \<Rightarrow> (u64 \<Rightarrow> u64 \<Rightarrow> limit_type) \<Rightarrow> limit_type option" where
  "exceeds m used f = (case m of None \<Rightarrow> None | Some limit \<Rightarrow> if limit \<le> used then Some (f used limit) else None)"

definition check_token_limits :: "usage_stats \<Rightarrow> usage_limits \<Rightarrow> limit_type option" where
  "check_token_limits u limits =
     (let prompt = us_prompt_tokens u;
          completion = us_completion_tokens u;
          total = prompt + completion
      in case exceeds (max_total_tokens limits) total TotalTokens of
           Some l \<Rightarrow> Some l
         | None \<Rightarrow>
             (case exceeds (max_prompt_tokens limits) prompt PromptTokens of
                Some l \<Rightarrow> Some l
              | None \<Rightarrow> exceeds (max_completion_tokens limits) completion CompletionTokens))"

section \<open>Lemmas\<close>

lemma map_of_bump_entry:
  "map_of (bump_entry name m) k =
     (if k = name then Some ((case map_of m name of None \<Rightarrow> 0 | Some n \<Rightarrow> n) + 1) else map_of m k)"
  by (induction name m rule: bump_entry.induct) auto

lemma sum_bump_entry: "sum_list (map snd (bump_entry name m)) = sum_list (map snd m) + 1"
  by (induction name m rule: bump_entry.induct) (auto simp: algebra_simps)

lemma keys_bump_entry:
  "distinct (map fst m) \<Longrightarrow> distinct (map fst (bump_entry name m))"
proof -
  have "set (map fst (bump_entry name m)) = insert name (set (map fst m))" for m
    by (induction name m rule: bump_entry.induct) auto
  moreover assume "distinct (map fst m)"
  ultimately show ?thesis
    by (induction name m rule: bump_entry.induct) auto
qed

end
