(* ===== verification/Research_Excerpt.thy ===== *)
theory Research_Excerpt
  imports Rust_Str
begin

text \<open>
  The bounded excerpt of an acquired document that is shown to a language model
  (\<open>select_bounded_research_markdown\<close> and its helpers, \<open>spider_agent/src/agent.rs\<close>).  A document
  is its UTF-8 bytes and positions are byte offsets.  A Rust slice \<open>&content[a..b]\<close>
  panics unless \<open>a \<le> b \<le> len\<close> and both are character boundaries: \<open>str_slice\<close> is \<open>None\<close> then,
  and the functions that slice return an option.  \<open>saturating_sub\<close> is subtraction on
  naturals; lengths of strings in memory do not reach the bound of \<open>usize\<close>.
\<close>

section \<open>Character boundaries and slices\<close>

definition is_char_boundary :: "string \<Rightarrow> nat \<Rightarrow> bool" where
  "is_char_boundary s i \<longleftrightarrow> i = 0 \<or> i = length s \<or> i < length s \<and> \<not> continuation_byte (s ! i)"

definition str_slice :: "string \<Rightarrow> nat \<Rightarrow> nat \<Rightarrow> string option" where
  "str_slice s a b =
     (if a \<le> b \<and> b \<le> length s \<and> is_char_boundary s a \<and> is_char_boundary s b
      then Some (take (b - a) (drop a s)) else None)"

text \<open>\<open>str::find\<close> and \<open>str::rfind\<close> with a string pattern.\<close>

definition match_at :: "string \<Rightarrow> string \<Rightarrow> nat \<Rightarrow> bool" where
  "match_at pat s i = (take (length pat) (drop i s) = pat)"

definition find_str :: "string \<Rightarrow> string \<Rightarrow> nat option" where
  "find_str pat s = find (match_at pat s) [0..<length s + 1]"

definition rfind_str :: "string \<Rightarrow> string \<Rightarrow> nat option" where
  "rfind_str pat s = find (match_at pat s) (rev [0..<length s + 1])"

definition newline :: string where "newline = [CHR 0x0A]"

fun boundary_down :: "string \<Rightarrow> nat \<Rightarrow> nat" where
  "boundary_down s i = (if 0 < i \<and> \<not> is_char_boundary s i then boundary_down s (i - 1) else i)"

function boundary_up :: "string \<Rightarrow> nat \<Rightarrow> nat" where
  "boundary_up s i = (if i < length s \<and> \<not> is_char_boundary s i then boundary_up s (i + 1) else i)"
  by pat_completeness auto
termination
  by (relation "measure (\<lambda>(s, i). length s - i)") auto

declare boundary_down.simps [simp del] boundary_up.simps [simp del]

definition utf8_boundary_at_or_before :: "string \<Rightarrow> nat \<Rightarrow> nat" where
  "utf8_boundary_at_or_before content offset = boundary_down content (min offset (length content))"

definition utf8_boundary_at_or_after :: "string \<Rightarrow> nat \<Rightarrow> nat" where
  "utf8_boundary_at_or_after content offset = boundary_up content (min offset (length content))"

definition preferred_boundary_at_or_before :: "string \<Rightarrow> nat \<Rightarrow> nat \<Rightarrow> nat option" where
  "preferred_boundary_at_or_before content lower offset =
     (let offset = boundary_down content (min offset (length content));
          search_start = utf8_boundary_at_or_after content (max lower (offset - 128))
      in map_option (\<lambda>window.
           case rfind_str (newline @ newline) window of
             Some position \<Rightarrow> search_start + position + 2
           | None \<Rightarrow>
               (case rfind_str newline window of
                  Some position \<Rightarrow> search_start + position + 1
                | None \<Rightarrow> offset)) (str_slice content search_start offset))"

definition preferred_boundary_at_or_after :: "string \<Rightarrow> nat \<Rightarrow> nat \<Rightarrow> nat option" where
  "preferred_boundary_at_or_after content offset upper =
     (let offset = boundary_up content (min offset (length content));
          search_end = utf8_boundary_at_or_before content (min upper (offset + 128))
      in map_option (\<lambda>window.
           case find_str (newline @ newline) window of
             Some position \<Rightarrow> offset + position + 2
           | None \<Rightarrow>
               (case find_str newline window of
                  Some position \<Rightarrow> offset + position + 1
                | None \<Rightarrow> offset)) (str_slice content offset search_end))"

section \<open>Sections of a document\<close>

text \<open>\<open>str::split_inclusive\<close> with a character.\<close>

fun split_inclusive :: "char \<Rightarrow> string \<Rightarrow> string list" where
  "split_inclusive c [] = []"
| "split_inclusive c (x # xs) =
     (if x = c then [x] # split_inclusive c xs
      else case split_inclusive c xs of [] \<Rightarrow> [[x]] | l # ls \<Rightarrow> (x # l) # ls)"

definition is_ascii_whitespace :: "char \<Rightarrow> bool" where
  "is_ascii_whitespace c \<longleftrightarrow> c \<in> {CHR '' '', CHR 0x09, CHR 0x0A, CHR 0x0C, CHR 0x0D}"

record heading_scan =
  hs_headings :: "(nat \<times> nat) list"
  hs_counts :: "nat list"
  hs_offset :: nat
  hs_fence :: "(char \<times> nat) option"

definition leading :: "char \<Rightarrow> string \<Rightarrow> nat" where
  "leading c s = length (takeWhile (\<lambda>x. x = c) s)"

definition scan_line :: "string \<Rightarrow> heading_scan \<Rightarrow> heading_scan" where
  "scan_line line h =
     (let indentation = leading (CHR '' '') line;
          trimmed = (if indentation \<le> 3 then drop indentation line else line);
          fence_char = (case trimmed of [] \<Rightarrow> None
             | c # _ \<Rightarrow> if c = CHR 0x60 \<or> c = CHR ''~'' then Some c else None);
          run = (case fence_char of None \<Rightarrow> 0 | Some c \<Rightarrow> leading c trimmed);
          next_offset = hs_offset h + length line
      in if fence_char \<noteq> None \<and> 3 \<le> run
         then h\<lparr>hs_fence :=
                 (case hs_fence h of
                    Some (open, width) \<Rightarrow>
                      if open = the fence_char \<and> width \<le> run then None else Some (open, width)
                  | None \<Rightarrow> Some (the fence_char, run)),
                hs_offset := next_offset\<rparr>
         else
           (let hashes = leading (CHR ''#'') trimmed
            in if hs_fence h = None \<and> indentation \<le> 3 \<and> 1 \<le> hashes \<and> hashes \<le> 6
                  \<and> hashes < length trimmed \<and> is_ascii_whitespace (trimmed ! hashes)
               then h\<lparr>hs_headings := hs_headings h @ [(hs_offset h, hashes)],
                      hs_counts := (hs_counts h)[hashes := hs_counts h ! hashes + 1],
                      hs_offset := next_offset\<rparr>
               else h\<lparr>hs_offset := next_offset\<rparr>))"

definition scan_headings :: "string \<Rightarrow> heading_scan" where
  "scan_headings content =
     fold scan_line (split_inclusive (CHR 0x0A) content)
       \<lparr>hs_headings = [], hs_counts = replicate 7 0, hs_offset = 0, hs_fence = None\<rparr>"

text \<open>\<open>slice::windows(2)\<close>, kept when not empty.\<close>

fun windows :: "nat list \<Rightarrow> (nat \<times> nat) list" where
  "windows (a # b # rest) = (if a < b then (a, b) # windows (b # rest) else windows (b # rest))"
| "windows _ = []"

definition research_markdown_sections :: "string \<Rightarrow> (nat \<times> nat) list" where
  "research_markdown_sections content =
     (let h = scan_headings content
      in case find (\<lambda>level. 2 \<le> hs_counts h ! level) [1..<7] of
           None \<Rightarrow> [(0, length content)]
         | Some level \<Rightarrow>
             windows (0 # map fst (filter (\<lambda>(start, heading_level). heading_level = level \<and> 0 < start)
                                     (hs_headings h)) @ [length content]))"

section \<open>Sharing the budget\<close>

text \<open>
  One pass over the active sections: each gets an equal share of what remains (the first
  ones a byte more), capped by what it has left.
\<close>

fun alloc_round ::
  "(nat \<times> nat) list \<Rightarrow> nat \<Rightarrow> nat \<Rightarrow> nat \<Rightarrow> nat list \<Rightarrow> nat list \<Rightarrow> nat list \<times> nat \<times> nat list" where
  "alloc_round sections share remainder position [] allocations = (allocations, 0, [])"
| "alloc_round sections share remainder position (i # rest) allocations =
     (let (start, end') = sections ! i;
          capacity = end' - start - allocations ! i;
          target = share + (if position < remainder then 1 else 0);
          allocated = min capacity target;
          allocations = allocations[i := allocations ! i + allocated];
          (allocations', consumed, next') =
            alloc_round sections share remainder (position + 1) rest allocations
      in (allocations', allocated + consumed,
          if allocations ! i < end' - start then i # next' else next'))"

function alloc_loop :: "(nat \<times> nat) list \<Rightarrow> nat list \<Rightarrow> nat list \<Rightarrow> nat \<Rightarrow> nat list" where
  "alloc_loop sections active allocations remaining =
     (if 0 < remaining \<and> active \<noteq> [] then
        (case alloc_round sections (remaining div length active) (remaining mod length active) 0
                active allocations of
           (allocations', consumed, next') \<Rightarrow>
             if consumed = 0 then allocations'
             else alloc_loop sections next' allocations' (remaining - consumed))
      else allocations)"
  by pat_completeness auto
termination
  by (relation "measure (\<lambda>(_, _, _, remaining). remaining)") auto

declare alloc_loop.simps [simp del]

text \<open>The head and the tail of one section that its allocation pays for.\<close>

definition section_ranges :: "string \<Rightarrow> nat \<times> nat \<Rightarrow> nat \<Rightarrow> (nat \<times> nat) list option" where
  "section_ranges content sec allocation =
     (case sec of (start, end') \<Rightarrow>
        if allocation = 0 then Some []
        else if end' - start \<le> allocation then Some [(start, end')]
        else
          (let head_bytes = (allocation + 1) div 2;
               tail_bytes = allocation - head_bytes
           in Option.bind (preferred_boundary_at_or_before content start (start + head_bytes)) (\<lambda>head_end.
              let head = (if start < head_end then [(start, head_end)] else [])
              in if 0 < tail_bytes then
                   map_option (\<lambda>tail_start. head @ (if tail_start < end' then [(tail_start, end')] else []))
                     (preferred_boundary_at_or_after content (end' - tail_bytes) end')
                 else Some head)))"

fun collect_ranges :: "string \<Rightarrow> ((nat \<times> nat) \<times> nat) list \<Rightarrow> (nat \<times> nat) list option" where
  "collect_ranges content [] = Some []"
| "collect_ranges content ((sec, allocation) # rest) =
     Option.bind (section_ranges content sec allocation) (\<lambda>rs.
       map_option (\<lambda>more. rs @ more) (collect_ranges content rest))"

definition merge_step :: "nat \<times> nat \<Rightarrow> (nat \<times> nat) list \<Rightarrow> (nat \<times> nat) list" where
  "merge_step r merged =
     (if merged \<noteq> [] \<and> snd (last merged) = fst r
      then butlast merged @ [(fst (last merged), snd r)] else merged @ [r])"

definition merge_ranges :: "(nat \<times> nat) list \<Rightarrow> (nat \<times> nat) list" where
  "merge_ranges ranges = fold merge_step ranges []"

definition allocate_research_ranges ::
  "string \<Rightarrow> (nat \<times> nat) list \<Rightarrow> nat \<Rightarrow> (nat \<times> nat) list option" where
  "allocate_research_ranges content sections budget =
     (if budget = 0 \<or> sections = [] then Some []
      else
        (let allocations = alloc_loop sections [0..<length sections] (replicate (length sections) 0)
                             (min budget (length content))
         in map_option merge_ranges (collect_ranges content (zip sections allocations))))"

section \<open>The excerpt\<close>

definition RESEARCH_SOURCE_OMISSION :: string where
  "RESEARCH_SOURCE_OMISSION = newline @ ''[SCORPION_RESEARCH_SOURCE_OMISSION]'' @ newline"

text \<open>
  The loop lowers the budget of the ranges until the ranges and the markers between them
  fit; it ends because each further turn lowers it strictly.
\<close>

function select_loop ::
  "string \<Rightarrow> (nat \<times> nat) list \<Rightarrow> nat \<Rightarrow> nat \<Rightarrow> (nat \<times> nat) list \<Rightarrow> (nat \<times> nat) list option" where
  "select_loop content sections budget source_budget ranges =
     (let separator_bytes = length RESEARCH_SOURCE_OMISSION * (length ranges - 1);
          adjusted = min (budget - separator_bytes) source_budget
      in if adjusted = source_budget then Some ranges
         else (case allocate_research_ranges content sections adjusted of
                 None \<Rightarrow> None
               | Some ranges' \<Rightarrow> select_loop content sections budget adjusted ranges'))"
  by pat_completeness auto
termination
  by (relation "measure (\<lambda>(_, _, _, source_budget, _). source_budget)") auto

declare select_loop.simps [simp del]

fun push_ranges :: "string \<Rightarrow> bool \<Rightarrow> (nat \<times> nat) list \<Rightarrow> string option" where
  "push_ranges content is_first [] = Some []"
| "push_ranges content is_first ((start, end') # rest) =
     Option.bind (str_slice content start end') (\<lambda>piece.
       map_option (\<lambda>more. (if is_first then [] else RESEARCH_SOURCE_OMISSION) @ piece @ more)
         (push_ranges content False rest))"

definition select_bounded_research_markdown :: "string \<Rightarrow> nat \<Rightarrow> string option" where
  "select_bounded_research_markdown content budget =
     (if length content \<le> budget then Some content
      else if budget = 0 then Some []
      else
        (let sections = research_markdown_sections content
         in Option.bind (allocate_research_ranges content sections budget) (\<lambda>ranges.
            Option.bind (select_loop content sections budget budget ranges) (\<lambda>ranges.
              push_ranges content True ranges))))"

end
