(* ===== verification/Excerpt_Bounds.thy ===== *)
theory Excerpt_Bounds
  imports Research_Excerpt
begin

text \<open>
  Why the bounded excerpt is safe: every slice it takes lies on character boundaries, the
  shares never exceed what was handed out, and the ranges kept, with the markers between
  them, fit the budget.
\<close>

section \<open>Text and boundaries\<close>

text \<open>What is needed of UTF-8: a continuation byte follows a non-ASCII byte.\<close>

definition text_ok :: "string \<Rightarrow> bool" where
  "text_ok s \<longleftrightarrow> (\<forall>i < length s. continuation_byte (s ! i) \<longrightarrow> 0 < i \<and> 128 \<le> (of_char (s ! (i - 1)) :: nat))"

lemma text_ok_successive:
  assumes "s = [] \<or> \<not> continuation_byte (hd s)"
    and "successively (\<lambda>a b. continuation_byte b \<longrightarrow> 128 \<le> (of_char a :: nat)) s"
  shows "text_ok s"
  unfolding text_ok_def
proof (intro allI impI)
  fix i assume i: "i < length s" "continuation_byte (s ! i)"
  then show "0 < i \<and> 128 \<le> (of_char (s ! (i - 1)) :: nat)"
    using assms by (cases i) (auto simp: successively_conv_nth hd_conv_nth)
qed

lemma second_byte_high: "second_byte n b \<Longrightarrow> 128 \<le> b"
  by (auto simp: second_byte_def split: if_splits)

definition follows :: "char \<Rightarrow> char \<Rightarrow> bool" where
  "follows a b \<longleftrightarrow> (continuation_byte b \<longrightarrow> 128 \<le> (of_char a :: nat))"

lemma utf8_lead:
  assumes "utf8_ok (a # r)"
  obtains "(of_char a :: nat) < 128" "utf8_ok r"
    | b t where "192 \<le> (of_char a :: nat)" "r = b # t" "utf8_ok t"
    | b c t where "192 \<le> (of_char a :: nat)" "r = b # c # t" "128 \<le> (of_char b :: nat)" "utf8_ok t"
    | b c d t where "192 \<le> (of_char a :: nat)" "r = b # c # d # t" "128 \<le> (of_char b :: nat)"
        "continuation_byte c" "utf8_ok t"
proof -
  define n where "n = (of_char a :: nat)"
  note step = assms [unfolded utf8_ok.simps Let_def, folded n_def]
  consider "n < 0x80" "utf8_ok r"
    | "192 \<le> n" "case r of b # s \<Rightarrow> continuation_byte b \<and> utf8_ok s | _ \<Rightarrow> False"
    | "192 \<le> n" "case r of b # c # s \<Rightarrow> second_byte n (of_char b) \<and> continuation_byte c \<and> utf8_ok s
        | _ \<Rightarrow> False"
    | "192 \<le> n" "case r of b # c # d # s \<Rightarrow> second_byte n (of_char b) \<and> continuation_byte c \<and>
        continuation_byte d \<and> utf8_ok s | _ \<Rightarrow> False"
    using step by (simp split: if_split_asm)
  then show thesis
  proof cases
    case 2
    then show thesis using that(2) n_def by (cases r) auto
  next
    case 3
    then show thesis using that(3) n_def second_byte_high by (cases r; cases "tl r") auto
  next
    case 4
    then show thesis using that(4) n_def second_byte_high by (cases r; cases "tl r"; cases "tl (tl r)") auto
  qed (use that(1) n_def in auto)
qed

lemma utf8_follows:
  "utf8_ok s \<Longrightarrow> (s = [] \<or> \<not> continuation_byte (hd s)) \<and> successively follows s"
proof (induction s rule: length_induct)
  case (1 s)
  show ?case
  proof (cases s)
    case (Cons a r)
    let ?n = "of_char a :: nat"
    have step: "successively follows (xs @ t)"
      if "utf8_ok t" "length t < length s" "successively follows xs" "xs \<noteq> []" for xs t
    proof -
      have t: "t = [] \<or> \<not> continuation_byte (hd t)" "successively follows t" using 1(1) that by blast+
      then show ?thesis using that(3,4) by (auto simp: successively_append_iff follows_def)
    qed
    have "utf8_ok (a # r)" using 1(2) Cons by simp
    then consider "?n < 128" "utf8_ok r"
      | b t where "192 \<le> ?n" "r = b # t" "utf8_ok t"
      | b c t where "192 \<le> ?n" "r = b # c # t" "128 \<le> (of_char b :: nat)" "utf8_ok t"
      | b c d t where "192 \<le> ?n" "r = b # c # d # t" "128 \<le> (of_char b :: nat)" "continuation_byte c" "utf8_ok t"
      by (rule utf8_lead)
    then show ?thesis
    proof cases
      case 1
      then show ?thesis using step [of r "[a]"] Cons by (simp add: continuation_byte_def)
    next
      case 2
      then show ?thesis using step [of t "[a, b]"] Cons by (simp add: continuation_byte_def follows_def)
    next
      case 3
      then show ?thesis using step [of t "[a, b, c]"] Cons by (simp add: continuation_byte_def follows_def)
    next
      case 4
      then show ?thesis using step [of t "[a, b, c, d]"] Cons by (simp add: continuation_byte_def follows_def)
    qed
  qed simp
qed

lemma utf8_text_ok: "utf8_ok s \<Longrightarrow> text_ok s"
  using utf8_follows [of s] by (intro text_ok_successive) (simp_all add: follows_def [abs_def])

lemma boundary_0 [simp]: "is_char_boundary s 0"
  and boundary_length [simp]: "is_char_boundary s (length s)"
  by (simp_all add: is_char_boundary_def)

lemma boundary_after_newline:
  assumes "text_ok s" "i < length s" "s ! i = CHR 0x0A"
  shows "is_char_boundary s (i + 1)"
proof (cases "i + 1 < length s")
  case True
  then have "\<not> continuation_byte (s ! (i + 1))"
    using assms by (auto simp: text_ok_def dest!: spec [of _ "i + 1"])
  with True show ?thesis by (simp add: is_char_boundary_def)
qed (use assms in \<open>simp add: is_char_boundary_def\<close>)

lemma boundary_down:
  "boundary_down s i \<le> i \<and> (i \<le> length s \<longrightarrow> is_char_boundary s (boundary_down s i))
   \<and> (\<forall>b \<le> i. is_char_boundary s b \<longrightarrow> b \<le> boundary_down s i)"
proof (induction s i rule: boundary_down.induct)
  case (1 s i)
  show ?case
  proof (cases "0 < i \<and> \<not> is_char_boundary s i")
    case True
    have "b \<le> i - 1" if "b \<le> i" "is_char_boundary s b" for b
      using that True by (cases "b = i") auto
    with 1 [OF True] True show ?thesis
      by (subst (1 2 3) boundary_down.simps) auto
  next
    case False
    then have "boundary_down s i = i" by (subst boundary_down.simps) auto
    with False show ?thesis by auto
  qed
qed

lemma boundary_up:
  "i \<le> boundary_up s i \<and> (i \<le> length s \<longrightarrow> is_char_boundary s (boundary_up s i) \<and> boundary_up s i \<le> length s)
   \<and> (\<forall>b \<ge> i. is_char_boundary s b \<longrightarrow> b \<le> length s \<longrightarrow> boundary_up s i \<le> b)"
proof (induction s i rule: boundary_up.induct)
  case (1 s i)
  show ?case
  proof (cases "i < length s \<and> \<not> is_char_boundary s i")
    case True
    have "i + 1 \<le> b" if "i \<le> b" "is_char_boundary s b" for b
      using that True by (cases "b = i") auto
    with 1 [OF True] True show ?thesis
      by (subst (1 2 3 4) boundary_up.simps) auto
  next
    case False
    then have "boundary_up s i = i" by (subst boundary_up.simps) auto
    with False show ?thesis by (auto simp: is_char_boundary_def)
  qed
qed

lemma find_pred: "find P xs = Some x \<Longrightarrow> P x \<and> x \<in> set xs"
  by (induction xs) (auto split: if_splits)

lemma find_str_match: "find_str pat w = Some p \<Longrightarrow> match_at pat w p"
  and rfind_str_match: "rfind_str pat w = Some p \<Longrightarrow> match_at pat w p"
  unfolding find_str_def rfind_str_def by (auto dest: find_pred simp del: upt_Suc)

lemma match_at_bounds: "match_at pat s i \<Longrightarrow> pat \<noteq> [] \<Longrightarrow> i + length pat \<le> length s"
  unfolding match_at_def by (cases "i \<le> length s") (auto dest!: arg_cong [of _ _ length])

lemma match_at_last:
  assumes "match_at (pre @ [c]) s i"
  shows "i + length pre < length s \<and> s ! (i + length pre) = c"
proof -
  have len: "i + length pre < length s" using match_at_bounds [OF assms] by simp
  have "take (length pre + 1) (drop i s) ! length pre = (pre @ [c]) ! length pre"
    using assms by (simp add: match_at_def)
  with len show ?thesis by simp
qed

lemma str_slice_Some:
  "str_slice s a b = Some w \<longleftrightarrow> a \<le> b \<and> b \<le> length s \<and> is_char_boundary s a \<and> is_char_boundary s b
     \<and> w = take (b - a) (drop a s)"
  by (auto simp: str_slice_def)

lemma str_slice_length: "str_slice s a b = Some w \<Longrightarrow> length w = b - a"
  by (auto simp: str_slice_Some)

lemma str_slice_nth: "str_slice s a b = Some w \<Longrightarrow> i < length w \<Longrightarrow> w ! i = s ! (a + i)"
  by (auto simp: str_slice_Some)

text \<open>A cut just after a line break found in a slice is a boundary of the document.\<close>

lemma cut_after_match:
  assumes "text_ok s" "str_slice s a b = Some w" "match_at (pre @ newline) w i"
  shows "is_char_boundary s (a + i + length pre + 1) \<and> a + i + length pre + 1 \<le> b"
proof -
  from match_at_last [OF assms(3) [unfolded newline_def]]
  have m: "i + length pre < length w" "w ! (i + length pre) = CHR 0x0A" by auto
  with assms(2) have "s ! (a + (i + length pre)) = CHR 0x0A" "a + (i + length pre) < length s"
    by (auto simp: str_slice_nth str_slice_Some)
  then show ?thesis
    using boundary_after_newline [OF assms(1), of "a + (i + length pre)"] str_slice_length [OF assms(2)] m(1)
    by (simp add: add.assoc)
qed

lemma preferred_before:
  assumes "text_ok s" "is_char_boundary s lower" "lower \<le> off" "off \<le> length s"
  obtains r where "preferred_boundary_at_or_before s lower off = Some r" "lower \<le> r" "r \<le> off"
    "is_char_boundary s r"
proof -
  define o1 where "o1 = boundary_down s off"
  have o1: "lower \<le> o1" "o1 \<le> off" "is_char_boundary s o1"
    using boundary_down [of s off] assms by (auto simp: o1_def)
  define st where "st = boundary_up s (max lower (o1 - 128))"
  have st: "lower \<le> st" "st \<le> o1" "is_char_boundary s st"
    using boundary_up [of "max lower (o1 - 128)" s] o1 assms(4) by (auto simp: st_def)
  obtain w where w: "str_slice s st o1 = Some w"
    using st o1 assms(4) by (auto simp: str_slice_def)
  have two: "r = st + p + 2 \<Longrightarrow> rfind_str (newline @ newline) w = Some p
      \<Longrightarrow> is_char_boundary s r \<and> r \<le> o1 \<and> lower \<le> r" for p r
    using cut_after_match [OF assms(1) w, of newline p] st(1)
    by (auto simp: newline_def dest!: rfind_str_match)
  have one: "r = st + p + 1 \<Longrightarrow> rfind_str newline w = Some p
      \<Longrightarrow> is_char_boundary s r \<and> r \<le> o1 \<and> lower \<le> r" for p r
    using cut_after_match [OF assms(1) w, of "[]" p] st(1)
    by (auto dest!: rfind_str_match)
  have mins: "min off (length s) = off" "min (max lower (o1 - 128)) (length s) = max lower (o1 - 128)"
    using assms o1 by auto
  have "preferred_boundary_at_or_before s lower off =
      Some (case rfind_str (newline @ newline) w of Some p \<Rightarrow> st + p + 2
        | None \<Rightarrow> (case rfind_str newline w of Some p \<Rightarrow> st + p + 1 | None \<Rightarrow> o1))"
    unfolding preferred_boundary_at_or_before_def Let_def utf8_boundary_at_or_after_def mins
      o1_def [symmetric] st_def [symmetric] w by simp
  with that two one o1 show thesis
    by (auto split: option.splits intro: order_trans)
qed

lemma preferred_after:
  assumes "text_ok s" "is_char_boundary s upper" "off \<le> upper" "upper \<le> length s"
  obtains r where "preferred_boundary_at_or_after s off upper = Some r" "off \<le> r" "r \<le> upper"
    "is_char_boundary s r"
proof -
  define o1 where "o1 = boundary_up s off"
  have o1: "off \<le> o1" "o1 \<le> upper" "is_char_boundary s o1"
    using boundary_up [of off s] assms by (auto simp: o1_def)
  define en where "en = boundary_down s (min upper (o1 + 128))"
  have en: "o1 \<le> en" "en \<le> upper" "is_char_boundary s en"
    using boundary_down [of s "min upper (o1 + 128)"] o1 assms(4) by (auto simp: en_def)
  obtain w where w: "str_slice s o1 en = Some w"
    using en o1 assms(4) by (auto simp: str_slice_def)
  have two: "r = o1 + p + 2 \<Longrightarrow> find_str (newline @ newline) w = Some p
      \<Longrightarrow> is_char_boundary s r \<and> off \<le> r \<and> r \<le> upper" for p r
    using cut_after_match [OF assms(1) w, of newline p] o1(1) en(2)
    by (auto simp: newline_def dest!: find_str_match)
  have one: "r = o1 + p + 1 \<Longrightarrow> find_str newline w = Some p
      \<Longrightarrow> is_char_boundary s r \<and> off \<le> r \<and> r \<le> upper" for p r
    using cut_after_match [OF assms(1) w, of "[]" p] o1(1) en(2)
    by (auto dest!: find_str_match)
  have mins: "min off (length s) = off" "min (min upper (o1 + 128)) (length s) = min upper (o1 + 128)"
    using assms by auto
  have "preferred_boundary_at_or_after s off upper =
      Some (case find_str (newline @ newline) w of Some p \<Rightarrow> o1 + p + 2
        | None \<Rightarrow> (case find_str newline w of Some p \<Rightarrow> o1 + p + 1 | None \<Rightarrow> o1))"
    unfolding preferred_boundary_at_or_after_def Let_def utf8_boundary_at_or_before_def mins
      o1_def [symmetric] en_def [symmetric] w by simp
  with that two one o1 show thesis
    by (auto split: option.splits)
qed

section \<open>Sections\<close>

text \<open>
  \<open>ranges_in s lo hi rs\<close>: non-empty ranges in order, between \<open>lo\<close> and \<open>hi\<close>, on boundaries.
\<close>

fun ranges_in :: "string \<Rightarrow> nat \<Rightarrow> nat \<Rightarrow> (nat \<times> nat) list \<Rightarrow> bool" where
  "ranges_in s lo hi [] \<longleftrightarrow> lo \<le> hi"
| "ranges_in s lo hi ((a, b) # rs) \<longleftrightarrow>
     lo \<le> a \<and> a < b \<and> is_char_boundary s a \<and> is_char_boundary s b \<and> ranges_in s b hi rs"

lemma ranges_in_lo: "ranges_in s lo hi rs \<Longrightarrow> lo \<le> hi"
  by (induction s lo hi rs rule: ranges_in.induct) auto

lemma ranges_in_weaken: "ranges_in s lo hi rs \<Longrightarrow> lo' \<le> lo \<Longrightarrow> ranges_in s lo' hi rs"
  by (cases rs) auto

lemma ranges_in_append:
  "ranges_in s lo mid rs \<Longrightarrow> ranges_in s mid hi qs \<Longrightarrow> ranges_in s lo hi (rs @ qs)"
  by (induction s lo mid rs rule: ranges_in.induct) (auto intro: ranges_in_weaken)

definition total_size :: "(nat \<times> nat) list \<Rightarrow> nat" where
  "total_size rs = sum_list (map (\<lambda>(a, b). b - a) rs)"

lemma total_size_simps [simp]:
  "total_size [] = 0" "total_size ((a, b) # rs) = b - a + total_size rs"
  "total_size (rs @ qs) = total_size rs + total_size qs"
  by (simp_all add: total_size_def)

lemma concat_split_inclusive: "concat (split_inclusive c s) = s"
  by (induction s) (auto split: list.splits)

lemma split_inclusive_ends:
  "ls @ [l] @ l' # ls' = split_inclusive c s \<Longrightarrow> l \<noteq> [] \<and> last l = c"
proof (induction s arbitrary: ls l)
  case (Cons x s)
  show ?case
  proof (cases "x = c")
    case True
    with Cons show ?thesis by (cases ls) auto
  next
    case False
    with Cons.prems obtain m ms where m: "split_inclusive c s = m # ms"
      and eq: "ls @ [l] @ l' # ls' = (x # m) # ms"
      by (auto split: list.splits)
    show ?thesis
    proof (cases ls)
      case Nil
      with eq have "[] @ [m] @ l' # ls' = split_inclusive c s" using m by simp
      with Cons.IH [of "[]" m] Nil eq show ?thesis by auto
    next
      case (Cons k ks)
      with eq have "(m # ks) @ [l] @ l' # ls' = split_inclusive c s" using m by simp
      then show ?thesis by (rule Cons.IH)
    qed
  qed
qed simp

lemma line_start_boundary:
  assumes "text_ok s" "ls @ l # ls' = split_inclusive (CHR 0x0A) s"
  shows "is_char_boundary s (length (concat ls))"
proof (cases ls rule: rev_cases)
  case (snoc ks k)
  with assms(2) have k: "k \<noteq> []" "last k = CHR 0x0A"
    using split_inclusive_ends [of ks k l ls' "CHR 0x0A" s] by auto
  have s: "s = concat ks @ k @ l @ concat ls'"
    using concat_split_inclusive [of "CHR 0x0A" s] assms(2) [symmetric] snoc by simp
  have "s ! (length (concat ks) + (length k - 1)) = k ! (length k - 1)"
    using k(1) by (subst s) (simp add: nth_append)
  then have "s ! (length (concat ks) + (length k - 1)) = CHR 0x0A"
    using k by (simp add: last_conv_nth)
  moreover have "length (concat ks) + (length k - 1) < length s"
    using k(1) by (subst s) (cases k, auto)
  moreover have "length (concat ks) + (length k - 1) + 1 = length (concat ls)"
    using k(1) snoc by (cases k) auto
  ultimately show ?thesis
    using boundary_after_newline [OF assms(1), of "length (concat ks) + (length k - 1)"] by simp
qed simp

lemma scan_line_shape:
  "hs_offset (scan_line l h) = hs_offset h + length l"
  "hs_headings (scan_line l h) = hs_headings h \<or> (\<exists>n. hs_headings (scan_line l h) = hs_headings h @ [(hs_offset h, n)])"
  by (auto simp: scan_line_def Let_def)

definition headings_ok :: "string \<Rightarrow> heading_scan \<Rightarrow> bool" where
  "headings_ok s h \<longleftrightarrow> sorted (map fst (hs_headings h)) \<and>
     (\<forall>x \<in> set (hs_headings h). fst x \<le> hs_offset h \<and> is_char_boundary s (fst x))"

lemma scan_headings_ok:
  assumes "text_ok s"
  shows "headings_ok s (scan_headings s) \<and> hs_offset (scan_headings s) = length s"
proof -
  have "headings_ok s (fold scan_line post h) \<and> hs_offset (fold scan_line post h) = length s"
    if "pre @ post = split_inclusive (CHR 0x0A) s" "hs_offset h = length (concat pre)" "headings_ok s h"
    for pre post h
    using that
  proof (induction post arbitrary: pre h)
    case Nil
    then show ?case using concat_split_inclusive [of "CHR 0x0A" s] by simp
  next
    case (Cons l post)
    have "is_char_boundary s (hs_offset h)"
      using line_start_boundary [OF assms Cons.prems(1)] Cons.prems(2) by simp
    then have "headings_ok s (scan_line l h)"
      using Cons.prems(3) scan_line_shape [of l h]
      by (auto simp: headings_ok_def sorted_append intro: trans_le_add1)
    moreover have "hs_offset (scan_line l h) = length (concat (pre @ [l]))"
      using Cons.prems(2) by (simp add: scan_line_shape)
    ultimately show ?case
      using Cons.IH [of "pre @ [l]" "scan_line l h"] Cons.prems(1) by simp
  qed
  note whole = this [of "[]"]
  show ?thesis
    unfolding scan_headings_def by (rule whole) (simp_all add: headings_ok_def)
qed

lemma windows_ranges:
  "sorted (a # xs) \<Longrightarrow> \<forall>x \<in> set (a # xs). is_char_boundary s x \<Longrightarrow> last (a # xs) \<le> hi
    \<Longrightarrow> ranges_in s a hi (windows (a # xs))"
proof (induction xs arbitrary: a)
  case (Cons b xs)
  then have "ranges_in s b hi (windows (b # xs))" by simp
  with Cons.prems show ?case by (auto intro: ranges_in_weaken)
qed simp

lemma sorted_filter_fst: "sorted (map fst xs) \<Longrightarrow> sorted (map fst (filter P xs))"
  by (induction xs) auto

lemma sections_ranges:
  assumes "text_ok s" "s \<noteq> []"
  shows "ranges_in s 0 (length s) (research_markdown_sections s)"
proof -
  note ok = scan_headings_ok [OF assms(1)]
  have "ranges_in s 0 (length s) (windows (0 # map fst (filter P (hs_headings (scan_headings s))) @ [length s]))" for P
  proof (rule windows_ranges)
    show "sorted (0 # map fst (filter P (hs_headings (scan_headings s))) @ [length s])"
      using ok by (auto simp: headings_ok_def sorted_append sorted_filter_fst)
    show "\<forall>x \<in> set (0 # map fst (filter P (hs_headings (scan_headings s))) @ [length s]). is_char_boundary s x"
      using ok by (auto simp: headings_ok_def)
  qed simp
  then show ?thesis
    using assms(2) unfolding research_markdown_sections_def Let_def
    by (simp split: option.splits)
qed

text \<open>The sections are the whole document.\<close>

lemma windows_cover:
  "sorted (a # xs) \<Longrightarrow> last (a # xs) \<le> length s \<Longrightarrow>
    concat (map (\<lambda>(x, y). take (y - x) (drop x s)) (windows (a # xs))) = take (last (a # xs) - a) (drop a s)"
proof (induction xs arbitrary: a)
  case (Cons b xs)
  have "sorted (b # xs)" "a \<le> b" using Cons.prems(1) by auto
  moreover have "b \<le> last (b # xs)"
    using Cons.prems(1) by (auto simp: last_in_set)
  moreover have "take (b - a) (drop a s) @ take (c - b) (drop b s) = take (c - a) (drop a s)"
    if "a \<le> b" "b \<le> c" for c
    using that take_add [of "b - a" "c - b" "drop a s"] by simp
  ultimately show ?case using Cons by (cases "a = b") auto
qed simp

section \<open>Shares\<close>

definition size_of :: "nat \<times> nat \<Rightarrow> nat" where
  "size_of r = snd r - fst r"

definition shares_ok :: "(nat \<times> nat) list \<Rightarrow> nat list \<Rightarrow> bool" where
  "shares_ok sections al \<longleftrightarrow>
     length al = length sections \<and> (\<forall>i < length al. al ! i \<le> size_of (sections ! i))"

lemma sum_list_update:
  "i < length xs \<Longrightarrow> sum_list (xs[i := xs ! i + n]) = sum_list xs + (n :: nat)"
  by (induction xs arbitrary: i) (auto split: nat.splits)

text \<open>
  One round hands out what it reports, keeps every share within its section, and hands out
  at most \<open>share\<close> to each section plus one to each of the first \<open>remainder\<close>.
\<close>

lemma alloc_round_props:
  assumes "alloc_round sections share remainder position active al = (al', consumed, next')"
    and "shares_ok sections al" "set active \<subseteq> {..<length sections}"
  shows "shares_ok sections al' \<and> sum_list al' = sum_list al + consumed \<and>
    set next' \<subseteq> set active \<and>
    consumed \<le> share * length active + (remainder - position)"
  using assms
proof (induction active arbitrary: position al al' consumed next')
  case (Cons i active)
  obtain start end' where se: "sections ! i = (start, end')" by force
  define got where "got = min (end' - start - al ! i) (share + (if position < remainder then 1 else 0))"
  obtain al1 c1 n1 where r: "alloc_round sections share remainder (position + 1) active (al[i := al ! i + got])
      = (al1, c1, n1)" by (metis prod_cases3)
  have i: "i < length al" using Cons.prems(2,3) by (simp add: shares_ok_def)
  have "shares_ok sections (al[i := al ! i + got])"
    using Cons.prems(2) i se by (auto simp: shares_ok_def nth_list_update got_def size_of_def)
  note ih = Cons.IH [OF r this]
  have eq: "al' = al1" "consumed = got + c1" "set next' \<subseteq> insert i (set n1)"
    using Cons.prems(1)
    unfolding alloc_round.simps se Let_def prod.case got_def [symmetric] r
    by (auto split: if_splits)
  have "got \<le> share + (if position < remainder then 1 else 0)" by (simp add: got_def)
  then show ?case
    using ih eq Cons.prems(3) sum_list_update [OF i, of got]
    by (auto split: if_splits)
qed simp

lemma alloc_loop_props:
  assumes "shares_ok sections al" "set active \<subseteq> {..<length sections}"
  shows "shares_ok sections (alloc_loop sections active al remaining) \<and>
    sum_list (alloc_loop sections active al remaining) \<le> sum_list al + remaining"
  using assms
proof (induction sections active al remaining rule: alloc_loop.induct)
  case (1 sections active al remaining)
  show ?case
  proof (cases "0 < remaining \<and> active \<noteq> []")
    case True
    obtain al1 c1 n1 where r: "alloc_round sections (remaining div length active)
        (remaining mod length active) 0 active al = (al1, c1, n1)" by (metis prod_cases3)
    note p = alloc_round_props [OF r "1.prems"]
    then have "c1 \<le> remaining" by simp
    with p 1(1) [OF True r [symmetric] refl] True r "1.prems" show ?thesis
      by (subst (1 2) alloc_loop.simps) auto
  next
    case False
    then show ?thesis
      using "1.prems" by (subst (1 2) alloc_loop.simps) auto
  qed
qed

section \<open>Ranges\<close>

lemma section_ranges_ok:
  assumes "text_ok s" "is_char_boundary s a" "is_char_boundary s b" "a < b" "b \<le> length s" "n \<le> b - a"
  obtains rs where "section_ranges s (a, b) n = Some rs" "ranges_in s a b rs" "total_size rs \<le> n"
proof (cases "n = 0 \<or> b - a \<le> n")
  case True
  with that [of "[]"] that [of "[(a, b)]"] assms show thesis
    by (auto simp: section_ranges_def)
next
  case False
  define hb where "hb = (n + 1) div 2"
  define tb where "tb = n - hb"
  have hb: "0 < hb" "hb \<le> n" "hb + tb = n" "a + hb \<le> b - tb" "a + hb \<le> length s" "tb \<le> b"
    using False assms by (auto simp: hb_def tb_def)
  obtain he where he: "preferred_boundary_at_or_before s a (a + hb) = Some he" "a \<le> he" "he \<le> a + hb"
      "is_char_boundary s he"
    using preferred_before [OF assms(1,2) _ hb(5)] by auto
  obtain ts where ts: "preferred_boundary_at_or_after s (b - tb) b = Some ts" "b - tb \<le> ts" "ts \<le> b"
      "is_char_boundary s ts"
    using preferred_after [OF assms(1,3) _ assms(5), of "b - tb"] by auto
  define head where "head = (if a < he then [(a, he)] else [])"
  define tail where "tail = (if 0 < tb \<and> ts < b then [(ts, b)] else [])"
  have eq: "section_ranges s (a, b) n = Some (head @ tail)"
    using False he(1) ts(1)
    unfolding section_ranges_def prod.case Let_def hb_def [symmetric] tb_def [symmetric]
    by (simp add: head_def tail_def)
  have head: "ranges_in s a (a + hb) head" "total_size head \<le> hb"
    using he assms(2) by (auto simp: head_def)
  have tail: "ranges_in s (a + hb) b tail" "total_size tail \<le> tb"
    using ts hb assms(3,4) by (auto simp: tail_def)
  show thesis
    by (rule that [OF eq]) (use head tail hb(3) ranges_in_append in auto)
qed

lemma collect_ranges_ok:
  assumes "text_ok s"
  shows "ranges_in s lo (length s) (map fst ps) \<Longrightarrow> \<forall>(r, n) \<in> set ps. n \<le> size_of r \<Longrightarrow>
    \<exists>rs. collect_ranges s ps = Some rs \<and> ranges_in s lo (length s) rs \<and>
      total_size rs \<le> sum_list (map snd ps)"
proof (induction ps arbitrary: lo)
  case (Cons p ps)
  obtain a b n where p: "p = ((a, b), n)" by (metis prod.exhaust)
  from Cons.prems p have ab: "lo \<le> a" "a < b" "is_char_boundary s a" "is_char_boundary s b"
    "ranges_in s b (length s) (map fst ps)" "n \<le> b - a"
    by (auto simp: size_of_def)
  obtain rs where rs: "section_ranges s (a, b) n = Some rs" "ranges_in s a b rs" "total_size rs \<le> n"
    using section_ranges_ok [OF assms ab(3,4,2) ranges_in_lo [OF ab(5)] ab(6)] by blast
  obtain qs where qs: "collect_ranges s ps = Some qs" "ranges_in s b (length s) qs"
      "total_size qs \<le> sum_list (map snd ps)"
    using Cons.IH [OF ab(5)] Cons.prems(2) by auto
  show ?case
    using rs qs p ranges_in_append [OF ranges_in_weaken [OF rs(2) ab(1)] qs(2)] by simp
qed simp

lemma ranges_in_snoc:
  "ranges_in s lo hi (rs @ [(a, b)]) \<longleftrightarrow>
     a < b \<and> is_char_boundary s a \<and> is_char_boundary s b \<and> b \<le> hi \<and> ranges_in s lo a rs"
proof (induction rs arbitrary: lo)
  case (Cons r rs)
  then show ?case by (cases r) auto
qed auto

lemma merge_step_ok:
  assumes "ranges_in s lo a merged" "a \<le> x" "x < y" "is_char_boundary s x" "is_char_boundary s y"
  shows "ranges_in s lo y (merge_step (x, y) merged) \<and>
    total_size (merge_step (x, y) merged) = total_size merged + (y - x)"
proof (cases merged rule: rev_cases)
  case Nil
  with assms show ?thesis by (auto simp: merge_step_def)
next
  case (snoc ms m)
  obtain c d where m: "m = (c, d)" by force
  show ?thesis
    using assms snoc m ranges_in_snoc [of s lo y "ms @ [(c, d)]" x y]
    by (auto simp: merge_step_def ranges_in_snoc)
qed

lemma merge_ranges_ok:
  assumes "ranges_in s lo hi rs"
  shows "ranges_in s lo hi (merge_ranges rs) \<and> total_size (merge_ranges rs) = total_size rs"
proof -
  have "ranges_in s lo hi (fold merge_step rs merged) \<and>
      total_size (fold merge_step rs merged) = total_size merged + total_size rs"
    if "ranges_in s lo a merged" "ranges_in s a hi rs" for a merged rs
    using that
  proof (induction rs arbitrary: a merged)
    case Nil
    then show ?case
      by (cases merged rule: rev_cases) (auto simp: ranges_in_snoc)
  next
    case (Cons r rs)
    obtain x y where r: "r = (x, y)" by force
    with Cons.prems merge_step_ok [OF Cons.prems(1), of x y] Cons.IH [of y "merge_step r merged"]
    show ?case by auto
  qed
  from this [of lo "[]" rs] assms show ?thesis
    by (simp add: merge_ranges_def)
qed

text \<open>
  The contract of the allocation, for any ordered sections on boundaries: it never panics,
  its ranges are ordered, disjoint and on boundaries, and they hold no more than the budget.
\<close>

lemma allocate_ok:
  assumes "text_ok s" "ranges_in s 0 (length s) sections"
  obtains rs where "allocate_research_ranges s sections budget = Some rs"
    "ranges_in s 0 (length s) rs" "total_size rs \<le> budget"
proof (cases "budget = 0 \<or> sections = []")
  case True
  with that [of "[]"] show thesis by (simp add: allocate_research_ranges_def)
next
  case False
  define al where "al = alloc_loop sections [0..<length sections] (replicate (length sections) 0)
      (min budget (length s))"
  have "shares_ok sections (replicate (length sections) 0)" by (simp add: shares_ok_def)
  moreover have "set [0..<length sections] \<subseteq> {..<length sections}" by auto
  ultimately have al: "shares_ok sections al" "sum_list al \<le> min budget (length s)"
    using alloc_loop_props [of sections "replicate (length sections) 0" "[0..<length sections]" "min budget (length s)"]
    unfolding al_def by (simp_all add: sum_list_replicate)
  then have len: "length al = length sections" by (simp add: shares_ok_def)
  have "\<forall>(r, n) \<in> set (zip sections al). n \<le> size_of r"
    using al(1) by (auto simp: shares_ok_def set_zip)
  then obtain rs where rs: "collect_ranges s (zip sections al) = Some rs" "ranges_in s 0 (length s) rs"
      "total_size rs \<le> sum_list al"
    using collect_ranges_ok [OF assms(1), of 0 "zip sections al"] assms(2) len by auto
  show thesis
    by (rule that [of "merge_ranges rs"])
      (use False rs merge_ranges_ok [OF rs(2)] al(2) in
        \<open>auto simp: allocate_research_ranges_def Let_def al_def [symmetric]\<close>)
qed

section \<open>The excerpt\<close>

lemma select_loop_ok:
  "text_ok s \<Longrightarrow> ranges_in s 0 (length s) sections \<Longrightarrow>
    ranges_in s 0 (length s) ranges \<Longrightarrow> total_size ranges \<le> source_budget \<Longrightarrow>
    source_budget \<le> budget \<Longrightarrow>
    \<exists>rs. select_loop s sections budget source_budget ranges = Some rs \<and> ranges_in s 0 (length s) rs \<and>
      total_size rs + length RESEARCH_SOURCE_OMISSION * (length rs - 1) \<le> budget"
proof (induction s sections budget source_budget ranges rule: select_loop.induct)
  case (1 s sections budget source_budget ranges)
  define sep where "sep = length RESEARCH_SOURCE_OMISSION * (length ranges - 1)"
  define adj where "adj = min (budget - sep) source_budget"
  have step: "select_loop s sections budget source_budget ranges =
      (if adj = source_budget then Some ranges
       else (case allocate_research_ranges s sections adj of
               None \<Rightarrow> None | Some rs \<Rightarrow> select_loop s sections budget adj rs))"
    by (subst select_loop.simps) (simp only: Let_def sep_def adj_def)
  show ?case
  proof (cases "adj = source_budget")
    case True
    have "total_size ranges + sep \<le> budget"
    proof (cases "source_budget = 0")
      case True
      with "1.prems"(4) have "total_size ranges = 0" by simp
      with "1.prems"(3) have "ranges = []" by (cases ranges) auto
      then show ?thesis by (simp add: sep_def)
    qed (use True "1.prems" in \<open>auto simp: adj_def\<close>)
    then show ?thesis using "1.prems" True step by (auto simp: sep_def)
  next
    case False
    obtain rs where rs: "allocate_research_ranges s sections adj = Some rs"
        "ranges_in s 0 (length s) rs" "total_size rs \<le> adj"
      using allocate_ok [OF "1.prems"(1,2)] by blast
    have "adj \<le> budget" using "1.prems"(5) by (simp add: adj_def)
    with 1(1) [OF sep_def adj_def False rs(1) "1.prems"(1,2) rs(2,3)] False rs(1) step
    show ?thesis by simp
  qed
qed

lemma push_ranges_ok:
  "ranges_in s lo (length s) rs \<Longrightarrow>
    \<exists>t. push_ranges s is_first rs = Some t \<and>
      length t = total_size rs + length RESEARCH_SOURCE_OMISSION * (if is_first then length rs - 1 else length rs)"
proof (induction rs arbitrary: lo is_first)
  case (Cons r rs)
  obtain a b where r: "r = (a, b)" by force
  with Cons.prems have ab: "a < b" "is_char_boundary s a" "is_char_boundary s b" "ranges_in s b (length s) rs"
    by auto
  obtain t where t: "push_ranges s False rs = Some t"
      "length t = total_size rs + length RESEARCH_SOURCE_OMISSION * length rs"
    using Cons.IH [OF ab(4), of False] by auto
  have "str_slice s a b = Some (take (b - a) (drop a s))"
    using ab ranges_in_lo [OF ab(4)] by (simp add: str_slice_def)
  then show ?case
    using t r ab ranges_in_lo [OF ab(4)] by (auto simp: algebra_simps)
qed simp

text \<open>The excerpt exists, fits the budget, and is the marked concatenation of its ranges.\<close>

lemma select_bounded_ok:
  assumes "text_ok s"
  obtains t where "select_bounded_research_markdown s budget = Some t" "length t \<le> budget"
    "t = s \<or> t = [] \<or> (\<exists>rs. ranges_in s 0 (length s) rs \<and> push_ranges s True rs = Some t)"
proof (cases "length s \<le> budget \<or> budget = 0")
  case True
  with that [of s] that [of "[]"] show thesis
    by (auto simp: select_bounded_research_markdown_def)
next
  case False
  then have "s \<noteq> []" by auto
  note sec = sections_ranges [OF assms this]
  obtain r0 where r0: "allocate_research_ranges s (research_markdown_sections s) budget = Some r0"
      "ranges_in s 0 (length s) r0" "total_size r0 \<le> budget"
    using allocate_ok [OF assms sec] by blast
  obtain rs where rs: "select_loop s (research_markdown_sections s) budget budget r0 = Some rs"
      "ranges_in s 0 (length s) rs"
      "total_size rs + length RESEARCH_SOURCE_OMISSION * (length rs - 1) \<le> budget"
    using select_loop_ok [OF assms sec r0(2,3)] by auto
  obtain t where t: "push_ranges s True rs = Some t"
      "length t = total_size rs + length RESEARCH_SOURCE_OMISSION * (length rs - 1)"
    using push_ranges_ok [OF rs(2), of True] by auto
  show thesis
    by (rule that [of t])
      (use False r0(1) rs t in \<open>auto simp: select_bounded_research_markdown_def Let_def\<close>)
qed

end
