(* ===== verification/Research_Agent.thy ===== *)
theory Research_Agent
  imports Agent_Usage Excerpt_Bounds
begin

text \<open>
  The research engine of the agent (\<open>spider_agent/src/agent.rs\<close>, with the error and result
  types of \<open>error.rs\<close>, \<open>llm/mod.rs\<close> and \<open>spider_search/src/search.rs\<close>).  The search provider,
  the model, the HTTP client and an injected page acquirer are trait objects: each is an
  action on an outside world \<open>'w\<close>.  JSON parsing and printing (\<open>serde_json\<close>), the HTML
  materializer and the two Unicode operations of the focused query are arguments
  bundled as \<open>agent_deps\<close>.  A model request carries the parts that vary; the fixed prompt
  text around them and the sampling options are not modelled.
\<close>

section \<open>Errors, results, diagnostics\<close>

datatype search_error =
    RequestFailed string
  | AuthenticationFailed
  | SearchRateLimited
  | InvalidQuery string
  | ProviderError string
  | NoProvider

fun search_error_display :: "search_error \<Rightarrow> string" where
  "search_error_display (RequestFailed msg) = ''Search request failed: '' @ msg"
| "search_error_display AuthenticationFailed = ''Search authentication failed''"
| "search_error_display SearchRateLimited = ''Search rate limit exceeded''"
| "search_error_display (InvalidQuery msg) = ''Invalid search query: '' @ msg"
| "search_error_display (ProviderError msg) = ''Search provider error: '' @ msg"
| "search_error_display NoProvider = ''No search provider configured''"

text \<open>An HTTP error is what is read of it: whether it is a timeout, and its message.\<close>

datatype agent_error =
    Http (http_is_timeout: bool) (http_message: string)
  | Json string
  | MissingField string
  | InvalidField string
  | IncompleteGeneration
  | SynthesisIncompleteGeneration
  | InvalidExtraction string
  | EmptyCompletion
  | Remote string
  | NotConfigured string
  | SearchErr search_error
  | Llm string
  | Tool string
  | RateLimited
  | Timeout
  | LimitExceeded limit_type

fun agent_error_display :: "agent_error \<Rightarrow> string" where
  "agent_error_display (Http t m) = ''HTTP error: '' @ m"
| "agent_error_display (Json m) = ''JSON error: '' @ m"
| "agent_error_display (MissingField f) = ''Missing field: '' @ f"
| "agent_error_display (InvalidField f) = ''Invalid field: '' @ f"
| "agent_error_display IncompleteGeneration = ''Incomplete structured generation''"
| "agent_error_display SynthesisIncompleteGeneration = ''Incomplete synthesis generation''"
| "agent_error_display (InvalidExtraction m) = ''Invalid research extraction: '' @ m"
| "agent_error_display EmptyCompletion = ''Empty completion''"
| "agent_error_display (Remote m) = ''Remote error: '' @ m"
| "agent_error_display (NotConfigured w) = ''Not configured: '' @ w"
| "agent_error_display (SearchErr e) = ''Search error: '' @ search_error_display e"
| "agent_error_display (Llm m) = ''LLM error: '' @ m"
| "agent_error_display (Tool m) = ''Tool error: '' @ m"
| "agent_error_display RateLimited = ''Rate limit exceeded''"
| "agent_error_display Timeout = ''Request timed out''"
| "agent_error_display (LimitExceeded l) = ''Usage limit exceeded: '' @ limit_type_display l"

text \<open>\<open>From<reqwest::Error>\<close>.\<close>

definition agent_error_of_http :: "bool \<Rightarrow> string \<Rightarrow> agent_error" where
  "agent_error_of_http is_timeout m = (if is_timeout then Timeout else Http is_timeout m)"

datatype finish_reason = Stop | Length | OtherReason string

definition finish_reason_from_provider :: "string \<Rightarrow> finish_reason" where
  "finish_reason_from_provider value =
     (if value = ''stop'' then Stop else if value = ''length'' then Length else OtherReason value)"

record token_usage =
  tu_prompt_tokens :: "32 word"
  tu_completion_tokens :: "32 word"
  tu_total_tokens :: "32 word"

definition token_usage_default :: token_usage where
  "token_usage_default = \<lparr>tu_prompt_tokens = 0, tu_completion_tokens = 0, tu_total_tokens = 0\<rparr>"

definition token_usage_accumulate :: "token_usage \<Rightarrow> token_usage \<Rightarrow> token_usage" where
  "token_usage_accumulate u other =
     \<lparr>tu_prompt_tokens = tu_prompt_tokens u + tu_prompt_tokens other,
      tu_completion_tokens = tu_completion_tokens u + tu_completion_tokens other,
      tu_total_tokens = tu_total_tokens u + tu_total_tokens other\<rparr>"

record completion_response =
  cr_content :: string
  cr_usage :: token_usage
  cr_finish_reason :: "finish_reason option"

record search_result =
  sr_title :: string
  sr_url :: string
  sr_snippet :: "string option"
  sr_date :: "string option"
  sr_position :: nat

record search_results =
  srs_query :: string
  srs_results :: "search_result list"
  srs_total_results :: "nat option"
  srs_backend_failure :: bool

datatype extraction_outcome =
    PreExtractionRejectedStatus
  | PreExtractionUnsupportedContent
  | PreExtractionChallengeOrBlock
  | PreExtractionMaterializationFailed
  | XProviderNotConfigured
  | XProviderRequestFailed
  | XProviderTimeout
  | XIncompleteGeneration
  | XEmptyCompletion
  | XUnusableCompletionContent
  | XMalformedStructuredOutput
  | XSchemaValidationFailed
  | XSemanticValidationFailed
  | XSuccess

datatype synthesis_outcome =
    NotAttempted
  | ProviderNotConfigured
  | ProviderRequestFailed
  | ProviderTimeout
  | SIncompleteGeneration
  | SEmptyCompletion
  | UnusableCompletionContent
  | MalformedStructuredOutput
  | SchemaValidationFailed
  | SemanticValidationFailed
  | Insufficient
  | Success

record extraction_diagnostic =
  ed_acquisition_id :: "string option"
  ed_extraction_attempted :: bool
  ed_outcome :: extraction_outcome
  ed_finish_reason :: "finish_reason option"
  ed_input_bytes :: "nat option"
  ed_input_chars :: "nat option"

definition diagnostic_pre :: "string option \<Rightarrow> extraction_outcome \<Rightarrow> extraction_diagnostic" where
  "diagnostic_pre i outcome =
     \<lparr>ed_acquisition_id = i, ed_extraction_attempted = False, ed_outcome = outcome,
      ed_finish_reason = None, ed_input_bytes = None, ed_input_chars = None\<rparr>"

definition diagnostic_success ::
  "string option \<Rightarrow> finish_reason option \<Rightarrow> nat \<Rightarrow> extraction_diagnostic" where
  "diagnostic_success i reason n =
     \<lparr>ed_acquisition_id = i, ed_extraction_attempted = True, ed_outcome = XSuccess,
      ed_finish_reason = reason, ed_input_bytes = Some n, ed_input_chars = None\<rparr>"

definition diagnostic_failure ::
  "string option \<Rightarrow> nat option \<Rightarrow> extraction_outcome \<Rightarrow> extraction_diagnostic" where
  "diagnostic_failure i n outcome =
     \<lparr>ed_acquisition_id = i, ed_extraction_attempted = True, ed_outcome = outcome,
      ed_finish_reason = (if outcome = XIncompleteGeneration then Some Length else None),
      ed_input_bytes = n, ed_input_chars = None\<rparr>"

record synthesis_diagnostic =
  sd_synthesis_attempted :: bool
  sd_outcome :: synthesis_outcome
  sd_finish_reason :: "finish_reason option"
  sd_input_bytes :: "nat option"
  sd_source_count :: nat

definition synthesis_not_attempted :: synthesis_diagnostic where
  "synthesis_not_attempted =
     \<lparr>sd_synthesis_attempted = False, sd_outcome = NotAttempted, sd_finish_reason = None,
      sd_input_bytes = None, sd_source_count = 0\<rparr>"

definition synthesis_failure_with_metadata ::
  "synthesis_outcome \<Rightarrow> nat \<Rightarrow> nat option \<Rightarrow> finish_reason option \<Rightarrow> synthesis_diagnostic" where
  "synthesis_failure_with_metadata outcome source_count input_bytes finish_reason =
     \<lparr>sd_synthesis_attempted = True, sd_outcome = outcome, sd_finish_reason = finish_reason,
      sd_input_bytes = input_bytes, sd_source_count = source_count\<rparr>"

fun classify_synthesis_error :: "agent_error \<Rightarrow> synthesis_outcome" where
  "classify_synthesis_error IncompleteGeneration = SIncompleteGeneration"
| "classify_synthesis_error SynthesisIncompleteGeneration = SIncompleteGeneration"
| "classify_synthesis_error EmptyCompletion = SEmptyCompletion"
| "classify_synthesis_error Timeout = ProviderTimeout"
| "classify_synthesis_error (Http is_timeout m) =
     (if is_timeout then ProviderTimeout else ProviderRequestFailed)"
| "classify_synthesis_error (NotConfigured _) = ProviderNotConfigured"
| "classify_synthesis_error (Json _) = MalformedStructuredOutput"
| "classify_synthesis_error (InvalidField _) = SchemaValidationFailed"
| "classify_synthesis_error (MissingField _) = SchemaValidationFailed"
| "classify_synthesis_error (Llm _) = ProviderRequestFailed"
| "classify_synthesis_error (Remote _) = ProviderRequestFailed"
| "classify_synthesis_error _ = UnusableCompletionContent"

fun classify_extraction_error :: "agent_error \<Rightarrow> extraction_outcome" where
  "classify_extraction_error IncompleteGeneration = XIncompleteGeneration"
| "classify_extraction_error EmptyCompletion = XEmptyCompletion"
| "classify_extraction_error (Http is_timeout m) =
     (if is_timeout then XProviderTimeout else XProviderRequestFailed)"
| "classify_extraction_error Timeout = XProviderTimeout"
| "classify_extraction_error (NotConfigured _) = XProviderNotConfigured"
| "classify_extraction_error (Llm _) = XProviderRequestFailed"
| "classify_extraction_error (Remote _) = XProviderRequestFailed"
| "classify_extraction_error (Json _) = XMalformedStructuredOutput"
| "classify_extraction_error (InvalidExtraction _) = XUnusableCompletionContent"
| "classify_extraction_error (MissingField _) = XSchemaValidationFailed"
| "classify_extraction_error (InvalidField _) = XSchemaValidationFailed"
| "classify_extraction_error _ = XUnusableCompletionContent"

section \<open>Extractions and syntheses\<close>

record extraction_fact =
  xf_topic :: string
  xf_finding :: string

record research_extraction =
  rx_facts :: "extraction_fact list"
  rx_missing_evidence :: "string list"

text \<open>\<open>s.chars().count()\<close> of UTF-8 text.\<close>

definition char_count :: "string \<Rightarrow> nat" where
  "char_count s = length (filter (\<lambda>c. \<not> continuation_byte c) s)"

fun validate_facts :: "extraction_fact list \<Rightarrow> agent_error + unit" where
  "validate_facts [] = Inr ()"
| "validate_facts (f # fs) =
     (if 40 < char_count (xf_topic f) then Inl (InvalidExtraction ''fact topic exceeds 40 characters'')
      else if 240 < char_count (xf_finding f)
      then Inl (InvalidExtraction ''fact finding exceeds 240 characters'')
      else validate_facts fs)"

definition validate_extraction :: "research_extraction \<Rightarrow> agent_error + unit" where
  "validate_extraction x =
     (if 6 < length (rx_facts x) then Inl (InvalidExtraction ''facts exceeds 6 entries'')
      else res_bind (validate_facts (rx_facts x)) (\<lambda>_.
        if 4 < length (rx_missing_evidence x)
        then Inl (InvalidExtraction ''missing_evidence exceeds 4 entries'')
        else if (\<exists>item \<in> set (rx_missing_evidence x). 160 < char_count item)
        then Inl (InvalidExtraction ''missing_evidence item exceeds 160 characters'')
        else if rx_facts x = [] \<and> rx_missing_evidence x = []
        then Inl (InvalidExtraction ''facts and missing_evidence cannot both be empty'')
        else Inr ()))"

record page_extraction =
  px_url :: string
  px_title :: string
  px_extracted :: research_extraction
  px_acquisition_id :: "string option"
  px_finish_reason :: "finish_reason option"
  px_extraction_input_bytes :: nat

record research_result =
  rr_topic :: string
  rr_search_results :: search_results
  rr_extractions :: "page_extraction list"
  rr_summary :: "string option"
  rr_synthesis_sufficient :: "bool option"
  rr_synthesis_source_ids :: "string list"
  rr_synthesis_diagnostic :: "synthesis_diagnostic option"
  rr_extraction_diagnostics :: "extraction_diagnostic list"
  rr_usage :: token_usage

record validated_synthesis =
  vs_sufficient :: bool
  vs_summary :: string
  vs_source_ids :: "string list"

datatype llm_request =
    ExtractionRequest (xr_topic: string) (xr_instructions: string) (xr_selected: string)
  | SynthesisRequest (yr_topic: string) (yr_context: string) (yr_source_count: nat)

record 'j agent_deps =
  parse_extraction :: "string \<Rightarrow> string + research_extraction"
  parse_json_value :: "string \<Rightarrow> string + 'j"
  synthesis_of_value :: "'j \<Rightarrow> string + validated_synthesis"
  print_extraction :: "research_extraction \<Rightarrow> string"
  materialize_markdown :: "string \<Rightarrow> string \<Rightarrow> string + string"
  split_non_alphanumeric :: "string \<Rightarrow> string list"
  to_lowercase :: "string \<Rightarrow> string"

definition parse_strict_research_extraction ::
  "'j agent_deps \<Rightarrow> string \<Rightarrow> agent_error + research_extraction" where
  "parse_strict_research_extraction d content =
     res_bind (map_err InvalidExtraction (parse_extraction d content)) (\<lambda>extraction.
     res_bind (validate_extraction extraction) (\<lambda>_. Inr extraction))"

definition fence_mark :: string where
  "fence_mark = replicate 3 (CHR 0x60)"

definition or_else :: "'a option \<Rightarrow> 'a option \<Rightarrow> 'a option" where
  "or_else x y = (case x of None \<Rightarrow> y | Some v \<Rightarrow> Some v)"

definition parse_research_synthesis_envelope ::
  "'j agent_deps \<Rightarrow> string \<Rightarrow> agent_error + 'j" where
  "parse_research_synthesis_envelope d content =
     (let envelope = trim content;
          fenced = or_else (strip_prefix (fence_mark @ ''json'' @ newline) envelope)
                           (strip_prefix (fence_mark @ ''json'' @ [CHR 0x0D] @ newline) envelope)
      in res_bind
           (case fenced of
              Some f \<Rightarrow> ok_or (InvalidField ''synthesis envelope'')
                (or_else (strip_suffix (newline @ fence_mark) f)
                         (strip_suffix ([CHR 0x0D] @ newline @ fence_mark) f))
            | None \<Rightarrow> Inr envelope)
           (\<lambda>json. map_err Json (parse_json_value d json)))"

definition source_label :: "nat \<Rightarrow> string" where
  "source_label n = ''Source '' @ show_nat n"

definition insufficient_prefix :: string where
  "insufficient_prefix = ''Insufficient evidence:''"

definition validate_research_synthesis ::
  "'j agent_deps \<Rightarrow> string \<Rightarrow> nat \<Rightarrow> agent_error + validated_synthesis" where
  "validate_research_synthesis d content source_count =
     res_bind (parse_research_synthesis_envelope d content) (\<lambda>json.
     res_bind (map_err Json (synthesis_of_value d json)) (\<lambda>synthesis.
       if vs_sufficient synthesis \<and> vs_source_ids synthesis = [] then Inl (InvalidField ''source_ids'')
       else if \<exists>source_id \<in> set (vs_source_ids synthesis).
                 \<not> (\<exists>index \<in> set [1..<source_count + 1]. source_id = source_label index)
       then Inl (InvalidField ''source_ids'')
       else if \<not> vs_sufficient synthesis \<and> \<not> prefix insufficient_prefix (vs_summary synthesis)
       then Inl (InvalidField ''summary'')
       else if vs_sufficient synthesis \<and> prefix insufficient_prefix (vs_summary synthesis)
       then Inl (InvalidField ''summary'')
       else Inr synthesis))"

section \<open>Admission of a page\<close>

definition is_supported_research_content_type :: "string \<Rightarrow> bool" where
  "is_supported_research_content_type content_type =
     (let media_type = to_ascii_lowercase (trim (hd (split_on (CHR '';'') content_type)))
      in media_type = [] \<or> media_type = ''text/html'' \<or> media_type = ''application/xhtml+xml'')"

definition block_markers :: "string list" where
  "block_markers =
     [''/cdn-cgi/challenge-platform/'', ''cf-chl-'', ''<title>just a moment...</title>'',
      ''<title>attention required! | cloudflare</title>'', ''cloudflare ray id'',
      ''cf-error-details'', ''<title>access denied</title>'',
      ''<title>verify you are human</title>'', ''<title>robot check</title>'', ''g-recaptcha'',
      ''hcaptcha'']"

definition is_obvious_block_document :: "string \<Rightarrow> bool" where
  "is_obvious_block_document html =
     (let lower = to_ascii_lowercase html
      in \<exists>marker \<in> set block_markers. str_contains lower marker)"

section \<open>Preparing HTML\<close>

datatype html_cleaning_mode = CleanDefault | CleanAggressive | CleanMinimal | CleanRaw

definition find_from :: "string \<Rightarrow> string \<Rightarrow> nat \<Rightarrow> nat option" where
  "find_from pat s i = find_str pat (drop i s)"

text \<open>
  The body of the \<open>while\<close> loop for one tag; \<open>lower\<close> has the byte positions of \<open>s\<close>.  Each
  turn moves past a closing tag, so the position grows.
\<close>

function remove_tag_loop :: "string \<Rightarrow> string \<Rightarrow> string \<Rightarrow> string \<Rightarrow> nat \<Rightarrow> string" where
  "remove_tag_loop open' close' s lower p =
     (if p < length s then
        (case find_from open' lower p of
           None \<Rightarrow> drop p s
         | Some rel_start \<Rightarrow>
             (let start = p + rel_start
              in take rel_start (drop p s) @
                 (case find_from close' lower start of
                    None \<Rightarrow> drop start s
                  | Some rel_end \<Rightarrow>
                      if close' = [] then [] \<comment> \<open>a closing tag is never empty\<close>
                      else remove_tag_loop open' close' s lower (start + rel_end + length close'))))
      else [])"
  by pat_completeness auto
termination
  by (relation "measure (\<lambda>(_, _, s, _, p). length s - p)")
     (auto simp: length_greater_0_conv [symmetric] simp del: length_greater_0_conv)

declare remove_tag_loop.simps [simp del]

definition remove_tag :: "string \<Rightarrow> string \<Rightarrow> string" where
  "remove_tag tag html =
     remove_tag_loop (''<'' @ tag) (''</'' @ tag @ ''>'') html (to_ascii_lowercase html) 0"

definition remove_tags :: "string \<Rightarrow> string list \<Rightarrow> string" where
  "remove_tags html tags = fold remove_tag tags html"

fun clean_html :: "html_cleaning_mode \<Rightarrow> string \<Rightarrow> string" where
  "clean_html CleanRaw html = html"
| "clean_html CleanMinimal html = remove_tags html [''script'']"
| "clean_html CleanDefault html = remove_tags html [''script'', ''style'', ''noscript'']"
| "clean_html CleanAggressive html =
     remove_tags html [''script'', ''style'', ''noscript'', ''svg'', ''canvas'', ''video'', ''audio'', ''iframe'']"

text \<open>\<open>truncate_html\<close>; the slices are at boundaries by construction, hence an option.\<close>

definition truncate_html :: "nat \<Rightarrow> string \<Rightarrow> string option" where
  "truncate_html html_max_bytes html =
     (if length html \<le> html_max_bytes then Some html
      else Option.bind (str_slice html 0 (boundary_down html html_max_bytes)) (\<lambda>truncated.
        case rfind_str ''<'' truncated of
          Some p \<Rightarrow> str_slice truncated 0 p
        | None \<Rightarrow> Some truncated))"

definition is_placeholder_api_key :: "string \<Rightarrow> bool" where
  "is_placeholder_api_key key =
     (let trimmed = trim key
      in trimmed = [] \<or> eq_ignore_ascii_case trimmed ''YOUR_API_KEY''
         \<or> eq_ignore_ascii_case trimmed ''YOUR-API-KEY''
         \<or> eq_ignore_ascii_case trimmed ''API_KEY'' \<or> eq_ignore_ascii_case trimmed ''API-KEY'')"

section \<open>The focused fallback query\<close>

definition o_umlaut :: string where "o_umlaut = [CHR 0xC3, CHR 0xB6]"
definition a_umlaut :: string where "a_umlaut = [CHR 0xC3, CHR 0xA4]"
definition a_ring :: string where "a_ring = [CHR 0xC3, CHR 0xA5]"

definition STOP_WORDS :: "string list" where
  "STOP_WORDS =
     [''a'', ''an'', ''and'', ''are'', ''att'', ''be'', ''det'', ''do'', ''does'', ''for'', ''finns'',
      ''f'' @ o_umlaut @ ''r'', ''har'', ''how'', ''is'', ''it'', ''och'', ''of'', ''on'', ''p'' @ a_ring,
      ''the'', ''what'', ''vilka'', ''vilken'', ''vilket'', ''will'', ''with'', ''in'', ''to'', ''this'',
      ''that'', ''som'', ''kommer'', ''s'' @ a_umlaut @ ''ljas'', ''solve'', ''problems'', ''finnas'',
      ''bevis'', ''dessa'']"

definition MAX_TERMS :: nat where "MAX_TERMS = 8"

definition salient :: "'j agent_deps \<Rightarrow> string \<Rightarrow> bool" where
  "salient d word =
     (let normalized = to_lowercase d word
      in \<not> (char_count normalized < 3 \<or> normalized \<in> set STOP_WORDS))"

text \<open>The loop keeps salient words and breaks when it has \<open>MAX_TERMS\<close>.\<close>

fun select_terms :: "'j agent_deps \<Rightarrow> string list \<Rightarrow> string list \<Rightarrow> string list" where
  "select_terms d [] selected = selected"
| "select_terms d (word # words) selected =
     (if \<not> salient d word then select_terms d words selected
      else let selected = selected @ [word]
           in if length selected = MAX_TERMS then selected else select_terms d words selected)"

fun join_space :: "string list \<Rightarrow> string" where
  "join_space [] = []"
| "join_space [w] = w"
| "join_space (w # ws) = w @ '' '' @ join_space ws"

definition focused_research_query :: "'j agent_deps \<Rightarrow> string \<Rightarrow> string option" where
  "focused_research_query d topic =
     (let words = filter (\<lambda>w. w \<noteq> []) (split_non_alphanumeric d topic)
      in if length words \<le> 2 then None
         else (let selected = select_terms d words []
               in if length selected < 3 then None
                  else (let fallback = join_space selected;
                            normalized_topic = join_space (map (to_lowercase d) words)
                        in if to_lowercase d fallback = normalized_topic then None else Some fallback)))"

section \<open>The engine\<close>

record search_options =
  so_limit :: "nat option"
  so_country :: "string option"
  so_language :: "string option"
  so_site_filter :: "string list option"
  so_exclude_domains :: "string list option"
  so_time_range :: "string option"
  so_include_keywords :: "string list option"

definition search_options_new :: search_options where
  "search_options_new = \<lparr>so_limit = None, so_country = None, so_language = None,
     so_site_filter = None, so_exclude_domains = None, so_time_range = None,
     so_include_keywords = None\<rparr>"

definition search_options_with_limit :: "nat \<Rightarrow> search_options" where
  "search_options_with_limit n = search_options_new\<lparr>so_limit := Some n\<rparr>"

record research_options =
  ro_max_pages :: nat
  ro_search_options :: "search_options option"
  ro_extraction_prompt :: "string option"
  ro_synthesize :: bool

record acquired_source =
  as_requested_url :: string
  as_final_url :: string
  as_status :: nat
  as_content_type :: string
  as_content :: string
  as_acquisition_id :: "string option"

record fetch_result =
  fr_url :: string
  fr_status :: nat
  fr_content_type :: string
  fr_html :: string

definition source_of_fetch :: "fetch_result \<Rightarrow> acquired_source" where
  "source_of_fetch f =
     \<lparr>as_requested_url = fr_url f, as_final_url = fr_url f, as_status = fr_status f,
      as_content_type = fr_content_type f, as_content = fr_html f, as_acquisition_id = None\<rparr>"

record 'w agent_state =
  ag_usage :: usage_stats
  ag_world :: 'w

record ('j, 'w) agent =
  ag_deps :: "'j agent_deps"
  ag_llm :: "(llm_request \<Rightarrow> ('w, agent_error, completion_response) act) option"
  ag_search_provider :: "(string \<Rightarrow> search_options \<Rightarrow> ('w, search_error, search_results) act) option"
  ag_page_acquirer :: "(string \<Rightarrow> ('w, agent_error, acquired_source) act) option"
  ag_client :: "string \<Rightarrow> ('w, agent_error, fetch_result) act"
  ag_html_max_bytes :: nat
  ag_limits :: usage_limits

text \<open>An action of the outside world, and an update of the counters.\<close>

definition outside :: "('w, 'e, 'a) act \<Rightarrow> ('w agent_state, 'e, 'a) act" where
  "outside m st = (case m (ag_world st) of (r, w') \<Rightarrow> (r, st\<lparr>ag_world := w'\<rparr>))"

definition count :: "(usage_stats \<Rightarrow> usage_stats) \<Rightarrow> ('w agent_state, 'e, unit) act" where
  "count f st = (Inr (), st\<lparr>ag_usage := f (ag_usage st)\<rparr>)"

definition check_limit ::
  "(usage_stats \<Rightarrow> limit_type option) \<Rightarrow> ('w agent_state, agent_error, unit) act" where
  "check_limit f st =
     (case f (ag_usage st) of Some limit \<Rightarrow> (Inl (LimitExceeded limit), st) | None \<Rightarrow> (Inr (), st))"

definition search_with_options ::
  "('j, 'w) agent \<Rightarrow> string \<Rightarrow> search_options \<Rightarrow> ('w agent_state, agent_error, search_results) act" where
  "search_with_options a query options =
     act_bind (check_limit (\<lambda>u. check_search_limit u (ag_limits a))) (\<lambda>_.
     act_bind (act_lift (ok_or (NotConfigured ''search provider'') (ag_search_provider a))) (\<lambda>provider.
     act_bind (count increment_search_calls) (\<lambda>_.
     act_map_err SearchErr (outside (provider query options)))))"

definition complete_with_options ::
  "('j, 'w) agent \<Rightarrow> llm_request \<Rightarrow> ('w agent_state, agent_error, completion_response) act" where
  "complete_with_options a req =
     act_bind (check_limit (\<lambda>u. check_llm_limit u (ag_limits a))) (\<lambda>_.
     act_bind (check_limit (\<lambda>u. check_token_limits u (ag_limits a))) (\<lambda>_.
     act_bind (act_lift (ok_or (NotConfigured ''LLM provider'') (ag_llm a))) (\<lambda>llm.
     act_bind (count increment_llm_calls) (\<lambda>_.
     act_bind (outside (llm req)) (\<lambda>response.
     act_bind (count (add_tokens (ucast (tu_prompt_tokens (cr_usage response)))
                                 (ucast (tu_completion_tokens (cr_usage response))))) (\<lambda>_.
     act_ok response))))))"

definition agent_fetch ::
  "('j, 'w) agent \<Rightarrow> string \<Rightarrow> ('w agent_state, agent_error, fetch_result) act" where
  "agent_fetch a url =
     act_bind (check_limit (\<lambda>u. check_fetch_limit u (ag_limits a))) (\<lambda>_.
     act_bind (count increment_fetch_calls) (\<lambda>_.
     outside (ag_client a url)))"

definition extract_research_prepared ::
  "('j, 'w) agent \<Rightarrow> string \<Rightarrow> string \<Rightarrow> string
    \<Rightarrow> ('w agent_state, agent_error, research_extraction \<times> finish_reason option \<times> nat) act" where
  "extract_research_prepared a content topic extraction_instructions =
     (case select_bounded_research_markdown content (ag_html_max_bytes a) of
        None \<Rightarrow> act_err (Llm ''slice panic'') \<comment> \<open>does not occur on UTF-8 text\<close>
      | Some selected \<Rightarrow>
          act_bind (complete_with_options a (ExtractionRequest topic extraction_instructions selected))
            (\<lambda>response.
             if trim (cr_content response) = [] then act_err EmptyCompletion
             else if cr_finish_reason response = Some Length then act_err IncompleteGeneration
             else act_bind (act_lift (parse_strict_research_extraction (ag_deps a) (cr_content response)))
               (\<lambda>extraction. act_ok (extraction, cr_finish_reason response, length selected))))"

text \<open>What one search result contributes: extractions and diagnostics, oldest first.\<close>

definition acquire_source ::
  "('j, 'w) agent \<Rightarrow> string \<Rightarrow> ('w agent_state, agent_error, acquired_source) act" where
  "acquire_source a url =
     (case ag_page_acquirer a of
        Some acquirer \<Rightarrow>
          act_bind (count increment_fetch_calls) (\<lambda>_. outside (acquirer url))
      | None \<Rightarrow> act_bind (agent_fetch a url) (\<lambda>f. act_ok (source_of_fetch f)))"

definition process_source ::
  "('j, 'w) agent \<Rightarrow> string \<Rightarrow> string \<Rightarrow> search_result \<Rightarrow> acquired_source \<Rightarrow> 'w agent_state
    \<Rightarrow> (page_extraction list \<times> extraction_diagnostic list) \<times> 'w agent_state" where
  "process_source a topic extraction_instructions result source st =
     (if \<not> (200 \<le> as_status source \<and> as_status source < 300) then
        (([], [diagnostic_pre (as_acquisition_id source) PreExtractionRejectedStatus]), st)
      else if \<not> is_supported_research_content_type (as_content_type source) then
        (([], [diagnostic_pre (as_acquisition_id source) PreExtractionUnsupportedContent]), st)
      else if is_obvious_block_document (as_content source) then
        (([], [diagnostic_pre (as_acquisition_id source) PreExtractionChallengeOrBlock]), st)
      else
        (case materialize_markdown (ag_deps a) (as_content source) (as_final_url source) of
           Inl _ \<Rightarrow>
             (([], [diagnostic_pre (as_acquisition_id source) PreExtractionMaterializationFailed]), st)
         | Inr research_content \<Rightarrow>
             (case extract_research_prepared a research_content topic extraction_instructions st of
                (Inr (extracted, reason, input_bytes), st') \<Rightarrow>
                  (([\<lparr>px_url = as_final_url source, px_title = sr_title result,
                      px_extracted = extracted, px_acquisition_id = as_acquisition_id source,
                      px_finish_reason = reason, px_extraction_input_bytes = input_bytes\<rparr>],
                    [diagnostic_success (as_acquisition_id source) reason input_bytes]), st')
              | (Inl e, st') \<Rightarrow>
                  (([], [diagnostic_failure (as_acquisition_id source) (Some (length research_content))
                           (classify_extraction_error e)]), st'))))"

fun research_pages ::
  "('j, 'w) agent \<Rightarrow> string \<Rightarrow> string \<Rightarrow> search_result list \<Rightarrow> 'w agent_state
    \<Rightarrow> (page_extraction list \<times> extraction_diagnostic list) \<times> 'w agent_state" where
  "research_pages a topic extraction_instructions [] st = (([], []), st)"
| "research_pages a topic extraction_instructions (result # rest) st =
     (case acquire_source a (sr_url result) st of
        (Inl e, st1) \<Rightarrow> research_pages a topic extraction_instructions rest st1
      | (Inr source, st1) \<Rightarrow>
          (case process_source a topic extraction_instructions result source st1 of
             ((xs, ds), st2) \<Rightarrow>
               (case research_pages a topic extraction_instructions rest st2 of
                  ((xs', ds'), st3) \<Rightarrow> ((xs @ xs', ds @ ds'), st3))))"

section \<open>Synthesis\<close>

record synthesis_failure =
  sf_error :: agent_error
  sf_input_bytes :: "nat option"
  sf_finish_reason :: "finish_reason option"

definition synthesis_entry :: "'j agent_deps \<Rightarrow> nat \<Rightarrow> page_extraction \<Rightarrow> string" where
  "synthesis_entry d i x =
     newline @ newline @ source_label (i + 1) @ newline @ ''Final URL: '' @ px_url x @ newline
     @ ''Acquisition ID: '' @ (case px_acquisition_id x of None \<Rightarrow> ''none'' | Some aid \<Rightarrow> aid) @ newline
     @ ''Extracted JSON:'' @ newline @ print_extraction d (px_extracted x)"

definition synthesis_context :: "'j agent_deps \<Rightarrow> page_extraction list \<Rightarrow> string" where
  "synthesis_context d xs = concat (map (\<lambda>(i, x). synthesis_entry d i x) (enumerate 0 xs))"

definition synthesize_research ::
  "('j, 'w) agent \<Rightarrow> string \<Rightarrow> page_extraction list
    \<Rightarrow> ('w agent_state, synthesis_failure, validated_synthesis \<times> token_usage \<times> synthesis_diagnostic) act" where
  "synthesize_research a topic extractions =
     (let context = synthesis_context (ag_deps a) extractions;
          input_bytes = length context
      in act_bind
           (act_map_err
              (\<lambda>e. \<lparr>sf_error = e, sf_input_bytes = Some input_bytes, sf_finish_reason = None\<rparr>)
              (complete_with_options a (SynthesisRequest topic context (length extractions))))
           (\<lambda>response.
             if cr_finish_reason response = Some Length then
               act_err \<lparr>sf_error = SynthesisIncompleteGeneration, sf_input_bytes = Some input_bytes,
                        sf_finish_reason = cr_finish_reason response\<rparr>
             else if trim (cr_content response) = [] then
               act_err \<lparr>sf_error = EmptyCompletion, sf_input_bytes = Some input_bytes,
                        sf_finish_reason = cr_finish_reason response\<rparr>
             else
               act_bind
                 (act_lift (map_err
                    (\<lambda>e. \<lparr>sf_error = e, sf_input_bytes = Some input_bytes,
                          sf_finish_reason = cr_finish_reason response\<rparr>)
                    (validate_research_synthesis (ag_deps a) (cr_content response) (length extractions))))
                 (\<lambda>synthesis.
                    act_ok (synthesis, cr_usage response,
                      \<lparr>sd_synthesis_attempted = True,
                       sd_outcome = (if vs_sufficient synthesis then Success else Insufficient),
                       sd_finish_reason = cr_finish_reason response,
                       sd_input_bytes = Some input_bytes,
                       sd_source_count = length extractions\<rparr>))))"

section \<open>Research\<close>

definition default_instructions :: string where
  "default_instructions = ''Extract key information, including facts, data points, and insights.''"

definition search_with_fallback ::
  "('j, 'w) agent \<Rightarrow> string \<Rightarrow> search_options \<Rightarrow> ('w agent_state, agent_error, search_results) act" where
  "search_with_fallback a topic opts =
     act_bind (search_with_options a topic opts) (\<lambda>results.
     let backend_failure = srs_backend_failure results in
     if srs_results results = [] then
       (case focused_research_query (ag_deps a) topic of
          Some fallback \<Rightarrow>
            act_bind (search_with_options a fallback opts) (\<lambda>results.
            act_ok (results\<lparr>srs_backend_failure := srs_backend_failure results \<or> backend_failure\<rparr>))
        | None \<Rightarrow> act_ok results)
     else act_ok results)"

definition research_found ::
  "('j, 'w) agent \<Rightarrow> string \<Rightarrow> research_options \<Rightarrow> search_results \<Rightarrow> 'w agent_state
    \<Rightarrow> research_result \<times> 'w agent_state" where
  "research_found a topic options results st =
     (let extraction_instructions =
            (case ro_extraction_prompt options of None \<Rightarrow> default_instructions | Some p \<Rightarrow> p);
          max_pages = min (ro_max_pages options) (length (srs_results results))
      in case research_pages a topic extraction_instructions (take max_pages (srs_results results)) st of
           ((extractions, diagnostics), st1) \<Rightarrow>
             (let base = \<lparr>rr_topic = topic, rr_search_results = results, rr_extractions = extractions,
                    rr_summary = None, rr_synthesis_sufficient = None, rr_synthesis_source_ids = [],
                    rr_synthesis_diagnostic = Some synthesis_not_attempted,
                    rr_extraction_diagnostics = diagnostics, rr_usage = token_usage_default\<rparr>
              in if ro_synthesize options \<and> extractions \<noteq> [] then
                   (case synthesize_research a topic extractions st1 of
                      (Inr (synthesis, usage, diagnostic), st2) \<Rightarrow>
                        (base\<lparr>rr_summary := Some (vs_summary synthesis),
                              rr_synthesis_sufficient := Some (vs_sufficient synthesis),
                              rr_synthesis_source_ids := vs_source_ids synthesis,
                              rr_synthesis_diagnostic := Some diagnostic,
                              rr_usage := token_usage_accumulate token_usage_default usage\<rparr>, st2)
                    | (Inl e, st2) \<Rightarrow>
                        (base\<lparr>rr_synthesis_diagnostic := Some (synthesis_failure_with_metadata
                                (classify_synthesis_error (sf_error e)) (length extractions)
                                (sf_input_bytes e) (sf_finish_reason e))\<rparr>, st2))
                 else (base, st1)))"

definition research ::
  "('j, 'w) agent \<Rightarrow> string \<Rightarrow> research_options \<Rightarrow> ('w agent_state, agent_error, research_result) act" where
  "research a topic options =
     (let search_opts = (case ro_search_options options of
            Some o' \<Rightarrow> o' | None \<Rightarrow> search_options_with_limit (max (ro_max_pages options) 5))
      in act_bind (search_with_fallback a topic search_opts) (\<lambda>results st.
           if srs_results results = [] then
             (Inr \<lparr>rr_topic = topic, rr_search_results = results, rr_extractions = [],
                   rr_summary = None, rr_synthesis_sufficient = None, rr_synthesis_source_ids = [],
                   rr_synthesis_diagnostic = Some synthesis_not_attempted,
                   rr_extraction_diagnostics = [], rr_usage = token_usage_default\<rparr>, st)
           else (case research_found a topic options results st of (r, st') \<Rightarrow> (Inr r, st'))))"

section \<open>Lemmas\<close>

lemma validate_research_synthesis_Inr:
  assumes "validate_research_synthesis d content n = Inr v"
  shows "set (vs_source_ids v) \<subseteq> source_label ` {1..n}"
    "vs_sufficient v \<Longrightarrow> vs_source_ids v \<noteq> []"
    "prefix insufficient_prefix (vs_summary v) \<longleftrightarrow> \<not> vs_sufficient v"
proof -
  from assms have v: "\<not> (\<exists>i \<in> set (vs_source_ids v). \<not> (\<exists>k \<in> set [1..<n + 1]. i = source_label k))"
    "\<not> (vs_sufficient v \<and> vs_source_ids v = [])"
    "\<not> (\<not> vs_sufficient v \<and> \<not> prefix insufficient_prefix (vs_summary v))"
    "\<not> (vs_sufficient v \<and> prefix insufficient_prefix (vs_summary v))"
    by (auto simp: validate_research_synthesis_def res_bind_Inr simp del: upt_Suc split: if_splits)
  show "set (vs_source_ids v) \<subseteq> source_label ` {1..n}"
    using v(1) by (auto simp: less_Suc_eq_le simp del: upt_Suc)
  show "vs_sufficient v \<Longrightarrow> vs_source_ids v \<noteq> []" using v(2) by blast
  show "prefix insufficient_prefix (vs_summary v) \<longleftrightarrow> \<not> vs_sufficient v" using v(3,4) by blast
qed

definition research_ok :: "research_result \<Rightarrow> bool" where
  "research_ok r \<longleftrightarrow>
     (case rr_synthesis_sufficient r of
        None \<Rightarrow> rr_summary r = None \<and> rr_synthesis_source_ids r = []
      | Some b \<Rightarrow> rr_extractions r \<noteq> [] \<and>
          (\<exists>s. rr_summary r = Some s \<and> (prefix insufficient_prefix s \<longleftrightarrow> \<not> b)) \<and>
          (b \<longrightarrow> rr_synthesis_source_ids r \<noteq> []) \<and>
          set (rr_synthesis_source_ids r) \<subseteq> source_label ` {1..length (rr_extractions r)}) \<and>
     (\<forall>x \<in> set (rr_extractions r). validate_extraction (px_extracted x) = Inr ()) \<and>
     (rr_extractions r \<noteq> [] \<longrightarrow> srs_results (rr_search_results r) \<noteq> [])"

lemma extract_research_Inr:
  assumes "extract_research_prepared a c t i st = (Inr (x, reason, n), st')"
  shows "validate_extraction x = Inr () \<and>
    (\<exists>sel. select_bounded_research_markdown c (ag_html_max_bytes a) = Some sel \<and> n = length sel)"
  using assms
  by (auto simp: extract_research_prepared_def act_bind_Inr_iff parse_strict_research_extraction_def
      res_bind_Inr split: option.splits if_splits)

lemma process_source_shape:
  assumes "process_source a topic ins r source st = ((xs, ds), st')"
  shows "length xs \<le> 1 \<and> length ds = 1 \<and> (\<forall>x \<in> set xs. validate_extraction (px_extracted x) = Inr ()
     \<and> px_acquisition_id x = as_acquisition_id source \<and> px_url x = as_final_url source
     \<and> 200 \<le> as_status source \<and> as_status source < 300)"
  using assms
  by (auto simp: process_source_def split: if_splits sum.splits prod.splits dest!: extract_research_Inr)

lemma research_pages_shape:
  "research_pages a topic ins rs st = ((xs, ds), st') \<Longrightarrow>
    length xs \<le> length ds \<and> length ds \<le> length rs \<and>
    (\<forall>x \<in> set xs. validate_extraction (px_extracted x) = Inr ())"
proof (induction rs arbitrary: st xs ds st')
  case (Cons r rs)
  show ?case
  proof (cases "acquire_source a (sr_url r) st")
    case (Pair res st1)
    show ?thesis
    proof (cases res)
      case (Inl e)
      with Pair Cons.prems have "research_pages a topic ins rs st1 = ((xs, ds), st')" by simp
      then show ?thesis using Cons.IH by fastforce
    next
      case (Inr source)
      obtain ys es st2 where ps: "process_source a topic ins r source st1 = ((ys, es), st2)"
        by (metis prod.exhaust)
      obtain zs fs st3 where rest: "research_pages a topic ins rs st2 = ((zs, fs), st3)"
        by (metis prod.exhaust)
      have "xs = ys @ zs" "ds = es @ fs" using Cons.prems Pair Inr ps rest by auto
      then show ?thesis
        using process_source_shape [OF ps] Cons.IH [OF rest] by auto
    qed
  qed
qed simp

lemma synthesize_research_Inr:
  assumes "synthesize_research a topic xs st = (Inr (v, u, d), st')"
  shows "\<exists>content. validate_research_synthesis (ag_deps a) content (length xs) = Inr v"
  using assms
  by (auto simp: synthesize_research_def act_bind_Inr_iff Let_def split: if_splits)

lemma research_found_ok:
  assumes "research_found a topic options results st = (r, st')"
  shows "research_ok r \<and> rr_topic r = topic \<and> rr_search_results r = results \<and>
    length (rr_extractions r) \<le> min (ro_max_pages options) (length (srs_results results)) \<and>
    (\<not> ro_synthesize options \<longrightarrow> rr_synthesis_sufficient r = None)"
proof -
  obtain xs ds st1 where pages: "research_pages a topic
      (case ro_extraction_prompt options of None \<Rightarrow> default_instructions | Some p \<Rightarrow> p)
      (take (min (ro_max_pages options) (length (srs_results results))) (srs_results results)) st
      = ((xs, ds), st1)" by (metis prod.exhaust)
  note shape = research_pages_shape [OF pages]
  show ?thesis
  proof (cases "ro_synthesize options \<and> xs \<noteq> []")
    case False
    then show ?thesis
      using assms pages shape by (auto simp: research_found_def Let_def research_ok_def)
  next
    case True
    obtain res st2 where syn: "synthesize_research a topic xs st1 = (res, st2)" by fastforce
    show ?thesis
    proof (cases res)
      case (Inl e)
      with syn True assms pages shape show ?thesis
        by (auto simp: research_found_def Let_def research_ok_def)
    next
      case (Inr x)
      obtain v u d where x: "x = (v, u, d)" by (metis prod_cases3)
      obtain content where "validate_research_synthesis (ag_deps a) content (length xs) = Inr v"
        using synthesize_research_Inr syn Inr x by blast
      note v = validate_research_synthesis_Inr [OF this]
      show ?thesis
        using syn Inr x True assms pages shape v
        by (auto simp: research_found_def Let_def research_ok_def)
    qed
  qed
qed

text \<open>Every research result is one of these.\<close>

lemma research_Inr:
  assumes "research a topic options st = (Inr r, st')"
  shows "research_ok r \<and> rr_topic r = topic \<and> length (rr_extractions r) \<le> ro_max_pages options \<and>
    (\<not> ro_synthesize options \<longrightarrow> rr_synthesis_sufficient r = None)"
  using assms research_found_ok
  by (auto simp: research_def act_bind_Inr_iff Let_def research_ok_def split: if_splits prod.splits)
     fastforce+

text \<open>
  Whatever the three ways to the outside preserve (a search, a completion, an acquisition),
  a whole research run preserves.
\<close>

lemma keeps_extract_research:
  assumes "\<And>req. keeps I (complete_with_options a req)"
  shows "keeps I (extract_research_prepared a c t i)"
  unfolding extract_research_prepared_def by (intro triple_intro assms)

lemma keeps_process_source:
  assumes "\<And>req. keeps I (complete_with_options a req)"
    and "I st" "process_source a t i r src st = (out, st')"
  shows "I st'"
  using assms(2,3) keepsD [OF keeps_extract_research [OF assms(1)]]
  by (auto simp: process_source_def split: if_splits sum.splits prod.splits)

lemma keeps_research_pages:
  assumes "\<And>req. keeps I (complete_with_options a req)" "\<And>url. keeps I (acquire_source a url)"
  shows "I st \<Longrightarrow> research_pages a t i rs st = (out, st') \<Longrightarrow> I st'"
proof (induction rs arbitrary: st out)
  case (Cons r rs)
  obtain res st1 where acq: "acquire_source a (sr_url r) st = (res, st1)" by fastforce
  have I1: "I st1" using keepsD [OF assms(2)] Cons.prems(1) acq by blast
  show ?case
  proof (cases res)
    case (Inl e)
    with Cons acq I1 show ?thesis by auto
  next
    case (Inr src)
    obtain xs ds st2 where ps: "process_source a t i r src st1 = ((xs, ds), st2)" by (metis prod.exhaust)
    obtain o3 st3 where rest: "research_pages a t i rs st2 = (o3, st3)" by fastforce
    have "st3 = st'" using Cons.prems(2) acq Inr ps rest by (auto split: prod.splits)
    with Cons.IH [OF keeps_process_source [OF assms(1) I1 ps]] rest show ?thesis by blast
  qed
qed simp

lemma keeps_synthesize_research:
  assumes "\<And>req. keeps I (complete_with_options a req)"
  shows "keeps I (synthesize_research a t xs)"
  unfolding synthesize_research_def Let_def by (intro triple_intro assms)

lemma keeps_research:
  assumes "\<And>q opts. keeps I (search_with_options a q opts)"
    and "\<And>req. keeps I (complete_with_options a req)" "\<And>url. keeps I (acquire_source a url)"
  shows "keeps I (research a t options)"
proof -
  have search: "keeps I (search_with_fallback a t opts)" for opts
    unfolding search_with_fallback_def Let_def by (intro triple_intro assms)
  have found: "I st'" if "I st" "research_found a t options results st = (r, st')" for results st r st'
  proof -
    obtain xs ds st1 where pages: "research_pages a t
        (case ro_extraction_prompt options of None \<Rightarrow> default_instructions | Some p \<Rightarrow> p)
        (take (min (ro_max_pages options) (length (srs_results results))) (srs_results results)) st
        = ((xs, ds), st1)" by (metis prod.exhaust)
    have "I st1" using keeps_research_pages [OF assms(2,3) that(1) pages] .
    then show ?thesis
      using that(2) pages keepsD [OF keeps_synthesize_research [OF assms(2)]]
      by (auto simp: research_found_def Let_def split: if_splits sum.splits prod.splits)
  qed
  have rest: "keeps I (\<lambda>st. if srs_results results = [] then (f, st)
      else (case research_found a t options results st of (r, st') \<Rightarrow> (Inr r, st')))" for results f
    using found by (auto simp: keeps_def split: prod.splits)
  show ?thesis
    unfolding research_def Let_def by (intro keeps_bind search rest)
qed

lemma keeps_outside:
  "keeps J m \<Longrightarrow> keeps (\<lambda>st. J (ag_world st)) (outside m)"
  unfolding keeps_def outside_def by (auto split: prod.splits)

lemma keeps_bind_lift:
  "(\<And>x. r = Inr x \<Longrightarrow> keeps I (f x)) \<Longrightarrow> keeps I (act_bind (act_lift r) f)"
  by (cases r) (auto simp: keeps_def act_bind_def)

lemma keeps_usage_outside [triple_intro]: "keeps (\<lambda>st. J (ag_usage st)) (outside m)"
  by (auto simp: keeps_def outside_def split: prod.splits)

lemma keeps_world_count [triple_intro]: "keeps (\<lambda>st. J (ag_world st)) (count f)"
  by (simp add: keeps_def count_def)

lemma keeps_usage_count: "(\<And>u. J u \<Longrightarrow> J (f u)) \<Longrightarrow> keeps (\<lambda>st. J (ag_usage st)) (count f)"
  by (simp add: keeps_def count_def)

lemma keeps_check_limit [triple_intro]: "keeps I (check_limit f)"
  by (simp add: keeps_def check_limit_def split: option.splits)

text \<open>A property of the outside world that the providers preserve.\<close>

lemma keeps_world_research:
  assumes "\<And>f q opts. ag_search_provider a = Some f \<Longrightarrow> keeps J (f q opts)"
    and "\<And>f req. ag_llm a = Some f \<Longrightarrow> keeps J (f req)"
    and "\<And>f url. ag_page_acquirer a = Some f \<Longrightarrow> keeps J (f url)"
    and "ag_page_acquirer a \<noteq> None"
  shows "keeps (\<lambda>st. J (ag_world st)) (research a t options)"
proof (rule keeps_research)
  show "keeps (\<lambda>st. J (ag_world st)) (search_with_options a q opts)" for q opts
    using assms(1)
    by (cases "ag_search_provider a") (auto simp: search_with_options_def act_bind_lift act_bind_def
        keeps_def outside_def count_def check_limit_def act_map_err_def split: prod.splits option.splits,
        metis snd_conv)
  show "keeps (\<lambda>st. J (ag_world st)) (complete_with_options a req)" for req
  proof (cases "ag_llm a")
    case (Some f)
    then show ?thesis
      unfolding complete_with_options_def Some ok_or_simps
      by (intro keeps_bind_lift triple_intro keeps_outside assms(2)) (auto simp: Some)
  next
    case None
    then show ?thesis
      unfolding complete_with_options_def None ok_or_simps
      by (intro keeps_bind_lift triple_intro) auto
  qed
  show "keeps (\<lambda>st. J (ag_world st)) (acquire_source a url)" for url
  proof (cases "ag_page_acquirer a")
    case (Some f)
    then show ?thesis
      unfolding acquire_source_def Some option.case
      by (intro triple_intro keeps_outside assms(3)) (simp_all add: Some)
  qed (use assms(4) in simp)
qed

section \<open>Limits\<close>

text \<open>
  A counter that a check guards stays at or below its limit.  The guarded increment
  cannot wrap, because it happens only below the limit.
\<close>

definition within :: "u64 option \<Rightarrow> u64 \<Rightarrow> bool" where
  "within m used \<longleftrightarrow> (case m of None \<Rightarrow> True | Some limit \<Rightarrow> used \<le> limit)"

lemma within_inc: "(case m of None \<Rightarrow> True | Some limit \<Rightarrow> \<not> limit \<le> used) \<Longrightarrow> within m (used + 1)"
  by (auto simp: within_def not_le inc_le split: option.splits)

lemma check_limit_then:
  "act_bind (check_limit f) (\<lambda>_. m) st =
     (case f (ag_usage st) of Some l \<Rightarrow> (Inl (LimitExceeded l), st) | None \<Rightarrow> m st)"
  by (simp add: act_bind_def check_limit_def split: option.splits)

definition calls_within :: "usage_limits \<Rightarrow> usage_stats \<Rightarrow> bool" where
  "calls_within limits u \<longleftrightarrow>
     within (max_llm_calls limits) (us_llm_calls u) \<and> within (max_search_calls limits) (us_search_calls u)"

lemma keeps_calls_search:
  "keeps (\<lambda>st. calls_within (ag_limits a) (ag_usage st)) (search_with_options a q opts)"
proof -
  let ?I = "\<lambda>st. calls_within (ag_limits a) (ag_usage st)"
  have "?I (snd (search_with_options a q opts st))" if "?I st" for st
  proof (cases "check_search_limit (ag_usage st) (ag_limits a)")
    case None
    then have "within (max_search_calls (ag_limits a)) (us_search_calls (ag_usage st) + 1)"
      by (intro within_inc) (auto simp: check_search_limit_def Let_def split: option.splits if_splits)
    with None that show ?thesis
      by (cases "ag_search_provider a")
        (auto simp: search_with_options_def check_limit_def act_bind_lift act_bind_def count_def
          outside_def act_map_err_def calls_within_def increment_search_calls_def split: prod.splits)
  qed (use that in \<open>simp add: search_with_options_def check_limit_then\<close>)
  then show ?thesis by (simp add: keeps_def)
qed

lemma keeps_calls_complete:
  "keeps (\<lambda>st. calls_within (ag_limits a) (ag_usage st)) (complete_with_options a req)"
proof -
  let ?I = "\<lambda>st. calls_within (ag_limits a) (ag_usage st)"
  have "?I (snd (complete_with_options a req st))" if "?I st" for st
  proof (cases "check_llm_limit (ag_usage st) (ag_limits a)")
    case None
    then have "within (max_llm_calls (ag_limits a)) (us_llm_calls (ag_usage st) + 1)"
      by (intro within_inc) (auto simp: check_llm_limit_def Let_def split: option.splits if_splits)
    with None that show ?thesis
      by (cases "ag_llm a"; cases "check_token_limits (ag_usage st) (ag_limits a)")
        (auto simp: complete_with_options_def check_limit_def act_bind_lift act_bind_def count_def
          outside_def calls_within_def increment_llm_calls_def add_tokens_def split: prod.splits sum.splits)
  qed (use that in \<open>simp add: complete_with_options_def check_limit_then\<close>)
  then show ?thesis by (simp add: keeps_def)
qed

lemma keeps_calls_acquire:
  "keeps (\<lambda>st. calls_within (ag_limits a) (ag_usage st)) (acquire_source a url)"
proof -
  have inc: "keeps (\<lambda>st. calls_within (ag_limits a) (ag_usage st)) (count increment_fetch_calls)"
    by (rule keeps_usage_count) (simp add: calls_within_def increment_fetch_calls_def)
  show ?thesis
    unfolding acquire_source_def agent_fetch_def by (intro triple_intro inc)
qed

end
