(* ===== verification/Research_Session.thy ===== *)
theory Research_Session
  imports Research_Agent Evidence
begin

text \<open>
  Durable research sessions (\<open>spider/src/features/research_session.rs\<close>) and the durable page
  acquirer they install in the agent (\<open>spider/src/features/agent_acquisition.rs\<close>).  A
  session is claimed, the engine runs, and the outcome is bound to durable evidence,
  validated and written over the claim.  The network is \<open>se_fetch_page\<close>, the answer to
  the \<open>n\<close>-th page request; \<open>se_fresh_evidence n\<close> is the identity minted for it.
\<close>

section \<open>The record of a session\<close>

datatype source_disposition = SuccessfullyExtracted | RejectedOrSkipped

record session_source =
  rs_evidence :: evidence_ref
  rs_disposition :: source_disposition

record session_diagnostic =
  rd_evidence :: evidence_ref
  rd_extraction_attempted :: bool
  rd_outcome :: extraction_outcome
  rd_finish_reason :: "finish_reason option"
  rd_input_bytes :: "nat option"
  rd_input_chars :: "nat option"

record source_binding =
  sb_source_number :: nat
  sb_evidence :: evidence_ref

definition binding_source_label :: "source_binding \<Rightarrow> string" where
  "binding_source_label b = ''Source '' @ show_nat (sb_source_number b)"

record session_counts =
  sc_search_results :: nat
  sc_acquisition_attempts :: nat
  sc_durable_sources :: nat
  sc_observed_acquisitions :: nat
  sc_successful_extractions :: nat

definition counts_default :: session_counts where
  "counts_default = \<lparr>sc_search_results = 0, sc_acquisition_attempts = 0, sc_durable_sources = 0,
     sc_observed_acquisitions = 0, sc_successful_extractions = 0\<rparr>"

record durable_extraction =
  dx_source_number :: nat
  dx_evidence :: evidence_ref
  dx_extracted :: research_extraction
  dx_extraction_input_bytes :: nat
  dx_finish_reason :: "finish_reason option"

record durable_citation =
  dc_source_number :: nat
  dc_evidence :: evidence_ref

record durable_synthesis =
  ds_summary :: string
  ds_citations :: "durable_citation list"
  ds_usage :: token_usage

record durable_result =
  dr_extractions :: "durable_extraction list"
  dr_synthesis :: "durable_synthesis option"

datatype session_state =
    RClaimed
  | SearchFailed
  | CompletedNoSearchResults
  | CompletedNoObservedAcquisitions
  | CompletedNoExtractions
  | CompletedWithoutSynthesisRequested
  | CompletedSynthesisInsufficient
  | CompletedSynthesisFailed
  | CompletedSuccessfully

record research_session =
  se_id :: research_id
  se_topic :: string
  se_extraction_instructions :: "string option"
  se_sources :: "session_source list"
  se_source_bindings :: "source_binding list"
  se_extraction_diagnostics :: "session_diagnostic list"
  se_synthesis_diagnostic :: "synthesis_diagnostic option"
  se_counts :: session_counts
  se_state :: session_state
  se_result :: "durable_result option"
  se_created_at_unix_ms :: nat
  se_completed_at_unix_ms :: "nat option"

text \<open>
  The code's two free-text errors are given by their reason: the message is a fixed
  rendering of it.
\<close>

datatype binding_fault =
    NoAcquisitionIdentity
  | NotRetained evidence_id
  | NotDurable evidence_id
  | NoEvidenceIdentity evidence_id
  | NotResolvable evidence_id

datatype result_fault =
    MalformedSource string
  | NonCanonicalSource string
  | NoRuntimeResult
  | CountMismatch
  | BoundOutOfOrder nat
  | ExtractionWithoutIdentity nat
  | ExtractionMismatch nat
  | NoSummary session_state
  | DuplicateCitation string
  | UnboundCitation string
  | NoCitation
  | CannotPublish session_state
  | ResultPresence session_state
  | CountContradiction
  | BindingContradiction nat
  | SynthesisPresence session_state
  | DuplicateDurableCitation nat
  | UnboundDurableCitation nat
  | NoDurableCitation

datatype research_session_error =
    AgentSetup agent_error
  | SessPersistence persistence_error
  | SessSerialization string
  | InvalidEvidenceId identity_parse_error
  | SessEvidence evidence_ledger_error
  | InvalidDurableBinding binding_fault
  | InvalidDurableResult result_fault

section \<open>Validation\<close>

definition result_required :: "session_state \<Rightarrow> bool" where
  "result_required st \<longleftrightarrow> st \<in> {CompletedWithoutSynthesisRequested, CompletedSynthesisFailed,
     CompletedSynthesisInsufficient, CompletedSuccessfully}"

definition synthesis_required :: "session_state \<Rightarrow> bool" where
  "synthesis_required st \<longleftrightarrow> st \<in> {CompletedSynthesisInsufficient, CompletedSuccessfully}"

definition find_binding :: "source_binding list \<Rightarrow> nat \<Rightarrow> source_binding option" where
  "find_binding bindings n = find (\<lambda>b. sb_source_number b = n) bindings"

fun validate_extractions ::
  "nat \<Rightarrow> durable_extraction list \<Rightarrow> source_binding list \<Rightarrow> result_fault + unit" where
  "validate_extractions index [] bindings = Inr ()"
| "validate_extractions index (x # xs) bindings =
     (let b = bindings ! index
      in if dx_source_number x \<noteq> index + 1 \<or> sb_source_number b \<noteq> dx_source_number x
            \<or> sb_evidence b \<noteq> dx_evidence x
         then Inl (BindingContradiction (index + 1))
         else validate_extractions (index + 1) xs bindings)"

fun validate_citations ::
  "source_binding list \<Rightarrow> nat list \<Rightarrow> durable_citation list \<Rightarrow> result_fault + unit" where
  "validate_citations bindings seen [] = Inr ()"
| "validate_citations bindings seen (c # cs) =
     (if dc_source_number c \<in> set seen then Inl (DuplicateDurableCitation (dc_source_number c))
      else case find_binding bindings (dc_source_number c) of
             Some b \<Rightarrow>
               if sb_evidence b = dc_evidence c
               then validate_citations bindings (dc_source_number c # seen) cs
               else Inl (UnboundDurableCitation (dc_source_number c))
           | None \<Rightarrow> Inl (UnboundDurableCitation (dc_source_number c)))"

definition validate_session_result :: "research_session \<Rightarrow> result_fault + unit" where
  "validate_session_result s =
     (if result_required (se_state s) \<noteq> (se_result s \<noteq> None) then Inl (ResultPresence (se_state s))
      else case se_result s of
        None \<Rightarrow> Inr ()
      | Some result \<Rightarrow>
          if dr_extractions result = []
             \<or> length (dr_extractions result) \<noteq> length (se_source_bindings s)
             \<or> length (dr_extractions result) \<noteq> sc_successful_extractions (se_counts s)
          then Inl CountContradiction
          else res_bind (validate_extractions 0 (dr_extractions result) (se_source_bindings s)) (\<lambda>_.
            if synthesis_required (se_state s) \<noteq> (dr_synthesis result \<noteq> None)
            then Inl (SynthesisPresence (se_state s))
            else case dr_synthesis result of
              None \<Rightarrow> Inr ()
            | Some synthesis \<Rightarrow>
                res_bind (validate_citations (se_source_bindings s) [] (ds_citations synthesis)) (\<lambda>_.
                  if se_state s = CompletedSuccessfully \<and> ds_citations synthesis = []
                  then Inl NoDurableCitation else Inr ())))"

section \<open>Building the durable result\<close>

definition terminal_state :: "agent_error + research_result \<Rightarrow> bool \<Rightarrow> nat \<Rightarrow> session_state" where
  "terminal_state result synthesize observed_acquisitions =
     (case result of
        Inl _ \<Rightarrow> SearchFailed
      | Inr r \<Rightarrow>
          let found = rr_search_results r in
          if srs_results found = [] \<and> srs_backend_failure found then SearchFailed
          else if srs_results found = [] then CompletedNoSearchResults
          else if rr_extractions r = [] then
            (if observed_acquisitions = 0 then CompletedNoObservedAcquisitions else CompletedNoExtractions)
          else if \<not> synthesize then CompletedWithoutSynthesisRequested
          else (case rr_synthesis_sufficient r of
                  Some True \<Rightarrow> CompletedSuccessfully
                | Some False \<Rightarrow> CompletedSynthesisInsufficient
                | None \<Rightarrow> CompletedSynthesisFailed))"

text \<open>\<open>usize\<close> is 64 bits wide.\<close>

definition source_number :: "string \<Rightarrow> result_fault + nat" where
  "source_number raw =
     res_bind
       (ok_or (MalformedSource raw)
          (case Option.bind (strip_prefix ''Source '' raw) (parse_unsigned 64) of
             Some n \<Rightarrow> if 0 < n then Some n else None
           | None \<Rightarrow> None))
       (\<lambda>n. if raw \<noteq> ''Source '' @ show_nat n then Inl (NonCanonicalSource raw) else Inr n)"

fun build_extractions ::
  "nat \<Rightarrow> page_extraction list \<Rightarrow> source_binding list
    \<Rightarrow> research_session_error + durable_extraction list" where
  "build_extractions index [] bindings = Inr []"
| "build_extractions index (x # xs) bindings =
     (let n = index + 1; b = bindings ! index
      in if sb_source_number b \<noteq> n then Inl (InvalidDurableResult (BoundOutOfOrder n))
         else
           res_bind (ok_or (InvalidDurableResult (ExtractionWithoutIdentity n)) (px_acquisition_id x)) (\<lambda>raw.
           res_bind (map_err InvalidEvidenceId (evidence_id_from_str raw)) (\<lambda>acquisition_id.
             if ref_id (sb_evidence b) \<noteq> acquisition_id
             then Inl (InvalidDurableResult (ExtractionMismatch n))
             else res_bind (build_extractions (index + 1) xs bindings) (\<lambda>rest.
               Inr (\<lparr>dx_source_number = n, dx_evidence = sb_evidence b,
                     dx_extracted = px_extracted x,
                     dx_extraction_input_bytes = px_extraction_input_bytes x,
                     dx_finish_reason = px_finish_reason x\<rparr> # rest)))))"

fun build_citations ::
  "source_binding list \<Rightarrow> nat list \<Rightarrow> string list \<Rightarrow> result_fault + durable_citation list" where
  "build_citations bindings seen [] = Inr []"
| "build_citations bindings seen (raw # raws) =
     res_bind (source_number raw) (\<lambda>n.
       if n \<in> set seen then Inl (DuplicateCitation raw)
       else res_bind (ok_or (UnboundCitation raw) (find_binding bindings n)) (\<lambda>b.
            res_bind (build_citations bindings (n # seen) raws) (\<lambda>rest.
              Inr (\<lparr>dc_source_number = n, dc_evidence = sb_evidence b\<rparr> # rest))))"

definition build_synthesis ::
  "research_result \<Rightarrow> session_state \<Rightarrow> source_binding list \<Rightarrow> result_fault + durable_synthesis option" where
  "build_synthesis runtime state bindings =
     (if synthesis_required state then
        res_bind (ok_or (NoSummary state) (rr_summary runtime)) (\<lambda>summary.
        res_bind (build_citations bindings [] (rr_synthesis_source_ids runtime)) (\<lambda>citations.
          if state = CompletedSuccessfully \<and> citations = [] then Inl NoCitation
          else Inr (Some \<lparr>ds_summary = summary, ds_citations = citations,
                          ds_usage = rr_usage runtime\<rparr>)))
      else if rr_summary runtime \<noteq> None \<or> rr_synthesis_source_ids runtime \<noteq> []
      then Inl (CannotPublish state)
      else Inr None)"

definition build_durable_result ::
  "agent_error + research_result \<Rightarrow> session_state \<Rightarrow> source_binding list
    \<Rightarrow> research_session_error + durable_result option" where
  "build_durable_result result state bindings =
     (if state \<in> {RClaimed, SearchFailed, CompletedNoSearchResults, CompletedNoObservedAcquisitions,
                  CompletedNoExtractions}
      then Inr None
      else
        res_bind (map_err (\<lambda>_. InvalidDurableResult NoRuntimeResult) result) (\<lambda>runtime.
          if length (rr_extractions runtime) \<noteq> length bindings
          then Inl (InvalidDurableResult CountMismatch)
          else
            res_bind (build_extractions 0 (rr_extractions runtime) bindings) (\<lambda>extractions.
            res_bind (map_err InvalidDurableResult (build_synthesis runtime state bindings)) (\<lambda>synthesis.
              Inr (Some \<lparr>dr_extractions = extractions, dr_synthesis = synthesis\<rparr>)))))"

section \<open>The durable acquirer\<close>

record acquisition_evidence =
  ae_acquisition_id :: evidence_id
  ae_evidence :: evidence_bundle

definition ae_evidence_ref :: "acquisition_evidence \<Rightarrow> evidence_ref option" where
  "ae_evidence_ref r = map_option EvidenceRef (eb_id (ae_evidence r))"

record session_world =
  sw_store :: domain_persistence
  sw_retained :: "acquisition_evidence list"
  sw_fetched :: "string list"

record session_env =
  se_fetch_page :: "nat \<Rightarrow> string \<Rightarrow> string + page"
  se_fresh_evidence :: "nat \<Rightarrow> evidence_id"
  se_evidence_deps :: evidence_deps
  se_utf8_lossy :: "bytes \<Rightarrow> string"
  se_bundle_codec :: "evidence_bundle codec"
  se_session_codec :: "research_session codec"
  se_now :: system_time

definition on_store :: "('e, 'a) dact \<Rightarrow> (session_world, 'e, 'a) act" where
  "on_store m w = (case m (sw_store w) of (r, s') \<Rightarrow> (r, w\<lparr>sw_store := s'\<rparr>))"

definition fetch_single_page :: "session_env \<Rightarrow> string \<Rightarrow> (session_world, string, page) act" where
  "fetch_single_page env url w =
     (se_fetch_page env (length (sw_fetched w)) url, w\<lparr>sw_fetched := sw_fetched w @ [url]\<rparr>)"

definition retain :: "acquisition_evidence \<Rightarrow> (session_world, 'e, unit) act" where
  "retain r w = (Inr (), w\<lparr>sw_retained := sw_retained w @ [r]\<rparr>)"

definition record_acquired ::
  "session_env \<Rightarrow> evidence_id \<Rightarrow> evidence_bundle \<Rightarrow> (session_world, agent_error, evidence_bundle) act" where
  "record_acquired env i evidence =
     act_bind (act_map_err
         (\<lambda>e. Remote (''durable evidence persistence failed: '' @ evidence_ledger_error_display e))
         (on_store (record_evidence (se_bundle_codec env) i (se_now env) (evidence\<lparr>eb_id := Some i\<rparr>))))
       (\<lambda>recorded.
          if eb_id recorded \<noteq> Some i
          then act_err (Remote ''durable evidence persistence returned a different identity'')
          else act_ok recorded)"

definition acquire_with_id ::
  "session_env \<Rightarrow> string \<Rightarrow> evidence_id \<Rightarrow> (session_world, agent_error, acquired_source) act" where
  "acquire_with_id env url i =
     act_bind (act_map_err Remote (fetch_single_page env url)) (\<lambda>page.
     let content = map_option (se_utf8_lossy env) (pg_bytes page);
         content_type =
           (case Option.bind (pg_headers page) (\<lambda>h.
                   Option.bind (header_get h ''content-type'') (header_to_str (se_evidence_deps env))) of
              None \<Rightarrow> [] | Some v \<Rightarrow> v)
     in act_bind (record_acquired env i (build_evidence (se_evidence_deps env) page content False False))
          (\<lambda>evidence.
        act_bind (retain \<lparr>ae_acquisition_id = i, ae_evidence = evidence\<rparr>) (\<lambda>_.
        act_bind (act_lift (ok_or (Remote ''canonical acquisition produced no materialized body'') content))
          (\<lambda>content.
        act_ok \<lparr>as_requested_url = pg_url page, as_final_url = pg_url_final page,
                as_status = pg_status_code page, as_content_type = content_type,
                as_content = content, as_acquisition_id = Some (evidence_id_to_string i)\<rparr>))))"

definition acquire :: "session_env \<Rightarrow> string \<Rightarrow> (session_world, agent_error, acquired_source) act" where
  "acquire env url w = acquire_with_id env url (se_fresh_evidence env (length (sw_fetched w))) w"

section \<open>Binding an outcome to its evidence\<close>

definition build_extraction_diagnostics ::
  "acquisition_evidence list \<Rightarrow> agent_error + research_result \<Rightarrow> session_diagnostic list" where
  "build_extraction_diagnostics retained result =
     (case result of
        Inl _ \<Rightarrow> []
      | Inr r \<Rightarrow>
          List.map_filter (\<lambda>record.
            map_option (\<lambda>d.
              \<lparr>rd_evidence = EvidenceRef (ae_acquisition_id record),
               rd_extraction_attempted = ed_extraction_attempted d,
               rd_outcome = ed_outcome d, rd_finish_reason = ed_finish_reason d,
               rd_input_bytes = ed_input_bytes d, rd_input_chars = ed_input_chars d\<rparr>)
              (find (\<lambda>d. ed_acquisition_id d = Some (evidence_id_to_string (ae_acquisition_id record)))
                 (rr_extraction_diagnostics r)))
            retained)"

definition resolve_durable ::
  "session_env \<Rightarrow> evidence_ref \<Rightarrow> binding_fault \<Rightarrow> (research_session_error, unit) dact" where
  "resolve_durable env e fault =
     act_bind (act_map_err SessEvidence (resolve (se_bundle_codec env) e)) (\<lambda>found.
       if found = None then act_err (InvalidDurableBinding fault) else act_ok ())"

fun bind_extractions ::
  "session_env \<Rightarrow> acquisition_evidence list \<Rightarrow> nat \<Rightarrow> page_extraction list
    \<Rightarrow> (research_session_error, source_binding list) dact" where
  "bind_extractions env retained index [] = act_ok []"
| "bind_extractions env retained index (x # xs) =
     act_bind (act_lift (ok_or (InvalidDurableBinding NoAcquisitionIdentity) (px_acquisition_id x))) (\<lambda>raw.
     act_bind (act_lift (map_err InvalidEvidenceId (evidence_id_from_str raw))) (\<lambda>i.
       if \<not> (\<exists>r \<in> set retained. ae_acquisition_id r = i \<and> eb_id (ae_evidence r) = Some i)
       then act_err (InvalidDurableBinding (NotRetained i))
       else
         act_bind (resolve_durable env (EvidenceRef i) (NotDurable i)) (\<lambda>_.
         act_bind (bind_extractions env retained (index + 1) xs) (\<lambda>rest.
         act_ok (\<lparr>sb_source_number = index + 1, sb_evidence = EvidenceRef i\<rparr> # rest)))))"

fun bind_retained ::
  "session_env \<Rightarrow> source_binding list \<Rightarrow> acquisition_evidence list
    \<Rightarrow> (research_session_error, session_source list) dact" where
  "bind_retained env bindings [] = act_ok []"
| "bind_retained env bindings (r # rs) =
     act_bind (act_lift (ok_or (InvalidDurableBinding (NoEvidenceIdentity (ae_acquisition_id r)))
         (ae_evidence_ref r))) (\<lambda>evidence.
     act_bind (resolve_durable env evidence (NotResolvable (ae_acquisition_id r))) (\<lambda>_.
     act_bind (bind_retained env bindings rs) (\<lambda>rest.
     act_ok (\<lparr>rs_evidence = evidence,
              rs_disposition = (if \<exists>b \<in> set bindings. sb_evidence b = evidence
                                then SuccessfullyExtracted else RejectedOrSkipped)\<rparr> # rest))))"

definition bind_sources ::
  "session_env \<Rightarrow> acquisition_evidence list \<Rightarrow> agent_error + research_result
    \<Rightarrow> (research_session_error, session_source list \<times> source_binding list) dact" where
  "bind_sources env retained result =
     act_bind (case result of Inr r \<Rightarrow> bind_extractions env retained 0 (rr_extractions r)
                            | Inl _ \<Rightarrow> act_ok []) (\<lambda>bindings.
     act_bind (bind_retained env bindings retained) (\<lambda>sources.
     act_ok (sources, bindings)))"

section \<open>Claim, execution, terminal record\<close>

definition persist_claim ::
  "session_env \<Rightarrow> research_session \<Rightarrow> (research_session_error, nat) dact" where
  "persist_claim env session =
     act_bind (act_lift (map_err InvalidDurableResult (validate_session_result session))) (\<lambda>_.
     act_bind (act_lift (map_err SessSerialization (ser (se_session_codec env) session))) (\<lambda>payload.
     act_bind (act_map_err SessPersistence
         (write_current (research_id_to_string (se_id session)) None payload)) (\<lambda>revision.
     act_bind (act_map_err SessPersistence
         (append_history (research_id_to_string (se_id session)) revision payload (se_now env))) (\<lambda>_.
     act_ok revision))))"

definition persist_terminal ::
  "session_env \<Rightarrow> research_session \<Rightarrow> nat \<Rightarrow> (research_session_error, unit) dact" where
  "persist_terminal env session expected_revision =
     act_bind (act_lift (map_err InvalidDurableResult (validate_session_result session))) (\<lambda>_.
     act_bind (act_lift (map_err SessSerialization (ser (se_session_codec env) session))) (\<lambda>payload.
     act_bind (act_map_err SessPersistence
         (write_current (research_id_to_string (se_id session)) (Some expected_revision) payload)) (\<lambda>revision.
     act_map_err SessPersistence
         (append_history (research_id_to_string (se_id session)) revision payload (se_now env)))))"

definition read_research_session ::
  "session_env \<Rightarrow> research_id \<Rightarrow> (research_session_error, (nat \<times> research_session) option) dact" where
  "read_research_session env i =
     read_current_as (se_session_codec env) SessPersistence SessSerialization (research_id_to_string i)"

definition claimed_session ::
  "session_env \<Rightarrow> research_id \<Rightarrow> string \<Rightarrow> research_options \<Rightarrow> research_session" where
  "claimed_session env i topic options =
     \<lparr>se_id = i, se_topic = topic, se_extraction_instructions = ro_extraction_prompt options,
      se_sources = [], se_source_bindings = [], se_extraction_diagnostics = [],
      se_synthesis_diagnostic = None, se_counts = counts_default, se_state = RClaimed,
      se_result = None, se_created_at_unix_ms = unix_ms (se_now env),
      se_completed_at_unix_ms = None\<rparr>"

definition observed_acquisitions :: "acquisition_evidence list \<Rightarrow> nat" where
  "observed_acquisitions retained =
     length (filter (\<lambda>r. eb_observed_status_code (ae_evidence r) \<noteq> None) retained)"

definition session_counts_of ::
  "session_counts \<Rightarrow> agent_error + research_result \<Rightarrow> nat \<Rightarrow> acquisition_evidence list \<Rightarrow> session_counts" where
  "session_counts_of counts result max_pages retained =
     (case result of
        Inl _ \<Rightarrow> counts
      | Inr r \<Rightarrow>
          counts\<lparr>sc_search_results := length (srs_results (rr_search_results r)),
                 sc_acquisition_attempts := min max_pages (length (srs_results (rr_search_results r))),
                 sc_successful_extractions := length (rr_extractions r)\<rparr>)
     \<lparr>sc_durable_sources := length retained,
      sc_observed_acquisitions := observed_acquisitions retained\<rparr>"

definition terminal_session ::
  "session_env \<Rightarrow> research_session \<Rightarrow> agent_error + research_result \<Rightarrow> nat \<Rightarrow> acquisition_evidence list
    \<Rightarrow> session_source list \<Rightarrow> source_binding list \<Rightarrow> session_state \<Rightarrow> durable_result option
    \<Rightarrow> research_session" where
  "terminal_session env session result max_pages retained sources bindings state durable =
     session\<lparr>
       se_sources := sources,
       se_source_bindings := bindings,
       se_extraction_diagnostics := build_extraction_diagnostics retained result,
       se_synthesis_diagnostic :=
         (case result of Inl _ \<Rightarrow> None | Inr r \<Rightarrow> rr_synthesis_diagnostic r),
       se_counts := session_counts_of (se_counts session) result max_pages retained,
       se_state := state,
       se_result := durable,
       se_completed_at_unix_ms := Some (unix_ms (se_now env))\<rparr>"

definition finalize_claimed ::
  "session_env \<Rightarrow> research_session \<Rightarrow> nat \<Rightarrow> agent_error + research_result \<Rightarrow> nat \<Rightarrow> bool
    \<Rightarrow> (session_world, research_session_error, research_session \<times> (agent_error + research_result)) act" where
  "finalize_claimed env session claim_revision result max_pages synthesize w =
     (let retained = sw_retained w
      in act_bind (on_store (bind_sources env retained result)) (\<lambda>(sources, bindings).
         let state = terminal_state result synthesize (observed_acquisitions retained)
         in act_bind (act_lift (build_durable_result result state bindings)) (\<lambda>durable.
            let session = terminal_session env session result max_pages retained sources bindings state durable
            in act_bind (on_store (persist_terminal env session claim_revision)) (\<lambda>_.
               act_ok (session, result)))) w)"

text \<open>\<open>CanonicalPageAcquirer::new_durable\<close>: an acquirer that has retained nothing.\<close>

definition new_durable :: "(session_world, 'e, unit) act" where
  "new_durable w = (Inr (), w\<lparr>sw_retained := []\<rparr>)"

record 'j claimed_research =
  cl_session :: research_session
  cl_claim_revision :: nat
  cl_agent :: "('j, session_world) agent"
  cl_options :: research_options

text \<open>\<open>claim_durable_research\<close>: the builder is an agent whose acquirer is replaced.\<close>

definition claim_durable_research ::
  "session_env \<Rightarrow> research_id \<Rightarrow> agent_error + ('j, session_world) agent \<Rightarrow> string \<Rightarrow> research_options
    \<Rightarrow> (session_world, research_session_error, 'j claimed_research) act" where
  "claim_durable_research env fresh built topic options =
     act_bind new_durable (\<lambda>_.
     act_bind (act_lift (map_err AgentSetup built)) (\<lambda>agent.
     let session = claimed_session env fresh topic options
     in act_bind (on_store (persist_claim env session)) (\<lambda>claim_revision.
        act_ok \<lparr>cl_session = session, cl_claim_revision = claim_revision,
                cl_agent = agent\<lparr>ag_page_acquirer := Some (acquire env)\<rparr>,
                cl_options = options\<rparr>)))"

text \<open>\<open>ClaimedDurableResearch::execute\<close>: run the engine, whatever its outcome, then finalize.\<close>

definition execute ::
  "session_env \<Rightarrow> 'j claimed_research
    \<Rightarrow> (session_world agent_state, research_session_error,
        research_session \<times> (agent_error + research_result)) act" where
  "execute env c st =
     (case research (cl_agent c) (se_topic (cl_session c)) (cl_options c) st of
        (result, st') \<Rightarrow>
          outside (finalize_claimed env (cl_session c) (cl_claim_revision c) result
                     (ro_max_pages (cl_options c)) (ro_synthesize (cl_options c))) st')"

definition run_durable_research ::
  "session_env \<Rightarrow> research_id \<Rightarrow> agent_error + ('j, session_world) agent \<Rightarrow> string \<Rightarrow> research_options
    \<Rightarrow> (session_world agent_state, research_session_error,
        research_session \<times> (agent_error + research_result)) act" where
  "run_durable_research env fresh built topic options =
     act_bind (outside (claim_durable_research env fresh built topic options)) (execute env)"

section \<open>Lemmas\<close>

lemma source_label_inj [simp]: "source_label m = source_label n \<longleftrightarrow> m = n"
  by (simp add: source_label_def)

text \<open>A citation is read exactly when it is the canonical label of a positive number.\<close>

lemma source_number_iff:
  "source_number raw = Inr n \<longleftrightarrow> raw = source_label n \<and> 0 < n \<and> n < 2 ^ 64"
proof
  assume r: "source_number raw = Inr n"
  then have raw: "raw = source_label n" "0 < n"
    and p: "parse_unsigned 64 (show_nat n) = Some n"
    by (auto simp: source_number_def source_label_def res_bind_Inr split: option.splits if_splits)
  from p have "n < 2 ^ 64" by (auto simp: parse_unsigned_def split: if_splits option.splits)
  with raw show "raw = source_label n \<and> 0 < n \<and> n < 2 ^ 64" by simp
next
  assume "raw = source_label n \<and> 0 < n \<and> n < 2 ^ 64"
  then show "source_number raw = Inr n"
    by (simp add: source_number_def source_label_def parse_unsigned_show)
qed

definition numbered :: "nat \<Rightarrow> source_binding list \<Rightarrow> bool" where
  "numbered k bs \<longleftrightarrow> map sb_source_number bs = [k + 1..<k + 1 + length bs]"

lemma numbered_simps [simp]:
  "numbered k []" "numbered k (b # bs) \<longleftrightarrow> sb_source_number b = k + 1 \<and> numbered (k + 1) bs"
  by (auto simp: numbered_def upt_rec)

lemma numbered_nth: "numbered k bs \<Longrightarrow> i < length bs \<Longrightarrow> sb_source_number (bs ! i) = k + 1 + i"
  by (induction bs arbitrary: k i) (auto simp: nth_Cons split: nat.splits)

lemma find_binding_numbered:
  "numbered k bs \<Longrightarrow> find_binding bs n = (if k < n \<and> n \<le> k + length bs then Some (bs ! (n - k - 1)) else None)"
proof (induction bs arbitrary: k)
  case (Cons b bs)
  then show ?case
    by (auto simp: find_binding_def nth_Cons split: nat.splits)
qed (simp add: find_binding_def)

text \<open>\<open>bound_to xs bs\<close>: the bindings name, in order, the acquisitions of the extractions.\<close>

definition bound_to :: "page_extraction list \<Rightarrow> source_binding list \<Rightarrow> bool" where
  "bound_to xs bs \<longleftrightarrow> numbered 0 bs \<and>
     list_all2 (\<lambda>x b. \<exists>raw. px_acquisition_id x = Some raw \<and>
       evidence_id_from_str raw = Inr (ref_id (sb_evidence b))) xs bs"

lemma frame_resolve_durable [frame_intro]: "frame tables (resolve_durable env e f)"
  unfolding resolve_durable_def by (intro frame_intro)

lemma frame_bind_extractions [frame_intro]: "frame tables (bind_extractions env ret k xs)"
  by (induction xs arbitrary: k) (auto intro!: frame_intro)

lemma frame_bind_retained [frame_intro]: "frame tables (bind_retained env bs ret)"
  by (induction ret) (auto intro!: frame_intro)

lemma frame_bind_sources [frame_intro]: "frame tables (bind_sources env ret result)"
  unfolding bind_sources_def by (intro frame_intro)

lemma bind_extractions_Inr:
  "bind_extractions env ret k xs s = (Inr bs, s') \<Longrightarrow>
    numbered k bs \<and>
    list_all2 (\<lambda>x b. \<exists>raw. px_acquisition_id x = Some raw \<and>
       evidence_id_from_str raw = Inr (ref_id (sb_evidence b))) xs bs \<and>
    (\<forall>b \<in> set bs. \<exists>r \<in> set ret. ae_acquisition_id r = ref_id (sb_evidence b))"
proof (induction xs arbitrary: k s bs)
  case (Cons x xs)
  from Cons.prems show ?case
    by (auto simp: act_bind_Inr_iff split: if_splits dest!: Cons.IH) blast
qed simp

lemma bind_sources_Inr:
  assumes "bind_sources env ret (Inr r) s = (Inr (src, bs), s')"
  shows "bound_to (rr_extractions r) bs"
  using assms bind_extractions_Inr [of env ret 0]
  by (auto simp: bind_sources_def act_bind_Inr_iff bound_to_def)

lemma bind_sources_Inl:
  assumes "bind_sources env ret (Inl e) s = (Inr (src, bs), s')"
  shows "bs = []"
  using assms by (auto simp: bind_sources_def act_bind_Inr_iff)

lemma build_extractions_bound:
  assumes "numbered 0 bs"
  shows "list_all2 (\<lambda>x b. \<exists>raw. px_acquisition_id x = Some raw \<and>
       evidence_id_from_str raw = Inr (ref_id (sb_evidence b))) xs (drop k bs) \<Longrightarrow>
    \<exists>ys. build_extractions k xs bs = Inr ys \<and> length ys = length xs \<and>
      validate_extractions k ys bs = Inr ()"
proof (induction xs arbitrary: k)
  case (Cons x xs)
  then obtain b rest where d: "drop k bs = b # rest" by (cases "drop k bs") auto
  then have k: "k < length bs" "bs ! k = b" "drop (Suc k) bs = rest"
    by (metis drop_all leI list.distinct(1), metis drop_eq_Nil2 hd_drop_conv_nth leI list.distinct(1) list.sel(1),
        metis drop_Suc list.sel(3) tl_drop)
  with d Cons.prems obtain raw where raw: "px_acquisition_id x = Some raw"
      "evidence_id_from_str raw = Inr (ref_id (sb_evidence b))" by auto
  from Cons.IH [of "Suc k"] Cons.prems d k(3) obtain ys where ys: "build_extractions (Suc k) xs bs = Inr ys"
      "length ys = length xs" "validate_extractions (Suc k) ys bs = Inr ()" by auto
  show ?case
    using raw ys k numbered_nth [OF assms k(1)] by simp
qed simp

lemma build_citations_valid:
  "build_citations bs seen raws = Inr cs \<Longrightarrow> validate_citations bs seen cs = Inr ()"
  by (induction bs seen raws arbitrary: cs rule: build_citations.induct)
     (auto simp: res_bind_Inr split: if_splits)

text \<open>With canonical citations of bound sources, only a repeated citation is refused.\<close>

lemma build_citations_numbered:
  assumes "numbered 0 bs" "length bs < 2 ^ 64"
  shows "set raws \<subseteq> source_label ` {1..length bs} \<Longrightarrow>
    (distinct raws \<and> (\<forall>n \<in> set seen. source_label n \<notin> set raws) \<longrightarrow>
       (\<exists>cs. build_citations bs seen raws = Inr cs \<and> length cs = length raws)) \<and>
    (\<not> (distinct raws \<and> (\<forall>n \<in> set seen. source_label n \<notin> set raws)) \<longrightarrow>
       (\<exists>raw \<in> set raws. build_citations bs seen raws = Inl (DuplicateCitation raw)))"
proof (induction raws arbitrary: seen)
  case (Cons raw raws)
  then obtain n where n: "raw = source_label n" "0 < n" "n \<le> length bs" by auto
  have num: "source_number raw = Inr n" using n assms(2) by (simp add: source_number_iff)
  have fb: "find_binding bs n = Some (bs ! (n - 1))"
    using n find_binding_numbered [OF assms(1), of n] by simp
  show ?case
  proof (cases "n \<in> set seen")
    case True
    with n num show ?thesis by auto
  next
    case False
    have "set raws \<subseteq> source_label ` {1..length bs}" using Cons.prems by simp
    note ih = Cons.IH [OF this, of "n # seen"]
    show ?thesis
    proof (cases "distinct raws \<and> (\<forall>m \<in> set (n # seen). source_label m \<notin> set raws)")
      case True
      with ih obtain cs where "build_citations bs (n # seen) raws = Inr cs" "length cs = length raws" by blast
      with True False n num fb show ?thesis by auto
    next
      case no: False
      with ih obtain raw' where raw': "raw' \<in> set raws"
          "build_citations bs (n # seen) raws = Inl (DuplicateCitation raw')" by blast
      have "\<not> (distinct (raw # raws) \<and> (\<forall>m \<in> set seen. source_label m \<notin> set (raw # raws)))"
        using no n(1) by auto
      with raw' False num fb show ?thesis by auto
    qed
  qed
qed simp

lemma bound_to_length: "bound_to xs bs \<Longrightarrow> length bs = length xs"
  by (auto simp: bound_to_def list_all2_lengthD)

lemma bound_to_build:
  assumes "bound_to xs bs"
  obtains ys where "build_extractions 0 xs bs = Inr ys" "length ys = length xs"
    "validate_extractions 0 ys bs = Inr ()"
  using assms build_extractions_bound [of bs xs 0] by (auto simp: bound_to_def)

text \<open>
  The outcome of the engine, bound to its evidence, is published unless the model cited a
  source twice.
\<close>

lemma build_durable_result_research:
  fixes obs :: nat
  assumes ok: "research_ok r" "\<not> synthesize \<longrightarrow> rr_synthesis_sufficient r = None"
    and bound: "bound_to (rr_extractions r) bs" and bits: "length (rr_extractions r) < 2 ^ 64"
  defines "state \<equiv> terminal_state (Inr r) synthesize obs"
  shows "distinct (rr_synthesis_source_ids r) \<Longrightarrow> \<exists>d. build_durable_result (Inr r) state bs = Inr d"
    "\<not> distinct (rr_synthesis_source_ids r) \<Longrightarrow> \<exists>raw \<in> set (rr_synthesis_source_ids r).
       build_durable_result (Inr r) state bs = Inl (InvalidDurableResult (DuplicateCitation raw))"
proof -
  note len = bound_to_length [OF bound]
  obtain ys where ys: "build_extractions 0 (rr_extractions r) bs = Inr ys"
    using bound_to_build [OF bound] by blast
  have num: "numbered 0 bs" using bound by (simp add: bound_to_def)
  note cites = build_citations_numbered [OF num, of "rr_synthesis_source_ids r" "[]"]
  have cases: "state \<in> {SearchFailed, CompletedNoSearchResults, CompletedNoObservedAcquisitions,
        CompletedNoExtractions} \<and> rr_synthesis_source_ids r = [] \<or>
      rr_synthesis_sufficient r = None \<and> state \<in> {CompletedWithoutSynthesisRequested, CompletedSynthesisFailed} \<or>
      (\<exists>b. rr_synthesis_sufficient r = Some b \<and>
         state = (if b then CompletedSuccessfully else CompletedSynthesisInsufficient))"
    using ok by (auto simp: state_def terminal_state_def research_ok_def Let_def split: option.splits bool.splits)
  have 1: "(distinct (rr_synthesis_source_ids r) \<longrightarrow> (\<exists>d. build_durable_result (Inr r) state bs = Inr d)) \<and>
    (\<not> distinct (rr_synthesis_source_ids r) \<longrightarrow> (\<exists>raw \<in> set (rr_synthesis_source_ids r).
       build_durable_result (Inr r) state bs = Inl (InvalidDurableResult (DuplicateCitation raw))))"
    using cases
  proof (elim disjE exE conjE)
    fix b
    assume b: "rr_synthesis_sufficient r = Some b"
      and st: "state = (if b then CompletedSuccessfully else CompletedSynthesisInsufficient)"
    obtain s where sub: "set (rr_synthesis_source_ids r) \<subseteq> source_label ` {1..length bs}"
      and ne: "b \<longrightarrow> rr_synthesis_source_ids r \<noteq> []" and sum: "rr_summary r = Some s"
      using ok(1) b len by (auto simp: research_ok_def)
    have d: "build_durable_result (Inr r) state bs =
        res_bind (map_err InvalidDurableResult (build_synthesis r state bs)) (\<lambda>synthesis.
          Inr (Some \<lparr>dr_extractions = ys, dr_synthesis = synthesis\<rparr>))"
      using ys st len by (simp add: build_durable_result_def)
    have "build_synthesis r state bs =
        res_bind (build_citations bs [] (rr_synthesis_source_ids r)) (\<lambda>citations.
          if state = CompletedSuccessfully \<and> citations = [] then Inl NoCitation
          else Inr (Some \<lparr>ds_summary = s, ds_citations = citations,
                          ds_usage = rr_usage r\<rparr>))"
      using st sum by (auto simp: build_synthesis_def synthesis_required_def)
    then show ?thesis
      using d cites sub bits len ne st by (auto split: if_splits)
  qed (use ys len ok(1) in \<open>auto simp: build_durable_result_def build_synthesis_def
         synthesis_required_def research_ok_def\<close>)
  show "distinct (rr_synthesis_source_ids r) \<Longrightarrow> \<exists>d. build_durable_result (Inr r) state bs = Inr d"
    "\<not> distinct (rr_synthesis_source_ids r) \<Longrightarrow> \<exists>raw \<in> set (rr_synthesis_source_ids r).
       build_durable_result (Inr r) state bs = Inl (InvalidDurableResult (DuplicateCitation raw))"
    using 1 by blast+
qed

text \<open>What was built from bound evidence always passes the validation before the write.\<close>

lemma terminal_session_valid:
  assumes bind: "bind_sources env ret result s = (Inr (src, bs), s')"
    and built: "build_durable_result result (terminal_state result synthesize obs) bs = Inr d"
  shows "validate_session_result
    (terminal_session env session result max_pages ret src bs (terminal_state result synthesize obs) d) = Inr ()"
proof (cases result)
  case (Inl e)
  with built show ?thesis
    by (simp add: terminal_state_def build_durable_result_def terminal_session_def
        validate_session_result_def result_required_def)
next
  case (Inr r)
  define state where "state = terminal_state result synthesize obs"
  note b = built [folded state_def, unfolded Inr]
  have bound: "bound_to (rr_extractions r) bs" using bind_sources_Inr bind Inr by blast
  note len = bound_to_length [OF bound]
  obtain ys where ys: "build_extractions 0 (rr_extractions r) bs = Inr ys"
      "length ys = length (rr_extractions r)" "validate_extractions 0 ys bs = Inr ()"
    using bound_to_build [OF bound] by blast
  have counts: "sc_successful_extractions (session_counts_of c result m ret) = length (rr_extractions r)" for c m
    by (simp add: session_counts_of_def Inr)
  show ?thesis
  proof (cases "result_required state")
    case False
    then have "d = None"
      using b by (cases state) (auto simp: build_durable_result_def result_required_def)
    with False show ?thesis
      by (simp add: state_def [symmetric] terminal_session_def validate_session_result_def)
  next
    case True
    then have ne: "rr_extractions r \<noteq> []"
      by (auto simp: state_def terminal_state_def Inr result_required_def Let_def split: if_splits)
    obtain syn where d: "d = Some \<lparr>dr_extractions = ys, dr_synthesis = syn\<rparr>"
      and syn: "build_synthesis r state bs = Inr syn"
      using True b ys(1) len
      by (cases state) (auto simp: build_durable_result_def result_required_def res_bind_Inr)
    have syn_some: "synthesis_required state \<longleftrightarrow> syn \<noteq> None"
      using syn by (auto simp: build_synthesis_def res_bind_Inr split: if_splits)
    have valid: "validate_citations bs [] (ds_citations v) = Inr ()"
        "state = CompletedSuccessfully \<Longrightarrow> ds_citations v \<noteq> []" if "syn = Some v" for v
      using syn that by (auto simp: build_synthesis_def res_bind_Inr split: if_splits dest: build_citations_valid)
    show ?thesis
      using True d ne ys len counts syn_some valid
      unfolding state_def [symmetric] terminal_session_def validate_session_result_def
      by (auto split: option.splits)
  qed
qed

end
