(* ===== verification/Research_Run.thy ===== *)
theory Research_Run
  imports Research_Session
begin

text \<open>
  Whole durable research runs: the claim, the engine with the durable acquirer, and the
  terminal record, seen through the two rows of the session in the store.
\<close>

definition session_rows ::
  "research_id \<Rightarrow> session_world \<Rightarrow> (nat \<times> bytes) option \<times> (nat \<times> bytes \<times> system_time) list" where
  "session_rows i w =
     (current_rows (sw_store w) (research_id_to_string i), history_of (sw_store w) (research_id_to_string i))"

lemma session_rows_tables:
  "tables (sw_store w') = tables (sw_store w) \<Longrightarrow> session_rows i w' = session_rows i w"
  by (simp add: session_rows_def tables_def history_of_def)

lemma frame_rows_on_store: "frame tables m \<Longrightarrow> frame (session_rows i) (on_store m)"
  by (auto simp: frame_def on_store_def split: prod.splits intro!: session_rows_tables) (metis snd_conv)

lemma frame_rows_fetch [frame_intro]: "frame (session_rows i) (fetch_single_page env url)"
  by (simp add: frame_def fetch_single_page_def session_rows_def)

lemma frame_rows_retain [frame_intro]: "frame (session_rows i) (retain r)"
  by (simp add: frame_def retain_def session_rows_def)

lemma frame_rows_new_durable [frame_intro]: "frame (session_rows i) new_durable"
  by (simp add: frame_def new_durable_def session_rows_def)

text \<open>Evidence is written under evidence identities only.\<close>

lemma frame_rows_record [frame_intro]: "frame (session_rows i) (on_store (record_evidence c f now b))"
proof -
  have "current_rows s' = current_rows s \<and> history_of s' (research_id_to_string i) = history_of s (research_id_to_string i)"
    if "record_evidence c f now b s = (r, s')" for s r s'
  proof (cases r)
    case (Inl e)
    with that have "tables s' = tables s" by (auto dest: record_evidence_Inl)
    then show ?thesis by (simp add: tables_def history_of_def)
  next
    case (Inr b')
    with that have rec: "record_evidence c f now b s = (Inr b', s')" by simp
    from record_evidence_Inr [OF rec] obtain j where
      w: "write_record c LedgerPersistence LedgerSerialization (evidence_id_to_string j) b' now s = (Inr (), s')"
      by blast
    from write_record_Inr [OF w] obtain p where
      "append_history (evidence_id_to_string j) 1 p now s = (Inr (), s')" by blast
    then show ?thesis
      using append_history_Inr(3) history_of_other kinds_apart(4) by metis
  qed
  then show ?thesis
    by (auto simp: frame_def on_store_def session_rows_def split: prod.splits)
qed

lemma frame_rows_acquire: "frame (session_rows i) (acquire env url)"
proof -
  have "frame (session_rows i) (acquire_with_id env url e)" for e
    unfolding acquire_with_id_def record_acquired_def Let_def by (intro frame_intro)
  then show ?thesis by (simp add: frame_def acquire_def)
qed

lemma frame_keeps: "frame v m \<Longrightarrow> keeps (\<lambda>s. v s = c) m"
  by (auto simp: frame_def keeps_def)

text \<open>The engine leaves the session's rows alone when the model and the search provider do.\<close>

lemma research_session_rows:
  assumes "\<And>f q opts. ag_search_provider a = Some f \<Longrightarrow> frame (session_rows i) (f q opts)"
    and "\<And>f req. ag_llm a = Some f \<Longrightarrow> frame (session_rows i) (f req)"
    and "ag_page_acquirer a = Some (acquire env)"
    and "research a t options st = (r, st')"
  shows "session_rows i (ag_world st') = session_rows i (ag_world st)"
proof -
  have "keeps (\<lambda>st'. session_rows i (ag_world st') = c) (research a t options)" for c
    by (rule keeps_world_research)
      (auto intro!: frame_keeps assms(1,2) frame_rows_acquire simp: assms(3))
  with assms(4) show ?thesis by (blast dest: keepsD)
qed

section \<open>The two records\<close>

lemma persist_claim_Inr:
  assumes "persist_claim env session s = (Inr rv, s')"
  obtains p where "ser (se_session_codec env) session = Inr p" "rv = 1"
    "current_rows s (research_id_to_string (se_id session)) = None"
    "current_rows s' = (current_rows s)(research_id_to_string (se_id session) \<mapsto> (1, p))"
    "history_of s (research_id_to_string (se_id session)) = [] \<Longrightarrow>
     history_of s' (research_id_to_string (se_id session)) =
       [(1, p, time_of_unix_ms (unix_ms (se_now env)))]"
proof -
  let ?k = "research_id_to_string (se_id session)"
  from assms obtain p s1 where p: "ser (se_session_codec env) session = Inr p"
    and w: "write_current ?k None p s = (Inr rv, s1)"
    and a: "append_history ?k rv p (se_now env) s1 = (Inr (), s')"
    by (auto simp: persist_claim_def act_bind_Inr_iff act_map_err_Inr_iff)
  note w' = write_current_Inr [OF w]
  have rv: "rv = 1" using w'(2) by (simp add: next_revision_def)
  have "history_of s1 ?k = history_of s ?k" by (rule history_of_rows [OF w'(4)])
  with history_of_append [OF a] rv
  have "history_of s ?k = [] \<Longrightarrow> history_of s' ?k = [(1, p, time_of_unix_ms (unix_ms (se_now env)))]" by simp
  with that [OF p rv] w' append_history_Inr(3) [OF a] rv show thesis by simp
qed

lemma persist_terminal_Inr:
  assumes "persist_terminal env session e s = (Inr (), s')"
  obtains p where "ser (se_session_codec env) session = Inr p"
    "map_option fst (current_rows s (research_id_to_string (se_id session))) = Some e"
    "current_rows s' = (current_rows s)(research_id_to_string (se_id session) \<mapsto> (e + 1, p))"
    "\<forall>x \<in> set (history_of s (research_id_to_string (se_id session))). fst x \<le> e + 1 \<Longrightarrow>
     history_of s' (research_id_to_string (se_id session)) =
       history_of s (research_id_to_string (se_id session)) @
         [(e + 1, p, time_of_unix_ms (unix_ms (se_now env)))]"
proof -
  let ?k = "research_id_to_string (se_id session)"
  from assms obtain p s1 rv where p: "ser (se_session_codec env) session = Inr p"
    and w: "write_current ?k (Some e) p s = (Inr rv, s1)"
    and a: "append_history ?k rv p (se_now env) s1 = (Inr (), s')"
    by (auto simp: persist_terminal_def act_bind_Inr_iff act_map_err_Inr_iff)
  note w' = write_current_Inr [OF w]
  have rv: "rv = e + 1" using w'(2) by (simp add: next_revision_def)
  have "history_of s1 ?k = history_of s ?k" by (rule history_of_rows [OF w'(4)])
  with history_of_append [OF a] rv
  have "\<forall>x \<in> set (history_of s ?k). fst x \<le> e + 1 \<Longrightarrow> history_of s' ?k =
      history_of s ?k @ [(e + 1, p, time_of_unix_ms (unix_ms (se_now env)))]" by simp
  with that [OF p] w' append_history_Inr(3) [OF a] rv show thesis by simp
qed

text \<open>A failed terminal write leaves the claim, or the terminal record without its history row.\<close>

lemma persist_terminal_Inl:
  assumes "persist_terminal env session e s = (Inl err, s')"
  shows "tables s' = tables s \<or>
    (\<exists>p. ser (se_session_codec env) session = Inr p \<and> history_rows s' = history_rows s \<and>
       current_rows s' = (current_rows s)(research_id_to_string (se_id session) \<mapsto> (e + 1, p)))"
proof -
  let ?k = "research_id_to_string (se_id session)"
  show ?thesis
  proof (cases "validate_session_result session = Inr () \<and> (\<exists>p. ser (se_session_codec env) session = Inr p)")
    case False
    with assms have "s' = s"
      by (auto simp: persist_terminal_def act_bind_lift map_err_def split: sum.splits)
    then show ?thesis by simp
  next
    case True
    then obtain p where p: "validate_session_result session = Inr ()"
        "ser (se_session_codec env) session = Inr p" by blast
    obtain x s1 where w: "write_current ?k (Some e) p s = (x, s1)" by fastforce
    show ?thesis
    proof (cases x)
      case (Inl y)
      with w p assms have "s' = s1"
        by (simp add: persist_terminal_def act_bind_lift act_bind_def act_map_err_def)
      then show ?thesis using write_current_Inl w Inl by blast
    next
      case (Inr rv)
      note w' = write_current_Inr [OF w [unfolded Inr]]
      have "act_map_err SessPersistence (append_history ?k rv p (se_now env)) s1 = (Inl err, s')"
        using assms w p Inr by (simp add: persist_terminal_def act_bind_lift act_bind_def act_map_err_def)
      then have "tables s' = tables s1" by (auto simp: act_map_err_Inl_iff dest: append_history_Inl)
      then show ?thesis using w' p by (auto simp: tables_def next_revision_def)
    qed
  qed
qed

section \<open>Finalization and runs\<close>

lemma on_store_Inr: "on_store m w = (Inr x, w') \<longleftrightarrow> (\<exists>s'. m (sw_store w) = (Inr x, s') \<and> w' = w\<lparr>sw_store := s'\<rparr>)"
  by (auto simp: on_store_def split: prod.splits)

lemma on_store_Inl: "on_store m w = (Inl x, w') \<longleftrightarrow> (\<exists>s'. m (sw_store w) = (Inl x, s') \<and> w' = w\<lparr>sw_store := s'\<rparr>)"
  by (auto simp: on_store_def split: prod.splits)

lemma terminal_session_fields [simp]:
  "se_id (terminal_session env s result m ret src bs st d) = se_id s"
  "se_state (terminal_session env s result m ret src bs st d) = st"
  "se_source_bindings (terminal_session env s result m ret src bs st d) = bs"
  "se_result (terminal_session env s result m ret src bs st d) = d"
  by (simp_all add: terminal_session_def)

lemma finalize_claimed_Inr:
  assumes "finalize_claimed env session rv result m syn w = (Inr (final, result'), w')"
  obtains src bs d s1 s2 where
    "bind_sources env (sw_retained w) result (sw_store w) = (Inr (src, bs), s1)" "tables s1 = tables (sw_store w)"
    "build_durable_result result (terminal_state result syn (observed_acquisitions (sw_retained w))) bs = Inr d"
    "final = terminal_session env session result m (sw_retained w) src bs
       (terminal_state result syn (observed_acquisitions (sw_retained w))) d"
    "result' = result" "persist_terminal env final rv s1 = (Inr (), s2)" "w' = w\<lparr>sw_store := s2\<rparr>"
proof -
  from assms obtain src bs d s1 s2 where
    a: "bind_sources env (sw_retained w) result (sw_store w) = (Inr (src, bs), s1)"
      "build_durable_result result (terminal_state result syn (observed_acquisitions (sw_retained w))) bs = Inr d"
      "final = terminal_session env session result m (sw_retained w) src bs
       (terminal_state result syn (observed_acquisitions (sw_retained w))) d"
      "result' = result" "persist_terminal env final rv s1 = (Inr (), s2)" "w' = w\<lparr>sw_store := s2\<rparr>"
    by (auto simp: finalize_claimed_def Let_def act_bind_Inr_iff on_store_Inr)
  with that frameD [OF frame_bind_sources a(1)] show thesis by blast
qed

lemma finalize_claimed_Inl:
  assumes "finalize_claimed env session rv result m syn w = (Inl e, w')"
  shows "tables (sw_store w') = tables (sw_store w) \<or>
    (\<exists>final p. ser (se_session_codec env) final = Inr p \<and> se_id final = se_id session \<and>
       history_rows (sw_store w') = history_rows (sw_store w) \<and>
       current_rows (sw_store w') =
         (current_rows (sw_store w))(research_id_to_string (se_id session) \<mapsto> (rv + 1, p)))"
proof -
  let ?ret = "sw_retained w"
  let ?st = "terminal_state result syn (observed_acquisitions ?ret)"
  from assms consider
      (bind) s1 where "bind_sources env ?ret result (sw_store w) = (Inl e, s1)" "w' = w\<lparr>sw_store := s1\<rparr>"
    | (build) src bs s1 where "bind_sources env ?ret result (sw_store w) = (Inr (src, bs), s1)"
        "w' = w\<lparr>sw_store := s1\<rparr>"
    | (persist) src bs d s1 s2 where "bind_sources env ?ret result (sw_store w) = (Inr (src, bs), s1)"
        "persist_terminal env (terminal_session env session result m ?ret src bs ?st d) rv s1 = (Inl e, s2)"
        "w' = w\<lparr>sw_store := s2\<rparr>"
    by (auto simp: finalize_claimed_def Let_def act_bind_Inl_iff on_store_Inr on_store_Inl)
  then show ?thesis
  proof cases
    case bind
    with frameD [OF frame_bind_sources] show ?thesis by auto
  next
    case build
    with frameD [OF frame_bind_sources] show ?thesis by auto
  next
    case persist
    have "tables s1 = tables (sw_store w)" using frameD [OF frame_bind_sources persist(1)] .
    with persist_terminal_Inl [OF persist(2)] persist(3) show ?thesis
      by (auto simp: tables_def) (metis terminal_session_fields(1))+
  qed
qed

lemma outside_Inr: "outside m st = (Inr x, st') \<longleftrightarrow> (\<exists>w. m (ag_world st) = (Inr x, w) \<and> st' = st\<lparr>ag_world := w\<rparr>)"
  by (auto simp: outside_def split: prod.splits)

lemma outside_Inl: "outside m st = (Inl x, st') \<longleftrightarrow> (\<exists>w. m (ag_world st) = (Inl x, w) \<and> st' = st\<lparr>ag_world := w\<rparr>)"
  by (auto simp: outside_def split: prod.splits)

lemma claim_Inr:
  assumes "claim_durable_research env i (Inr agent) t options w = (Inr c, w')"
  obtains s1 where
    "persist_claim env (claimed_session env i t options) (sw_store w) = (Inr (cl_claim_revision c), s1)"
    "w' = w\<lparr>sw_retained := [], sw_store := s1\<rparr>"
    "cl_session c = claimed_session env i t options" "cl_options c = options"
    "cl_agent c = agent\<lparr>ag_page_acquirer := Some (acquire env)\<rparr>"
  using assms
  by (auto simp: claim_durable_research_def act_bind_Inr_iff on_store_Inr new_durable_def Let_def)

text \<open>The stored life of a run that returned: claimed at revision 1, terminal at revision 2.\<close>

lemma run_Inr:
  assumes run: "run_durable_research env i (Inr agent) t options st = (Inr (final, result), st')"
    and fresh: "history_of (sw_store (ag_world st)) (research_id_to_string i) = []"
    and search: "\<And>f q opts. ag_search_provider agent = Some f \<Longrightarrow> frame (session_rows i) (f q opts)"
    and llm: "\<And>f req. ag_llm agent = Some f \<Longrightarrow> frame (session_rows i) (f req)"
  obtains p1 p2 where
    "ser (se_session_codec env) (claimed_session env i t options) = Inr p1"
    "ser (se_session_codec env) final = Inr p2"
    "session_rows i (ag_world st') = (Some (2, p2),
       [(1, p1, time_of_unix_ms (unix_ms (se_now env))), (2, p2, time_of_unix_ms (unix_ms (se_now env)))])"
    "se_id final = i" "validate_session_result final = Inr ()" "se_state final \<noteq> RClaimed"
proof -
  let ?k = "research_id_to_string i"
  from run obtain c st1 where c: "outside (claim_durable_research env i (Inr agent) t options) st = (Inr c, st1)"
    and ex: "execute env c st1 = (Inr (final, result), st')"
    by (auto simp: run_durable_research_def act_bind_Inr_iff)
  from c obtain w1 where cl: "claim_durable_research env i (Inr agent) t options (ag_world st) = (Inr c, w1)"
    and st1: "st1 = st\<lparr>ag_world := w1\<rparr>" by (auto simp: outside_Inr)
  from cl obtain s1 where pc: "persist_claim env (claimed_session env i t options) (sw_store (ag_world st)) =
      (Inr (cl_claim_revision c), s1)"
    and w1: "w1 = (ag_world st)\<lparr>sw_retained := [], sw_store := s1\<rparr>"
    and cs: "cl_session c = claimed_session env i t options" "cl_options c = options"
      "cl_agent c = agent\<lparr>ag_page_acquirer := Some (acquire env)\<rparr>"
    by (rule claim_Inr)
  have ids: "se_id (claimed_session env i t options) = i" by (simp add: claimed_session_def)
  from pc obtain p1 where p1: "ser (se_session_codec env) (claimed_session env i t options) = Inr p1"
      "cl_claim_revision c = 1" "current_rows s1 ?k = Some (1, p1)"
      "history_of s1 ?k = [(1, p1, time_of_unix_ms (unix_ms (se_now env)))]"
    by (rule persist_claim_Inr) (use fresh ids in auto)
  obtain result0 st2 where rs: "research (cl_agent c) t options st1 = (result0, st2)" by fastforce
  with ex cs have fin: "outside (finalize_claimed env (cl_session c) 1 result0 (ro_max_pages options)
      (ro_synthesize options)) st2 = (Inr (final, result), st')"
    by (simp add: execute_def claimed_session_def p1(2))
  have "session_rows i (ag_world st2) = session_rows i (ag_world st1)"
    by (rule research_session_rows [OF _ _ _ rs]) (use search llm cs in auto)
  then have rows: "current_rows (sw_store (ag_world st2)) ?k = Some (1, p1)"
      "history_of (sw_store (ag_world st2)) ?k = [(1, p1, time_of_unix_ms (unix_ms (se_now env)))]"
    using p1 st1 w1 by (auto simp: session_rows_def)
  from fin obtain w3 where f: "finalize_claimed env (cl_session c) 1 result0 (ro_max_pages options)
      (ro_synthesize options) (ag_world st2) = (Inr (final, result), w3)" and st': "st' = st2\<lparr>ag_world := w3\<rparr>"
    by (auto simp: outside_Inr)
  from f show thesis
  proof (rule finalize_claimed_Inr)
    fix src bs d sa sb
    let ?ret = "sw_retained (ag_world st2)"
    let ?ts = "terminal_state result0 (ro_synthesize options) (observed_acquisitions ?ret)"
    assume bind: "bind_sources env ?ret result0 (sw_store (ag_world st2)) = (Inr (src, bs), sa)"
      and t: "tables sa = tables (sw_store (ag_world st2))"
      and d: "build_durable_result result0 ?ts bs = Inr d"
      and final: "final = terminal_session env (cl_session c) result0 (ro_max_pages options) ?ret src bs ?ts d"
      and pt: "persist_terminal env final 1 sa = (Inr (), sb)"
      and w3: "w3 = (ag_world st2)\<lparr>sw_store := sb\<rparr>"
    have fid: "se_id final = i" using final cs ids by simp
    have sa: "history_of sa ?k = history_of (sw_store (ag_world st2)) ?k"
        "current_rows sa = current_rows (sw_store (ag_world st2))"
      using t by (auto simp: tables_def history_of_def)
    from pt show thesis
    proof (rule persist_terminal_Inr)
      fix p2
      assume p2: "ser (se_session_codec env) final = Inr p2"
        and cur: "current_rows sb = (current_rows sa)(research_id_to_string (se_id final) \<mapsto> (1 + 1, p2))"
        and hist: "\<forall>x \<in> set (history_of sa (research_id_to_string (se_id final))). fst x \<le> 1 + 1 \<Longrightarrow>
           history_of sb (research_id_to_string (se_id final)) =
             history_of sa (research_id_to_string (se_id final)) @
               [(1 + 1, p2, time_of_unix_ms (unix_ms (se_now env)))]"
      have "session_rows i (ag_world st') = (Some (2, p2),
         [(1, p1, time_of_unix_ms (unix_ms (se_now env))), (2, p2, time_of_unix_ms (unix_ms (se_now env)))])"
        using cur hist sa rows fid st' w3 by (auto simp: session_rows_def numeral_2_eq_2)
      moreover have "se_state final \<noteq> RClaimed"
        using final by (auto simp: terminal_state_def Let_def split: sum.splits option.splits bool.splits)
      ultimately show thesis
        using that p1(1) p2 fid terminal_session_valid [OF bind d] final by simp
    qed
  qed
qed

text \<open>A run that fails after its claim never leaves the store without a session record.\<close>

lemma run_Inl_claimed:
  assumes cl: "claim_durable_research env i (Inr agent) t options (ag_world st) = (Inr c, w1)"
    and run: "run_durable_research env i (Inr agent) t options st = (Inl e, st')"
    and search: "\<And>f q opts. ag_search_provider agent = Some f \<Longrightarrow> frame (session_rows i) (f q opts)"
    and llm: "\<And>f req. ag_llm agent = Some f \<Longrightarrow> frame (session_rows i) (f req)"
  obtains p where "session_rows i (ag_world st') = session_rows i w1"
      "ser (se_session_codec env) (claimed_session env i t options) = Inr p"
      "fst (session_rows i w1) = Some (1, p)"
  | final p where "ser (se_session_codec env) final = Inr p" "se_id final = i"
      "session_rows i (ag_world st') = (Some (2, p), snd (session_rows i w1))"
proof -
  let ?k = "research_id_to_string i"
  define st1 where "st1 = st\<lparr>ag_world := w1\<rparr>"
  have ex: "execute env c st1 = (Inl e, st')"
    using cl run by (simp add: run_durable_research_def act_bind_def outside_def st1_def)
  from cl obtain s1 where pc: "persist_claim env (claimed_session env i t options) (sw_store (ag_world st)) =
      (Inr (cl_claim_revision c), s1)"
    and w1: "w1 = (ag_world st)\<lparr>sw_retained := [], sw_store := s1\<rparr>"
    and cs: "cl_session c = claimed_session env i t options" "cl_options c = options"
      "cl_agent c = agent\<lparr>ag_page_acquirer := Some (acquire env)\<rparr>"
    by (rule claim_Inr)
  have ids: "se_id (claimed_session env i t options) = i" by (simp add: claimed_session_def)
  from pc obtain p1 where p1: "ser (se_session_codec env) (claimed_session env i t options) = Inr p1"
      "cl_claim_revision c = 1" "current_rows s1 ?k = Some (1, p1)"
    by (rule persist_claim_Inr) (use ids in auto)
  obtain result0 st2 where rs: "research (cl_agent c) t options st1 = (result0, st2)" by fastforce
  have same: "session_rows i (ag_world st2) = session_rows i w1"
    using research_session_rows [OF _ _ _ rs] search llm cs by (simp add: st1_def)
  from ex rs cs obtain w3 where f: "finalize_claimed env (cl_session c) 1 result0 (ro_max_pages options)
      (ro_synthesize options) (ag_world st2) = (Inl e, w3)" and st': "st' = st2\<lparr>ag_world := w3\<rparr>"
    by (auto simp: execute_def claimed_session_def p1(2) outside_Inl)
  from finalize_claimed_Inl [OF f] show thesis
  proof (elim disjE exE conjE)
    assume "tables (sw_store w3) = tables (sw_store (ag_world st2))"
    then have "session_rows i w3 = session_rows i (ag_world st2)" by (rule session_rows_tables)
    then have "session_rows i (ag_world st') = session_rows i w1" by (simp add: same st')
    then show thesis by (rule that(1) [OF _ p1(1)]) (simp add: w1 session_rows_def p1(3))
  next
    fix final p
    assume a: "ser (se_session_codec env) final = Inr p" "se_id final = se_id (cl_session c)"
      "history_rows (sw_store w3) = history_rows (sw_store (ag_world st2))"
      "current_rows (sw_store w3) = (current_rows (sw_store (ag_world st2)))
         (research_id_to_string (se_id (cl_session c)) \<mapsto> (1 + 1, p))"
    show thesis
    proof (rule that(2) [OF a(1)])
      show "se_id final = i" using a(2) cs ids by simp
      show "session_rows i (ag_world st') = (Some (2, p), snd (session_rows i w1))"
        using same unfolding session_rows_def st'
        by (simp add: a(4) cs ids history_of_rows [OF a(3)] numeral_2_eq_2)
    qed
  qed
qed

end
