(* ===== verification/Transform_Lineage.thy ===== *)
theory Transform_Lineage
  imports Evidence
begin

text \<open>
  Content lineage (\<open>spider/src/features/transform_lineage.rs\<close>): the durable fact that some
  output bytes were made from some input bytes by a described transformation.  Facts are
  content-addressed, so recording one again is no conflict.  SHA-256 is the argument \<open>sha\<close>.
\<close>

datatype transformation_identity = TransformationIdentity (ti_str: string)

definition transformation_of :: "(bytes \<Rightarrow> string) \<Rightarrow> string \<Rightarrow> transformation_identity" where
  "transformation_of sha description = TransformationIdentity (sha (str_bytes description))"

datatype transform_lineage_id = TransformLineageId (tlid_str: string)

definition LINEAGE_PREFIX :: string where "LINEAGE_PREFIX = ''lineage_''"

definition derive_lineage_id ::
  "(bytes \<Rightarrow> string) \<Rightarrow> string \<Rightarrow> transformation_identity \<Rightarrow> string \<Rightarrow> transform_lineage_id" where
  "derive_lineage_id sha input_hash transformation output_hash =
     (let joined = ''lineage-v1|'' @ input_hash @ ''|'' @ ti_str transformation @ ''|'' @ output_hash
      in TransformLineageId (LINEAGE_PREFIX @ sha (str_bytes joined)))"

record transform_lineage_record =
  tl_input_hash :: string
  tl_input_evidence :: "evidence_ref option"
  tl_transformation :: transformation_identity
  tl_output_hash :: string
  tl_recorded_at :: system_time

definition lineage_id :: "(bytes \<Rightarrow> string) \<Rightarrow> transform_lineage_record \<Rightarrow> transform_lineage_id" where
  "lineage_id sha r = derive_lineage_id sha (tl_input_hash r) (tl_transformation r) (tl_output_hash r)"

datatype transform_lineage_error = LineagePersistence persistence_error | LineageSerialization string

fun transform_lineage_error_display :: "transform_lineage_error \<Rightarrow> string" where
  "transform_lineage_error_display (LineagePersistence e) = ''transform lineage: '' @ persistence_error_display e"
| "transform_lineage_error_display (LineageSerialization m) =
     ''transform lineage: record serialization failed: '' @ m"

definition new_lineage_record ::
  "(bytes \<Rightarrow> string) \<Rightarrow> system_time \<Rightarrow> bytes \<Rightarrow> evidence_ref option \<Rightarrow> string \<Rightarrow> bytes
    \<Rightarrow> transform_lineage_record" where
  "new_lineage_record sha now input_bytes input_evidence description output_bytes =
     \<lparr>tl_input_hash = sha input_bytes, tl_input_evidence = input_evidence,
      tl_transformation = transformation_of sha description, tl_output_hash = sha output_bytes,
      tl_recorded_at = now\<rparr>"

definition record_lineage ::
  "(bytes \<Rightarrow> string) \<Rightarrow> transform_lineage_record codec \<Rightarrow> system_time \<Rightarrow> bytes \<Rightarrow> evidence_ref option
    \<Rightarrow> string \<Rightarrow> bytes \<Rightarrow> (transform_lineage_error, transform_lineage_id) dact" where
  "record_lineage sha c now input_bytes input_evidence description output_bytes =
     (let record = new_lineage_record sha now input_bytes input_evidence description output_bytes;
          i = lineage_id sha record
      in act_bind (act_lift (map_err LineageSerialization (ser c record))) (\<lambda>payload.
         append_once LineagePersistence (tlid_str i) payload (tl_recorded_at record) i))"

definition read_lineage ::
  "transform_lineage_record codec \<Rightarrow> transform_lineage_id
    \<Rightarrow> (transform_lineage_error, transform_lineage_record option) dact" where
  "read_lineage c i = read_first_record c LineagePersistence LineageSerialization (tlid_str i)"

section \<open>Lemmas\<close>

lemma frame_read_lineage [frame_intro]: "frame tables (read_lineage c i)"
  unfolding read_lineage_def by (rule frame_read_first)

lemma lineage_id_of_new:
  "lineage_id sha (new_lineage_record sha now b e d b') =
    derive_lineage_id sha (sha b) (transformation_of sha d) (sha b')"
  by (simp add: lineage_id_def new_lineage_record_def)

lemma record_lineage_Inr:
  assumes "record_lineage sha c now b e d b' s = (Inr i, s')"
  obtains p where "ser c (new_lineage_record sha now b e d b') = Inr p"
    "i = lineage_id sha (new_lineage_record sha now b e d b')"
    "append_history (tlid_str i) 1 p now s = (Inr (), s') \<or>
     append_history (tlid_str i) 1 p now s = (Inl HistoryAlreadyExists, s')"
proof -
  let ?r = "new_lineage_record sha now b e d b'"
  from assms obtain p where p: "ser c ?r = Inr p"
    and a: "append_once LineagePersistence (tlid_str (lineage_id sha ?r)) p now (lineage_id sha ?r) s = (Inr i, s')"
    by (auto simp: record_lineage_def Let_def act_bind_Inr_iff new_lineage_record_def)
  from a show thesis
    by (rule append_once_cases) (use that [OF p] in auto)
qed

end
