(* ===== verification/Page_Audit.thy ===== *)
theory Page_Audit
  imports Evidence
begin

text \<open>
  The page audit (\<open>spider/src/features/audit.rs\<close>): facts of an acquired page, deterministic
  rules over them, the content-addressed ledger of findings, and technology markers.  The
  HTML rewriter is third-party: \<open>html_events\<close> gives the handler calls it makes on a
  document, in order, up to the end or to a panic (which the code catches).
\<close>

section \<open>Facts of a page\<close>

datatype document_representation = RepHtml | RepNonHtml | RepUnknown

definition declared_content_type :: "evidence_deps \<Rightarrow> page \<Rightarrow> string option" where
  "declared_content_type deps page =
     Option.bind (pg_headers page) (\<lambda>h. Option.bind (header_get h ''content-type'') (header_to_str deps))"

definition classify_representation :: "string option \<Rightarrow> document_representation" where
  "classify_representation content_type =
     (case content_type of
        None \<Rightarrow> RepUnknown
      | Some raw \<Rightarrow>
          (let base = to_ascii_lowercase (trim (hd (split_on (CHR '';'') raw)))
           in if base = ''text/html'' \<or> base = ''application/xhtml+xml'' then RepHtml
              else if base = [] then RepUnknown
              else RepNonHtml))"

definition is_success_2xx :: "nat \<Rightarrow> bool" where
  "is_success_2xx status \<longleftrightarrow> 200 \<le> status \<and> status < 300"

type_synonym attributes = "(string \<times> string) list"

datatype html_event =
    LinkCanonical attributes
  | HtmlElement attributes
  | TitleText string
  | MetaDescription attributes
  | MetaGenerator attributes
  | HeadingOne
  | Image attributes

record html_page_facts =
  hf_canonical_links :: "string list"
  hf_title_present :: bool
  hf_meta_description_present :: bool
  hf_h1_count :: nat
  hf_html_lang_present :: bool
  hf_image_count :: nat
  hf_images_missing_alt :: nat
  hf_meta_generators :: "string list"

definition html_facts_default :: html_page_facts where
  "html_facts_default = \<lparr>hf_canonical_links = [], hf_title_present = False,
     hf_meta_description_present = False, hf_h1_count = 0, hf_html_lang_present = False,
     hf_image_count = 0, hf_images_missing_alt = 0, hf_meta_generators = []\<rparr>"

fun html_handler :: "html_event \<Rightarrow> html_page_facts \<Rightarrow> html_page_facts" where
  "html_handler (LinkCanonical attrs) f =
     (case map_of attrs ''href'' of
        Some href \<Rightarrow> f\<lparr>hf_canonical_links := hf_canonical_links f @ [href]\<rparr> | None \<Rightarrow> f)"
| "html_handler (HtmlElement attrs) f =
     (case map_of attrs ''lang'' of
        Some lang \<Rightarrow> if trim lang \<noteq> [] then f\<lparr>hf_html_lang_present := True\<rparr> else f | None \<Rightarrow> f)"
| "html_handler (TitleText chunk) f = (if trim chunk \<noteq> [] then f\<lparr>hf_title_present := True\<rparr> else f)"
| "html_handler (MetaDescription attrs) f =
     (case map_of attrs ''content'' of
        Some content \<Rightarrow> if trim content \<noteq> [] then f\<lparr>hf_meta_description_present := True\<rparr> else f
      | None \<Rightarrow> f)"
| "html_handler (MetaGenerator attrs) f =
     (case map_of attrs ''content'' of
        Some content \<Rightarrow> f\<lparr>hf_meta_generators := hf_meta_generators f @ [content]\<rparr> | None \<Rightarrow> f)"
| "html_handler HeadingOne f = f\<lparr>hf_h1_count := hf_h1_count f + 1\<rparr>"
| "html_handler (Image attrs) f =
     (let f = f\<lparr>hf_image_count := hf_image_count f + 1\<rparr>
      in if map_of attrs ''alt'' = None then f\<lparr>hf_images_missing_alt := hf_images_missing_alt f + 1\<rparr> else f)"

definition extract_html_facts :: "(string \<Rightarrow> html_event list) \<Rightarrow> string \<Rightarrow> html_page_facts" where
  "extract_html_facts html_events html = fold html_handler (html_events html) html_facts_default"

record page_facts =
  pf_requested_url :: string
  pf_final_url :: string
  pf_effective_status :: nat
  pf_observed_status :: "nat option"
  pf_content_type :: "string option"
  pf_representation :: document_representation
  pf_response_headers :: "(string \<times> bytes list) list option"
  pf_html :: "html_page_facts option"

text \<open>What the audit takes from outside; \<open>au_page_html\<close> is \<open>Page::get_html\<close>.\<close>

record audit_env =
  au_deps :: evidence_deps
  au_page_html :: "page \<Rightarrow> string"
  au_html_events :: "string \<Rightarrow> html_event list"
  au_parse_url :: url_parser
  au_fetch :: "string \<Rightarrow> string + page"
  au_bundle_codec :: "evidence_bundle codec"
  au_fresh :: evidence_id
  au_now :: system_time

definition page_facts_of :: "audit_env \<Rightarrow> page \<Rightarrow> page_facts" where
  "page_facts_of env page =
     (let content_type = declared_content_type (au_deps env) page;
          representation = classify_representation content_type
      in \<lparr>pf_requested_url = pg_url page,
          pf_final_url = pg_url_final page,
          pf_effective_status = pg_status_code page,
          pf_observed_status = pp_observed_status_code (page_provenance_of page),
          pf_content_type = content_type,
          pf_representation = representation,
          pf_response_headers = map_option audit_response_headers (pg_headers page),
          pf_html = (if representation = RepHtml
                     then Some (extract_html_facts (au_html_events env) (au_page_html env page))
                     else None)\<rparr>)"

definition canonical_links :: "page_facts \<Rightarrow> string list" where
  "canonical_links f = (case pf_html f of None \<Rightarrow> [] | Some h \<Rightarrow> hf_canonical_links h)"

definition page_content_seo_applicable :: "page_facts \<Rightarrow> bool" where
  "page_content_seo_applicable f \<longleftrightarrow> is_success_2xx (pf_effective_status f) \<and> pf_representation f = RepHtml"

record evidenced_page_facts =
  ep_facts :: page_facts
  ep_evidence_ref :: evidence_ref

section \<open>Findings\<close>

datatype finding_category = Seo | Security

fun category_str :: "finding_category \<Rightarrow> string" where
  "category_str Seo = ''seo''" | "category_str Security = ''security''"

datatype finding_severity = SevInfo | SevLow | SevMedium | SevHigh | SevCritical

fun severity_str :: "finding_severity \<Rightarrow> string" where
  "severity_str SevInfo = ''info''"
| "severity_str SevLow = ''low''"
| "severity_str SevMedium = ''medium''"
| "severity_str SevHigh = ''high''"
| "severity_str SevCritical = ''critical''"

datatype url_scheme = SchemeHttp | SchemeHttps

fun scheme_str :: "url_scheme \<Rightarrow> string" where
  "scheme_str SchemeHttp = ''http''" | "scheme_str SchemeHttps = ''https''"

datatype finding_condition =
    CanonicalLinkCount nat
  | CanonicalLinkCountAtLeast nat
  | Present bool
  | HeadingCount nat
  | HeadingCountAtLeast nat
  | HeadingCountAtMost nat
  | ImagesMissingAlt nat
  | Scheme url_scheme

fun identity_repr :: "finding_condition \<Rightarrow> string" where
  "identity_repr (CanonicalLinkCount n) = ''canonical_link_count='' @ show_nat n"
| "identity_repr (CanonicalLinkCountAtLeast n) = ''canonical_link_count>='' @ show_nat n"
| "identity_repr (Present b) = ''present='' @ (if b then ''true'' else ''false'')"
| "identity_repr (HeadingCount n) = ''heading_count='' @ show_nat n"
| "identity_repr (HeadingCountAtLeast n) = ''heading_count>='' @ show_nat n"
| "identity_repr (HeadingCountAtMost n) = ''heading_count<='' @ show_nat n"
| "identity_repr (ImagesMissingAlt n) = ''images_missing_alt='' @ show_nat n"
| "identity_repr (Scheme s) = ''scheme='' @ scheme_str s"

record finding =
  fi_rule_id :: string
  fi_rule_version :: nat
  fi_category :: finding_category
  fi_severity :: finding_severity
  fi_target :: string
  fi_observed :: finding_condition
  fi_expected :: finding_condition
  fi_evidence :: "evidence_ref list"

datatype finding_id = FindingId (fid_str: string)

definition FINDING_PREFIX :: string where "FINDING_PREFIX = ''finding_''"

definition finding_key_text :: "finding \<Rightarrow> string" where
  "finding_key_text f =
     ''finding-v1|'' @ fi_rule_id f @ ''|'' @ show_nat (fi_rule_version f) @ ''|''
     @ category_str (fi_category f) @ ''|'' @ severity_str (fi_severity f) @ ''|'' @ fi_target f @ ''|''
     @ identity_repr (fi_observed f) @ ''|'' @ identity_repr (fi_expected f) @ ''|''
     @ join_with '','' (map (\<lambda>e. evidence_id_to_string (ref_id e)) (fi_evidence f))"

definition finding_id_of :: "(bytes \<Rightarrow> string) \<Rightarrow> finding \<Rightarrow> finding_id" where
  "finding_id_of sha f = FindingId (FINDING_PREFIX @ sha (str_bytes (finding_key_text f)))"

datatype audit_error =
    InvalidTarget string
  | Acquisition string
  | EvidenceRecording evidence_ledger_error
  | EmptyEvidence
  | EvidenceUnresolvable evidence_ref
  | AuditEvidence evidence_ledger_error
  | AuditPersistence persistence_error
  | AuditSerialization string

fun audit_error_display :: "audit_error \<Rightarrow> string" where
  "audit_error_display (InvalidTarget target) = ''invalid audit target: '' @ target"
| "audit_error_display (Acquisition message) = ''audit acquisition failed: '' @ message"
| "audit_error_display (EvidenceRecording e) = ''audit evidence recording: '' @ evidence_ledger_error_display e"
| "audit_error_display EmptyEvidence = ''a finding must carry at least one EvidenceRef''"
| "audit_error_display (EvidenceUnresolvable e) =
     ''finding evidence EvidenceRef { id: EvidenceId('' @ evidence_id_to_string (ref_id e) @ '') } does not resolve''"
| "audit_error_display (AuditEvidence e) = ''audit evidence: '' @ evidence_ledger_error_display e"
| "audit_error_display (AuditPersistence e) = ''finding ledger: '' @ persistence_error_display e"
| "audit_error_display (AuditSerialization m) = ''finding ledger: serialization failed: '' @ m"

text \<open>The order of evidence references is that of their identities' bytes.\<close>

instantiation evidence_ref :: linorder
begin

definition less_eq_evidence_ref :: "evidence_ref \<Rightarrow> evidence_ref \<Rightarrow> bool" where
  "less_eq_evidence_ref a b \<longleftrightarrow> evidence_id_bytes (ref_id a) \<le> evidence_id_bytes (ref_id b)"

definition less_evidence_ref :: "evidence_ref \<Rightarrow> evidence_ref \<Rightarrow> bool" where
  "less_evidence_ref a b \<longleftrightarrow> evidence_id_bytes (ref_id a) < evidence_id_bytes (ref_id b)"

instance
proof
  fix a b c :: evidence_ref
  have eq: "a = b" if "evidence_id_bytes (ref_id a) = evidence_id_bytes (ref_id b)" for a b :: evidence_ref
    using that by (cases a; cases b; cases "ref_id a"; cases "ref_id b") auto
  show "a < b \<longleftrightarrow> a \<le> b \<and> \<not> b \<le> a" "a \<le> a" "a \<le> b \<or> b \<le> a"
    by (auto simp: less_eq_evidence_ref_def less_evidence_ref_def)
  show "a \<le> b \<Longrightarrow> b \<le> c \<Longrightarrow> a \<le> c" by (simp add: less_eq_evidence_ref_def)
  show "a \<le> b \<Longrightarrow> b \<le> a \<Longrightarrow> a = b" by (auto simp: less_eq_evidence_ref_def intro!: eq)
qed

end

definition finding_new ::
  "string \<Rightarrow> nat \<Rightarrow> finding_category \<Rightarrow> finding_severity \<Rightarrow> string \<Rightarrow> finding_condition \<Rightarrow> finding_condition
    \<Rightarrow> evidence_ref list \<Rightarrow> audit_error + finding" where
  "finding_new rule_id version category severity target observed expected evidence =
     (if evidence = [] then Inl EmptyEvidence
      else Inr \<lparr>fi_rule_id = rule_id, fi_rule_version = version, fi_category = category,
                fi_severity = severity, fi_target = target, fi_observed = observed,
                fi_expected = expected, fi_evidence = remdups_adj (sort evidence)\<rparr>)"

text \<open>The \<open>expect\<close> cannot fail: the reference list is not empty.\<close>

definition single_evidence_finding ::
  "string \<Rightarrow> nat \<Rightarrow> finding_category \<Rightarrow> finding_severity \<Rightarrow> string \<Rightarrow> finding_condition \<Rightarrow> finding_condition
    \<Rightarrow> evidenced_page_facts \<Rightarrow> finding" where
  "single_evidence_finding rule_id version category severity target observed expected ev =
     projr (finding_new rule_id version category severity target observed expected [ep_evidence_ref ev])"

lemma single_evidence_finding_simps [simp]:
  "single_evidence_finding rid v cat sev target obs ex ev =
     \<lparr>fi_rule_id = rid, fi_rule_version = v, fi_category = cat, fi_severity = sev, fi_target = target,
      fi_observed = obs, fi_expected = ex, fi_evidence = [ep_evidence_ref ev]\<rparr>"
  by (simp add: single_evidence_finding_def finding_new_def)

section \<open>Rules\<close>

definition seo_canonical_missing :: "evidenced_page_facts \<Rightarrow> finding option" where
  "seo_canonical_missing ev =
     (let facts = ep_facts ev
      in if \<not> page_content_seo_applicable facts then None
         else Option.bind (pf_html facts) (\<lambda>h.
           if hf_canonical_links h \<noteq> [] then None
           else Some (single_evidence_finding ''seo.canonical.missing'' 2 Seo SevMedium (pf_final_url facts)
                        (CanonicalLinkCount 0) (CanonicalLinkCountAtLeast 1) ev)))"

definition seo_title_missing :: "evidenced_page_facts \<Rightarrow> finding option" where
  "seo_title_missing ev =
     (let facts = ep_facts ev
      in if \<not> page_content_seo_applicable facts then None
         else Option.bind (pf_html facts) (\<lambda>h.
           if hf_title_present h then None
           else Some (single_evidence_finding ''seo.title.missing'' 1 Seo SevMedium (pf_final_url facts)
                        (Present False) (Present True) ev)))"

definition seo_meta_description_missing :: "evidenced_page_facts \<Rightarrow> finding option" where
  "seo_meta_description_missing ev =
     (let facts = ep_facts ev
      in if \<not> page_content_seo_applicable facts then None
         else Option.bind (pf_html facts) (\<lambda>h.
           if hf_meta_description_present h then None
           else Some (single_evidence_finding ''seo.meta_description.missing'' 1 Seo SevLow (pf_final_url facts)
                        (Present False) (Present True) ev)))"

definition seo_h1_missing :: "evidenced_page_facts \<Rightarrow> finding option" where
  "seo_h1_missing ev =
     (let facts = ep_facts ev
      in if \<not> page_content_seo_applicable facts then None
         else Option.bind (pf_html facts) (\<lambda>h.
           if hf_h1_count h \<noteq> 0 then None
           else Some (single_evidence_finding ''seo.h1.missing'' 1 Seo SevLow (pf_final_url facts)
                        (HeadingCount 0) (HeadingCountAtLeast 1) ev)))"

definition seo_h1_multiple :: "evidenced_page_facts \<Rightarrow> finding option" where
  "seo_h1_multiple ev =
     (let facts = ep_facts ev
      in if \<not> page_content_seo_applicable facts then None
         else Option.bind (pf_html facts) (\<lambda>h.
           if hf_h1_count h \<le> 1 then None
           else Some (single_evidence_finding ''seo.h1.multiple'' 1 Seo SevLow (pf_final_url facts)
                        (HeadingCount (hf_h1_count h)) (HeadingCountAtMost 1) ev)))"

definition seo_html_lang_missing :: "evidenced_page_facts \<Rightarrow> finding option" where
  "seo_html_lang_missing ev =
     (let facts = ep_facts ev
      in if \<not> page_content_seo_applicable facts then None
         else Option.bind (pf_html facts) (\<lambda>h.
           if hf_html_lang_present h then None
           else Some (single_evidence_finding ''seo.html_lang.missing'' 1 Seo SevLow (pf_final_url facts)
                        (Present False) (Present True) ev)))"

definition seo_image_alt_missing :: "evidenced_page_facts \<Rightarrow> finding option" where
  "seo_image_alt_missing ev =
     (let facts = ep_facts ev
      in if \<not> page_content_seo_applicable facts then None
         else Option.bind (pf_html facts) (\<lambda>h.
           if hf_images_missing_alt h = 0 then None
           else Some (single_evidence_finding ''seo.image_alt.missing'' 1 Seo SevLow (pf_final_url facts)
                        (ImagesMissingAlt (hf_images_missing_alt h)) (ImagesMissingAlt 0) ev)))"

definition url_scheme_of :: "url_parser \<Rightarrow> string \<Rightarrow> url_scheme option" where
  "url_scheme_of parse url =
     (case parse url of
        Inl _ \<Rightarrow> None
      | Inr parsed \<Rightarrow>
          if u_scheme parsed = ''http'' then Some SchemeHttp
          else if u_scheme parsed = ''https'' then Some SchemeHttps
          else None)"

definition security_https_missing :: "url_parser \<Rightarrow> evidenced_page_facts \<Rightarrow> finding option" where
  "security_https_missing parse ev =
     (let facts = ep_facts ev
      in Option.bind (url_scheme_of parse (pf_final_url facts)) (\<lambda>scheme.
           if scheme = SchemeHttps then None
           else Some (single_evidence_finding ''security.https.missing'' 1 Security SevHigh
                        (pf_final_url facts) (Scheme SchemeHttp) (Scheme SchemeHttps) ev)))"

definition security_hsts_missing :: "url_parser \<Rightarrow> evidenced_page_facts \<Rightarrow> finding option" where
  "security_hsts_missing parse ev =
     (let facts = ep_facts ev
      in if url_scheme_of parse (pf_final_url facts) \<noteq> Some SchemeHttps then None
         else Option.bind (pf_response_headers facts) (\<lambda>headers.
           if map_of headers ''strict-transport-security'' \<noteq> None then None
           else Some (single_evidence_finding ''security.hsts.missing'' 1 Security SevMedium
                        (pf_final_url facts) (Present False) (Present True) ev)))"

definition security_csp_missing :: "evidenced_page_facts \<Rightarrow> finding option" where
  "security_csp_missing ev =
     (let facts = ep_facts ev
      in if \<not> page_content_seo_applicable facts then None
         else Option.bind (pf_response_headers facts) (\<lambda>headers.
           if map_of headers ''content-security-policy'' \<noteq> None then None
           else Some (single_evidence_finding ''security.csp.missing'' 1 Security SevMedium
                        (pf_final_url facts) (Present False) (Present True) ev)))"

definition security_x_content_type_options_missing :: "evidenced_page_facts \<Rightarrow> finding option" where
  "security_x_content_type_options_missing ev =
     (let facts = ep_facts ev
      in if \<not> page_content_seo_applicable facts then None
         else Option.bind (pf_response_headers facts) (\<lambda>headers.
           if map_of headers ''x-content-type-options'' \<noteq> None then None
           else Some (single_evidence_finding ''security.x_content_type_options.missing'' 1 Security SevLow
                        (pf_final_url facts) (Present False) (Present True) ev)))"

definition PAGE_RULES :: "url_parser \<Rightarrow> (evidenced_page_facts \<Rightarrow> finding option) list" where
  "PAGE_RULES parse =
     [seo_canonical_missing, seo_title_missing, seo_meta_description_missing, seo_h1_missing,
      seo_h1_multiple, seo_html_lang_missing, seo_image_alt_missing, security_https_missing parse,
      security_hsts_missing parse, security_csp_missing, security_x_content_type_options_missing]"

definition analyze_page :: "url_parser \<Rightarrow> evidenced_page_facts \<Rightarrow> finding list" where
  "analyze_page parse ev = List.map_filter (\<lambda>rule. rule ev) (PAGE_RULES parse)"

section \<open>Technology markers\<close>

definition MARKER_HEADER_NAMES :: "string list" where
  "MARKER_HEADER_NAMES = [''server'', ''x-powered-by'', ''x-generator'']"

datatype technology_marker_source = ResponseHeader string | HtmlMetaGenerator

record observed_technology_marker =
  tm_source :: technology_marker_source
  tm_value :: string

definition trimmed_marker :: "technology_marker_source \<Rightarrow> string \<Rightarrow> observed_technology_marker option" where
  "trimmed_marker source text =
     (let trimmed = trim text
      in if trimmed = [] then None else Some \<lparr>tm_source = source, tm_value = trimmed\<rparr>)"

definition extract_response_header_technology_markers ::
  "page_facts \<Rightarrow> observed_technology_marker list" where
  "extract_response_header_technology_markers f =
     (case pf_response_headers f of
        None \<Rightarrow> []
      | Some headers \<Rightarrow>
          concat (map (\<lambda>name.
            case map_of headers name of
              None \<Rightarrow> []
            | Some values \<Rightarrow>
                List.map_filter (\<lambda>raw. Option.bind (str_from_utf8 raw) (trimmed_marker (ResponseHeader name)))
                  values) MARKER_HEADER_NAMES))"

definition extract_html_generator_technology_markers ::
  "page_facts \<Rightarrow> observed_technology_marker list" where
  "extract_html_generator_technology_markers f =
     (case pf_html f of
        None \<Rightarrow> []
      | Some h \<Rightarrow> List.map_filter (trimmed_marker HtmlMetaGenerator) (hf_meta_generators h))"

definition extract_technology_markers :: "evidenced_page_facts \<Rightarrow> observed_technology_marker list" where
  "extract_technology_markers ev =
     extract_response_header_technology_markers (ep_facts ev)
     @ extract_html_generator_technology_markers (ep_facts ev)"

section \<open>Durable operations\<close>

definition record_page_facts ::
  "audit_env \<Rightarrow> page \<Rightarrow> (audit_error, evidenced_page_facts) dact" where
  "record_page_facts env page =
     (let content = au_page_html env page;
          bundle = build_evidence (au_deps env) page (Some content) False False
      in act_bind (act_map_err EvidenceRecording
             (record_evidence (au_bundle_codec env) (au_fresh env) (au_now env) bundle)) (\<lambda>recorded.
         let evidence_ref = EvidenceRef (case eb_id recorded of Some e \<Rightarrow> e | None \<Rightarrow> au_fresh env)
         in act_ok \<lparr>ep_facts = page_facts_of env page, ep_evidence_ref = evidence_ref\<rparr>))"

fun resolve_all :: "evidence_bundle codec \<Rightarrow> evidence_ref list \<Rightarrow> (audit_error, unit) dact" where
  "resolve_all ce [] = act_ok ()"
| "resolve_all ce (e # es) =
     act_bind (act_map_err AuditEvidence (resolve ce e)) (\<lambda>resolved.
       if resolved = None then act_err (EvidenceUnresolvable e) else resolve_all ce es)"

definition record_finding ::
  "(bytes \<Rightarrow> string) \<Rightarrow> evidence_bundle codec \<Rightarrow> finding codec \<Rightarrow> system_time \<Rightarrow> finding
    \<Rightarrow> (audit_error, finding) dact" where
  "record_finding sha ce cf now f =
     act_bind (resolve_all ce (fi_evidence f)) (\<lambda>_.
     act_bind (act_lift (map_err AuditSerialization (ser cf f))) (\<lambda>payload.
     append_once AuditPersistence (fid_str (finding_id_of sha f)) payload now f))"

definition read_finding :: "finding codec \<Rightarrow> finding_id \<Rightarrow> (audit_error, finding option) dact" where
  "read_finding cf i = read_first_record cf AuditPersistence AuditSerialization (fid_str i)"

fun record_findings ::
  "(bytes \<Rightarrow> string) \<Rightarrow> evidence_bundle codec \<Rightarrow> finding codec \<Rightarrow> system_time \<Rightarrow> finding list
    \<Rightarrow> (audit_error, finding list) dact" where
  "record_findings sha ce cf now [] = act_ok []"
| "record_findings sha ce cf now (f # fs) =
     act_bind (record_finding sha ce cf now f) (\<lambda>r.
     act_bind (record_findings sha ce cf now fs) (\<lambda>rs. act_ok (r # rs)))"

datatype page_audit_outcome = Evaluated | TargetUnobserved

record page_audit_result =
  pa_outcome :: page_audit_outcome
  pa_evidence_ref :: evidence_ref
  pa_findings :: "finding list"
  pa_technology_markers :: "observed_technology_marker list"

definition validate_audit_target :: "url_parser \<Rightarrow> string \<Rightarrow> audit_error + unit" where
  "validate_audit_target parse url =
     (let trimmed = trim url;
          admitted = (case parse trimmed of
                        Inl _ \<Rightarrow> False
                      | Inr parsed \<Rightarrow> u_scheme parsed = ''http'' \<or> u_scheme parsed = ''https'')
      in if admitted then Inr () else Inl (InvalidTarget trimmed))"

definition audit_page ::
  "audit_env \<Rightarrow> finding codec \<Rightarrow> string \<Rightarrow> (audit_error, page_audit_result) dact" where
  "audit_page env cf url =
     act_bind (act_lift (validate_audit_target (au_parse_url env) url)) (\<lambda>_.
     act_bind (act_lift (map_err Acquisition (au_fetch env url))) (\<lambda>page.
     act_bind (record_page_facts env page) (\<lambda>ev.
     if pf_observed_status (ep_facts ev) \<noteq> None then
       act_bind (record_findings (sha256_hex (au_deps env)) (au_bundle_codec env) cf (au_now env)
                   (analyze_page (au_parse_url env) ev)) (\<lambda>findings.
       act_ok \<lparr>pa_outcome = Evaluated, pa_evidence_ref = ep_evidence_ref ev, pa_findings = findings,
               pa_technology_markers = extract_technology_markers ev\<rparr>)
     else act_ok \<lparr>pa_outcome = TargetUnobserved, pa_evidence_ref = ep_evidence_ref ev,
                  pa_findings = [], pa_technology_markers = []\<rparr>)))"

section \<open>Lemmas\<close>

lemma frame_resolve_all [frame_intro]: "frame tables (resolve_all ce es)"
  by (induction es) (auto intro!: frame_intro)

lemma frame_read_finding [frame_intro]: "frame tables (read_finding cf i)"
  unfolding read_finding_def by (rule frame_read_first)

end
