(* ===== verification/Iam_Trace.thy ===== *)
theory Iam_Trace
  imports Rust_Str Identity
begin

text \<open>
  The model half of the IAM callback inspector (\<open>spider/src/features/iam_trace.rs\<close>): the
  lifecycle of a trace, observed facts with their truth status, and redaction.
\<close>

datatype iam_trace_state = AwaitingCallback | Received

fun iam_state_kind :: "iam_trace_state \<Rightarrow> string" where
  "iam_state_kind AwaitingCallback = ''awaiting_callback''"
| "iam_state_kind Received = ''received''"

datatype iam_trace_transition_rejected = AlreadyReceived

definition iam_transition_rejected_display :: "iam_trace_transition_rejected \<Rightarrow> string" where
  "iam_transition_rejected_display r =
     ''receive_callback does not apply from state '' @ iam_state_kind Received
     @ '': the first observation was already recorded''"

fun receive_callback_transition ::
  "iam_trace_state \<Rightarrow> iam_trace_transition_rejected + iam_trace_state" where
  "receive_callback_transition AwaitingCallback = Inr Received"
| "receive_callback_transition Received = Inl AlreadyReceived"

datatype iam_protocol = Generic | OAuth2 | Oidc | Saml

datatype iam_fact_status =
    Observed string
  | Validated string
  | NotValidated string
  | Redacted (sha256_digest: string)

definition redact :: "(bytes \<Rightarrow> string) \<Rightarrow> string \<Rightarrow> iam_fact_status" where
  "redact sha value = Redacted (sha (str_bytes value))"

record iam_fact =
  if_name :: string
  if_status :: iam_fact_status

definition fact_observed :: "string \<Rightarrow> string \<Rightarrow> iam_fact" where
  "fact_observed name value = \<lparr>if_name = name, if_status = Observed value\<rparr>"

definition fact_not_validated :: "string \<Rightarrow> string \<Rightarrow> iam_fact" where
  "fact_not_validated name value = \<lparr>if_name = name, if_status = NotValidated value\<rparr>"

definition fact_redacted :: "(bytes \<Rightarrow> string) \<Rightarrow> string \<Rightarrow> string \<Rightarrow> iam_fact" where
  "fact_redacted sha name value = \<lparr>if_name = name, if_status = redact sha value\<rparr>"

record iam_callback_observation =
  io_trace :: iam_trace_id
  io_method :: string
  io_target :: string
  io_observed_at_unix_ms :: nat
  io_protocol :: iam_protocol
  io_facts :: "iam_fact list"

end
