(* ===== verification/Iam_Facts.thy ===== *)
theory Iam_Facts
  imports Iam_Trace Json_Value
begin

text \<open>
  What the callback receiver (\<open>scorpion_app/src/iam.rs\<close>) makes of a request: facts from a
  query, a form or a JSON body, the protocol, and the decode-only inspection of identity
  tokens and SAML responses.  The form decoder, \<open>serde_json\<close>, Base64, the pull parser of
  \<open>quick_xml\<close> and SHA-256 are third-party and bundled as \<open>iam_deps\<close>.
\<close>

section \<open>Third-party values\<close>

text \<open>
  The events of the XML reader: an element's local name with its attributes (local name,
  and the value when it decodes), a text when it decodes.  The list ends at the end of the
  document; \<open>XmlMalformed\<close> is an error of the reader.
\<close>

type_synonym xml_attributes = "(string \<times> string option) list"

datatype xml_event =
    XmlStart string xml_attributes
  | XmlEmpty string xml_attributes
  | XmlText "string option"
  | XmlEnd string
  | XmlDocType
  | XmlOther
  | XmlMalformed

record iam_deps =
  form_pairs :: "bytes \<Rightarrow> (string \<times> string) list"
  json_parse :: "bytes \<Rightarrow> string + json"
  json_print :: "json \<Rightarrow> string"
  b64_url :: "string \<Rightarrow> bytes option"
  b64_std :: "string \<Rightarrow> bytes option"
  xml_events :: "bytes \<Rightarrow> xml_event list"
  iam_sha :: "bytes \<Rightarrow> string"

section \<open>Errors and limits\<close>

datatype iam_error =
    InvalidTraceId
  | IamNotFound
  | IamNotConfigured
  | Unavailable
  | UnsupportedContentType
  | MalformedPercentEncoding
  | MalformedFormEncoding
  | MalformedJson
  | ParameterLimitExceeded
  | PersistenceFailed
  | Internal

fun iam_error_display :: "iam_error \<Rightarrow> string" where
  "iam_error_display InvalidTraceId = ''the supplied trace id is not well-formed''"
| "iam_error_display IamNotFound = ''no trace has been created for this id''"
| "iam_error_display IamNotConfigured = ''no canonical domain database is configured''"
| "iam_error_display Unavailable = ''the canonical domain database is unavailable''"
| "iam_error_display UnsupportedContentType =
     ''unsupported content type: only application/x-www-form-urlencoded and application/json are accepted''"
| "iam_error_display MalformedPercentEncoding = ''malformed percent-encoding''"
| "iam_error_display MalformedFormEncoding = ''form body is not valid UTF-8''"
| "iam_error_display MalformedJson = ''request body is not valid JSON''"
| "iam_error_display ParameterLimitExceeded = ''too many parameters, or one is too large''"
| "iam_error_display PersistenceFailed = ''a persistence operation failed''"
| "iam_error_display Internal = ''an internal error occurred''"

definition iam_error_status :: "iam_error \<Rightarrow> nat" where
  "iam_error_status e =
     (if e \<in> {InvalidTraceId, UnsupportedContentType, MalformedPercentEncoding, MalformedFormEncoding,
             MalformedJson, ParameterLimitExceeded} then 400
      else if e = IamNotFound then 404
      else if e \<in> {IamNotConfigured, Unavailable} then 503
      else 500)"

fun iam_error_code :: "iam_error \<Rightarrow> string" where
  "iam_error_code InvalidTraceId = ''invalid_trace_id''"
| "iam_error_code IamNotFound = ''trace_not_found''"
| "iam_error_code IamNotConfigured = ''iam_store_not_configured''"
| "iam_error_code Unavailable = ''iam_store_unavailable''"
| "iam_error_code UnsupportedContentType = ''unsupported_content_type''"
| "iam_error_code MalformedPercentEncoding = ''malformed_percent_encoding''"
| "iam_error_code MalformedFormEncoding = ''malformed_form_encoding''"
| "iam_error_code MalformedJson = ''malformed_json''"
| "iam_error_code ParameterLimitExceeded = ''parameter_limit_exceeded''"
| "iam_error_code PersistenceFailed = ''iam_persistence_failed''"
| "iam_error_code Internal = ''internal_error''"

definition IAM_MAX_FACTS :: nat where "IAM_MAX_FACTS = 64"
definition IAM_MAX_KEY_BYTES :: nat where "IAM_MAX_KEY_BYTES = 256"
definition IAM_MAX_VALUE_BYTES :: nat where "IAM_MAX_VALUE_BYTES = 16 * 1024"
definition IAM_MAX_JSON_DEPTH :: nat where "IAM_MAX_JSON_DEPTH = 8"
definition IAM_MAX_REVISION_RETRIES :: nat where "IAM_MAX_REVISION_RETRIES = 5"

definition SENSITIVE_NAMES :: "string list" where
  "SENSITIVE_NAMES =
     [''code'', ''access_token'', ''refresh_token'', ''id_token'', ''client_secret'', ''password'',
      ''authorization'', ''cookie'', ''set-cookie'', ''samlresponse'', ''samlrequest'']"

definition is_sensitive_name :: "string \<Rightarrow> bool" where
  "is_sensitive_name name \<longleftrightarrow> to_ascii_lowercase name \<in> set SENSITIVE_NAMES"

section \<open>Facts of parameters\<close>

definition push_fact ::
  "iam_deps \<Rightarrow> iam_fact list \<Rightarrow> string \<Rightarrow> string \<Rightarrow> bool \<Rightarrow> iam_error + iam_fact list" where
  "push_fact d facts name value sensitive =
     (if IAM_MAX_FACTS \<le> length facts then Inl ParameterLimitExceeded
      else if IAM_MAX_KEY_BYTES < length name \<or> IAM_MAX_VALUE_BYTES < length value
      then Inl ParameterLimitExceeded
      else Inr (facts @ [if sensitive then fact_redacted (iam_sha d) name value
                         else fact_observed name value]))"

fun push_pairs ::
  "iam_deps \<Rightarrow> (string \<times> string) list \<Rightarrow> iam_fact list \<Rightarrow> iam_error + iam_fact list" where
  "push_pairs d [] facts = Inr facts"
| "push_pairs d ((name, value) # rest) facts =
     res_bind (push_fact d facts name value (is_sensitive_name name)) (\<lambda>facts. push_pairs d rest facts)"

definition facts_from_pairs :: "iam_deps \<Rightarrow> (string \<times> string) list \<Rightarrow> iam_error + iam_fact list" where
  "facts_from_pairs d pairs = push_pairs d pairs []"

definition json_scalar_to_string :: "iam_deps \<Rightarrow> json \<Rightarrow> string" where
  "json_scalar_to_string d value =
     (case value of JString text \<Rightarrow> text | JNull \<Rightarrow> ''null'' | other \<Rightarrow> json_print d other)"

definition json_get :: "json \<Rightarrow> string \<Rightarrow> json option" where
  "json_get value key = (case value of JObject members \<Rightarrow> map_of members key | _ \<Rightarrow> None)"

fun flatten_json_facts ::
    "iam_deps \<Rightarrow> json \<Rightarrow> string \<Rightarrow> nat \<Rightarrow> iam_fact list \<Rightarrow> iam_error + iam_fact list"
  and flatten_fields ::
    "iam_deps \<Rightarrow> (string \<times> json) list \<Rightarrow> string \<Rightarrow> nat \<Rightarrow> iam_fact list \<Rightarrow> iam_error + iam_fact list"
  and flatten_items ::
    "iam_deps \<Rightarrow> json list \<Rightarrow> string \<Rightarrow> nat \<Rightarrow> nat \<Rightarrow> iam_fact list \<Rightarrow> iam_error + iam_fact list" where
  "flatten_json_facts d value pfx depth facts =
     (if IAM_MAX_JSON_DEPTH < depth then Inl ParameterLimitExceeded
      else case value of
             JObject members \<Rightarrow> flatten_fields d members pfx depth facts
           | _ \<Rightarrow> Inr facts)"
| "flatten_fields d [] pfx depth facts = Inr facts"
| "flatten_fields d ((key, field_value) # rest) pfx depth facts =
     (let name = (if pfx = [] then key else pfx @ ''.'' @ key)
      in res_bind
           (if is_sensitive_name key then push_fact d facts name (json_scalar_to_string d field_value) True
            else case field_value of
                   JObject members \<Rightarrow> flatten_json_facts d (JObject members) name (depth + 1) facts
                 | JArray items \<Rightarrow> flatten_items d items name 0 depth facts
                 | other \<Rightarrow> push_fact d facts name (json_scalar_to_string d other) False)
           (\<lambda>facts. flatten_fields d rest pfx depth facts))"
| "flatten_items d [] name index depth facts = Inr facts"
| "flatten_items d (item # rest) name index depth facts =
     (let item_name = name @ ''['' @ show_nat index @ '']''
      in res_bind
           (case item of
              JObject members \<Rightarrow> flatten_json_facts d (JObject members) item_name (depth + 1) facts
            | other \<Rightarrow> push_fact d facts item_name (json_scalar_to_string d other) False)
           (\<lambda>facts. flatten_items d rest name (index + 1) depth facts))"

definition is_ascii_hexdigit :: "char \<Rightarrow> bool" where
  "is_ascii_hexdigit c \<longleftrightarrow> c \<in> set ''0123456789abcdefABCDEF''"

fun valid_percent_encoding :: "string \<Rightarrow> bool" where
  "valid_percent_encoding [] = True"
| "valid_percent_encoding (c # s) =
     (if c = CHR ''%'' then
        (case s of a # b # s' \<Rightarrow> is_ascii_hexdigit a \<and> is_ascii_hexdigit b \<and> valid_percent_encoding s' | _ \<Rightarrow> False)
      else valid_percent_encoding s)"

definition validate_percent_encoding :: "string \<Rightarrow> iam_error + unit" where
  "validate_percent_encoding raw =
     (if valid_percent_encoding raw then Inr () else Inl MalformedPercentEncoding)"

end
