(* ===== verification/Iam_Saml.thy ===== *)
theory Iam_Saml
  imports Iam_Facts
begin

text \<open>
  The decode-only half of the callback inspection (\<open>scorpion_app/src/iam.rs\<close>): the claims of
  an identity token, the elements of a SAML response, and the facts of a whole request.
  Decoding errors are the code's static labels and become a fact.
\<close>

section \<open>Identity tokens\<close>

definition JWT_MAX_RAW_BYTES :: nat where "JWT_MAX_RAW_BYTES = IAM_MAX_VALUE_BYTES"
definition JWT_MAX_DECODED_HEADER_BYTES :: nat where "JWT_MAX_DECODED_HEADER_BYTES = 4 * 1024"
definition JWT_MAX_DECODED_PAYLOAD_BYTES :: nat where "JWT_MAX_DECODED_PAYLOAD_BYTES = 8 * 1024"

definition JWT_HEADER_FACTS :: "string list" where
  "JWT_HEADER_FACTS = [''alg'', ''typ'', ''kid'']"

definition JWT_PAYLOAD_FACTS :: "string list" where
  "JWT_PAYLOAD_FACTS = [''iss'', ''aud'', ''exp'', ''iat'', ''nbf'']"

definition show_bool :: "bool \<Rightarrow> string" where
  "show_bool b = (if b then ''true'' else ''false'')"

definition jwt_facts :: "iam_deps \<Rightarrow> json \<Rightarrow> json \<Rightarrow> string \<Rightarrow> iam_fact list" where
  "jwt_facts d header payload signature =
     List.map_filter (\<lambda>key. map_option (\<lambda>v. fact_observed (''jwt.header.'' @ key) (json_scalar_to_string d v))
                              (json_get header key)) JWT_HEADER_FACTS
     @ List.map_filter (\<lambda>key. map_option (\<lambda>v. fact_observed (''jwt.'' @ key) (json_scalar_to_string d v))
                                (json_get payload key)) JWT_PAYLOAD_FACTS
     @ (case json_get payload ''nonce'' of
          Some v \<Rightarrow> [fact_not_validated ''jwt.nonce'' (json_scalar_to_string d v)] | None \<Rightarrow> [])
     @ [fact_observed ''jwt.signature.present'' (show_bool (signature \<noteq> [])),
        fact_not_validated ''jwt.signature.verification'' ''not_attempted'']"

definition decode_id_token :: "iam_deps \<Rightarrow> string \<Rightarrow> string + iam_fact list" where
  "decode_id_token d raw_jwt =
     (if JWT_MAX_RAW_BYTES < length raw_jwt then Inl ''oversized_token''
      else case split_on (CHR ''.'') raw_jwt of
        [header_segment, payload_segment, signature] \<Rightarrow>
          res_bind (ok_or ''malformed_base64url_header'' (b64_url d header_segment)) (\<lambda>header_bytes.
          if JWT_MAX_DECODED_HEADER_BYTES < length header_bytes then Inl ''oversized_decoded_header''
          else res_bind (map_err (\<lambda>_. ''malformed_header_json'') (json_parse d header_bytes)) (\<lambda>header.
          res_bind (ok_or ''malformed_base64url_payload'' (b64_url d payload_segment)) (\<lambda>payload_bytes.
          if JWT_MAX_DECODED_PAYLOAD_BYTES < length payload_bytes then Inl ''oversized_decoded_payload''
          else res_bind (map_err (\<lambda>_. ''malformed_payload_json'') (json_parse d payload_bytes)) (\<lambda>payload.
            Inr (jwt_facts d header payload signature)))))
      | _ \<Rightarrow> Inl ''malformed_segment_count'')"

definition append_decoded ::
  "string \<Rightarrow> iam_fact list \<Rightarrow> string + iam_fact list \<Rightarrow> iam_error + iam_fact list" where
  "append_decoded error_name facts decoded =
     (let new_facts = (case decoded of
            Inr fs \<Rightarrow> fs | Inl reason \<Rightarrow> [fact_not_validated error_name reason])
      in if IAM_MAX_FACTS < length facts + length new_facts then Inl ParameterLimitExceeded
         else Inr (facts @ new_facts))"

definition append_id_token_facts ::
  "iam_deps \<Rightarrow> iam_fact list \<Rightarrow> string \<Rightarrow> iam_error + iam_fact list" where
  "append_id_token_facts d facts raw_jwt = append_decoded ''jwt.decode_error'' facts (decode_id_token d raw_jwt)"

section \<open>SAML responses\<close>

definition SAML_MAX_RAW_BASE64_BYTES :: nat where "SAML_MAX_RAW_BASE64_BYTES = IAM_MAX_VALUE_BYTES"
definition SAML_MAX_DECODED_XML_BYTES :: nat where "SAML_MAX_DECODED_XML_BYTES = 8 * 1024"
definition SAML_MAX_XML_DEPTH :: nat where "SAML_MAX_XML_DEPTH = 32"
definition SAML_MAX_ATTRIBUTES :: nat where "SAML_MAX_ATTRIBUTES = 32"
definition SAML_MAX_TEXT_BYTES :: nat where "SAML_MAX_TEXT_BYTES = IAM_MAX_VALUE_BYTES"

datatype saml_element =
    ElResponse | ElIssuer | ElStatusCode | ElStatusMessage | ElAssertion | ElNameId | ElConditions
  | ElAudience | ElAttribute | ElAttributeValue | ElSignature | ElOther

definition classify_saml_element :: "string \<Rightarrow> saml_element" where
  "classify_saml_element local_name =
     (if local_name = ''Response'' then ElResponse
      else if local_name = ''Issuer'' then ElIssuer
      else if local_name = ''StatusCode'' then ElStatusCode
      else if local_name = ''StatusMessage'' then ElStatusMessage
      else if local_name = ''Assertion'' then ElAssertion
      else if local_name = ''NameID'' then ElNameId
      else if local_name = ''Conditions'' then ElConditions
      else if local_name = ''Audience'' then ElAudience
      else if local_name = ''Attribute'' then ElAttribute
      else if local_name = ''AttributeValue'' then ElAttributeValue
      else if local_name = ''Signature'' then ElSignature
      else ElOther)"

text \<open>\<open>chars().filter(|c| !c.is_whitespace())\<close>.\<close>

fun remove_whitespace :: "string \<Rightarrow> string" where
  "remove_whitespace (a # b # c # s) =
     (if ascii_space a then remove_whitespace (b # c # s)
      else if wide_space2 a b then remove_whitespace (c # s)
      else if wide_space3 a b c then remove_whitespace s
      else a # remove_whitespace (b # c # s))"
| "remove_whitespace [a, b] =
     (if ascii_space a then remove_whitespace [b] else if wide_space2 a b then []
      else a # remove_whitespace [b])"
| "remove_whitespace [a] = (if ascii_space a then [] else [a])"
| "remove_whitespace [] = []"

record saml_capture =
  sc_kind :: saml_element
  sc_depth :: nat
  sc_buffer :: string
  sc_attribute_name :: "string option"

text \<open>The local variables of the loop; the innermost open element is the head of the stack.\<close>

record saml_state =
  sa_facts :: "iam_fact list"
  sa_stack :: "saml_element list"
  sa_capture :: "saml_capture option"
  sa_saw_issuer :: bool
  sa_saw_name_id :: bool
  sa_saw_audience :: bool
  sa_saw_status_code :: bool
  sa_attribute_count :: nat
  sa_attribute_name :: "string option"
  sa_response_signature :: bool
  sa_assertion_signature :: bool

definition saml_start :: saml_state where
  "saml_start = \<lparr>sa_facts = [], sa_stack = [], sa_capture = None, sa_saw_issuer = False,
     sa_saw_name_id = False, sa_saw_audience = False, sa_saw_status_code = False,
     sa_attribute_count = 0, sa_attribute_name = None, sa_response_signature = False,
     sa_assertion_signature = False\<rparr>"

definition attribute_value :: "xml_attributes \<Rightarrow> string \<Rightarrow> string option" where
  "attribute_value attrs name =
     (case List.map_filter (\<lambda>(key, value). if key = name then value else None) attrs of
        [] \<Rightarrow> None | v # _ \<Rightarrow> Some v)"

definition push_saml_text_fact ::
  "iam_deps \<Rightarrow> iam_fact list \<Rightarrow> string \<Rightarrow> string \<Rightarrow> bool \<Rightarrow> string + iam_fact list" where
  "push_saml_text_fact d facts name value force_not_validated =
     (if IAM_MAX_FACTS \<le> length facts then Inl ''too_many_facts''
      else if SAML_MAX_TEXT_BYTES < length value then Inl ''oversized_text_value''
      else Inr (facts @ [if is_sensitive_name name then fact_redacted (iam_sha d) name value
                         else if force_not_validated then fact_not_validated name value
                         else fact_observed name value]))"

text \<open>One attribute of an element, if it is there, as a fact.\<close>

definition push_attribute ::
  "iam_deps \<Rightarrow> xml_attributes \<Rightarrow> string \<Rightarrow> string \<Rightarrow> bool \<Rightarrow> saml_state \<Rightarrow> string + saml_state" where
  "push_attribute d attrs name target force st =
     (case attribute_value attrs name of
        None \<Rightarrow> Inr st
      | Some value \<Rightarrow>
          res_bind (push_saml_text_fact d (sa_facts st) target value force) (\<lambda>facts.
            Inr (st\<lparr>sa_facts := facts\<rparr>)))"

fun element_facts ::
  "iam_deps \<Rightarrow> saml_element \<Rightarrow> xml_attributes \<Rightarrow> saml_state \<Rightarrow> string + saml_state" where
  "element_facts d ElResponse attrs st =
     (if length (sa_stack st) = 0 then
        res_bind (push_attribute d attrs ''ID'' ''saml.response.id'' False st) (\<lambda>st.
        res_bind (push_attribute d attrs ''Destination'' ''saml.response.destination'' False st) (\<lambda>st.
        res_bind (push_attribute d attrs ''Version'' ''saml.response.version'' False st) (\<lambda>st.
        push_attribute d attrs ''InResponseTo'' ''saml.response.in_response_to'' True st)))
      else Inr st)"
| "element_facts d ElAssertion attrs st =
     res_bind (push_attribute d attrs ''ID'' ''saml.assertion.id'' False st) (\<lambda>st.
     push_attribute d attrs ''IssueInstant'' ''saml.assertion.issue_instant'' False st)"
| "element_facts d ElConditions attrs st =
     res_bind (push_attribute d attrs ''NotBefore'' ''saml.conditions.not_before'' False st) (\<lambda>st.
     push_attribute d attrs ''NotOnOrAfter'' ''saml.conditions.not_on_or_after'' False st)"
| "element_facts d ElStatusCode attrs st =
     (if \<not> sa_saw_status_code st then
        push_attribute d attrs ''Value'' ''saml.status.code'' False (st\<lparr>sa_saw_status_code := True\<rparr>)
      else Inr st)"
| "element_facts d ElNameId attrs st =
     (if \<not> sa_saw_name_id st then
        push_attribute d attrs ''Format'' ''saml.name_id.format'' False (st\<lparr>sa_saw_name_id := True\<rparr>)
      else Inr st)"
| "element_facts d ElAttribute attrs st =
     (let st = st\<lparr>sa_attribute_count := sa_attribute_count st + 1\<rparr>
      in if SAML_MAX_ATTRIBUTES < sa_attribute_count st then Inl ''too_many_attributes''
         else push_attribute d attrs ''Name'' ''saml.attribute.name'' False
                (st\<lparr>sa_attribute_name := attribute_value attrs ''Name''\<rparr>))"
| "element_facts d ElSignature attrs st =
     (if ElAssertion \<in> set (sa_stack st) then Inr (st\<lparr>sa_assertion_signature := True\<rparr>)
      else Inr (st\<lparr>sa_response_signature := True\<rparr>))"
| "element_facts d _ attrs st = Inr st"

definition finalize_saml_capture ::
  "iam_deps \<Rightarrow> saml_capture option \<Rightarrow> iam_fact list \<Rightarrow> string + iam_fact list" where
  "finalize_saml_capture d capture facts =
     (case capture of
        None \<Rightarrow> Inr facts
      | Some c \<Rightarrow>
          (case sc_kind c of
             ElIssuer \<Rightarrow> push_saml_text_fact d facts ''saml.issuer'' (sc_buffer c) False
           | ElStatusMessage \<Rightarrow> push_saml_text_fact d facts ''saml.status.message'' (sc_buffer c) False
           | ElNameId \<Rightarrow> push_saml_text_fact d facts ''saml.name_id'' (sc_buffer c) False
           | ElAudience \<Rightarrow> push_saml_text_fact d facts ''saml.audience'' (sc_buffer c) False
           | ElAttributeValue \<Rightarrow>
               push_saml_text_fact d facts
                 (''saml.attribute.value['' @ (case sc_attribute_name c of
                     None \<Rightarrow> ''saml.attribute.value'' | Some name \<Rightarrow> name) @ '']'')
                 (sc_buffer c) False
           | _ \<Rightarrow> Inr facts))"

definition take_capture :: "iam_deps \<Rightarrow> saml_state \<Rightarrow> string + saml_state" where
  "take_capture d st =
     res_bind (finalize_saml_capture d (sa_capture st) (sa_facts st)) (\<lambda>facts.
       Inr (st\<lparr>sa_capture := None, sa_facts := facts\<rparr>))"

definition starts_capture :: "saml_element \<Rightarrow> saml_state \<Rightarrow> bool" where
  "starts_capture kind st \<longleftrightarrow>
     kind \<in> {ElIssuer, ElStatusMessage, ElNameId, ElAttributeValue} \<or> kind = ElAudience \<and> \<not> sa_saw_audience st"

definition begin_capture ::
  "iam_deps \<Rightarrow> saml_element \<Rightarrow> bool \<Rightarrow> nat \<Rightarrow> saml_state \<Rightarrow> string + saml_state" where
  "begin_capture d kind is_empty depth st =
     (if kind = ElIssuer \<and> sa_saw_issuer st then Inr st
      else if starts_capture kind st then
        (let st = st\<lparr>sa_saw_issuer := (sa_saw_issuer st \<or> kind = ElIssuer),
                     sa_saw_audience := (sa_saw_audience st \<or> kind = ElAudience),
                     sa_capture := Some \<lparr>sc_kind = kind, sc_depth = depth, sc_buffer = [],
                                         sc_attribute_name = sa_attribute_name st\<rparr>\<rparr>
         in if is_empty then take_capture d st else Inr st)
      else Inr st)"

definition saml_element_event ::
  "iam_deps \<Rightarrow> bool \<Rightarrow> string \<Rightarrow> xml_attributes \<Rightarrow> saml_state \<Rightarrow> string + saml_state" where
  "saml_element_event d is_empty local_name attrs st =
     (let kind = classify_saml_element local_name; depth = length (sa_stack st)
      in res_bind (element_facts d kind attrs st) (\<lambda>st.
         res_bind (begin_capture d kind is_empty depth st) (\<lambda>st.
         if is_empty then Inr st
         else let st = st\<lparr>sa_stack := kind # sa_stack st\<rparr>
              in if SAML_MAX_XML_DEPTH < length (sa_stack st) then Inl ''excessive_nesting'' else Inr st)))"

fun saml_event :: "iam_deps \<Rightarrow> xml_event \<Rightarrow> saml_state \<Rightarrow> string + saml_state" where
  "saml_event d (XmlStart local_name attrs) st = saml_element_event d False local_name attrs st"
| "saml_event d (XmlEmpty local_name attrs) st = saml_element_event d True local_name attrs st"
| "saml_event d (XmlText text) st =
     (case sa_capture st of
        None \<Rightarrow> Inr st
      | Some active \<Rightarrow>
          res_bind (ok_or ''malformed_xml'' text) (\<lambda>decoded.
            if SAML_MAX_TEXT_BYTES < length (sc_buffer active) + length decoded
            then Inl ''oversized_text_value''
            else Inr (st\<lparr>sa_capture := Some (active\<lparr>sc_buffer := sc_buffer active @ decoded\<rparr>)\<rparr>)))"
| "saml_event d (XmlEnd local_name) st =
     (let kind = classify_saml_element local_name
      in res_bind
           (case sa_capture st of
              Some active \<Rightarrow>
                if sc_kind active = kind \<and> sc_depth active = length (sa_stack st) - 1
                then take_capture d st else Inr st
            | None \<Rightarrow> Inr st)
           (\<lambda>st. Inr (st\<lparr>sa_attribute_name := (if kind = ElAttribute then None else sa_attribute_name st),
                         sa_stack := tl (sa_stack st)\<rparr>)))"
| "saml_event d XmlMalformed st = Inl ''malformed_xml''"
| "saml_event d _ st = Inr st"

fun saml_loop :: "iam_deps \<Rightarrow> xml_event list \<Rightarrow> saml_state \<Rightarrow> string + saml_state" where
  "saml_loop d [] st = Inr st"
| "saml_loop d (e # es) st = res_bind (saml_event d e st) (\<lambda>st. saml_loop d es st)"

definition parse_saml_xml :: "iam_deps \<Rightarrow> bytes \<Rightarrow> string + iam_fact list" where
  "parse_saml_xml d xml_bytes =
     res_bind (saml_loop d (xml_events d xml_bytes) saml_start) (\<lambda>st.
       Inr (sa_facts st @
         [fact_observed ''saml.response.signature.present'' (show_bool (sa_response_signature st)),
          fact_observed ''saml.assertion.signature.present'' (show_bool (sa_assertion_signature st)),
          fact_not_validated ''saml.signature.verification'' ''not_attempted'']))"

definition decode_saml_response :: "iam_deps \<Rightarrow> string \<Rightarrow> string + iam_fact list" where
  "decode_saml_response d raw_base64 =
     (if SAML_MAX_RAW_BASE64_BYTES < length raw_base64 then Inl ''oversized_response''
      else res_bind (ok_or ''malformed_base64'' (b64_std d (remove_whitespace raw_base64))) (\<lambda>xml_bytes.
        if SAML_MAX_DECODED_XML_BYTES < length xml_bytes then Inl ''oversized_decoded_xml''
        else parse_saml_xml d xml_bytes))"

definition append_saml_response_facts ::
  "iam_deps \<Rightarrow> iam_fact list \<Rightarrow> string \<Rightarrow> iam_error + iam_fact list" where
  "append_saml_response_facts d facts raw_base64 =
     append_decoded ''saml.decode_error'' facts (decode_saml_response d raw_base64)"

section \<open>The facts of a request\<close>

definition classify_protocol :: "bool \<Rightarrow> bool \<Rightarrow> bool \<Rightarrow> bool \<Rightarrow> bool \<Rightarrow> iam_protocol" where
  "classify_protocol has_saml_response has_id_token has_code has_error has_state =
     (if has_saml_response then Saml
      else if has_id_token then Oidc
      else if has_code \<or> has_error \<or> has_state then OAuth2
      else Generic)"

definition mark_state_not_validated :: "iam_fact list \<Rightarrow> iam_fact list" where
  "mark_state_not_validated facts =
     map (\<lambda>fact.
       if if_name fact = ''state'' then
         (case if_status fact of
            Observed value \<Rightarrow> fact\<lparr>if_status := NotValidated value\<rparr> | _ \<Rightarrow> fact)
       else fact) facts"

definition finalize_iam_facts ::
  "iam_deps \<Rightarrow> iam_fact list \<Rightarrow> string option \<Rightarrow> string option
    \<Rightarrow> iam_error + (iam_protocol \<times> iam_fact list)" where
  "finalize_iam_facts d facts raw_id_token raw_saml_response =
     (let has = (\<lambda>name. \<exists>fact \<in> set facts. if_name fact = name);
          protocol = classify_protocol (raw_saml_response \<noteq> None) (raw_id_token \<noteq> None)
                       (has ''code'') (has ''error'') (has ''state'');
          facts = (if protocol = OAuth2 \<or> protocol = Oidc then mark_state_not_validated facts else facts)
      in res_bind (case raw_id_token of
                     None \<Rightarrow> Inr facts | Some raw \<Rightarrow> append_id_token_facts d facts raw) (\<lambda>facts.
         res_bind (case raw_saml_response of
                     None \<Rightarrow> Inr facts | Some raw \<Rightarrow> append_saml_response_facts d facts raw) (\<lambda>facts.
           Inr (protocol, facts))))"

definition find_pair :: "(string \<Rightarrow> bool) \<Rightarrow> (string \<times> 'v) list \<Rightarrow> 'v option" where
  "find_pair P pairs = map_option snd (find (\<lambda>p. P (fst p)) pairs)"

definition is_saml_response_name :: "string \<Rightarrow> bool" where
  "is_saml_response_name name \<longleftrightarrow> eq_ignore_ascii_case name ''SAMLResponse''"

definition pairs_facts ::
  "iam_deps \<Rightarrow> (string \<times> string) list \<Rightarrow> iam_error + (iam_protocol \<times> iam_fact list)" where
  "pairs_facts d pairs =
     res_bind (facts_from_pairs d pairs) (\<lambda>facts.
       finalize_iam_facts d facts (find_pair (\<lambda>name. name = ''id_token'') pairs)
         (find_pair is_saml_response_name pairs))"

definition parse_query_facts :: "iam_deps \<Rightarrow> string \<Rightarrow> iam_error + (iam_protocol \<times> iam_fact list)" where
  "parse_query_facts d query =
     res_bind (validate_percent_encoding query) (\<lambda>_. pairs_facts d (form_pairs d (str_bytes query)))"

definition json_str :: "json \<Rightarrow> string option" where
  "json_str v = (case v of JString s \<Rightarrow> Some s | _ \<Rightarrow> None)"

definition json_body_facts :: "iam_deps \<Rightarrow> json \<Rightarrow> iam_error + (iam_protocol \<times> iam_fact list)" where
  "json_body_facts d value =
     res_bind (flatten_json_facts d value [] 0 []) (\<lambda>facts.
       finalize_iam_facts d facts (Option.bind (json_get value ''id_token'') json_str)
         (case value of
            JObject members \<Rightarrow> Option.bind (find_pair is_saml_response_name members) json_str
          | _ \<Rightarrow> None))"

definition media_type_of :: "string option \<Rightarrow> string" where
  "media_type_of content_type =
     (case content_type of
        None \<Rightarrow> []
      | Some value \<Rightarrow> to_ascii_lowercase (trim (hd (split_on (CHR '';'') value))))"

definition parse_post_facts ::
  "iam_deps \<Rightarrow> string option \<Rightarrow> bytes \<Rightarrow> iam_error + (iam_protocol \<times> iam_fact list)" where
  "parse_post_facts d content_type body =
     (let media_type = media_type_of content_type
      in if media_type = ''application/x-www-form-urlencoded'' then
           res_bind (ok_or MalformedFormEncoding (str_from_utf8 body)) (\<lambda>raw.
           res_bind (validate_percent_encoding raw) (\<lambda>_. pairs_facts d (form_pairs d body)))
         else if media_type = ''application/json'' then
           res_bind (map_err (\<lambda>_. MalformedJson) (json_parse d body)) (json_body_facts d)
         else Inl UnsupportedContentType)"

end
