(* ===== verification/Domain_Runtime.thy ===== *)
theory Domain_Runtime
  imports Persistence Rust_Str
begin

text \<open>
  Which database the processes share (\<open>spider/src/features/domain_runtime.rs\<close>): an explicit
  path, then two environment variables, whose blank values count as unset.  The
  environment is the argument \<open>lookup\<close>, a path its string.
\<close>

definition DOMAIN_DATABASE_ENV :: string where "DOMAIN_DATABASE_ENV = ''SCORPION_DOMAIN_DB''"
definition LEGACY_RESEARCH_DATABASE_ENV :: string where
  "LEGACY_RESEARCH_DATABASE_ENV = ''RESEARCH_EVIDENCE_DB''"

definition nonempty :: "string \<Rightarrow> string option" where
  "nonempty v = (if trim v \<noteq> [] then Some v else None)"

definition resolve_domain_database_path ::
  "string option \<Rightarrow> (string \<Rightarrow> string option) \<Rightarrow> string + string" where
  "resolve_domain_database_path explicit lookup =
     (case explicit of
        Some (c # cs) \<Rightarrow> Inr (c # cs)
      | _ \<Rightarrow>
          (case Option.bind (lookup DOMAIN_DATABASE_ENV) nonempty of
             Some path \<Rightarrow> Inr path
           | None \<Rightarrow>
               (case Option.bind (lookup LEGACY_RESEARCH_DATABASE_ENV) nonempty of
                  Some path \<Rightarrow> Inr path
                | None \<Rightarrow>
                    Inl (''missing required domain database configuration: set '' @ DOMAIN_DATABASE_ENV
                         @ '' (preferred) or '' @ LEGACY_RESEARCH_DATABASE_ENV))))"

datatype domain_runtime_error = DomainNotConfigured string | RuntimePersistence persistence_error

fun domain_runtime_error_display :: "domain_runtime_error \<Rightarrow> string" where
  "domain_runtime_error_display (DomainNotConfigured m) = m"
| "domain_runtime_error_display (RuntimePersistence e) =
     ''opening shared domain store: '' @ persistence_error_display e"

text \<open>
  \<open>options path\<close> is what \<open>sqlx\<close> makes of the path.  The pauses between the attempts are not
  part of the result.
\<close>

definition open_shared_domain_store ::
  "(string \<Rightarrow> sqlx_error + unit) \<Rightarrow> string option \<Rightarrow> (string \<Rightarrow> string option)
    \<Rightarrow> (domain_runtime_error, unit) dact" where
  "open_shared_domain_store options explicit lookup =
     act_bind (act_lift (map_err DomainNotConfigured (resolve_domain_database_path explicit lookup)))
       (\<lambda>path s. case open_store (options path) s of
          (Inr _, _, s') \<Rightarrow> (Inr (), s')
        | (Inl e, _, s') \<Rightarrow> (Inl (RuntimePersistence e), s'))"

end
