(* ===== verification/Iam_Store.thy ===== *)
theory Iam_Store
  imports Iam_Saml Durable Domain_Runtime
begin

text \<open>
  The durable half of the callback inspector (\<open>scorpion_app/src/iam.rs\<close>): traces are created,
  callbacks recorded, traces read back.  Every request opens the shared store first.  An
  observation is appended at the revision after the recorded ones, again if another
  request was faster; then the trace is marked as received, and a mark that was lost is
  made up for by the next callback or reading.  \<open>elsewhere k\<close> is what other requests do to
  the store while the \<open>k\<close>-th attempt to append is between its reading and its writing.
\<close>

record iam_env =
  ie_deps :: iam_deps
  ie_options :: "string \<Rightarrow> sqlx_error + unit"
  ie_lookup :: "string \<Rightarrow> string option"
  ie_state_codec :: "iam_trace_state codec"
  ie_observation_codec :: "iam_callback_observation codec"
  ie_now :: system_time
  ie_fresh :: iam_trace_id

type_synonym interference = "nat \<Rightarrow> domain_persistence \<Rightarrow> domain_persistence"

definition alone :: interference where
  "alone = (\<lambda>_ s. s)"

definition iam_open_store :: "iam_env \<Rightarrow> (iam_error, unit) dact" where
  "iam_open_store env =
     act_map_err (\<lambda>e. case e of DomainNotConfigured _ \<Rightarrow> IamNotConfigured | RuntimePersistence _ \<Rightarrow> Unavailable)
       (open_shared_domain_store (ie_options env) None (ie_lookup env))"

definition map_persistence_error :: "persistence_error \<Rightarrow> iam_error" where
  "map_persistence_error e = PersistenceFailed"

definition serialize_state :: "iam_env \<Rightarrow> iam_trace_state \<Rightarrow> iam_error + bytes" where
  "serialize_state env st = map_err (\<lambda>_. Internal) (ser (ie_state_codec env) st)"

definition deserialize_state :: "iam_env \<Rightarrow> bytes \<Rightarrow> iam_error + iam_trace_state" where
  "deserialize_state env b = map_err (\<lambda>_. Internal) (de (ie_state_codec env) b)"

definition state_label :: "iam_trace_state \<Rightarrow> string" where
  "state_label st = (case st of AwaitingCallback \<Rightarrow> ''awaiting_callback'' | Received \<Rightarrow> ''received'')"

section \<open>Creating a trace\<close>

record create_trace_response =
  ct_trace_id :: string
  ct_callback_uri :: string
  ct_state :: string

definition create_trace :: "iam_env \<Rightarrow> (iam_error, create_trace_response) dact" where
  "create_trace env =
     act_bind (iam_open_store env) (\<lambda>_.
     let i = iam_trace_id_to_string (ie_fresh env) in
     act_bind (act_lift (serialize_state env AwaitingCallback)) (\<lambda>state_bytes.
     act_bind (act_map_err map_persistence_error (write_current i None state_bytes)) (\<lambda>_.
     let bind = (case ie_lookup env ''SCORPION_API_BIND'' of
                   Some b \<Rightarrow> b | None \<Rightarrow> ''127.0.0.1:8787'')
     in act_ok \<lparr>ct_trace_id = i,
                ct_callback_uri = ''http://'' @ bind @ ''/iam/callback/'' @ i,
                ct_state = state_label AwaitingCallback\<rparr>)))"

section \<open>Receiving a callback\<close>

text \<open>One attempt, and up to \<open>fuel\<close> further ones.\<close>

fun append_attempts ::
  "nat \<Rightarrow> nat \<Rightarrow> interference \<Rightarrow> string \<Rightarrow> bytes \<Rightarrow> system_time \<Rightarrow> (iam_error, nat) dact" where
  "append_attempts 0 k elsewhere key payload now = act_err PersistenceFailed"
| "append_attempts (Suc fuel) k elsewhere key payload now =
     act_bind (act_map_err map_persistence_error (read_history key)) (\<lambda>history s.
       let next_revision = length history + 1
       in case append_history key next_revision payload now (elsewhere k s) of
            (Inr _, s') \<Rightarrow> (Inr next_revision, s')
          | (Inl HistoryAlreadyExists, s') \<Rightarrow> append_attempts fuel (k + 1) elsewhere key payload now s'
          | (Inl other, s') \<Rightarrow> (Inl (map_persistence_error other), s'))"

definition append_observation ::
  "iam_env \<Rightarrow> interference \<Rightarrow> iam_trace_id \<Rightarrow> iam_callback_observation \<Rightarrow> (iam_error, nat) dact" where
  "append_observation env elsewhere i observation =
     act_bind (act_lift (map_err (\<lambda>_. Internal) (ser (ie_observation_codec env) observation))) (\<lambda>payload.
       append_attempts IAM_MAX_REVISION_RETRIES 0 elsewhere (iam_trace_id_to_string i) payload (ie_now env))"

text \<open>Best effort: every failure is discarded.\<close>

definition try_mark_received :: "iam_env \<Rightarrow> iam_trace_id \<Rightarrow> domain_persistence \<Rightarrow> domain_persistence" where
  "try_mark_received env i s =
     (case read_current (iam_trace_id_to_string i) s of
        (Inr (Some (current_revision, state_bytes)), s1) \<Rightarrow>
          (case deserialize_state env state_bytes of
             Inl _ \<Rightarrow> s1
           | Inr current_state \<Rightarrow>
               (case cs_apply receive_callback_transition (ie_now env) (cs_new i current_state) of
                  Inl _ \<Rightarrow> s1
                | Inr applied \<Rightarrow>
                    (case serialize_state env (cs_state (ap_current applied)) of
                       Inl _ \<Rightarrow> s1
                     | Inr new_bytes \<Rightarrow>
                         snd (write_current (iam_trace_id_to_string i) (Some current_revision) new_bytes s1))))
      | (_, s1) \<Rightarrow> s1)"

definition mark_received :: "iam_env \<Rightarrow> iam_trace_id \<Rightarrow> ('e, unit) dact" where
  "mark_received env i s = (Inr (), try_mark_received env i s)"

definition request_facts ::
  "iam_deps \<Rightarrow> string \<Rightarrow> string \<Rightarrow> string option \<Rightarrow> bytes \<Rightarrow> iam_error + (iam_protocol \<times> iam_fact list)" where
  "request_facts d http_method query content_type body =
     (if http_method = ''GET'' then parse_query_facts d query
      else if http_method = ''POST'' then parse_post_facts d content_type body
      else Inl UnsupportedContentType)"

definition receive_callback ::
  "iam_env \<Rightarrow> interference \<Rightarrow> string \<Rightarrow> string \<Rightarrow> string \<Rightarrow> string option \<Rightarrow> bytes \<Rightarrow> (iam_error, string) dact" where
  "receive_callback env elsewhere trace_id_raw http_method query content_type body =
     act_bind (act_lift (map_err (\<lambda>_. InvalidTraceId) (iam_trace_id_from_str (trim trace_id_raw)))) (\<lambda>i.
     act_bind (iam_open_store env) (\<lambda>_.
     act_bind (act_map_err map_persistence_error (read_current (iam_trace_id_to_string i))) (\<lambda>row.
     if row = None then act_err IamNotFound
     else
       act_bind (act_lift (request_facts (ie_deps env) http_method query content_type body)) (\<lambda>(protocol, facts).
       let observation = \<lparr>io_trace = i, io_method = http_method,
             io_target = ''/iam/callback/'' @ iam_trace_id_to_string i,
             io_observed_at_unix_ms = unix_ms (ie_now env), io_protocol = protocol, io_facts = facts\<rparr>
       in act_bind (append_observation env elsewhere i observation) (\<lambda>_.
          act_bind (mark_received env i) (\<lambda>_.
          act_ok (iam_trace_id_to_string i)))))))"

section \<open>Reading a trace back\<close>

record observation_view =
  ov_revision :: nat
  ov_recorded_at_unix_ms :: nat
  ov_observation :: iam_callback_observation

record trace_readback =
  tb_trace_id :: string
  tb_state :: string
  tb_observations :: "observation_view list"

fun view_observations ::
  "iam_env \<Rightarrow> (nat \<times> bytes \<times> system_time) list \<Rightarrow> iam_error + observation_view list" where
  "view_observations env [] = Inr []"
| "view_observations env ((revision, b, recorded_at) # rest) =
     res_bind (map_err (\<lambda>_. Internal) (de (ie_observation_codec env) b)) (\<lambda>observation.
     res_bind (view_observations env rest) (\<lambda>views.
       Inr (\<lparr>ov_revision = revision, ov_recorded_at_unix_ms = unix_ms recorded_at,
             ov_observation = observation\<rparr> # views)))"

definition repaired_state ::
  "iam_env \<Rightarrow> iam_trace_id \<Rightarrow> iam_trace_state \<Rightarrow> (nat \<times> bytes \<times> system_time) list
    \<Rightarrow> (iam_error, iam_trace_state) dact" where
  "repaired_state env i state history =
     (if state = AwaitingCallback \<and> history \<noteq> [] then
        act_bind (mark_received env i) (\<lambda>_.
        act_bind (act_map_err map_persistence_error (read_current (iam_trace_id_to_string i))) (\<lambda>row.
          case row of
            Some (_, refreshed_bytes) \<Rightarrow> act_lift (deserialize_state env refreshed_bytes)
          | None \<Rightarrow> act_ok state))
      else act_ok state)"

definition read_trace :: "iam_env \<Rightarrow> string \<Rightarrow> (iam_error, trace_readback) dact" where
  "read_trace env trace_id_raw =
     act_bind (act_lift (map_err (\<lambda>_. InvalidTraceId) (iam_trace_id_from_str (trim trace_id_raw)))) (\<lambda>i.
     act_bind (iam_open_store env) (\<lambda>_.
     act_bind (act_map_err map_persistence_error (read_current (iam_trace_id_to_string i))) (\<lambda>row.
     case row of
       None \<Rightarrow> act_err IamNotFound
     | Some (_, state_bytes) \<Rightarrow>
         act_bind (act_lift (deserialize_state env state_bytes)) (\<lambda>state.
         act_bind (act_map_err map_persistence_error (read_history (iam_trace_id_to_string i))) (\<lambda>history.
         act_bind (repaired_state env i state history) (\<lambda>state.
         act_bind (act_lift (view_observations env history)) (\<lambda>observations.
         act_ok \<lparr>tb_trace_id = iam_trace_id_to_string i, tb_state = state_label state,
                 tb_observations = observations\<rparr>)))))))"

section \<open>The answer page\<close>

definition callback_received_page :: "string \<Rightarrow> string" where
  "callback_received_page trace_id =
     ''<!doctype html><html lang=\"en\"><head><meta charset=\"utf-8\">''
     @ ''<title>Scorpion</title></head><body>''
     @ ''<p>Callback received by Scorpion.</p>''
     @ ''<p>Trace: '' @ trace_id @ ''</p>''
     @ ''<p>You may return to Scorpion.</p>''
     @ ''</body></html>''"

end
