(* ===== verification/Iam_Life.thy ===== *)
theory Iam_Life
  imports Iam_Store
begin

text \<open>
  The life of a trace: what its operations keep, alone and with other requests in between.
  A trace is created awaiting, its observations are numbered 1, 2, ... without a gap, and it
  is marked as received only when there is one.
\<close>

section \<open>Lemmas: the shared store\<close>

lemma open_loop_tables: "open_loop n slept s = (r, slept', s') \<Longrightarrow> tables s' = tables s"
proof (induction n slept s arbitrary: r slept' s' rule: open_loop.induct)
  case (1 n slept s)
  obtain x t where o: "open_with_options s = (x, t)" by fastforce
  then have t: "tables t = tables s" using frameD [OF frame_open] by blast
  show ?case
    using "1.prems" "1.IH" o t by (subst (asm) open_loop.simps) (auto split: sum.splits if_splits)
qed

lemma frame_open_shared [frame_intro]: "frame tables (open_shared_domain_store options explicit lookup)"
proof -
  have "frame tables (\<lambda>s. case open_store (options path) s of
          (Inr _, _, s') \<Rightarrow> (Inr (), s')
        | (Inl e, _, s') \<Rightarrow> (Inl (RuntimePersistence e), s'))" for path
    by (rule frameI) (auto simp: open_store_def split: sum.splits prod.splits dest: open_loop_tables)
  then show ?thesis unfolding open_shared_domain_store_def by (intro frame_intro)
qed

lemma frame_iam_open [frame_intro]: "frame tables (iam_open_store env)"
  unfolding iam_open_store_def by (intro frame_intro)

lemma open_with_options_healthy: "healthy s \<Longrightarrow> open_with_options s = (Inr (), s)"
  by (simp add: open_with_options_def act_bind_def)

lemma open_loop_healthy: "healthy s \<Longrightarrow> open_loop n slept s = (Inr (), slept, s)"
  by (subst open_loop.simps) (simp add: open_with_options_healthy)

lemma keeps_healthy_open [triple_intro]: "keeps healthy (iam_open_store env)"
  unfolding iam_open_store_def open_shared_domain_store_def
  by (intro triple_intro)
     (auto simp: keeps_def open_store_def open_loop_healthy split: sum.splits)

text \<open>A store that can be opened.\<close>

definition iam_configured :: "iam_env \<Rightarrow> bool" where
  "iam_configured env \<longleftrightarrow>
     (\<exists>path. resolve_domain_database_path None (ie_lookup env) = Inr path \<and> ie_options env path = Inr ())"

lemma iam_open_healthy: "iam_configured env \<Longrightarrow> healthy s \<Longrightarrow> iam_open_store env s = (Inr (), s)"
  by (auto simp: iam_configured_def iam_open_store_def open_shared_domain_store_def act_bind_lift
      act_map_err_apply open_store_def open_loop_healthy)

section \<open>Lemmas: appending an observation\<close>

lemma length_history: "length (history_of s k) = length (filter (\<lambda>r. hr_identity r = k) (history_rows s))"
  by (simp add: history_of_def)

lemma history_length_mono:
  "prefix (history_rows s) (history_rows s') \<Longrightarrow> length (history_of s k) \<le> length (history_of s' k)"
  by (auto simp: length_history prefix_def)

lemma append_attempts_keeps:
  assumes run: "append_attempts fuel j elsewhere key payload now s = (r, s')" and "I s"
    and reads: "\<And>s s'. tables s' = tables s \<Longrightarrow> (healthy s \<longrightarrow> healthy s') \<Longrightarrow> I s \<Longrightarrow> I s'"
    and others: "\<forall>j s. I s \<longrightarrow> I (elsewhere j s)"
    and grows: "\<forall>j s. prefix (history_rows s) (history_rows (elsewhere j s))"
    and append: "\<And>s n x s'. I s \<Longrightarrow> n \<le> length (history_of s key) \<Longrightarrow>
      append_history key (n + 1) payload now s = (x, s') \<Longrightarrow> I s'"
  shows "I s'"
  using run \<open>I s\<close>
proof (induction fuel arbitrary: j s)
  case (Suc fuel)
  obtain x t where rd: "read_history key s = (x, t)" by fastforce
  have t: "tables t = tables s" using frameD [OF frame_read_history rd] .
  have ht: "healthy s \<longrightarrow> healthy t" using rd by auto
  have It: "I t" using reads [OF t ht] Suc.prems by blast
  show ?case
  proof (cases x)
    case (Inl e)
    with Suc.prems rd It show ?thesis by (simp add: act_bind_def act_map_err_apply)
  next
    case (Inr h)
    then have h: "h = history_of s key" using read_history_Inr rd by blast
    let ?u = "elsewhere j t"
    have "length h \<le> length (history_of ?u key)"
      using h t grows history_length_mono [of t ?u key] history_of_tables [OF t, of key] by simp
    moreover obtain y v where ap: "append_history key (length h + 1) payload now ?u = (y, v)" by fastforce
    ultimately have Iv: "I v" using append [of ?u "length h" y v] others It by blast
    show ?thesis
      using Suc.prems rd Inr ap Iv Suc.IH
      by (auto simp: act_bind_def act_map_err_apply split: sum.splits persistence_error.splits)
  qed
qed simp

text \<open>
  Nobody else: the first attempt decides.  With others: an attempt whose revision was
  taken is followed by another one.
\<close>

lemma append_attempts_alone:
  assumes "healthy s" "map fst (history_of s key) = [1..<Suc (length (history_of s key))]" "0 < fuel"
  shows "\<exists>s'. append_attempts fuel j alone key payload now s = (Inr (length (history_of s key) + 1), s') \<and>
    append_history key (length (history_of s key) + 1) payload now s = (Inr (), s')"
proof -
  let ?n = "length (history_of s key) + 1"
  have "?n \<notin> fst ` set (history_of s key)" using assms(2) by (metis Suc_eq_plus1 atLeastLessThan_iff less_irrefl list.set_map set_upt)
  then have "(key, ?n) \<notin> set (map history_key (history_rows s))"
    by (auto simp: history_of_def history_key_def image_image)
  then have "\<exists>s'. append_history key ?n payload now s = (Inr (), s')"
    by (simp add: append_history_healthy [OF assms(1)])
  moreover obtain f where "fuel = Suc f" using assms(3) gr0_implies_Suc by blast
  ultimately show ?thesis
    using assms(1) by (auto simp: act_bind_def act_map_err_apply alone_def)
qed

text \<open>Nothing happened to the tables, and a healthy backend is still healthy.\<close>

definition quiet :: "domain_persistence \<Rightarrow> domain_persistence \<Rightarrow> bool" where
  "quiet s s' \<longleftrightarrow> tables s' = tables s \<and> (healthy s \<longrightarrow> healthy s')"

lemma quiet_refl [simp]: "quiet s s"
  by (simp add: quiet_def)

lemma quiet_trans: "quiet a b \<Longrightarrow> quiet b c \<Longrightarrow> quiet a c"
  by (simp add: quiet_def)

lemma quietI: "frame tables m \<Longrightarrow> keeps healthy m \<Longrightarrow> m s = (r, s') \<Longrightarrow> quiet s s'"
  using frameD [of tables m s r s'] keepsD [of healthy m s r s'] by (simp add: quiet_def)

lemma quiet_calls:
  "read_current k s = (a, s') \<Longrightarrow> quiet s s'"
  "read_history k s = (b, s') \<Longrightarrow> quiet s s'"
  "iam_open_store env s = (c, s') \<Longrightarrow> quiet s s'"
proof -
  have "keeps healthy (read_current k)" "keeps healthy (read_history k)" by (simp_all add: keeps_def)
  then show "read_current k s = (a, s') \<Longrightarrow> quiet s s'" "read_history k s = (b, s') \<Longrightarrow> quiet s s'"
    "iam_open_store env s = (c, s') \<Longrightarrow> quiet s s'"
    using quietI [OF frame_read_current, of k s a s'] quietI [OF frame_read_history, of k s b s']
      quietI [OF frame_iam_open keeps_healthy_open, of env s c s'] by blast+
qed

lemma append_history_healthy_stays: "healthy s \<Longrightarrow> append_history k r p t s = (x, s') \<Longrightarrow> healthy s'"
  by (auto simp: append_history_healthy split: if_splits)

lemma quiet_history: "quiet s s' \<Longrightarrow> history_of s' k = history_of s k"
  unfolding quiet_def by (blast intro: history_of_tables)

lemma quiet_row: "quiet s s' \<Longrightarrow> current_rows s' k = current_rows s k"
  by (simp add: quiet_def tables_def)

section \<open>The shape of the operations\<close>

lemma append_observation_cases:
  assumes "append_observation env elsewhere i observation s = (r, s')"
  obtains "s' = s" "\<exists>e. r = Inl e"
  | (attempts) payload where "ser (ie_observation_codec env) observation = Inr payload"
      "append_attempts IAM_MAX_REVISION_RETRIES 0 elsewhere (iam_trace_id_to_string i) payload (ie_now env) s = (r, s')"
  using assms by (cases "ser (ie_observation_codec env) observation")
    (auto simp: append_observation_def act_bind_lift)

lemma append_attempts_Inr:
  "append_attempts fuel j elsewhere key payload now s = (Inr n, s') \<Longrightarrow> history_of s' key \<noteq> []"
proof (induction fuel arbitrary: j s)
  case (Suc fuel)
  then obtain h t where rd: "read_history key s = (Inr h, t)"
    by (auto simp: act_bind_Inr_iff act_map_err_Inr_iff)
  obtain y v where ap: "append_history key (length h + 1) payload now (elsewhere j t) = (y, v)" by fastforce
  have run: "append_attempts (Suc fuel) j elsewhere key payload now s = (Inr n, s')" by (rule Suc.prems)
  show ?case
  proof (cases y)
    case (Inr u)
    then have "s' = v" using run rd ap by (simp add: act_bind_def act_map_err_apply)
    then show ?thesis using append_history_Inr(2) [OF ap [unfolded Inr]] by (simp add: history_of_Nil)
  next
    case (Inl e)
    then show ?thesis
      using run rd ap Suc.IH by (cases e) (simp_all add: act_bind_def act_map_err_apply)
  qed
qed simp

lemma receive_callback_transition_Inr [simp]:
  "receive_callback_transition st = Inr st' \<longleftrightarrow> st = AwaitingCallback \<and> st' = Received"
  by (cases st) auto

lemma try_mark_received_cases:
  obtains "quiet s (try_mark_received env i s)"
  | r p q where "current_rows s (iam_trace_id_to_string i) = Some (r, p)"
      "de (ie_state_codec env) p = Inr AwaitingCallback" "ser (ie_state_codec env) Received = Inr q"
      "current_rows (try_mark_received env i s) = (current_rows s)(iam_trace_id_to_string i \<mapsto> (r + 1, q))"
      "history_rows (try_mark_received env i s) = history_rows s"
proof -
  let ?k = "iam_trace_id_to_string i"
  obtain x s1 where rd: "read_current ?k s = (x, s1)" by fastforce
  have q1: "quiet s s1" using quiet_calls(1) [OF rd] .
  show thesis
  proof (cases "\<exists>r p q. x = Inr (Some (r, p)) \<and> de (ie_state_codec env) p = Inr AwaitingCallback \<and>
      ser (ie_state_codec env) Received = Inr q")
    case True
    then obtain r p q where x: "x = Inr (Some (r, p))" "de (ie_state_codec env) p = Inr AwaitingCallback"
      "ser (ie_state_codec env) Received = Inr q" by blast
    obtain y s2 where w: "write_current ?k (Some r) q s1 = (y, s2)" by fastforce
    have m: "try_mark_received env i s = s2"
      using rd x w by (simp add: try_mark_received_def deserialize_state_def serialize_state_def
          cs_apply_def cs_new_def)
    have row: "current_rows s ?k = Some (r, p)" using read_current_Inr rd x(1) by metis
    show thesis
    proof (cases y)
      case (Inl e)
      then have "tables s2 = tables s1" using write_current_Inl w by blast
      moreover have "healthy s1 \<longrightarrow> healthy s2" using w by (auto simp: write_current_healthy split: if_splits)
      ultimately have "quiet s s2" using q1 by (simp add: quiet_def)
      then show thesis using that(1) m by simp
    next
      case (Inr n)
      note w' = write_current_Inr [OF w [unfolded Inr]]
      have "current_rows s1 = current_rows s" "history_rows s1 = history_rows s"
        using q1 by (simp_all add: quiet_def tables_def)
      then show thesis using that(2) [OF row x(2,3)] m w' by (simp add: next_revision_def)
    qed
  next
    case False
    then have "try_mark_received env i s = s1"
      using rd unfolding try_mark_received_def deserialize_state_def serialize_state_def cs_apply_def cs_new_def
      by (auto split: sum.splits option.splits)
    then show thesis using that(1) q1 by simp
  qed
qed

text \<open>A callback reads, appends at most one observation to an existing trace, then marks it.\<close>

lemma receive_callback_cases:
  assumes "receive_callback env elsewhere raw http_method query content_type body s = (r, s')"
  obtains "quiet s s'" "\<exists>e. r = Inl e"
  | i s1 observation x s2 where "quiet s s1" "current_rows s1 (iam_trace_id_to_string i) \<noteq> None"
      "append_observation env elsewhere i observation s1 = (x, s2)"
      "(\<exists>e. x = Inl e \<and> r = Inl e) \<and> s' = s2 \<or>
       (\<exists>n. x = Inr n) \<and> r = Inr (iam_trace_id_to_string i) \<and> s' = try_mark_received env i s2"
proof -
  obtain i0 where i0: "iam_trace_id_from_str (trim raw) = i0" by blast
  show thesis
  proof (cases i0)
    case (Inl e)
    then show thesis using assms i0 that(1) by (auto simp: receive_callback_def act_bind_lift)
  next
    case (Inr i)
    let ?k = "iam_trace_id_to_string i"
    obtain o1 t1 where op: "iam_open_store env s = (o1, t1)" by fastforce
    obtain o2 t2 where rd: "read_current ?k t1 = (o2, t2)" by fastforce
    have q: "quiet s t1" "quiet s t2"
      using quiet_calls(3) [OF op] quiet_trans [OF quiet_calls(3) [OF op] quiet_calls(1) [OF rd]] by blast+
    show thesis
    proof (cases "\<exists>u row pf. o1 = Inr u \<and> o2 = Inr (Some row) \<and>
        request_facts (ie_deps env) http_method query content_type body = Inr pf")
      case True
      then obtain row protocol facts where t: "o1 = Inr ()" "o2 = Inr (Some row)"
        "request_facts (ie_deps env) http_method query content_type body = Inr (protocol, facts)"
        by (metis old.unit.exhaust surj_pair)
      obtain x s2 where ap: "append_observation env elsewhere i
          \<lparr>io_trace = i, io_method = http_method, io_target = ''/iam/callback/'' @ ?k,
            io_observed_at_unix_ms = unix_ms (ie_now env), io_protocol = protocol, io_facts = facts\<rparr> t2 = (x, s2)"
        by fastforce
      have "o2 = Inr (current_rows t1 ?k)" using read_current_Inr rd t(2) by metis
      then have "current_rows t2 ?k = Some row" using t(2) quiet_row [OF quiet_calls(1) [OF rd], of ?k] by simp
      then have row: "current_rows t2 ?k \<noteq> None" by simp
      show thesis
        by (rule that(2) [OF q(2) row ap])
           (use assms i0 Inr op rd t ap in \<open>auto simp: receive_callback_def act_bind_def act_map_err_apply
              mark_received_def split: sum.splits\<close>)
    next
      case False
      then have "(s' = t1 \<or> s' = t2) \<and> (\<exists>e. r = Inl e)"
        using assms i0 Inr op rd
        by (auto simp: receive_callback_def act_bind_def act_map_err_apply map_err_def split: sum.splits option.splits if_splits)
      then show thesis using that(1) q by blast
    qed
  qed
qed

text \<open>A reading changes the store only by making up for a lost mark.\<close>

lemma read_trace_cases:
  assumes "read_trace env raw s = (r, s')"
  obtains "quiet s s'"
  | i s1 where "quiet s s1" "history_of s1 (iam_trace_id_to_string i) \<noteq> []"
      "quiet (try_mark_received env i s1) s'"
proof -
  obtain i0 where i0: "iam_trace_id_from_str (trim raw) = i0" by blast
  show thesis
  proof (cases i0)
    case (Inl e)
    then show thesis using assms i0 that(1) by (auto simp: read_trace_def act_bind_lift)
  next
    case (Inr i)
    let ?k = "iam_trace_id_to_string i"
    obtain o1 t1 where op: "iam_open_store env s = (o1, t1)" by fastforce
    obtain o2 t2 where rd: "read_current ?k t1 = (o2, t2)" by fastforce
    obtain o3 t3 where hd: "read_history ?k t2 = (o3, t3)" by fastforce
    have q: "quiet s t1" "quiet s t2" "quiet s t3" "quiet t2 t3"
      using quiet_trans quiet_calls(3) [OF op] quiet_calls(1) [OF rd] quiet_calls(2) [OF hd] by blast+
    show thesis
    proof (cases "\<exists>u r0 p st h. o1 = Inr u \<and> o2 = Inr (Some (r0, p)) \<and> o3 = Inr h \<and>
        deserialize_state env p = Inr st \<and> st = AwaitingCallback \<and> h \<noteq> []")
      case True
      then obtain r0 p h where t: "o1 = Inr ()" "o2 = Inr (Some (r0, p))" "o3 = Inr h"
        "deserialize_state env p = Inr AwaitingCallback" "h \<noteq> []" by auto
      have "h = history_of t2 ?k" using read_history_Inr hd t(3) by blast
      then have h: "history_of t3 ?k \<noteq> []" using t(5) quiet_history [OF q(4), of ?k] by simp
      obtain o4 t4 where rr: "read_current ?k (try_mark_received env i t3) = (o4, t4)" by fastforce
      have "s' = t4"
        using assms i0 Inr op rd hd t rr
        by (auto simp: read_trace_def act_bind_def act_map_err_apply repaired_state_def mark_received_def
            map_err_def split: sum.splits option.splits)
      then show thesis using that(2) [OF q(3) h] quiet_calls(1) [OF rr] by blast
    next
      case False
      then have "s' = t1 \<or> s' = t2 \<or> s' = t3"
        using assms i0 Inr op rd hd
        by (auto simp: read_trace_def act_bind_def act_map_err_apply repaired_state_def map_err_def
            split: sum.splits option.splits if_splits)
      then show thesis using that(1) q by blast
    qed
  qed
qed

lemma try_mark_healthy: "healthy s \<Longrightarrow> healthy (try_mark_received env i s)"
  by (auto simp: try_mark_received_def write_current_healthy split: option.splits sum.splits)

section \<open>The invariant of a trace\<close>

fun trace_ok :: "iam_trace_state codec \<Rightarrow> (nat \<times> bytes) option \<Rightarrow> (nat \<times> bytes \<times> system_time) list \<Rightarrow> bool" where
  "trace_ok c None h \<longleftrightarrow> h = []"
| "trace_ok c (Some (r, p)) h \<longleftrightarrow>
     map fst h = [1..<Suc (length h)] \<and>
     (r = 1 \<and> de c p = Inr AwaitingCallback \<or> r = 2 \<and> de c p = Inr Received \<and> h \<noteq> [])"

definition trace_inv :: "iam_trace_state codec \<Rightarrow> iam_trace_id \<Rightarrow> domain_persistence \<Rightarrow> bool" where
  "trace_inv c i s \<longleftrightarrow>
     trace_ok c (current_rows s (iam_trace_id_to_string i)) (history_of s (iam_trace_id_to_string i))"

lemma trace_inv_same:
  "current_rows s' (iam_trace_id_to_string i) = current_rows s (iam_trace_id_to_string i) \<Longrightarrow>
    history_of s' (iam_trace_id_to_string i) = history_of s (iam_trace_id_to_string i) \<Longrightarrow>
    trace_inv c i s \<Longrightarrow> trace_inv c i s'"
  by (simp add: trace_inv_def)

lemma trace_inv_tables: "tables s' = tables s \<Longrightarrow> trace_inv c i s \<Longrightarrow> trace_inv c i s'"
  by (rule trace_inv_same) (auto intro: history_of_tables simp: tables_def)

lemma trace_inv_created:
  assumes "codec_ok c" "ser c AwaitingCallback = Inr p" "trace_inv c i s"
    and w: "write_current (iam_trace_id_to_string j) None p s = (x, s')"
  shows "trace_inv c i s'"
proof (cases x)
  case (Inl e)
  then show ?thesis using write_current_Inl w assms(3) trace_inv_tables by blast
next
  case (Inr r)
  note w' = write_current_Inr [OF w [unfolded Inr]]
  show ?thesis
    using assms(3) w' codec_okD [OF assms(1,2)] history_of_rows [OF w'(4)]
    by (cases "i = j") (auto simp: trace_inv_def next_revision_def)
qed

lemma trace_inv_append:
  assumes inv: "trace_inv c i s" and row: "current_rows s (iam_trace_id_to_string j) \<noteq> None"
    and n: "n \<le> length (history_of s (iam_trace_id_to_string j))"
    and ap: "append_history (iam_trace_id_to_string j) (n + 1) p t s = (x, s')"
  shows "trace_inv c i s'"
proof (cases x)
  case (Inl e)
  then show ?thesis using append_history_Inl ap inv trace_inv_tables by blast
next
  case (Inr u)
  note ap' = append_history_Inr [OF ap [unfolded Inr]]
  show ?thesis
  proof (cases "i = j")
    case False
    then show ?thesis using inv ap'(3) history_of_other [OF ap [unfolded Inr], of "iam_trace_id_to_string i"]
      by (simp add: trace_inv_def)
  next
    case True
    let ?k = "iam_trace_id_to_string i"
    let ?h = "history_of s ?k"
    obtain r q where row': "current_rows s ?k = Some (r, q)" using row True by auto
    then have seq: "map fst ?h = [1..<Suc (length ?h)]" using inv by (simp add: trace_inv_def)
    have "n + 1 \<notin> fst ` set ?h"
      using ap'(1) True by (force simp: history_of_def history_key_def)
    moreover have "fst ` set ?h = {1..<Suc (length ?h)}" using seq by (metis list.set_map set_upt)
    ultimately have len: "n = length ?h" using n True by auto
    have "fst y \<le> n + 1" if "y \<in> set ?h" for y
      using imageI [OF that, of fst] \<open>fst ` set ?h = _\<close> len by simp
    then have "history_of s' ?k = ?h @ [(n + 1, p, time_of_unix_ms (unix_ms t))]"
      using history_of_append [OF ap [unfolded Inr]] True by blast
    then show ?thesis
      using inv seq len row' ap'(3) by (auto simp: trace_inv_def)
  qed
qed

lemma trace_inv_marked:
  assumes "codec_ok (ie_state_codec env)" "trace_inv (ie_state_codec env) i s"
    and "history_of s (iam_trace_id_to_string j) \<noteq> []"
  shows "trace_inv (ie_state_codec env) i (try_mark_received env j s)"
proof (rule try_mark_received_cases [of s env j])
  assume "quiet s (try_mark_received env j s)"
  then show ?thesis using assms(2) trace_inv_tables by (auto simp: quiet_def)
next
  let ?s' = "try_mark_received env j s"
  fix r p q
  assume a: "current_rows s (iam_trace_id_to_string j) = Some (r, p)"
    "de (ie_state_codec env) p = Inr AwaitingCallback" "ser (ie_state_codec env) Received = Inr q"
    "current_rows ?s' = (current_rows s)(iam_trace_id_to_string j \<mapsto> (r + 1, q))"
    "history_rows ?s' = history_rows s"
  show ?thesis
    using assms a codec_okD [OF assms(1) a(3)] history_of_rows [OF a(5)]
    by (cases "i = j") (auto simp: trace_inv_def)
qed

section \<open>Appending among other requests\<close>

definition gap_free :: "string \<Rightarrow> domain_persistence \<Rightarrow> bool" where
  "gap_free k s \<longleftrightarrow> map fst (history_of s k) = [1..<Suc (length (history_of s k))]"

lemma gap_free_taken:
  assumes "gap_free k s"
  shows "(k, n) \<in> set (map history_key (history_rows s)) \<longleftrightarrow> 1 \<le> n \<and> n \<le> length (history_of s k)"
proof -
  have "(k, n) \<in> set (map history_key (history_rows s)) \<longleftrightarrow> n \<in> fst ` set (history_of s k)"
    by (force simp: history_of_def history_key_def)
  also have "fst ` set (history_of s k) = {1..<Suc (length (history_of s k))}"
    using assms unfolding gap_free_def by (metis list.set_map set_upt)
  finally show ?thesis by auto
qed

lemma append_next_healthy:
  assumes "healthy s" "gap_free k s" "append_history k (length (history_of s k) + 1) p t s = (x, s')"
  shows "x = Inr ()" "healthy s'"
    "history_of s' k = history_of s k @ [(length (history_of s k) + 1, p, time_of_unix_ms (unix_ms t))]"
proof -
  show x: "x = Inr ()" "healthy s'"
    using assms gap_free_taken [OF assms(2), of "length (history_of s k) + 1"]
    by (auto simp: append_history_healthy)
  have "fst ` set (history_of s k) = {1..<Suc (length (history_of s k))}"
    using assms(2) unfolding gap_free_def by (metis list.set_map set_upt)
  then have "\<forall>y \<in> set (history_of s k). fst y \<le> length (history_of s k) + 1"
    by (metis atLeastLessThan_iff imageI le_SucI less_Suc_eq_le Suc_eq_plus1)
  then show "history_of s' k = history_of s k @ [(length (history_of s k) + 1, p, time_of_unix_ms (unix_ms t))]"
    using history_of_append assms(3) x(1) by blast
qed

text \<open>
  An attempt whose revision was taken leaves the store as the others left it.  So as long as
  every attempt is overtaken, the store before an attempt is the one that the interference
  has made of the store before the previous attempt.
\<close>

primrec rounds :: "interference \<Rightarrow> nat \<Rightarrow> domain_persistence \<Rightarrow> nat \<Rightarrow> domain_persistence" where
  "rounds elsewhere j s 0 = s"
| "rounds elsewhere j s (Suc n) = elsewhere (j + n) (rounds elsewhere j s n)"

lemma rounds_shift: "rounds elsewhere (Suc j) (elsewhere j s) n = rounds elsewhere j s (Suc n)"
  by (induction n) simp_all

definition overtaken :: "string \<Rightarrow> interference \<Rightarrow> domain_persistence \<Rightarrow> nat \<Rightarrow> bool" where
  "overtaken key elsewhere s n \<longleftrightarrow>
     length (history_of (rounds elsewhere 0 s n) key) < length (history_of (rounds elsewhere 0 s (Suc n)) key)"

definition orderly :: "string \<Rightarrow> domain_persistence \<Rightarrow> bool" where
  "orderly key s \<longleftrightarrow> healthy s \<and> gap_free key s"

lemma append_attempt_step:
  assumes "orderly key s" "orderly key (elsewhere j s)"
    and "length (history_of s key) \<le> length (history_of (elsewhere j s) key)"
  shows "append_attempts (Suc fuel) j elsewhere key payload now s =
    (if length (history_of s key) < length (history_of (elsewhere j s) key)
     then append_attempts fuel (j + 1) elsewhere key payload now (elsewhere j s)
     else (Inr (length (history_of s key) + 1),
       snd (append_history key (length (history_of s key) + 1) payload now (elsewhere j s))))"
proof -
  let ?u = "elsewhere j s" and ?n = "length (history_of s key) + 1"
  have u: "healthy s" "healthy ?u" "gap_free key ?u" using assms by (simp_all add: orderly_def)
  show ?thesis
  proof (cases "length (history_of s key) < length (history_of ?u key)")
    case False
    then have len: "length (history_of ?u key) = length (history_of s key)" using assms(3) by simp
    obtain x v where ap: "append_history key ?n payload now ?u = (x, v)" by fastforce
    then have "x = Inr ()" using append_next_healthy(1) [OF u(2,3), of payload now x v] len by simp
    then show ?thesis using ap False u(1) by (simp add: act_bind_def act_map_err_apply)
  next
    case True
    then have "(key, ?n) \<in> set (map history_key (history_rows ?u))"
      using gap_free_taken [OF u(3)] by simp
    then have "append_history key ?n payload now ?u = (Inl HistoryAlreadyExists, ?u)"
      by (simp add: append_history_healthy [OF u(2)])
    then show ?thesis using True u(1) by (simp add: act_bind_def act_map_err_apply)
  qed
qed

lemma append_attempts_until:
  assumes "n < fuel" "\<forall>m \<le> Suc n. orderly key (rounds elsewhere j s m)"
    and "\<forall>m < n. length (history_of (rounds elsewhere j s m) key) < length (history_of (rounds elsewhere j s (Suc m)) key)"
    and "length (history_of (rounds elsewhere j s (Suc n)) key) = length (history_of (rounds elsewhere j s n) key)"
  shows "append_attempts fuel j elsewhere key payload now s =
    (let u = rounds elsewhere j s (Suc n); r = length (history_of u key) + 1
     in (Inr r, snd (append_history key r payload now u)))"
  using assms
proof (induction n arbitrary: fuel j s)
  case 0
  then obtain f where f: "fuel = Suc f" by (cases fuel) auto
  have o: "orderly key s" "orderly key (elsewhere j s)"
    using "0.prems"(2) [rule_format, of 0] "0.prems"(2) [rule_format, of 1] by simp_all
  show ?case unfolding f using append_attempt_step [of key s elsewhere j, OF o, of f payload now] "0.prems"(4) by (simp add: Let_def)
next
  case (Suc n)
  then obtain f where f: "fuel = Suc f" "n < f" by (cases fuel) auto
  have o: "orderly key s" "orderly key (elsewhere j s)"
    using Suc.prems(2) [rule_format, of 0] Suc.prems(2) [rule_format, of 1] by simp_all
  have less: "length (history_of s key) < length (history_of (elsewhere j s) key)"
    using Suc.prems(3) [rule_format, of 0] by simp
  note shift = rounds_shift [of elsewhere j s]
  have "append_attempts f (Suc j) elsewhere key payload now (elsewhere j s) =
      (let u = rounds elsewhere (Suc j) (elsewhere j s) (Suc n); r = length (history_of u key) + 1
       in (Inr r, snd (append_history key r payload now u)))"
    by (rule Suc.IH [OF f(2)]; unfold shift; use Suc.prems(2-4) in \<open>simp del: rounds.simps\<close>)
  then show ?case
    unfolding f(1) shift using append_attempt_step [of key s elsewhere j, OF o less_imp_le [OF less], of f payload now] less
    by (simp del: rounds.simps append_attempts.simps)
qed

lemma append_attempts_exhausted:
  assumes "\<forall>m \<le> fuel. orderly key (rounds elsewhere j s m)"
    and "\<forall>m < fuel. length (history_of (rounds elsewhere j s m) key) < length (history_of (rounds elsewhere j s (Suc m)) key)"
  shows "append_attempts fuel j elsewhere key payload now s = (Inl PersistenceFailed, rounds elsewhere j s fuel)"
  using assms
proof (induction fuel arbitrary: j s)
  case (Suc f)
  have o: "orderly key s" "orderly key (elsewhere j s)"
    using Suc.prems(1) [rule_format, of 0] Suc.prems(1) [rule_format, of 1] by simp_all
  have less: "length (history_of s key) < length (history_of (elsewhere j s) key)"
    using Suc.prems(2) [rule_format, of 0] by simp
  note shift = rounds_shift [of elsewhere j s]
  have "append_attempts f (Suc j) elsewhere key payload now (elsewhere j s) =
      (Inl PersistenceFailed, rounds elsewhere (Suc j) (elsewhere j s) f)"
    by (rule Suc.IH; unfold shift; use Suc.prems in \<open>simp del: rounds.simps\<close>)
  then show ?case
    unfolding shift using append_attempt_step [of key s elsewhere j, OF o less_imp_le [OF less], of f payload now] less
    by (simp del: rounds.simps append_attempts.simps)
qed simp

section \<open>Marking on a healthy backend\<close>

lemma try_mark_result:
  assumes "healthy s" "codec_ok (ie_state_codec env)" "trace_inv (ie_state_codec env) i s"
    and "current_rows s (iam_trace_id_to_string i) \<noteq> None" "ser (ie_state_codec env) Received = Inr q"
  shows "\<exists>p. current_rows (try_mark_received env i s) (iam_trace_id_to_string i) = Some (2, p) \<and>
      de (ie_state_codec env) p = Inr Received"
    "history_rows (try_mark_received env i s) = history_rows s"
proof -
  let ?k = "iam_trace_id_to_string i"
  obtain r p where row: "current_rows s ?k = Some (r, p)" using assms(4) by auto
  then consider "r = 1" "de (ie_state_codec env) p = Inr AwaitingCallback"
    | "r = 2" "de (ie_state_codec env) p = Inr Received"
    using assms(3) by (auto simp: trace_inv_def)
  then have "(\<exists>p. current_rows (try_mark_received env i s) ?k = Some (2, p) \<and> de (ie_state_codec env) p = Inr Received)
    \<and> history_rows (try_mark_received env i s) = history_rows s"
  proof cases
    case 1
    then show ?thesis
      using assms(1) row assms(5) codec_okD [OF assms(2,5)]
      by (simp add: try_mark_received_def deserialize_state_def serialize_state_def cs_apply_def cs_new_def
          write_current_healthy next_revision_def)
  next
    case 2
    then show ?thesis
      using assms(1) row
      by (simp add: try_mark_received_def deserialize_state_def cs_apply_def cs_new_def)
  qed
  then show "\<exists>p. current_rows (try_mark_received env i s) ?k = Some (2, p) \<and> de (ie_state_codec env) p = Inr Received"
    "history_rows (try_mark_received env i s) = history_rows s" by blast+
qed

lemma receive_callback_attempts:
  assumes "iam_configured env" "healthy s" "iam_trace_id_from_str (trim raw) = Inr i"
    and "current_rows s (iam_trace_id_to_string i) \<noteq> None"
    and "request_facts (ie_deps env) http_method query content_type body = Inr (protocol, facts)"
    and "ser (ie_observation_codec env) \<lparr>io_trace = i, io_method = http_method,
        io_target = ''/iam/callback/'' @ iam_trace_id_to_string i,
        io_observed_at_unix_ms = unix_ms (ie_now env), io_protocol = protocol, io_facts = facts\<rparr> = Inr payload"
  shows "receive_callback env elsewhere raw http_method query content_type body s =
    (case append_attempts IAM_MAX_REVISION_RETRIES 0 elsewhere (iam_trace_id_to_string i) payload (ie_now env) s of
       (Inl e, s1) \<Rightarrow> (Inl e, s1)
     | (Inr n, s1) \<Rightarrow> (Inr (iam_trace_id_to_string i), try_mark_received env i s1))"
  using assms(3-6) iam_open_healthy [OF assms(1,2)] assms(2)
  by (auto simp: receive_callback_def act_bind_def act_map_err_apply append_observation_def mark_received_def
      split: prod.splits sum.splits)

end
