(* ===== verification/Ledger.thy ===== *)
theory Ledger
  imports Watch_Health Auth_Session Research_Run Transform_Lineage Page_Audit Iam_Life
begin

text \<open>
  The durable ledger as a whole: one step is one call of a public operation of the watch,
  schedule, change, evidence, session, research, audit, lineage or callback component on
  the shared store, with whatever outcome and whatever backend faults.  The requests that
  come between the attempts of a callback are runs of the ledger themselves.  The file shows what every such step
  keeps, and therefore what holds after any sequence of calls: the history only grows,
  revisions only grow, a terminal state is final, and on a backend without faults each
  entity's history is gap-free and made of the domain's transitions.
\<close>

section \<open>Steps\<close>

inductive ledger_step ::
  "watch_state codec \<Rightarrow> auth_session_state codec \<Rightarrow> iam_trace_state codec \<Rightarrow>
    domain_persistence \<Rightarrow> domain_persistence \<Rightarrow> bool"
  for cs :: "watch_state codec" and ca :: "auth_session_state codec" and ci :: "iam_trace_state codec" where
  step_define_watch:
    "define_watch cd cs i now target s = (r1, s') \<Longrightarrow> ledger_step cs ca ci s s'"
| step_watch_transition:
    "apply_watch_transition cs i now t s = (r2, s') \<Longrightarrow> ledger_step cs ca ci s s'"
| step_define_schedule:
    "define_watch_schedule parse_cron csch now i cron s = (r3, s') \<Longrightarrow> ledger_step cs ca ci s s'"
| step_record_evidence:
    "record_evidence ce fresh now b s = (r4, s') \<Longrightarrow> ledger_step cs ca ci s s'"
| step_detect_change:
    "detect_and_record_change sha ce cs cc now i previous current s = (r5, s') \<Longrightarrow> ledger_step cs ca ci s s'"
| step_scheduled_run:
    "re_state_codec env = cs \<Longrightarrow> execute_scheduled_watch_run env i at req w = (r6, w') \<Longrightarrow>
      ledger_step cs ca ci (w_store w) (w_store w')"
| step_create_session:
    "create_session ca a org prof s = (r7, s') \<Longrightarrow> ledger_step cs ca ci s s'"
| step_session_transition:
    "apply_session_transition ca a now st s = (r8, s') \<Longrightarrow> ledger_step cs ca ci s s'"
| step_research_claim:
    "persist_claim renv session s = (r9, s') \<Longrightarrow> ledger_step cs ca ci s s'"
| step_research_terminal:
    "persist_terminal renv session rn s = (r10, s') \<Longrightarrow> ledger_step cs ca ci s s'"
| step_health:
    "assess_watch_health sha cd cs csch ce cc i s = (r11, s') \<Longrightarrow> ledger_step cs ca ci s s'"
| step_record_lineage:
    "record_lineage sha cl now b1 e d b2 s = (r12, s') \<Longrightarrow> ledger_step cs ca ci s s'"
| step_record_finding:
    "record_finding sha ce cf now f s = (r13, s') \<Longrightarrow> ledger_step cs ca ci s s'"
| step_audit_page:
    "audit_page aenv cf url s = (r14, s') \<Longrightarrow> ledger_step cs ca ci s s'"
| step_create_trace:
    "ie_state_codec ienv = ci \<Longrightarrow> create_trace ienv s = (r15, s') \<Longrightarrow> ledger_step cs ca ci s s'"
| step_receive_callback:
    "ie_state_codec ienv = ci \<Longrightarrow> (\<forall>k t. (ledger_step cs ca ci)\<^sup>*\<^sup>* t (elsewhere k t)) \<Longrightarrow>
      receive_callback ienv elsewhere raw http_method query content_type body s = (r16, s') \<Longrightarrow>
      ledger_step cs ca ci s s'"
| step_read_trace:
    "ie_state_codec ienv = ci \<Longrightarrow> read_trace ienv raw s = (r17, s') \<Longrightarrow> ledger_step cs ca ci s s'"

abbreviation ledger_run ::
  "watch_state codec \<Rightarrow> auth_session_state codec \<Rightarrow> iam_trace_state codec \<Rightarrow>
    domain_persistence \<Rightarrow> domain_persistence \<Rightarrow> bool" where
  "ledger_run cs ca ci \<equiv> (ledger_step cs ca ci)\<^sup>*\<^sup>*"

text \<open>
  An operation-independent reading of what the calls are made of: \<open>obeys P m\<close> says that the
  relation \<open>P\<close> holds between the store before and after \<open>m\<close>, whatever the outcome.
\<close>

definition obeys :: "('s \<Rightarrow> 's \<Rightarrow> bool) \<Rightarrow> ('s, 'e, 'a) act \<Rightarrow> bool" where
  "obeys P m \<longleftrightarrow> (\<forall>s. P s (snd (m s)))"

lemma obeysD: "obeys P m \<Longrightarrow> m s = (r, s') \<Longrightarrow> P s s'"
  unfolding obeys_def by (metis snd_conv)

lemma obeysI: "(\<And>s r s'. m s = (r, s') \<Longrightarrow> P s s') \<Longrightarrow> obeys P m"
  unfolding obeys_def by (metis surjective_pairing)

lemma obeys_via_keeps: "(\<And>s0. keeps (P s0) m) \<Longrightarrow> reflp P \<Longrightarrow> obeys P m"
  by (auto simp: obeys_def keeps_def reflp_def)

section \<open>What every call keeps\<close>

text \<open>
  \<open>grows s s'\<close>: well-formedness is kept, the history is extended at its end, and the row of
  every key is kept or replaced by one of a higher revision.
\<close>

definition store_ok :: "domain_persistence \<Rightarrow> bool" where
  "store_ok s \<longleftrightarrow> store_wf s \<and> (\<forall>k r p. current_rows s k = Some (r, p) \<longrightarrow> 0 < r)"

definition grows :: "domain_persistence \<Rightarrow> domain_persistence \<Rightarrow> bool" where
  "grows s s' \<longleftrightarrow> (store_ok s \<longrightarrow> store_ok s') \<and> prefix (history_rows s) (history_rows s') \<and>
     (\<forall>k. current_rows s' k = current_rows s k \<or> current.revision s k < current.revision s' k)"

lemma grows_refl: "grows s s"
  by (simp add: grows_def)

lemma revision_le: 
  "current_rows s' k = current_rows s k \<or> current.revision s k < current.revision s' k \<Longrightarrow>
    current.revision s k \<le> current.revision s' k"
  by (auto simp: current.revision_def)

lemma grows_trans: 
  assumes "grows a b" "grows b c" shows "grows a c"
proof -
  have "current_rows c k = current_rows a k \<or> current.revision a k < current.revision c k" for k
  proof -
    have ab: "current_rows b k = current_rows a k \<or> current.revision a k < current.revision b k"
      and bc: "current_rows c k = current_rows b k \<or> current.revision b k < current.revision c k"
      using assms by (simp_all add: grows_def)
    show ?thesis
    proof (cases "current_rows c k = current_rows b k")
      case True
      then show ?thesis using ab by (auto simp: current.revision_def)
    next
      case False
      then show ?thesis using bc revision_le [OF ab] by simp
    qed
  qed
  moreover have "prefix (history_rows a) (history_rows c)"
    using assms prefix_order.trans by (auto simp: grows_def)
  ultimately show ?thesis using assms by (simp add: grows_def)
qed

lemma grows_tables: "tables s' = tables s \<Longrightarrow> grows s s'"
  by (auto simp: grows_def tables_def store_ok_def store_wf_def hist_distinct_def hist_positive_def)

lemma grows_row_stays:
  assumes "grows s s'" "current_rows s k \<noteq> None" shows "current_rows s' k \<noteq> None"
proof
  assume none: "current_rows s' k = None"
  then have "current.revision s' k = 0" by (simp add: current.revision_def)
  moreover have "current_rows s' k = current_rows s k \<or> current.revision s k < current.revision s' k"
    using assms(1) by (simp add: grows_def)
  ultimately show False using none assms(2) by simp
qed

lemma keeps_grows_frame: "frame tables m \<Longrightarrow> keeps (grows s0) m"
  unfolding keeps_def frame_def using grows_tables grows_trans by metis

lemma keeps_grows_write [triple_intro]: "keeps (grows s0) (write_current k e st)"
proof -
  have "grows s s'" if w: "write_current k e st s = (x, s')" for s x s'
  proof (cases x)
    case (Inl err)
    with w show ?thesis using grows_tables write_current_Inl by blast
  next
    case (Inr r)
    note w' = write_current_Inr [OF w [unfolded Inr]]
    have "current.revision s k < current.revision s' k"
      by (rule current.write_revision(2) [OF w Inr])
    then show ?thesis
      using w' by (auto simp: grows_def store_ok_def store_wf_def hist_distinct_def hist_positive_def
          next_revision_def)
  qed
  then show ?thesis unfolding keeps_def by (metis grows_trans surjective_pairing)
qed

lemma keeps_grows_append [triple_intro]: "0 < r \<Longrightarrow> keeps (grows s0) (append_history k r st t)"
proof -
  assume r: "0 < r"
  have "grows s s'" if a: "append_history k r st t s = (x, s')" for s x s'
  proof (cases x)
    case (Inl err)
    with a show ?thesis using grows_tables append_history_Inl by blast
  next
    case (Inr u)
    note a' = append_history_Inr [OF a [unfolded Inr]]
    have "store_wf s \<Longrightarrow> store_wf s'" using keepsD [OF keeps_wf_append [OF r]] a by blast
    then show ?thesis using a' by (auto simp: grows_def store_ok_def)
  qed
  then show ?thesis unfolding keeps_def by (metis grows_trans surjective_pairing)
qed

lemma keeps_grows_record [triple_intro]: "keeps (grows s0) (write_record c perr serr k x now)"
  unfolding write_record_def by (intro triple_intro) simp

text \<open>A write that goes on with the new revision, which is positive.\<close>

lemma keeps_grows_write_then:
  assumes "\<And>r. 0 < r \<Longrightarrow> keeps (grows s0) (m r)"
  shows "keeps (grows s0) (act_bind (act_map_err f (write_current k e p)) m)"
proof -
  have "grows s0 s'" if "grows s0 s" "act_bind (act_map_err f (write_current k e p)) m s = (x, s')" for s x s'
  proof (cases "write_current k e p s")
    case (Pair y t)
    have t: "grows s0 t" using keepsD [OF keeps_grows_write that(1) Pair] .
    show ?thesis
    proof (cases y)
      case (Inl err)
      with that(2) Pair t show ?thesis by (simp add: act_bind_def act_map_err_def)
    next
      case (Inr r)
      then have "write_current k e p s = (Inr r, t)" using Pair by simp
      then have "r = next_revision e" by (rule write_current_Inr(2))
      then have "0 < r" by (simp add: next_revision_def)
      with that(2) Pair Inr t show ?thesis
        using keepsD [OF assms t] by (simp add: act_bind_def act_map_err_def)
    qed
  qed
  then show ?thesis unfolding keeps_def by (metis surjective_pairing)
qed

lemma apply_durable_grows:
  assumes "apply_durable c errs k i now tr s = (res, s')"
  shows "grows s s'"
proof -
  have rev: "current.revision s k < current.revision s' k"
    if "current_rows s k = Some (r, p)" "current_rows s' k = Some (r + 1, q)" for r p q
    using that by (simp add: current.revision_def)
  show ?thesis
  proof (cases res)
    case (Inl e)
    with assms have "apply_durable c errs k i now tr s = (Inl e, s')" by simp
    from apply_durable_Inl [OF this] consider "tables s' = tables s"
      | r p np where "current_rows s k = Some (r, p)"
        "current_rows s' = (current_rows s)(k \<mapsto> (r + 1, np))" "history_rows s' = history_rows s"
      by blast
    then show ?thesis
    proof cases
      case 2
      then show ?thesis
        using rev by (auto simp: grows_def store_ok_def store_wf_def hist_distinct_def hist_positive_def)
    qed (rule grows_tables)
  next
    case (Inr st')
    with assms have "apply_durable c errs k i now tr s = (Inr st', s')" by simp
    then show ?thesis
    proof (rule apply_durable_Inr)
      fix r p st np sp
      assume a: "current_rows s k = Some (r, p)"
        "current_rows s' = (current_rows s)(k \<mapsto> (r + 1, np))"
        "history_rows s' = history_rows s @
          [\<lparr>hr_identity = k, hr_revision = r, hr_state = sp, hr_recorded_ms = unix_ms now\<rparr>]"
      have "store_wf s'" if "store_ok s"
        by (rule keeps_wf_apply [OF _ _ assms]) (use that in \<open>auto simp: store_ok_def\<close>)
      then show ?thesis using a rev by (auto simp: grows_def store_ok_def)
    qed
  qed
qed

text \<open>An appended record keeps what an append keeps.\<close>

lemma keeps_grows_append_once [triple_intro]: "keeps (grows s0) (append_once perr k p t x)"
  by (intro keeps_append_once keeps_grows_append) simp

text \<open>The shape of a successful or failed detection: reads, then at most one appended record.\<close>

lemma detect_append_only:
  assumes "detect_and_record_change sha ce cs cc now w p c s = (r, s')"
  shows "tables s' = tables s \<or>
    (\<exists>s1 q ev x. tables s1 = tables s \<and> append_history (ceid_str (change_event_id sha ev)) 1 q now s1 = (x, s'))"
proof -
  have fr: "frame tables (act_map_err ChangeEvidence (resolve ce x))" for x
    by (intro frame_intro)
  show ?thesis
    using assms frameD [OF frame_ensure] frameD [OF fr]
    unfolding detect_and_record_change_def Let_def
    by (auto simp: act_bind_def ok_or_def map_err_def split: prod.splits sum.splits option.splits
        elim!: append_once_cases)
qed

section \<open>Growth of every call\<close>

lemma keeps_grows_apply [triple_intro]: "keeps (grows s0) (apply_durable c errs k i now tr)"
  unfolding keeps_def by (metis apply_durable_grows grows_trans surjective_pairing)

lemma keeps_grows_define_watch: "keeps (grows s0) (define_watch cd cs i now target)"
  unfolding define_watch_def Let_def by (intro triple_intro)

lemma keeps_grows_watch [triple_intro]: "keeps (grows s0) (apply_watch_transition cs i now t)"
  unfolding apply_watch_transition_def by (intro triple_intro)

lemma keeps_grows_schedule: "keeps (grows s0) (define_watch_schedule parse_cron csch now i cron)"
  unfolding define_watch_schedule_def Let_def by (intro triple_intro)

lemma keeps_grows_evidence [triple_intro]: "keeps (grows s0) (record_evidence ce fresh now b)"
  unfolding record_evidence_def Let_def by (intro triple_intro)

lemma keeps_grows_detect: "keeps (grows s0) (detect_and_record_change sha ce cs cc now w p c)"
proof -
  have "grows s s'" if "detect_and_record_change sha ce cs cc now w p c s = (r, s')" for s r s'
    using detect_append_only [OF that]
  proof (elim disjE exE conjE)
    fix s1 q ev x
    assume "tables s1 = tables s" and a: "append_history (ceid_str (change_event_id sha ev)) 1 q now s1 = (x, s')"
    then have "grows s s1" by (intro grows_tables)
    moreover have "keeps (grows s) (append_history (ceid_str (change_event_id sha ev)) 1 q now)"
      by (intro triple_intro) simp
    ultimately show ?thesis using a by (blast dest: keepsD)
  qed (rule grows_tables)
  then show ?thesis unfolding keeps_def by (metis grows_trans surjective_pairing)
qed

lemma keeps_grows_claim_run [triple_intro]: "keeps (grows s0) (claim_run env key)"
proof -
  have "grows s s'" if c: "claim_run env key s = (res, s')" for s res s'
  proof (cases "\<exists>r. res = Inr (Won r)")
    case True
    with c obtain r where "claim_run env key s = (Inr (Won r), s')" by blast
    then obtain p where "write_current key None p s = (Inr r, s')" by (rule claim_run_Won)
    then show ?thesis using keepsD [OF keeps_grows_write grows_refl] by blast
  qed (use claim_run_not_Won [OF c] grows_tables in blast)
  then show ?thesis unfolding keeps_def by (metis grows_trans surjective_pairing)
qed

lemma keeps_with_store: "keeps I m \<Longrightarrow> keeps (\<lambda>w. I (w_store w)) (with_store m)"
  by (auto simp: keeps_def with_store_def case_prod_beta)

lemma keeps_fetch [triple_intro]: "keeps (\<lambda>w. I (w_store w)) (fetch respond binding)"
  by (simp add: keeps_def fetch_def)

lemma keeps_claim [triple_intro]:
  "(\<And>r. keeps I (f r)) \<Longrightarrow> (\<And>e. keeps I (g e)) \<Longrightarrow>
    keeps I (case c of Won r \<Rightarrow> f r | Replay e \<Rightarrow> g e)"
  by (cases c) simp_all

text \<open>What the store operations of a scheduled run preserve, the run preserves.\<close>

lemma keeps_scheduled_run:
  assumes "keeps I (read_watch_schedule (re_sched_codec env) i)"
    and "keeps I (read_watch_definition (re_def_codec env) i)"
    and "keeps I (claim_run env (run_key i at))"
    and "\<And>b. keeps I (record_evidence (re_bundle_codec env) (re_fresh env) (re_now env) b)"
    and "\<And>t. keeps I (apply_watch_transition (re_state_codec env) i (re_now env) t)"
    and "\<And>r p. keeps I (write_current (run_key i at) (Some r) p)"
  shows "keeps (\<lambda>w. I (w_store w)) (execute_scheduled_watch_run env i at req)"
  unfolding execute_scheduled_watch_run_def execute_claimed_def Let_def
  by (intro triple_intro keeps_with_store assms)

lemma keeps_grows_run: "keeps (\<lambda>w. grows s0 (w_store w)) (execute_scheduled_watch_run env i at req)"
  by (intro keeps_scheduled_run keeps_grows_frame [OF frame_read_watch_schedule]
      keeps_grows_frame [OF frame_read_watch_definition] triple_intro)

lemma keeps_grows_session:
  "keeps (grows s0) (create_session ca a org prof)" "keeps (grows s0) (apply_session_transition ca a now t)"
  unfolding create_session_def apply_session_transition_def Let_def by (intro triple_intro)+

lemma keeps_grows_research:
  "keeps (grows s0) (persist_claim renv session)" "keeps (grows s0) (persist_terminal renv session r)"
  unfolding persist_claim_def persist_terminal_def
  by (intro keeps_bind keeps_lift keeps_grows_write_then keeps_map_err keeps_grows_append keeps_ok; assumption)+

lemma keeps_grows_lineage: "keeps (grows s0) (record_lineage sha cl now b1 e d b2)"
  unfolding record_lineage_def Let_def by (intro triple_intro)

lemma keeps_grows_finding [triple_intro]: "keeps (grows s0) (record_finding sha ce cf now f)"
  unfolding record_finding_def by (intro triple_intro keeps_grows_frame [OF frame_resolve_all])

lemma keeps_record_findings:
  assumes "\<And>f. keeps I (record_finding sha ce cf now f)"
  shows "keeps I (record_findings sha ce cf now fs)"
proof (induction fs)
  case (Cons f fs)
  then show ?case by (auto intro!: triple_intro assms)
qed (simp add: keeps_def)

lemma keeps_audit_page:
  assumes "\<And>b. keeps I (record_evidence (au_bundle_codec env) (au_fresh env) (au_now env) b)"
    and "\<And>f. keeps I (record_finding (sha256_hex (au_deps env)) (au_bundle_codec env) cf (au_now env) f)"
  shows "keeps I (audit_page env cf url)"
  unfolding audit_page_def record_page_facts_def Let_def
  by (intro triple_intro assms keeps_record_findings)

lemma keeps_grows_audit: "keeps (grows s0) (audit_page env cf url)"
  by (intro keeps_audit_page triple_intro)

lemma grows_quiet: "quiet s s' \<Longrightarrow> grows s s'"
  by (simp add: quiet_def grows_tables)

lemma keeps_grows_create_trace: "keeps (grows s0) (create_trace env)"
  unfolding create_trace_def Let_def
  by (intro triple_intro keeps_grows_frame [OF frame_iam_open])

lemma try_mark_grows: "grows s (try_mark_received env i s)"
proof (rule try_mark_received_cases [of s env i])
  let ?s' = "try_mark_received env i s"
  fix r p q assume a: "current_rows s (iam_trace_id_to_string i) = Some (r, p)"
    "current_rows ?s' = (current_rows s)(iam_trace_id_to_string i \<mapsto> (r + 1, q))"
    "history_rows ?s' = history_rows s"
  then show "grows s ?s'"
    by (auto simp: grows_def store_ok_def store_wf_def hist_distinct_def hist_positive_def current.revision_def)
qed (rule grows_quiet)

lemma append_observation_grows:
  assumes "append_observation env elsewhere i ob s = (r, s')" and "\<forall>k t. grows t (elsewhere k t)"
  shows "grows s s'"
  using assms(1)
proof (rule append_observation_cases)
  fix payload
  assume run: "append_attempts IAM_MAX_REVISION_RETRIES 0 elsewhere (iam_trace_id_to_string i) payload (ie_now env) s = (r, s')"
  show "grows s s'"
  proof (rule append_attempts_keeps [OF run, where I = "grows s"])
    show "grows s s" by (rule grows_refl)
    show "\<And>t t'. tables t' = tables t \<Longrightarrow> healthy t \<longrightarrow> healthy t' \<Longrightarrow> grows s t \<Longrightarrow> grows s t'"
      using grows_tables grows_trans by blast
    show "\<forall>j t. grows s t \<longrightarrow> grows s (elsewhere j t)" using assms(2) grows_trans by blast
    show "\<forall>j t. prefix (history_rows t) (history_rows (elsewhere j t))" using assms(2) by (simp add: grows_def)
    show "grows s t'" if "grows s t" "append_history (iam_trace_id_to_string i) (n + 1) payload (ie_now env) t = (x, t')"
      for t n x t'
      using keepsD [OF keeps_grows_append that] by simp
  qed
qed (simp add: grows_refl)

lemma receive_callback_grows:
  assumes "receive_callback env elsewhere raw http_method query content_type body s = (r, s')"
    and "\<forall>k t. grows t (elsewhere k t)"
  shows "grows s s'"
  using assms(1)
proof (rule receive_callback_cases)
  fix i s1 ob x s2
  assume q: "quiet s s1" and ap: "append_observation env elsewhere i ob s1 = (x, s2)"
    and "(\<exists>e. x = Inl e \<and> r = Inl e) \<and> s' = s2 \<or>
      (\<exists>n. x = Inr n) \<and> r = Inr (iam_trace_id_to_string i) \<and> s' = try_mark_received env i s2"
  moreover have "grows s s2" using grows_trans [OF grows_quiet [OF q] append_observation_grows [OF ap assms(2)]] .
  ultimately show ?thesis using grows_trans try_mark_grows by blast
qed (rule grows_quiet)

lemma read_trace_grows: "read_trace env raw s = (r, s') \<Longrightarrow> grows s s'"
  by (erule read_trace_cases) (blast intro: grows_quiet grows_trans try_mark_grows)+

lemma rtranclp_grows: "(\<lambda>s t. R s t \<and> grows s t)\<^sup>*\<^sup>* s t \<Longrightarrow> grows s t"
  by (induction rule: rtranclp_induct) (blast intro: grows_refl grows_trans)+

lemma ledger_step_grows: "ledger_step cs ca ci s s' \<Longrightarrow> grows s s'"
proof (induction rule: ledger_step.induct)
  case (step_scheduled_run env i at req w r6 w')
  then show ?case using keepsD [OF keeps_grows_run [of "w_store w"]] grows_refl by blast
next
  case (step_receive_callback ienv elsewhere raw http_method query content_type body s r16 s')
  then show ?case using receive_callback_grows rtranclp_grows by blast
next
  case (step_read_trace ienv raw s r17 s')
  then show ?case using read_trace_grows by blast
next
  case (step_record_lineage sha cl now b1 e d b2 s r12 s')
  then show ?case using keepsD [OF keeps_grows_lineage grows_refl] by blast
next
  case (step_record_finding sha ce cf now f s r13 s')
  then show ?case using keepsD [OF keeps_grows_finding grows_refl] by blast
next
  case (step_audit_page aenv cf url s r14 s')
  then show ?case using keepsD [OF keeps_grows_audit grows_refl] by blast
next
  case (step_create_trace ienv s r15 s')
  then show ?case using keepsD [OF keeps_grows_create_trace grows_refl] by blast
qed (use grows_refl in \<open>blast dest: keepsD [OF keeps_grows_define_watch] keepsD [OF keeps_grows_watch]
    keepsD [OF keeps_grows_schedule] keepsD [OF keeps_grows_evidence] keepsD [OF keeps_grows_detect]
    keepsD [OF keeps_grows_session(1)] keepsD [OF keeps_grows_session(2)]
    keepsD [OF keeps_grows_research(1)] keepsD [OF keeps_grows_research(2)]
    keepsD [OF keeps_grows_frame [OF frame_assess_watch_health]]\<close>)+

lemma ledger_run_grows: "ledger_run cs ca ci s s' \<Longrightarrow> grows s s'"
  by (induction rule: rtranclp_induct) (blast intro: grows_refl grows_trans ledger_step_grows)+

section \<open>The rows of watches, sessions and traces\<close>

text \<open>
  How the current row of one entity may change: it is created, or a transition of the
  domain replaces it by the next revision.
\<close>

inductive row_edge ::
  "'st codec \<Rightarrow> ('st \<Rightarrow> 'r + 'st) set \<Rightarrow> (nat \<times> bytes) option \<Rightarrow> (nat \<times> bytes) option \<Rightarrow> bool"
  for c :: "'st codec" and T :: "('st \<Rightarrow> 'r + 'st) set" where
  row_created: "row_edge c T None (Some x)"
| row_moved: "de c p = Inr st \<Longrightarrow> t \<in> T \<Longrightarrow> t st = Inr st' \<Longrightarrow> ser c st' = Inr q \<Longrightarrow>
    row_edge c T (Some (r, p)) (Some (r + 1, q))"

inductive_cases row_edge_SomeE: "row_edge c T (Some x) y"

abbreviation row_path ::
  "'st codec \<Rightarrow> ('st \<Rightarrow> 'r + 'st) set \<Rightarrow> (nat \<times> bytes) option \<Rightarrow> (nat \<times> bytes) option \<Rightarrow> bool" where
  "row_path c T \<equiv> (row_edge c T)\<^sup>*\<^sup>*"

lemma row_path_final:
  assumes "row_path c T (Some (r, p)) y" "de c p = Inr st" "\<And>t. t \<in> T \<Longrightarrow> \<exists>rej. t st = Inl rej"
  shows "y = Some (r, p)"
  using assms(1)
proof (induction rule: rtranclp_induct)
  case (step y z)
  from step(2) [unfolded step(3)] show ?case
  proof (rule row_edge_SomeE)
    fix p' st1 t st' q r'
    assume "(r, p) = (r', p')" "de c p' = Inr st1" "t \<in> T" "t st1 = Inr st'"
    then show ?thesis using assms(2,3) by force
  qed
qed simp

lemma row_path_owner:
  assumes path: "row_path c T (Some (r, p)) y" and "de c p = Inr st" "codec_ok c"
    and kept: "\<And>t st st'. t \<in> T \<Longrightarrow> t st = Inr st' \<Longrightarrow> f st' = f st"
  shows "\<exists>r' p' st'. y = Some (r', p') \<and> de c p' = Inr st' \<and> f st' = f st"
  using path
proof (induction rule: rtranclp_induct)
  case base
  then show ?case using assms(2) by blast
next
  case (step y z)
  then obtain r1 p1 st1 where y: "y = Some (r1, p1)" "de c p1 = Inr st1" "f st1 = f st" by blast
  from step(2) [unfolded y(1)] show ?case
  proof (rule row_edge_SomeE)
    fix p' st2 t st' q r'
    assume a: "z = Some (Suc r', q)" "(r1, p1) = (r', p')" "de c p' = Inr st2" "t \<in> T"
      "t st2 = Inr st'" "ser c st' = Inr q"
    then have "f st' = f st" using y kept [OF a(4,5)] by simp
    then show ?thesis using a codec_okD [OF assms(3) a(6)] by blast
  qed
qed

lemma apply_durable_row:
  assumes "apply_durable c errs k i now tr s = (res, s')" "tr \<in> T"
  shows "row_path c T (current_rows s k) (current_rows s' k)"
    "k' \<noteq> k \<Longrightarrow> current_rows s' k' = current_rows s k' \<and> history_of s' k' = history_of s k'"
proof -
  have "row_path c T (current_rows s k) (current_rows s' k) \<and>
     (k' \<noteq> k \<longrightarrow> current_rows s' k' = current_rows s k' \<and> history_of s' k' = history_of s k')"
  proof (cases res)
    case (Inl e)
    with assms(1) have "apply_durable c errs k i now tr s = (Inl e, s')" by simp
    from apply_durable_Inl [OF this] consider "tables s' = tables s"
      | r p st st' np where "current_rows s k = Some (r, p)" "de c p = Inr st" "tr st = Inr st'"
        "ser c st' = Inr np" "current_rows s' = (current_rows s)(k \<mapsto> (r + 1, np))"
        "history_rows s' = history_rows s"
      by blast
    then show ?thesis
    proof cases
      case 2
      then show ?thesis
        using row_moved [OF 2(2) assms(2) 2(3,4)] by (auto simp: history_of_def)
    qed (auto simp: tables_def history_of_def)
  next
    case (Inr st')
    with assms(1) have "apply_durable c errs k i now tr s = (Inr st', s')" by simp
    then show ?thesis
    proof (rule apply_durable_Inr)
      fix r p st np sp
      assume a: "current_rows s k = Some (r, p)" "de c p = Inr st" "tr st = Inr st'" "ser c st' = Inr np"
        "current_rows s' = (current_rows s)(k \<mapsto> (r + 1, np))"
        "\<And>k'. k' \<noteq> k \<Longrightarrow> history_of s' k' = history_of s k'"
      then show ?thesis using row_moved [OF a(2) assms(2) a(3,4)] by auto
    qed
  qed
  then show "row_path c T (current_rows s k) (current_rows s' k)"
    "k' \<noteq> k \<Longrightarrow> current_rows s' k' = current_rows s k' \<and> history_of s' k' = history_of s k'" by blast+
qed

text \<open>The rows of the entities, and the keys that are not theirs.\<close>

definition plain_key :: "string \<Rightarrow> bool" where
  "plain_key k \<longleftrightarrow> k \<notin> range watch_id_to_string \<and> k \<notin> range auth_session_id_to_string \<and>
     k \<notin> range iam_trace_id_to_string"

definition entity_view ::
  "domain_persistence \<Rightarrow> string \<Rightarrow> (nat \<times> bytes) option \<times> (nat \<times> bytes \<times> system_time) list" where
  "entity_view s k = (if plain_key k then (None, []) else (current_rows s k, history_of s k))"

lemma entity_viewI:
  "(\<And>k. \<not> plain_key k \<Longrightarrow> current_rows s' k = current_rows s k \<and> history_of s' k = history_of s k)
    \<Longrightarrow> entity_view s' = entity_view s"
  by (rule ext) (simp add: entity_view_def)

lemma entity_viewD:
  "entity_view s' = entity_view s \<Longrightarrow> \<not> plain_key k \<Longrightarrow>
    current_rows s' k = current_rows s k \<and> history_of s' k = history_of s k"
  by (drule fun_cong [of _ _ k]) (simp add: entity_view_def)

lemma entity_keys [simp]:
  "\<not> plain_key (watch_id_to_string i)" "\<not> plain_key (auth_session_id_to_string a)"
  "\<not> plain_key (iam_trace_id_to_string t)"
  by (simp_all add: plain_key_def)

lemma first_chars:
  "hd (watch_id_to_string w) = CHR ''w''" "hd (auth_session_id_to_string a) = CHR ''a''"
  "hd (iam_trace_id_to_string t) = CHR ''i''" "hd (evidence_id_to_string e) = CHR ''e''"
  "hd (research_id_to_string r) = CHR ''r''" "hd (ceid_str (change_event_id sha ev)) = CHR ''c''"
  "hd (tlid_str (lineage_id sha l)) = CHR ''l''" "hd (fid_str (finding_id_of sha f)) = CHR ''f''"
  by (cases w; cases a; cases t; cases e; cases r; simp add: format_id_def prefix_defs change_event_id_def
      derive_change_id_def CHANGE_PREFIX_def lineage_id_def derive_lineage_id_def LINEAGE_PREFIX_def
      finding_id_of_def FINDING_PREFIX_def Let_def)+

lemma plain_by_first_char: "hd k \<notin> set ''wai'' \<Longrightarrow> plain_key k"
  by (auto simp: plain_key_def first_chars)

lemma trace_keys_apart [simp]:
  "iam_trace_id_to_string t \<noteq> watch_id_to_string w" "watch_id_to_string w \<noteq> iam_trace_id_to_string t"
  "iam_trace_id_to_string t \<noteq> auth_session_id_to_string a" "auth_session_id_to_string a \<noteq> iam_trace_id_to_string t"
  using first_chars(1) [of w] first_chars(2) [of a] first_chars(3) [of t] by auto

lemma plain_keys [simp]:
  "plain_key (evidence_id_to_string e)" "plain_key (research_id_to_string r)"
  "plain_key (definition_key i)" "plain_key (schedule_key i)" "plain_key (run_key i t)"
  "plain_key (ceid_str (change_event_id sha ev))" "plain_key (tlid_str (lineage_id sha l))"
  "plain_key (fid_str (finding_id_of sha f))"
proof -
  have "plain_key k" if "CHR ''#'' \<in> set k" for k
    using that hash_notin_ids(3-5) unfolding plain_key_def by blast
  then show "plain_key (definition_key i)" "plain_key (schedule_key i)" "plain_key (run_key i t)"
    using hash_in_keys by blast+
qed (rule plain_by_first_char; simp add: first_chars del: evidence_id_to_string.simps research_id_to_string.simps)+

section \<open>A backend without faults stays one\<close>

lemma keeps_healthy_call [triple_intro]: "keeps healthy backend_call"
  by (simp add: keeps_def)

lemma keeps_healthy_result [triple_intro]: "keeps I (\<lambda>s. (f s, s))"
  by (simp add: keeps_def)

lemma keeps_healthy_read [triple_intro]:
  "keeps healthy (read_current k)" "keeps healthy (read_history k)"
  by (simp_all add: keeps_def)

lemma keeps_healthy_write [triple_intro]: "keeps healthy (write_current k e p)"
  by (simp add: keeps_def write_current_healthy)

lemma keeps_healthy_append [triple_intro]: "keeps healthy (append_history k r p t)"
  by (simp add: keeps_def append_history_healthy)

lemma keeps_healthy_append_once [triple_intro]: "keeps healthy (append_once perr k p t x)"
  by (intro keeps_append_once keeps_healthy_append)

lemma keeps_healthy_records [triple_intro]:
  "keeps healthy (read_first_record c perr serr k)" "keeps healthy (write_record c perr serr k x now)"
  "keeps healthy (read_current_as c perr serr k)"
  unfolding read_first_record_def write_record_def read_current_as_def by (intro triple_intro)+

lemma keeps_healthy_apply [triple_intro]: "keeps healthy (apply_durable c errs k i now tr)"
  unfolding apply_durable_def by (intro triple_intro)

lemma keeps_healthy_ops [triple_intro]:
  "keeps healthy (read_evidence ce e)" "keeps healthy (resolve ce ref)"
  "keeps healthy (record_evidence ce fresh now b)" "keeps healthy (read_current_watch_state cs i)"
  "keeps healthy (apply_watch_transition cs i now t)" "keeps healthy (read_watch_definition cd i)"
  "keeps healthy (read_watch_schedule csch i)" "keeps healthy (read_change_event cc ev)"
  "keeps healthy (watch_evidence_refs cs i)"
  unfolding read_evidence_def resolve_def record_evidence_def read_current_watch_state_def Let_def
    apply_watch_transition_def read_watch_definition_def read_watch_schedule_def read_change_event_def
    watch_evidence_refs_def
  by (intro triple_intro)+

lemma keeps_healthy_detect: "keeps healthy (detect_and_record_change sha ce cs cc now i p c)"
  unfolding detect_and_record_change_def ensure_evidence_belongs_to_watch_def Let_def
  by (intro triple_intro)

lemma keeps_healthy_claim [triple_intro]: "keeps healthy (claim_run env key)"
proof -
  have lost: "keeps healthy (lost_claim env key)"
    unfolding lost_claim_def by (intro triple_intro)
  have "healthy (snd (claim_run env key s))" if "healthy s" for s
    using lost that
    by (cases "ser (re_run_codec env) Claimed")
      (auto simp: claim_run_def act_bind_lift write_current_healthy keeps_def)
  then show ?thesis by (simp add: keeps_def)
qed

lemma keeps_healthy_health: "keeps healthy (assess_watch_health sha cd cs csch ce cc i)"
proof -
  have hist: "keeps healthy (all_historical_resolve ce es)" for es
    by (induction es) (auto intro!: triple_intro simp: resolves_def)
  show ?thesis
    unfolding assess_watch_health_def assess_scheduling_def ordered_watch_evidence_def
      assess_evidence_def resolves_def assess_change_detection_def Let_def
    by (intro triple_intro hist)
qed

lemma keeps_healthy_record_finding [triple_intro]: "keeps healthy (record_finding sha ce cf now f)"
proof -
  have "keeps healthy (resolve_all ce es)" for es
    by (induction es) (auto intro!: triple_intro)
  then show ?thesis unfolding record_finding_def by (intro triple_intro)
qed

section \<open>What the entity operations keep, every step keeps\<close>

text \<open>\<open>same_entities\<close>: no watch, session or trace row or history was touched.\<close>

definition same_entities :: "domain_persistence \<Rightarrow> domain_persistence \<Rightarrow> bool" where
  "same_entities s s' \<longleftrightarrow> entity_view s' = entity_view s \<and> (healthy s \<longrightarrow> healthy s')"

lemma entity_view_tables: "tables s' = tables s \<Longrightarrow> entity_view s' = entity_view s"
  by (rule entity_viewI) (simp add: tables_def history_of_def)

lemma frame_view_tables: "frame tables m \<Longrightarrow> frame entity_view m"
  unfolding frame_def by (intro allI entity_view_tables) blast

lemma frame_viewI: "(\<And>s r s'. m s = (r, s') \<Longrightarrow> v s' = v s) \<Longrightarrow> frame v m"
  unfolding frame_def by (metis surjective_pairing)

lemma frame_view_write: "plain_key k \<Longrightarrow> frame entity_view (write_current k e p)"
proof (rule frame_viewI)
  fix s x s' assume k: "plain_key k" and w: "write_current k e p s = (x, s')"
  show "entity_view s' = entity_view s"
  proof (cases x)
    case (Inl err)
    with w show ?thesis using entity_view_tables write_current_Inl by blast
  next
    case (Inr r)
    note w' = write_current_Inr [OF w [unfolded Inr]]
    show ?thesis
      by (rule entity_viewI) (use k w'(3) history_of_rows [OF w'(4)] in auto)
  qed
qed

lemma frame_view_append: "plain_key k \<Longrightarrow> frame entity_view (append_history k r p t)"
proof (rule frame_viewI)
  fix s x s' assume k: "plain_key k" and a: "append_history k r p t s = (x, s')"
  show "entity_view s' = entity_view s"
  proof (cases x)
    case (Inl err)
    with a show ?thesis using entity_view_tables append_history_Inl by blast
  next
    case (Inr u)
    show ?thesis
    proof (rule entity_viewI)
      fix k' assume "\<not> plain_key k'"
      with k have "k' \<noteq> k" by blast
      then show "current_rows s' k' = current_rows s k' \<and> history_of s' k' = history_of s k'"
        using history_of_other [OF a [unfolded Inr]] append_history_Inr(3) [OF a [unfolded Inr]] by simp
    qed
  qed
qed

lemma frame_view_record: "plain_key k \<Longrightarrow> frame entity_view (write_record c perr serr k x now)"
  unfolding write_record_def by (intro frame_intro frame_view_append)

lemma quiet_same_entities: "quiet s s' \<Longrightarrow> same_entities s s'"
  unfolding quiet_def same_entities_def by (blast intro: entity_view_tables)

lemma same_entitiesI: "frame entity_view m \<Longrightarrow> keeps healthy m \<Longrightarrow> m s = (r, s') \<Longrightarrow> same_entities s s'"
  unfolding same_entities_def using frameD [of entity_view m s r s'] keepsD [of healthy m s r s'] by blast

text \<open>
  The contract: a property of the store that only the rows of watches, sessions and traces
  (and the health of the backend) decide, and that creating an entity and applying a
  transition to it preserve; for a trace also appending the next observation, or an
  earlier one.
\<close>

locale entity_property =
  fixes cs :: "watch_state codec" and ca :: "auth_session_state codec" and ci :: "iam_trace_state codec"
    and I :: "domain_persistence \<Rightarrow> bool"
  assumes quiet: "same_entities s s' \<Longrightarrow> I s \<Longrightarrow> I s'"
    and watch_created: "ser cs (WatchActive None) = Inr p \<Longrightarrow>
      keeps I (write_current (watch_id_to_string i) None p)"
    and session_created: "ser ca (SessActive org prof) = Inr p \<Longrightarrow>
      keeps I (write_current (auth_session_id_to_string a) None p)"
    and watch_moved: "keeps I (apply_watch_transition cs i now t)"
    and session_moved: "keeps I (apply_session_transition ca a now st)"
    and trace_created: "ser ci AwaitingCallback = Inr p \<Longrightarrow>
      keeps I (write_current (iam_trace_id_to_string j) None p)"
    and trace_observed: "I s \<Longrightarrow> current_rows s (iam_trace_id_to_string j) \<noteq> None \<Longrightarrow>
      n \<le> length (history_of s (iam_trace_id_to_string j)) \<Longrightarrow>
      append_history (iam_trace_id_to_string j) (n + 1) payload now s = (x, s') \<Longrightarrow> I s'"
    and trace_marked: "ie_state_codec env = ci \<Longrightarrow> history_of s (iam_trace_id_to_string j) \<noteq> [] \<Longrightarrow>
      I s \<Longrightarrow> I (try_mark_received env j s)"
begin

lemma quiet_act: "frame entity_view m \<Longrightarrow> keeps healthy m \<Longrightarrow> keeps I m"
  using quiet same_entitiesI unfolding keeps_def by (metis surjective_pairing)

lemma keeps_reads: "frame tables m \<Longrightarrow> keeps healthy m \<Longrightarrow> keeps I m"
  by (intro quiet_act frame_view_tables)

lemma keeps_plain:
  "plain_key k \<Longrightarrow> keeps I (write_current k e p)"
  "plain_key k \<Longrightarrow> keeps I (append_history k r p t)"
  "plain_key k \<Longrightarrow> keeps I (write_record c perr serr k x now)"
  by (intro quiet_act frame_view_write frame_view_append frame_view_record triple_intro; assumption)+

lemma keeps_define_watch: "keeps I (define_watch cd cs i now target)"
  unfolding define_watch_def Let_def
  by (intro keeps_bind_lift keeps_bind keeps_map_err keeps_plain plain_keys keeps_ok watch_created)
     (auto split: sum.splits)

lemma keeps_define_schedule: "keeps I (define_watch_schedule parse_cron csch now i cron)"
  unfolding define_watch_schedule_def Let_def by (intro triple_intro keeps_plain plain_keys)

lemma keeps_record_evidence: "keeps I (record_evidence ce fresh now b)"
  unfolding record_evidence_def Let_def by (intro triple_intro keeps_plain plain_keys)

lemma keeps_detect: "keeps I (detect_and_record_change sha ce cs' cc now i p c)"
proof (rule quiet_act [OF frame_viewI keeps_healthy_detect])
  fix s r s' assume "detect_and_record_change sha ce cs' cc now i p c s = (r, s')"
  from detect_append_only [OF this] show "entity_view s' = entity_view s"
  proof (elim disjE exE conjE)
    fix s1 q ev x
    assume "tables s1 = tables s" and a: "append_history (ceid_str (change_event_id sha ev)) 1 q now s1 = (x, s')"
    then show ?thesis
      using entity_view_tables frameD [OF frame_view_append [OF plain_keys(6)] a] by metis
  qed (rule entity_view_tables)
qed

lemma keeps_claim_run: "keeps I (claim_run env (run_key i at))"
proof (rule quiet_act [OF frame_viewI keeps_healthy_claim])
  fix s res s' assume c: "claim_run env (run_key i at) s = (res, s')"
  show "entity_view s' = entity_view s"
  proof (cases "\<exists>r. res = Inr (Won r)")
    case True
    with c obtain r where "claim_run env (run_key i at) s = (Inr (Won r), s')" by blast
    then obtain p where "write_current (run_key i at) None p s = (Inr r, s')" by (rule claim_run_Won)
    then show ?thesis using frameD [OF frame_view_write [OF plain_keys(5)]] by blast
  qed (use claim_run_not_Won [OF c] entity_view_tables in blast)
qed

lemma keeps_run:
  "re_state_codec env = cs \<Longrightarrow> keeps (\<lambda>w. I (w_store w)) (execute_scheduled_watch_run env i at req)"
  by (intro keeps_scheduled_run keeps_reads [OF frame_read_watch_schedule]
      keeps_reads [OF frame_read_watch_definition] keeps_claim_run keeps_record_evidence
      keeps_plain(1) plain_keys keeps_healthy_ops) (simp add: watch_moved)

lemma keeps_session_records:
  "keeps I (persist_claim renv session)" "keeps I (persist_terminal renv session r)"
  unfolding persist_claim_def persist_terminal_def
  by (intro triple_intro keeps_plain plain_keys)+

lemma keeps_create_session: "keeps I (create_session ca a org prof)"
  unfolding create_session_def Let_def
  by (intro keeps_bind_lift keeps_bind keeps_map_err keeps_ok session_created) (auto split: sum.splits)

lemma keeps_append_plain: "plain_key k \<Longrightarrow> keeps I (append_once perr k p now x)"
  by (intro keeps_append_once keeps_plain)

lemma keeps_lineage: "keeps I (record_lineage sha cl now b1 e d b2)"
  unfolding record_lineage_def Let_def by (intro triple_intro keeps_append_plain plain_keys)

lemma keeps_finding: "keeps I (record_finding sha ce cf now f)"
proof -
  have "frame entity_view (record_finding sha ce cf now f)"
    unfolding record_finding_def
    by (intro frame_intro frame_view_tables [OF frame_resolve_all] frame_append_once frame_view_append plain_keys)
  then show ?thesis by (intro quiet_act triple_intro)
qed

lemma keeps_audit: "keeps I (audit_page env cf url)"
  by (intro keeps_audit_page keeps_record_evidence keeps_finding)

lemma keeps_create_trace: "ie_state_codec env = ci \<Longrightarrow> keeps I (create_trace env)"
  unfolding create_trace_def Let_def serialize_state_def
  by (intro keeps_bind_lift keeps_bind keeps_map_err keeps_ok keeps_reads [OF frame_iam_open keeps_healthy_open]
      trace_created) (auto split: sum.splits)

lemma quiet_keeps: "quiet s s' \<Longrightarrow> I s \<Longrightarrow> I s'"
  using quiet quiet_same_entities by blast

lemma observation:
  assumes run: "append_observation env elsewhere i ob s = (r, s')" and "I s"
    and row: "current_rows s (iam_trace_id_to_string i) \<noteq> None"
    and others: "\<forall>k t. I t \<longrightarrow> I (elsewhere k t)" "\<forall>k t. grows t (elsewhere k t)"
  shows "I s'" "r = Inr n \<Longrightarrow> history_of s' (iam_trace_id_to_string i) \<noteq> []"
proof -
  let ?k = "iam_trace_id_to_string i"
  let ?J = "\<lambda>s. I s \<and> current_rows s ?k \<noteq> None"
  have stays: "current_rows (elsewhere k t) ?k \<noteq> None" if "current_rows t ?k \<noteq> None" for k t
    using others(2) that grows_row_stays by blast
  from run have "I s' \<and> (r = Inr n \<longrightarrow> history_of s' ?k \<noteq> [])"
  proof (rule append_observation_cases)
    fix payload
    assume at: "append_attempts IAM_MAX_REVISION_RETRIES 0 elsewhere ?k payload (ie_now env) s = (r, s')"
    have "?J s'"
    proof (rule append_attempts_keeps [OF at, where I = ?J])
      show "?J s" using assms by simp
      show "\<And>t t'. tables t' = tables t \<Longrightarrow> healthy t \<longrightarrow> healthy t' \<Longrightarrow> ?J t \<Longrightarrow> ?J t'"
        using quiet_keeps by (auto simp: quiet_def tables_def)
      show "\<forall>j t. ?J t \<longrightarrow> ?J (elsewhere j t)" using others(1) stays by blast
      show "\<forall>j t. prefix (history_rows t) (history_rows (elsewhere j t))" using others(2) by (simp add: grows_def)
      show "?J t'" if J: "?J t" and n: "m \<le> length (history_of t ?k)"
        and ap: "append_history ?k (m + 1) payload (ie_now env) t = (x, t')" for t m x t'
      proof -
        have "current_rows t' = current_rows t"
          using append_history_Inr(3) append_history_Inl ap by (cases x) (auto simp: tables_def)
        then show ?thesis using J trace_observed [OF _ _ n ap] by auto
      qed
    qed
    then show ?thesis using append_attempts_Inr at by auto
  qed (use assms(2) in auto)
  then show "I s'" "r = Inr n \<Longrightarrow> history_of s' ?k \<noteq> []" by blast+
qed

lemma callback:
  assumes "receive_callback env elsewhere raw http_method query content_type body s = (r, s')" and "I s"
    and "ie_state_codec env = ci"
    and others: "\<forall>k t. I t \<longrightarrow> I (elsewhere k t)" "\<forall>k t. grows t (elsewhere k t)"
  shows "I s'"
  using assms(1)
proof (rule receive_callback_cases)
  fix i s1 ob x s2
  assume q: "quiet s s1" and row: "current_rows s1 (iam_trace_id_to_string i) \<noteq> None"
    and ap: "append_observation env elsewhere i ob s1 = (x, s2)"
    and res: "(\<exists>e. x = Inl e \<and> r = Inl e) \<and> s' = s2 \<or>
      (\<exists>n. x = Inr n) \<and> r = Inr (iam_trace_id_to_string i) \<and> s' = try_mark_received env i s2"
  note ob = observation [OF ap quiet_keeps [OF q assms(2)] row others]
  from res show ?thesis
  proof (elim disjE conjE exE)
    fix n assume "x = Inr n" "s' = try_mark_received env i s2"
    then show ?thesis using trace_marked [OF assms(3)] ob by blast
  qed (use ob in simp)
qed (use quiet_keeps assms(2) in blast)

lemma reading:
  assumes "read_trace env raw s = (r, s')" and "I s" and "ie_state_codec env = ci"
  shows "I s'"
  using assms(1) by (rule read_trace_cases) (use quiet_keeps trace_marked assms(2,3) in blast)+

lemma run_keeps: "(\<lambda>s t. R s t \<and> (I s \<longrightarrow> I t))\<^sup>*\<^sup>* s t \<Longrightarrow> I s \<Longrightarrow> I t"
  by (induction rule: rtranclp_induct) blast+

lemma step: "ledger_step cs ca ci s s' \<Longrightarrow> I s \<Longrightarrow> I s'"
proof (induction rule: ledger_step.induct)
  case (step_receive_callback ienv elsewhere raw http_method query content_type body s r16 s')
  have "\<forall>k t. (ledger_step cs ca ci)\<^sup>*\<^sup>* t (elsewhere k t)"
  proof (intro allI)
    fix k t
    have "(\<lambda>s t. ledger_step cs ca ci s t \<and> (I s \<longrightarrow> I t))\<^sup>*\<^sup>* t (elsewhere k t)"
      using step_receive_callback.IH by blast
    then show "(ledger_step cs ca ci)\<^sup>*\<^sup>* t (elsewhere k t)"
      by (rule mono_rtranclp [rule_format, rotated]) blast
  qed
  then have "\<forall>k t. grows t (elsewhere k t)" using ledger_run_grows by blast
  moreover have "\<forall>k t. I t \<longrightarrow> I (elsewhere k t)" using step_receive_callback.IH run_keeps by blast
  ultimately show ?case using callback step_receive_callback.hyps step_receive_callback.prems by blast
next
  case (step_read_trace ienv raw s r17 s')
  then show ?case using reading by blast
next
  case (step_record_lineage sha cl now b1 e d b2 s r12 s')
  then show ?case using keepsD [OF keeps_lineage] by blast
next
  case (step_record_finding sha ce cf now f s r13 s')
  then show ?case using keepsD [OF keeps_finding] by blast
next
  case (step_audit_page aenv cf url s r14 s')
  then show ?case using keepsD [OF keeps_audit] by blast
next
  case (step_create_trace ienv s r15 s')
  then show ?case using keepsD [OF keeps_create_trace] by blast
next
  case (step_scheduled_run env i at req w r6 w')
  then show ?case using keepsD [OF keeps_run] by blast
next
  case (step_health sha cd csch ce cc i s r11 s')
  then show ?case using keepsD [OF keeps_reads [OF frame_assess_watch_health keeps_healthy_health]] by blast
qed (blast dest: keepsD [OF keeps_define_watch] keepsD [OF watch_moved] keepsD [OF keeps_define_schedule]
    keepsD [OF keeps_record_evidence] keepsD [OF keeps_detect] keepsD [OF keeps_create_session]
    keepsD [OF session_moved] keepsD [OF keeps_session_records(1)] keepsD [OF keeps_session_records(2)])+

lemma run: "ledger_run cs ca ci s s' \<Longrightarrow> I s \<Longrightarrow> I s'"
  by (induction rule: rtranclp_induct) (auto intro: step)

end

section \<open>Every row follows the transitions of its domain\<close>

definition paths ::
  "watch_state codec \<Rightarrow> auth_session_state codec \<Rightarrow> domain_persistence \<Rightarrow> domain_persistence \<Rightarrow> bool" where
  "paths cs ca s s' \<longleftrightarrow>
     (\<forall>i. row_path cs (range watch_step) (current_rows s (watch_id_to_string i))
        (current_rows s' (watch_id_to_string i))) \<and>
     (\<forall>a. row_path ca (range session_step) (current_rows s (auth_session_id_to_string a))
        (current_rows s' (auth_session_id_to_string a)))"

lemma paths_refl: "paths cs ca s s"
  by (simp add: paths_def)

lemma paths_trans: "paths cs ca a b \<Longrightarrow> paths cs ca b c \<Longrightarrow> paths cs ca a c"
  unfolding paths_def by (meson rtranclp_trans)

lemma created_row:
  assumes "write_current k None p s = (x, s')"
  shows "row_path c T (current_rows s k') (current_rows s' k')"
proof (cases x)
  case (Inl err)
  with assms have "current_rows s' = current_rows s" by (auto simp: tables_def dest: write_current_Inl)
  then show ?thesis by simp
next
  case (Inr r)
  note w = write_current_Inr [OF assms [unfolded Inr]]
  show ?thesis
  proof (cases "k' = k")
    case True
    then show ?thesis using w row_created [of c T "(r, p)"] by auto
  qed (simp add: w(3))
qed

lemma created_paths: "write_current k None p s = (x, s') \<Longrightarrow> paths cs ca s s'"
  unfolding paths_def by (intro conjI allI created_row)

lemma try_mark_other:
  assumes "k \<noteq> iam_trace_id_to_string i"
  shows "current_rows (try_mark_received env i s) k = current_rows s k \<and>
    history_of (try_mark_received env i s) k = history_of s k"
proof (rule try_mark_received_cases [of s env i])
  assume "quiet s (try_mark_received env i s)"
  then show ?thesis using quiet_row quiet_history by blast
next
  fix r p q assume a: "current_rows (try_mark_received env i s) = (current_rows s)(iam_trace_id_to_string i \<mapsto> (r + 1, q))"
    "history_rows (try_mark_received env i s) = history_rows s"
  have "history_of (try_mark_received env i s) k = history_of s k" using a(2) by (rule history_of_rows)
  then show ?thesis using assms a(1) by simp
qed

interpretation paths: entity_property cs ca ci "paths cs ca s0" for cs ca ci s0
proof
  fix s s' assume "same_entities s s'" "paths cs ca s0 s"
  then show "paths cs ca s0 s'"
    using entity_viewD [OF _ entity_keys(1)] entity_viewD [OF _ entity_keys(2)]
    unfolding paths_def same_entities_def by metis
next
  fix p i
  show "keeps (paths cs ca s0) (write_current (watch_id_to_string i) None p)"
    unfolding keeps_def by (metis created_paths paths_trans surjective_pairing)
next
  fix org prof p a
  show "keeps (paths cs ca s0) (write_current (auth_session_id_to_string a) None p)"
    unfolding keeps_def by (metis created_paths paths_trans surjective_pairing)
next
  fix i now t
  have "paths cs ca s s'" if a: "apply_watch_transition cs i now t s = (x, s')" for s x s'
  proof -
    note row = apply_durable_row [OF a [unfolded apply_watch_transition_def], of "range watch_step"]
    have "row_path cs (range watch_step) (current_rows s (watch_id_to_string j))
        (current_rows s' (watch_id_to_string j))" for j
      using row(1) row(2) [of "watch_id_to_string j"] by (cases "j = i") auto
    moreover have "current_rows s' (auth_session_id_to_string b) = current_rows s (auth_session_id_to_string b)" for b
      using row(2) [of "auth_session_id_to_string b"] by simp
    ultimately show ?thesis by (simp add: paths_def)
  qed
  then show "keeps (paths cs ca s0) (apply_watch_transition cs i now t)"
    unfolding keeps_def by (metis paths_trans surjective_pairing)
next
  fix a now st
  have "paths cs ca s s'" if ap: "apply_session_transition ca a now st s = (x, s')" for s x s'
  proof -
    note row = apply_durable_row [OF ap [unfolded apply_session_transition_def], of "range session_step"]
    have "row_path ca (range session_step) (current_rows s (auth_session_id_to_string b))
        (current_rows s' (auth_session_id_to_string b))" for b
      using row(1) row(2) [of "auth_session_id_to_string b"] by (cases "b = a") auto
    moreover have "current_rows s' (watch_id_to_string j) = current_rows s (watch_id_to_string j)" for j
      using row(2) [of "watch_id_to_string j"] by simp
    ultimately show ?thesis by (simp add: paths_def)
  qed
  then show "keeps (paths cs ca s0) (apply_session_transition ca a now st)"
    unfolding keeps_def by (metis paths_trans surjective_pairing)
next
  fix p j
  show "keeps (paths cs ca s0) (write_current (iam_trace_id_to_string j) None p)"
    unfolding keeps_def by (metis created_paths paths_trans surjective_pairing)
next
  fix s j n payload now s' and x :: "persistence_error + unit"
  assume p: "paths cs ca s0 s" and ap: "append_history (iam_trace_id_to_string j) (n + 1) payload now s = (x, s')"
  have "current_rows s' = current_rows s"
    using append_history_Inr(3) append_history_Inl ap by (cases x) (auto simp: tables_def)
  then show "paths cs ca s0 s'" using p by (simp add: paths_def)
next
  fix env s j assume "paths cs ca s0 s"
  then show "paths cs ca s0 (try_mark_received env j s)" by (simp add: paths_def try_mark_other)
qed

section \<open>Without backend faults every history is complete\<close>

definition complete_ledger ::
  "watch_state codec \<Rightarrow> auth_session_state codec \<Rightarrow> domain_persistence \<Rightarrow> bool" where
  "complete_ledger cs ca s \<longleftrightarrow>
     healthy s \<and> (\<forall>i. watch_inv cs i s) \<and> (\<forall>a. session_inv ca a s)"

definition faithful :: "'a codec \<Rightarrow> bool" where
  "faithful c \<longleftrightarrow> codec_ok c \<and> codec_total c"

lemma entity_inv_any_outcome:
  assumes "faithful c" "healthy s" "entity_inv c T k s" "tr \<in> T"
    and ap: "apply_durable c errs k i now tr s = (res, s')"
  shows "entity_inv c T k s'"
proof (cases res)
  case (Inr st')
  with assms show ?thesis using entity_inv_applied by (auto simp: faithful_def)
next
  case (Inl e)
  with ap have "apply_durable c errs k i now tr s = (Inl e, s')" by simp
  from apply_durable_Inl [OF this] consider "tables s' = tables s"
    | r p st st' where "current_rows s k = Some (r, p)" "de c p = Inr st" "tr st = Inr st'" by blast
  then show ?thesis
  proof cases
    case 1
    then show ?thesis using assms(3) by (auto intro: entity_inv_other simp: tables_def history_of_def)
  next
    case 2
    have "map fst (history_of s k) = [1..<r]" using assms(3) 2(1) by (simp add: entity_inv_def)
    then have "r \<notin> fst ` set (history_of s k)" by (metis atLeastLessThan_iff less_irrefl list.set_map set_upt)
    then have "(k, r) \<notin> set (map history_key (history_rows s))"
      by (auto simp: history_of_def history_key_def image_image)
    moreover have "\<exists>b. ser c x = Inr b" for x using assms(1) by (simp add: faithful_def codec_total_def)
    ultimately have "fst (apply_durable c errs k i now tr s) = Inr st'"
      using apply_durable_healthy [OF assms(2) 2(1,2), where errs = errs and i = i and now = now and tr = tr]
        2(3) by simp
    with ap Inl show ?thesis by simp
  qed
qed

lemma entity_inv_created_any:
  assumes "faithful c" "entity_inv c T k s" "ser c st = Inr p" "write_current k None p s = (x, s')"
  shows "entity_inv c T k s'"
proof (cases x)
  case (Inl err)
  with assms(4) have "tables s' = tables s" using write_current_Inl by blast
  then show ?thesis using assms(2) by (auto intro: entity_inv_other simp: tables_def history_of_def)
next
  case (Inr r)
  with assms show ?thesis using entity_inv_created by (auto simp: faithful_def)
qed

lemma write_current_other:
  assumes "write_current k e p s = (x, s')" "k' \<noteq> k"
  shows "current_rows s' k' = current_rows s k' \<and> history_of s' k' = history_of s k'"
proof (cases x)
  case (Inl err)
  with assms(1) have "tables s' = tables s" using write_current_Inl by blast
  then show ?thesis by (simp add: tables_def history_of_def)
next
  case (Inr r)
  note w = write_current_Inr [OF assms(1) [unfolded Inr]]
  then show ?thesis using assms(2) history_of_rows [OF w(4)] by simp
qed

lemma append_history_other:
  assumes "append_history k r p t s = (x, s')" "k' \<noteq> k"
  shows "current_rows s' k' = current_rows s k' \<and> history_of s' k' = history_of s k'"
proof (cases x)
  case (Inl err)
  with assms(1) have "tables s' = tables s" using append_history_Inl by blast
  then show ?thesis by (simp add: tables_def history_of_def)
next
  case (Inr u)
  then show ?thesis using assms append_history_Inr(3) history_of_other by metis
qed

abbreviation complete_if_faithful ::
  "watch_state codec \<Rightarrow> auth_session_state codec \<Rightarrow> domain_persistence \<Rightarrow> bool" where
  "complete_if_faithful cs ca s \<equiv> faithful cs \<longrightarrow> faithful ca \<longrightarrow> complete_ledger cs ca s"

lemma keeps_complete:
  assumes "\<And>s x s'. faithful cs \<Longrightarrow> faithful ca \<Longrightarrow> complete_ledger cs ca s \<Longrightarrow> m s = (x, s') \<Longrightarrow>
    complete_ledger cs ca s'"
  shows "keeps (complete_if_faithful cs ca) m"
  unfolding keeps_def by (metis assms surjective_pairing)

text \<open>Only one entity was touched, and its invariant holds.\<close>

lemma complete_but_one:
  assumes c: "complete_ledger cs ca s" and h: "healthy s'"
    and other: "\<And>k'. \<not> plain_key k' \<Longrightarrow> k' \<noteq> k \<Longrightarrow>
      current_rows s' k' = current_rows s k' \<and> history_of s' k' = history_of s k'"
    and watch: "\<And>i. k = watch_id_to_string i \<Longrightarrow> watch_inv cs i s \<Longrightarrow> watch_inv cs i s'"
    and sess: "\<And>a. k = auth_session_id_to_string a \<Longrightarrow> session_inv ca a s \<Longrightarrow> session_inv ca a s'"
  shows "complete_ledger cs ca s'"
proof -
  have "watch_inv cs i s'" for i
  proof (cases "k = watch_id_to_string i")
    case False
    with other [of "watch_id_to_string i"] c show ?thesis
      by (auto simp: complete_ledger_def watch_inv_def intro: entity_inv_other)
  qed (use watch c in \<open>simp add: complete_ledger_def\<close>)
  moreover have "session_inv ca a s'" for a
  proof (cases "k = auth_session_id_to_string a")
    case False
    with other [of "auth_session_id_to_string a"] c show ?thesis
      by (auto simp: complete_ledger_def session_inv_def intro: entity_inv_other)
  qed (use sess c in \<open>simp add: complete_ledger_def\<close>)
  ultimately show ?thesis using h by (simp add: complete_ledger_def)
qed

interpretation complete: entity_property cs ca ci "complete_if_faithful cs ca" for cs ca ci
proof
  fix s s' assume se: "same_entities s s'" and c: "complete_if_faithful cs ca s"
  show "complete_if_faithful cs ca s'"
  proof (intro impI)
    assume "faithful cs" "faithful ca"
    with c se show "complete_ledger cs ca s'"
      by (intro complete_but_one [of cs ca s s' "evidence_id_to_string (EvidenceId [])"])
         (auto simp: complete_ledger_def same_entities_def simp del: evidence_id_to_string.simps
           dest: entity_viewD)
  qed
next
  fix p i assume p: "ser cs (WatchActive None) = Inr p"
  show "keeps (complete_if_faithful cs ca) (write_current (watch_id_to_string i) None p)"
  proof (rule keeps_complete)
    fix s x s' assume f: "faithful cs" and c: "complete_ledger cs ca s"
      and w: "write_current (watch_id_to_string i) None p s = (x, s')"
    then have "healthy s'" using keepsD [OF keeps_healthy_write _ w] by (simp add: complete_ledger_def)
    then show "complete_ledger cs ca s'"
      using write_current_other [OF w] entity_inv_created_any [OF f _ p w]
      by (intro complete_but_one [OF c, of s' "watch_id_to_string i"]) (simp_all add: watch_inv_def)
  qed
next
  fix org prof p a assume p: "ser ca (SessActive org prof) = Inr p"
  show "keeps (complete_if_faithful cs ca) (write_current (auth_session_id_to_string a) None p)"
  proof (rule keeps_complete)
    fix s x s' assume f: "faithful ca" and c: "complete_ledger cs ca s"
      and w: "write_current (auth_session_id_to_string a) None p s = (x, s')"
    then have "healthy s'" using keepsD [OF keeps_healthy_write _ w] by (simp add: complete_ledger_def)
    then show "complete_ledger cs ca s'"
      using write_current_other [OF w] entity_inv_created_any [OF f _ p w]
      by (intro complete_but_one [OF c, of s' "auth_session_id_to_string a"]) (simp_all add: session_inv_def)
  qed
next
  fix i now t
  show "keeps (complete_if_faithful cs ca) (apply_watch_transition cs i now t)"
  proof (rule keeps_complete)
    fix s x s' assume f: "faithful cs" and c: "complete_ledger cs ca s"
      and ap: "apply_watch_transition cs i now t s = (x, s')"
    note ad = ap [unfolded apply_watch_transition_def]
    have h: "healthy s" "healthy s'" using c keepsD [OF keeps_healthy_ops(5) _ ap] by (simp_all add: complete_ledger_def)
    show "complete_ledger cs ca s'"
      using apply_durable_row(2) [OF ad UNIV_I] entity_inv_any_outcome [OF f h(1) _ rangeI [of watch_step t] ad] h(2)
      by (intro complete_but_one [OF c, of s' "watch_id_to_string i"]) (simp_all add: watch_inv_def)
  qed
next
  fix a now t
  show "keeps (complete_if_faithful cs ca) (apply_session_transition ca a now t)"
  proof (rule keeps_complete)
    fix s x s' assume f: "faithful ca" and c: "complete_ledger cs ca s"
      and ap: "apply_session_transition ca a now t s = (x, s')"
    note ad = ap [unfolded apply_session_transition_def]
    have h: "healthy s" "healthy s'" using c keepsD [OF keeps_healthy_apply _ ad] by (simp_all add: complete_ledger_def)
    show "complete_ledger cs ca s'"
      using apply_durable_row(2) [OF ad UNIV_I] entity_inv_any_outcome [OF f h(1) _ rangeI [of session_step t] ad] h(2)
      by (intro complete_but_one [OF c, of s' "auth_session_id_to_string a"]) (simp_all add: session_inv_def)
  qed
next
  fix p j
  show "keeps (complete_if_faithful cs ca) (write_current (iam_trace_id_to_string j) None p)"
  proof (rule keeps_complete)
    fix s x s' assume c: "complete_ledger cs ca s" and w: "write_current (iam_trace_id_to_string j) None p s = (x, s')"
    then have "healthy s'" using keepsD [OF keeps_healthy_write _ w] by (simp add: complete_ledger_def)
    then show "complete_ledger cs ca s'"
      using write_current_other [OF w] by (intro complete_but_one [OF c, of s' "iam_trace_id_to_string j"]) simp_all
  qed
next
  fix s j n payload now s' and x :: "persistence_error + unit"
  assume c: "complete_if_faithful cs ca s"
    and ap: "append_history (iam_trace_id_to_string j) (n + 1) payload now s = (x, s')"
  show "complete_if_faithful cs ca s'"
  proof (intro impI)
    assume "faithful cs" "faithful ca"
    with c have c: "complete_ledger cs ca s" by blast
    then have "healthy s'" using append_history_healthy_stays [OF _ ap] by (simp add: complete_ledger_def)
    then show "complete_ledger cs ca s'"
      using append_history_other [OF ap] by (intro complete_but_one [OF c, of s' "iam_trace_id_to_string j"]) simp_all
  qed
next
  fix env s j assume c: "complete_if_faithful cs ca s"
  show "complete_if_faithful cs ca (try_mark_received env j s)"
  proof (intro impI)
    assume "faithful cs" "faithful ca"
    with c have c: "complete_ledger cs ca s" by blast
    then show "complete_ledger cs ca (try_mark_received env j s)"
      using try_mark_other try_mark_healthy
      by (intro complete_but_one [OF c, of _ "iam_trace_id_to_string j"]) (simp_all add: complete_ledger_def)
  qed
qed

section \<open>The life of every trace\<close>

text \<open>This needs no healthy backend: what was not written leaves no gap.\<close>

abbreviation traces_if_codec :: "iam_trace_state codec \<Rightarrow> domain_persistence \<Rightarrow> bool" where
  "traces_if_codec ci s \<equiv> codec_ok ci \<longrightarrow> (\<forall>i. trace_inv ci i s)"

lemma keeps_traces:
  assumes "\<And>s x s' i. codec_ok ci \<Longrightarrow> trace_inv ci i s \<Longrightarrow> m s = (x, s') \<Longrightarrow> trace_inv ci i s'"
  shows "keeps (traces_if_codec ci) m"
  unfolding keeps_def by (metis assms surjective_pairing)

lemma other_keys_traces:
  assumes "\<And>k'. k' \<noteq> k \<Longrightarrow> current_rows s' k' = current_rows s k' \<and> history_of s' k' = history_of s k'"
    and "k \<notin> range iam_trace_id_to_string" "trace_inv ci i s"
  shows "trace_inv ci i s'"
  using assms(1) [of "iam_trace_id_to_string i"] assms(2,3) by (auto intro: trace_inv_same)

interpretation traces: entity_property cs ca ci "traces_if_codec ci" for cs ca ci
proof
  fix s s' assume "same_entities s s'" "traces_if_codec ci s"
  then show "traces_if_codec ci s'"
    using entity_viewD [OF _ entity_keys(3)] unfolding same_entities_def by (metis trace_inv_same)
next
  fix p i
  show "keeps (traces_if_codec ci) (write_current (watch_id_to_string i) None p)"
    by (rule keeps_traces, rule other_keys_traces [OF write_current_other]) auto
next
  fix org prof p a
  show "keeps (traces_if_codec ci) (write_current (auth_session_id_to_string a) None p)"
    by (rule keeps_traces, rule other_keys_traces [OF write_current_other]) auto
next
  fix i now t
  show "keeps (traces_if_codec ci) (apply_watch_transition cs i now t)"
    unfolding apply_watch_transition_def
    by (rule keeps_traces, rule other_keys_traces [OF apply_durable_row(2) [OF _ UNIV_I]]) auto
next
  fix a now st
  show "keeps (traces_if_codec ci) (apply_session_transition ca a now st)"
    unfolding apply_session_transition_def
    by (rule keeps_traces, rule other_keys_traces [OF apply_durable_row(2) [OF _ UNIV_I]]) auto
next
  fix p j assume p: "ser ci AwaitingCallback = Inr p"
  show "keeps (traces_if_codec ci) (write_current (iam_trace_id_to_string j) None p)"
    by (rule keeps_traces) (rule trace_inv_created [OF _ p])
next
  fix s j n payload now s' and x :: "persistence_error + unit"
  assume "traces_if_codec ci s" "current_rows s (iam_trace_id_to_string j) \<noteq> None"
    "n \<le> length (history_of s (iam_trace_id_to_string j))"
    "append_history (iam_trace_id_to_string j) (n + 1) payload now s = (x, s')"
  then show "traces_if_codec ci s'" using trace_inv_append by blast
next
  fix env :: iam_env and s j
  assume "ie_state_codec env = ci" "history_of s (iam_trace_id_to_string j) \<noteq> []" "traces_if_codec ci s"
  then show "traces_if_codec ci (try_mark_received env j s)" using trace_inv_marked by blast
qed

lemma traces_empty: "trace_inv ci i (empty_store fs)"
  by (simp add: trace_inv_def empty_store_def history_of_def)

lemma complete_empty: "complete_ledger cs ca (empty_store [])"
  by (simp add: complete_ledger_def empty_store_def watch_inv_def session_inv_def entity_inv_def history_of_def)

end
