(* ===== verification/Codecs.thy ===== *)
theory Codecs
  imports Ledger
begin

text \<open>
  Concrete codecs that satisfy the contract the development asks of \<open>serde_json\<close>: a total
  one for watch states and one for session states, and \<open>table_codec\<close>, which encodes the
  values of a table by their position and refuses every other value.  They are used to
  apply the theorems about arbitrary codecs at concrete inputs.
\<close>

section \<open>A table of values\<close>

definition table_codec :: "'a list \<Rightarrow> 'a codec" where
  "table_codec xs =
     \<lparr>ser = (\<lambda>x. case find (\<lambda>i. xs ! i = x) [0..<length xs] of
                   None \<Rightarrow> Inl ''not in the table'' | Some i \<Rightarrow> Inr (replicate i 0)),
      de = (\<lambda>b. if length b < length xs then Inr (xs ! length b) else Inl ''no such entry'')\<rparr>"

lemma find_pred_upt: "find P [0..<n] = Some i \<Longrightarrow> P i \<and> i < n"
  by (auto simp: find_Some_iff)

lemma table_codec_ok [simp]: "codec_ok (table_codec xs)"
  by (auto simp: codec_ok_def table_codec_def split: option.splits dest!: find_pred_upt)

section \<open>Watch states\<close>

fun encode_watch_state :: "watch_state \<Rightarrow> bytes" where
  "encode_watch_state (WatchActive None) = [0]"
| "encode_watch_state (WatchActive (Some (EvidenceRef (EvidenceId b)))) = 1 # b"
| "encode_watch_state (WatchStopped None) = [2]"
| "encode_watch_state (WatchStopped (Some (EvidenceRef (EvidenceId b)))) = 3 # b"

fun decode_watch_state :: "bytes \<Rightarrow> string + watch_state" where
  "decode_watch_state [] = Inl ''empty''"
| "decode_watch_state (t # b) =
     (if t = 0 then Inr (WatchActive None)
      else if t = 1 then Inr (WatchActive (Some (EvidenceRef (EvidenceId b))))
      else if t = 2 then Inr (WatchStopped None)
      else if t = 3 then Inr (WatchStopped (Some (EvidenceRef (EvidenceId b))))
      else Inl ''unknown tag'')"

definition watch_state_codec :: "watch_state codec" where
  "watch_state_codec = \<lparr>ser = (\<lambda>st. Inr (encode_watch_state st)), de = decode_watch_state\<rparr>"

lemma faithful_watch_state_codec [simp]: "faithful watch_state_codec"
proof -
  have "decode_watch_state (encode_watch_state st) = Inr st" for st
    by (cases st rule: encode_watch_state.cases) simp_all
  then show ?thesis by (simp add: faithful_def codec_ok_def codec_total_def watch_state_codec_def)
qed

section \<open>Trace states\<close>

definition trace_state_codec :: "iam_trace_state codec" where
  "trace_state_codec =
     \<lparr>ser = (\<lambda>st. Inr (case st of AwaitingCallback \<Rightarrow> [0] | Received \<Rightarrow> [1])),
      de = (\<lambda>b. if b = [0] then Inr AwaitingCallback else if b = [1] then Inr Received
                else Inl ''unknown state'')\<rparr>"

lemma trace_state_codec_ok [simp]: "codec_ok trace_state_codec"
  by (auto simp: codec_ok_def trace_state_codec_def split: iam_trace_state.splits)

section \<open>Session states\<close>

fun encode_string :: "string \<Rightarrow> bytes" where
  "encode_string [] = [0]"
| "encode_string (c # s) = 1 # of_nat (of_char c) # encode_string s"

fun decode_string :: "bytes \<Rightarrow> (string \<times> bytes) option" where
  "decode_string [] = None"
| "decode_string [t] = (if t = 0 then Some ([], []) else None)"
| "decode_string (t # c # b) =
     (if t = 0 then Some ([], c # b)
      else case decode_string b of None \<Rightarrow> None | Some (s, r) \<Rightarrow> Some (char_of (unat c) # s, r))"

lemma decode_encode_string [simp]: "decode_string (encode_string s @ b) = Some (s, b)"
proof (induction s)
  case Nil
  then show ?case by (cases b) simp_all
next
  case (Cons c s)
  have "(of_char c :: nat) < 256" by simp
  then show ?case using Cons by (simp add: unat_of_nat)
qed

definition all_profiles :: "authentication_profile list" where
  "all_profiles = [AuthNone, FormLogin, BasicAuth, BearerToken, CookieSession, OAuth, InteractiveBrowser]"

fun profile_code :: "authentication_profile \<Rightarrow> 8 word" where
  "profile_code AuthNone = 0" | "profile_code FormLogin = 1" | "profile_code BasicAuth = 2"
| "profile_code BearerToken = 3" | "profile_code CookieSession = 4" | "profile_code OAuth = 5"
| "profile_code InteractiveBrowser = 6"

definition profile_of_code :: "8 word \<Rightarrow> authentication_profile" where
  "profile_of_code w = (if unat w < length all_profiles then all_profiles ! unat w else AuthNone)"

lemma profile_of_code [simp]: "profile_of_code (profile_code p) = p"
  by (cases p) (simp_all add: profile_of_code_def all_profiles_def)

fun encode_session :: "auth_session_state \<Rightarrow> bytes" where
  "encode_session (SessActive org prof) = 0 # profile_code prof # encode_string org"
| "encode_session (SessPaused org prof (BrowserContinuityToken t)) =
     1 # profile_code prof # encode_string org @ encode_string t"
| "encode_session (SessInvalidated org prof) = 2 # profile_code prof # encode_string org"

fun decode_session :: "bytes \<Rightarrow> string + auth_session_state" where
  "decode_session (t # p # b) =
     (case decode_string b of
        None \<Rightarrow> Inl ''bad origin''
      | Some (org, r) \<Rightarrow>
          if t = 0 then Inr (SessActive org (profile_of_code p))
          else if t = 2 then Inr (SessInvalidated org (profile_of_code p))
          else (case decode_string r of
                  None \<Rightarrow> Inl ''bad token''
                | Some (tok, _) \<Rightarrow> Inr (SessPaused org (profile_of_code p) (BrowserContinuityToken tok))))"
| "decode_session _ = Inl ''too short''"

definition session_state_codec :: "auth_session_state codec" where
  "session_state_codec = \<lparr>ser = (\<lambda>st. Inr (encode_session st)), de = decode_session\<rparr>"

lemma faithful_session_state_codec [simp]: "faithful session_state_codec"
proof -
  have "decode_session (encode_session st) = Inr st" for st
    using decode_encode_string [of _ "[]"] by (cases st rule: encode_session.cases) simp_all
  then show ?thesis by (simp add: faithful_def codec_ok_def codec_total_def session_state_codec_def)
qed

section \<open>Sample values\<close>

definition sample_watch :: watch_id where "sample_watch = WatchId (replicate 16 7)"
definition sample_session :: auth_session_id where "sample_session = AuthSessionId (replicate 16 9)"
definition sample_evidence :: evidence_id where "sample_evidence = EvidenceId (replicate 16 1)"

definition sample_target :: discovery_target where
  "sample_target = \<lparr>dt_url = ''http://a.se/'', dt_kind = Requested, dt_discovered_via = None\<rparr>"

definition sample_def_codec :: "watch_definition codec" where
  "sample_def_codec = table_codec [\<lparr>wd_target = sample_target\<rparr>]"

lemma codec_ok_sample_def [simp]: "codec_ok sample_def_codec"
  by (simp add: sample_def_codec_def)

text \<open>A store with one watch at revision 1, and the same store after an observation.\<close>

definition watched_store :: domain_persistence where
  "watched_store =
     snd (define_watch sample_def_codec watch_state_codec sample_watch 0 sample_target (empty_store []))"

definition observed_store :: domain_persistence where
  "observed_store =
     snd (apply_watch_transition watch_state_codec sample_watch 0 (Observe (EvidenceRef sample_evidence))
            watched_store)"

definition stopped_store :: domain_persistence where
  "stopped_store = snd (apply_watch_transition watch_state_codec sample_watch 0 watch_transition.Stop observed_store)"

lemma ledger_run_samples:
  "ledger_run watch_state_codec session_state_codec trace_state_codec (empty_store []) watched_store"
  "ledger_run watch_state_codec session_state_codec trace_state_codec (empty_store []) observed_store"
  "ledger_run watch_state_codec session_state_codec trace_state_codec (empty_store []) stopped_store"
proof -
  have a: "ledger_step watch_state_codec session_state_codec trace_state_codec (empty_store []) watched_store"
    unfolding watched_store_def by (rule step_define_watch) (rule surjective_pairing)
  have b: "ledger_step watch_state_codec session_state_codec trace_state_codec watched_store observed_store"
    unfolding observed_store_def by (rule step_watch_transition) (rule surjective_pairing)
  have c: "ledger_step watch_state_codec session_state_codec trace_state_codec observed_store stopped_store"
    unfolding stopped_store_def by (rule step_watch_transition) (rule surjective_pairing)
  note extend = rtranclp.rtrancl_into_rtrancl [where r = "ledger_step watch_state_codec session_state_codec trace_state_codec"]
  note ra = extend [OF rtranclp.rtrancl_refl a]
  note rb = extend [OF ra b]
  note rc = extend [OF rb c]
  show "ledger_run watch_state_codec session_state_codec trace_state_codec (empty_store []) watched_store" by (rule ra)
  show "ledger_run watch_state_codec session_state_codec trace_state_codec (empty_store []) observed_store" by (rule rb)
  show "ledger_run watch_state_codec session_state_codec trace_state_codec (empty_store []) stopped_store" by (rule rc)
qed

lemma stopped_rows:
  "current_rows stopped_store (watch_id_to_string sample_watch) = Some (3, 3 # replicate 16 1)"
  by code_simp

text \<open>A page, its evidence, and an environment for runs in which the first fetch is answered.\<close>

definition sample_url :: url where
  "sample_url = \<lparr>u_as_str = ''http://a.se/'', u_scheme = ''http'', u_username = [], u_password = None,
     u_host_str = Some ''a.se'', u_port = None, u_path = ''/'', u_query = None, u_fragment = None\<rparr>"

definition sample_parser :: url_parser where
  "sample_parser s = (if s = ''http://a.se/'' then Inr sample_url else Inl ''invalid'')"

definition sample_page :: page where
  "sample_page = \<lparr>pg_bytes = Some [104, 105], pg_screenshot_bytes = None, pg_headers = None,
     pg_links = None, pg_url = ''http://a.se/'', pg_url_final = ''http://a.se/'',
     pg_retrieved_at = Some 1, pg_status_code = 200, pg_observed_status_code = Some 200,
     pg_transport = Some AcqDefault, pg_backend_provenance = Some BackReqwest,
     pg_response_origin = Some Network\<rparr>"

definition sample_deps :: evidence_deps where
  "sample_deps = \<lparr>sha256_hex = (\<lambda>b. concat (map hex_byte b)), infer_mime = (\<lambda>_. None),
     header_to_str = (\<lambda>_. None)\<rparr>"

definition sample_bundle :: evidence_bundle where
  "sample_bundle = (build_evidence sample_deps sample_page (Some ''hi'') False False)
     \<lparr>eb_id := Some sample_evidence\<rparr>"

definition sample_env :: run_env where
  "sample_env = \<lparr>re_parse_url = sample_parser, re_deps = sample_deps,
     re_respond = (\<lambda>n b. if n = 0 then Inr sample_page else Inl ''unreachable''),
     re_def_codec = sample_def_codec, re_state_codec = watch_state_codec,
     re_sched_codec = table_codec [\<lparr>wsch_cron_str = ''0 0 0 * * *''\<rparr>],
     re_bundle_codec = table_codec [sample_bundle],
     re_run_codec = table_codec [Claimed, Completed (EvidenceRef sample_evidence)],
     re_now = 0, re_fresh = sample_evidence\<rparr>"

definition sample_request :: transport_request where
  "sample_request = \<lparr>tr_mode = ModeDefault, tr_proxy = None\<rparr>"

definition scheduled_store :: domain_persistence where
  "scheduled_store = snd (define_watch_schedule (\<lambda>_. Inr ()) (re_sched_codec sample_env) 0 sample_watch
     ''0 0 0 * * *'' watched_store)"

definition sample_world :: world where
  "sample_world = \<lparr>w_store = scheduled_store, w_fetches = []\<rparr>"

definition after_run :: world where
  "after_run = snd (execute_scheduled_watch_run sample_env sample_watch 5 sample_request sample_world)"

text \<open>The same run when the network does not answer.\<close>

definition offline_env :: run_env where
  "offline_env = sample_env\<lparr>re_respond := (\<lambda>n b. Inl ''unreachable'')\<rparr>"

lemma sample_run:
  "execute_scheduled_watch_run sample_env sample_watch 5 sample_request sample_world =
     (Inr (EvidenceRef sample_evidence), after_run)"
proof -
  have "fst (execute_scheduled_watch_run sample_env sample_watch 5 sample_request sample_world) =
     Inr (EvidenceRef sample_evidence)" by code_simp
  then show ?thesis unfolding after_run_def by (metis prod.collapse)
qed

lemma sample_run_fetches: "w_fetches after_run = [\<lparr>ab_url = ''http://a.se/'', ab_transport = PolicyDefault\<rparr>]"
  by code_simp

lemma sample_world_ok: "w_fetches sample_world = []" "w_store sample_world = scheduled_store"
  by (simp_all add: sample_world_def)

lemma scheduled_step: "ledger_step watch_state_codec session_state_codec trace_state_codec watched_store scheduled_store"
  unfolding scheduled_store_def by (rule step_define_schedule) (rule surjective_pairing)

lemma store_ok_empty [simp]: "store_ok (empty_store fs)"
  by (simp add: store_ok_def) (simp add: empty_store_def)

lemma ledger_run_scheduled:
  "ledger_run watch_state_codec session_state_codec trace_state_codec (empty_store []) scheduled_store"
  by (rule rtranclp.rtrancl_into_rtrancl [where r = "ledger_step watch_state_codec session_state_codec trace_state_codec"])
     (rule ledger_run_samples scheduled_step)+

lemma store_ok_scheduled [simp]: "store_ok scheduled_store"
  using ledger_run_grows [OF ledger_run_scheduled] by (simp add: grows_def)

end
