(* ===== verification/Scheduled_Run.thy ===== *)
theory Scheduled_Run
  imports Codecs
begin

text \<open>
  Whole scheduled runs: who fetches, what a completed run leaves behind, and why a tick is
  never served twice.  The lemmas look at a run through its claim row, the row stored
  under \<open>run_key i at\<close>.
\<close>

lemma frameW: "frame tables m \<Longrightarrow> with_store m w = (r, w') \<Longrightarrow> tables (w_store w') = tables (w_store w)"
  by (rule frameD [OF frame_with_store])

lemma fetchesW: "with_store m w = (r, w') \<Longrightarrow> w_fetches w' = w_fetches w"
  by (rule frameD [OF with_store_fetches])

lemma claim_run_error: "claim_run env key s = (res, s') \<Longrightarrow> res \<noteq> Inl (ExecFetch m)"
  by (auto simp: claim_run_def act_bind_lift lost_claim_def map_err_def act_map_err_def act_bind_def
      split: sum.splits prod.splits persistence_error.splits option.splits if_splits)

fun_cases observe_evidence_InrE: "observe_evidence e st = Inr st'"

text \<open>
  Every run either ends before its claim is won, leaving tables and network alone, or is the
  claimed execution on a store that differs by the claim row only.
\<close>

text \<open>The definition that a watch was defined with: the first record under its definition key.\<close>

definition stored_definition :: "run_env \<Rightarrow> watch_id \<Rightarrow> domain_persistence \<Rightarrow> watch_definition \<Rightarrow> bool" where
  "stored_definition env i s def \<longleftrightarrow>
     (\<exists>r p t rest. history_of s (definition_key i) = (r, p, t) # rest \<and> de (re_def_codec env) p = Inr def)"

lemma read_definition_stored:
  assumes "with_store (act_map_err ExecWatch (read_watch_definition (re_def_codec env) i)) w = (Inr (Some def), w')"
  shows "stored_definition env i (w_store w) def"
proof -
  obtain s' where "read_watch_definition (re_def_codec env) i (w_store w) = (Inr (Some def), s')"
    using assms by (auto simp: with_store_Inr act_map_err_Inr_iff)
  then obtain x s1 where h: "read_history (definition_key i) (w_store w) = (Inr x, s1)"
    and rest: "(case x of [] \<Rightarrow> act_ok None
       | (revision, payload, recorded_at) # _ \<Rightarrow>
           act_bind (act_lift (map_err WatchSerialization (de (re_def_codec env) payload))) (\<lambda>x. act_ok (Some x))) s1
       = (Inr (Some def), s')"
    by (auto simp: read_watch_definition_def read_first_record_def act_bind_Inr_iff act_map_err_Inr_iff)
  show ?thesis
  proof (cases x)
    case (Cons y rest)
    obtain r p t where "y = (r, p, t)" by (cases y)
    with rest Cons read_history_Inr [OF h] show ?thesis
      by (auto simp: stored_definition_def act_bind_Inr_iff)
  qed (use rest in simp)
qed

lemma stored_definition_tables: "tables s = tables s' \<Longrightarrow> stored_definition env i s def = stored_definition env i s' def"
  by (simp add: stored_definition_def tables_def history_of_def)

lemma run_cases:
  assumes "execute_scheduled_watch_run env i at req w = (res, w')"
  obtains (unclaimed) "tables (w_store w') = tables (w_store w)" "w_fetches w' = w_fetches w"
      "\<And>e. res = Inr e \<Longrightarrow> \<exists>r p. current_rows (w_store w) (run_key i at) = Some (r, p) \<and>
         de (re_run_codec env) p = Inr (Completed e)"
      "\<And>m. res \<noteq> Inl (ExecFetch m)"
  | (claimed) def w1 p where
      "current_rows (w_store w) (run_key i at) = None"
      "stored_definition env i (w_store w) def"
      "ser (re_run_codec env) Claimed = Inr p"
      "current_rows (w_store w1) = (current_rows (w_store w))(run_key i at \<mapsto> (1, p))"
      "history_rows (w_store w1) = history_rows (w_store w)" "w_fetches w1 = w_fetches w"
      "execute_claimed env i (run_key i at) 1 def req w1 = (res, w')"
proof -
  let ?sched = "with_store (act_map_err ExecSchedule (read_watch_schedule (re_sched_codec env) i))"
  let ?def = "with_store (act_map_err ExecWatch (read_watch_definition (re_def_codec env) i))"
  have fs: "frame tables (act_map_err ExecSchedule (read_watch_schedule (re_sched_codec env) i))"
    and fd: "frame tables (act_map_err ExecWatch (read_watch_definition (re_def_codec env) i))"
    by (intro frame_intro)+
  obtain rs wa where s: "?sched w = (rs, wa)" by fastforce
  note sa = frameW [OF fs s] fetchesW [OF s]
  obtain rd wb where d: "?def wa = (rd, wb)" by fastforce
  note sb = frameW [OF fd d] fetchesW [OF d]
  obtain rc wc where c: "with_store (claim_run env (run_key i at)) wb = (rc, wc)" by fastforce
  then have cr: "claim_run env (run_key i at) (w_store wb) = (rc, w_store wc)" and fc: "w_fetches wc = w_fetches wb"
    by (auto simp: with_store_def split: prod.splits)
  note run = assms [unfolded execute_scheduled_watch_run_def]
  show thesis
  proof (cases "\<exists>x y. rs = Inr (Some x) \<and> rd = Inr (Some y)")
    case False
    show thesis
    proof (rule unclaimed)
      show "tables (w_store w') = tables (w_store w)" "w_fetches w' = w_fetches w"
        using run s d sa sb False
        by (auto simp: act_bind_def ok_or_def split: sum.splits option.splits)
      show "\<exists>r p. current_rows (w_store w) (run_key i at) = Some (r, p) \<and>
         de (re_run_codec env) p = Inr (Completed e)" if "res = Inr e" for e
        using run s d False that by (auto simp: act_bind_Inr_iff)
      show "res \<noteq> Inl (ExecFetch m)" for m
        using run s d False
        by (auto simp: act_bind_def ok_or_def with_store_def act_map_err_def map_err_def
            split: sum.splits option.splits prod.splits)
    qed
  next
    case True
    then obtain x y where xy: "rs = Inr (Some x)" "rd = Inr (Some y)" by blast
    have rest: "(case rc of Inl e \<Rightarrow> (Inl e, wc)
       | Inr (Replay e) \<Rightarrow> (Inr e, wc)
       | Inr (Won r) \<Rightarrow> execute_claimed env i (run_key i at) r y req wc) = (res, w')"
      using run s d c xy by (simp add: act_bind_def split: sum.splits claim.splits)
    show thesis
    proof (cases "\<exists>r. rc = Inr (Won r)")
      case True
      then obtain r where r: "rc = Inr (Won r)" by blast
      from cr [unfolded r] obtain p where p: "ser (re_run_codec env) Claimed = Inr p"
        and w: "write_current (run_key i at) None p (w_store wb) = (Inr r, w_store wc)"
        by (rule claim_run_Won)
      note w' = write_current_Inr [OF w]
      show thesis
      proof (rule claimed [of y p wc])
        show "stored_definition env i (w_store w) y"
          using read_definition_stored [OF d [unfolded xy(2)]] stored_definition_tables [OF sa(1)] by simp
      qed (use p w' r rest sa sb fc in \<open>auto simp: tables_def next_revision_def\<close>)
    next
      case False
      with claim_run_not_Won [OF cr] have t: "tables (w_store wc) = tables (w_store wb)" by blast
      have "w' = wc" using rest False by (auto split: sum.splits claim.splits)
      show thesis
      proof (rule unclaimed)
        show "tables (w_store w') = tables (w_store w)" "w_fetches w' = w_fetches w"
          using t sa sb fc \<open>w' = wc\<close> by simp_all
        fix e assume "res = Inr e"
        then have rp: "rc = Inr (Replay e)" using rest False by (auto split: sum.splits claim.splits)
        obtain p where p: "ser (re_run_codec env) Claimed = Inr p"
          using cr rp by (cases "ser (re_run_codec env) Claimed") (auto simp: claim_run_def act_bind_lift)
        obtain z t where w: "write_current (run_key i at) None p (w_store wb) = (z, t)" by fastforce
        with cr rp p obtain a where "z = Inl (CurrentStateConflict a)"
            "lost_claim env (run_key i at) t = (Inr (Replay e), w_store wc)"
          by (cases z) (auto simp: claim_run_def act_bind_lift split: persistence_error.splits)
        with w lost_claim_Inr [of env "run_key i at" t] show
          "\<exists>r p. current_rows (w_store w) (run_key i at) = Some (r, p) \<and>
             de (re_run_codec env) p = Inr (Completed e)"
          using sa sb by (auto simp: tables_def dest!: write_current_Inl)
      next
        fix m show "res \<noteq> Inl (ExecFetch m)"
          using rest False claim_run_error [OF cr] by (auto split: sum.splits claim.splits)
      qed
    qed
  qed
qed

lemma claimed_grows:
  "execute_claimed env i key cr def req w = (res, w') \<Longrightarrow> grows (w_store w) (w_store w')"
proof -
  have "keeps (\<lambda>w'. grows (w_store w) (w_store w')) (execute_claimed env i key cr def req)"
    unfolding execute_claimed_def Let_def by (intro triple_intro keeps_with_store)
  then show "execute_claimed env i key cr def req w = (res, w') \<Longrightarrow> grows (w_store w) (w_store w')"
    using grows_refl by (blast dest: keepsD)
qed

lemma grows_row: "grows s s' \<Longrightarrow> current_rows s k \<noteq> None \<Longrightarrow> current_rows s' k \<noteq> None"
  by (auto simp: grows_def current.revision_def split: option.splits dest!: spec [of _ k])

text \<open>A tick whose claim row exists is never fetched again; a run that fetched left its row.\<close>

lemma claimed_tick_quiet:
  assumes "current_rows (w_store w) (run_key i at) \<noteq> None"
    and "execute_scheduled_watch_run env i at req w = (res, w')"
  shows "w_fetches w' = w_fetches w" "tables (w_store w') = tables (w_store w)"
  using assms(2) by (rule run_cases; use assms(1) in simp)+

lemma fetched_tick_claimed:
  assumes "execute_scheduled_watch_run env i at req w = (res, w')" "w_fetches w' \<noteq> w_fetches w"
  shows "current_rows (w_store w') (run_key i at) \<noteq> None"
  using assms(1)
proof (rule run_cases)
  fix def w1 p
  assume "current_rows (w_store w1) = (current_rows (w_store w))(run_key i at \<mapsto> (1, p))"
    "execute_claimed env i (run_key i at) 1 def req w1 = (res, w')"
  then show ?thesis using grows_row [OF claimed_grows, of env i "run_key i at" 1 def req w1 res w'] by simp
qed (use assms(2) in simp)

text \<open>What a claimed execution that succeeds has done, step by step.\<close>

lemma execute_claimed_Inr:
  assumes "execute_claimed env i key cr def req w = (Inr e, w')"
  obtains binding page recorded st s2 s3 q where
    "bind_target (re_parse_url env) (wd_target def) req = Inr binding"
    "re_respond env (length (w_fetches w)) binding = Inr page"
    "w_fetches w' = w_fetches w @ [binding]"
    "record_evidence (re_bundle_codec env) (re_fresh env) (re_now env)
       (build_evidence (re_deps env) page (Option.bind (pg_bytes page) str_from_utf8) False False)
       (w_store w) = (Inr recorded, s2)"
    "e = EvidenceRef (re_fresh env)" "eb_id recorded = Some (re_fresh env)"
    "apply_watch_transition (re_state_codec env) i (re_now env) (Observe e) s2 = (Inr st, s3)"
    "ser (re_run_codec env) (Completed e) = Inr q"
    "write_current key (Some cr) q s3 = (Inr (cr + 1), w_store w')"
proof -
  from assms obtain binding page w1 recorded w2 st w3 q w4 r where
    b: "bind_target (re_parse_url env) (wd_target def) req = Inr binding"
    and f: "fetch (re_respond env) binding w = (Inr page, w1)"
    and rec: "with_store (act_map_err ExecEvidence (record_evidence (re_bundle_codec env) (re_fresh env) (re_now env)
         (build_evidence (re_deps env) page (Option.bind (pg_bytes page) str_from_utf8) False False))) w1
         = (Inr recorded, w2)"
    and e: "e = EvidenceRef (case eb_id recorded of Some e \<Rightarrow> e | None \<Rightarrow> re_fresh env)"
    and ap: "with_store (act_map_err ExecTransition
         (apply_watch_transition (re_state_codec env) i (re_now env) (Observe e))) w2 = (Inr st, w3)"
    and q: "ser (re_run_codec env) (Completed e) = Inr q"
    and wr: "with_store (act_map_err ExecPersistence (write_current key (Some cr) q)) w3 = (Inr r, w')"
    by (auto simp: execute_claimed_def Let_def act_bind_Inr_iff act_map_err_Inr_iff)
  from f have w1: "w1 = w\<lparr>w_fetches := w_fetches w @ [binding]\<rparr>"
    "re_respond env (length (w_fetches w)) binding = Inr page" by (auto simp: fetch_def)
  have rec': "record_evidence (re_bundle_codec env) (re_fresh env) (re_now env)
       (build_evidence (re_deps env) page (Option.bind (pg_bytes page) str_from_utf8) False False)
       (w_store w) = (Inr recorded, w_store w2)"
    using rec w1 by (auto simp: with_store_Inr act_map_err_Inr_iff)
  have id: "eb_id recorded = Some (re_fresh env)"
    using record_evidence_Inr [OF rec'] by (auto simp: build_evidence_def Let_def)
  have ap': "apply_watch_transition (re_state_codec env) i (re_now env) (Observe e) (w_store w2) = (Inr st, w_store w3)"
    using ap by (auto simp: with_store_Inr act_map_err_Inr_iff)
  have wr': "write_current key (Some cr) q (w_store w3) = (Inr r, w_store w')"
    using wr by (auto simp: with_store_Inr act_map_err_Inr_iff)
  have "w_fetches w' = w_fetches w @ [binding]"
    using fetchesW [OF rec] fetchesW [OF ap] fetchesW [OF wr] w1 by simp
  moreover have "r = cr + 1" using write_current_Inr(2) [OF wr'] by (simp add: next_revision_def)
  ultimately show thesis
    using that [OF b w1(2) _ rec' _ id ap' q] wr' e id by simp
qed

lemma read_first_store:
  "healthy s \<Longrightarrow> read_first_record c perr serr k s = (fst (read_first_record c perr serr k s), s)"
  by (auto simp: read_first_record_def act_bind_def act_map_err_def split: list.splits sum.splits)

text \<open>A failed fetch ends the claimed execution with the store untouched.\<close>

lemma execute_claimed_fetch_failed:
  assumes "execute_claimed env i key cr def req w = (Inl (ExecFetch m), w')"
  shows "w_store w' = w_store w"
proof -
  note e = assms [unfolded execute_claimed_def Let_def]
  obtain b where b: "bind_target (re_parse_url env) (wd_target def) req = Inr b"
    using e by (cases "bind_target (re_parse_url env) (wd_target def) req") (auto simp: act_bind_lift)
  obtain r w1 where f: "fetch (re_respond env) b w = (r, w1)" by fastforce
  show ?thesis
  proof (cases r)
    case (Inl x)
    with e b f show ?thesis by (auto simp: act_bind_lift act_bind_def act_map_err_def fetch_def)
  next
    case (Inr page)
    from e b f Inr show ?thesis
      by (auto simp: act_bind_lift act_bind_Inl_iff act_map_err_Inl_iff with_store_Inl map_err_def
          act_map_err_Inr [of "fetch (re_respond env) b" w] act_bind_Inr [of "act_map_err ExecFetch (fetch (re_respond env) b)" w]
          split: sum.splits) (metis sum.exhaust)+
  qed
qed

section \<open>Properties of scheduled runs\<close>

text \<open>C1. Whatever operations run in between, and whatever the clock, the network, the codecs of
  the other values and the transport request of the later call are: once a scheduled run
  of a watch has issued its fetch, every later run of the same watch for the same second
  performs no fetch and leaves both tables as they are.\<close>

theorem tick_fetched_at_most_once:
  assumes "execute_scheduled_watch_run env i at req w = (res, w1)" "w_fetches w1 \<noteq> w_fetches w"
    and "ledger_run cs ca ci (w_store w1) (w_store w2)" "unix_seconds at' = unix_seconds at"
    and "execute_scheduled_watch_run env' i at' req' w2 = (res', w3)"
  shows "w_fetches w3 = w_fetches w2 \<and> tables (w_store w3) = tables (w_store w2)"
proof -
  have key: "run_key i at' = run_key i at" using assms(4) by simp
  have "current_rows (w_store w2) (run_key i at) \<noteq> None"
    using grows_row [OF ledger_run_grows [OF assms(3)] fetched_tick_claimed [OF assms(1,2)]] .
  then show ?thesis
    using claimed_tick_quiet [of w2 i at' env' req' res' w3] assms(5) key by simp
qed

lemma tick_fetched_at_most_once_witness:
  "w_fetches (snd (execute_scheduled_watch_run offline_env sample_watch 5 sample_request after_run))
     = [\<lparr>ab_url = ''http://a.se/'', ab_transport = PolicyDefault\<rparr>]"
proof -
  have f: "w_fetches after_run \<noteq> w_fetches sample_world"
    by (simp add: sample_run_fetches sample_world_ok)
  show ?thesis
    using tick_fetched_at_most_once [OF sample_run f rtranclp.rtrancl_refl refl surjective_pairing,
        where env' = offline_env and req' = sample_request]
      sample_run_fetches by (metis (no_types))
qed

text \<open>C4. A scheduled run that succeeds either replays a completed run of the same watch and
  second: then it fetches nothing, changes neither table, and answers with the evidence that
  the run's row names.  Or no row of the run existed and it did all of its work: it fetched
  exactly one target, bound under the requested transport from the definition that is stored
  for this watch; the evidence built from the answered page is resolvable under the returned
  reference; the watch is active with that reference as its latest observation; and the
  run's row says that it is completed with it.  (The codecs read back what they write; the
  backend is without faults at the end.)\<close>

theorem successful_run_effects:
  assumes "execute_scheduled_watch_run env i at req w = (Inr e, w')"
    and "codec_ok (re_bundle_codec env)" "codec_ok (re_state_codec env)" "codec_ok (re_run_codec env)"
    and "store_ok (w_store w)" "healthy (w_store w')"
  shows "(w_fetches w' = w_fetches w \<and> tables (w_store w') = tables (w_store w) \<and>
      (\<exists>r p. current_rows (w_store w) (run_key i at) = Some (r, p) \<and> de (re_run_codec env) p = Inr (Completed e))) \<or>
    (current_rows (w_store w) (run_key i at) = None \<and>
     (\<exists>def binding page bundle r p q.
      stored_definition env i (w_store w) def \<and>
      bind_target (re_parse_url env) (wd_target def) req = Inr binding \<and>
      re_respond env (length (w_fetches w)) binding = Inr page \<and>
      w_fetches w' = w_fetches w @ [binding] \<and>
      bundle = (build_evidence (re_deps env) page (Option.bind (pg_bytes page) str_from_utf8) False False)
        \<lparr>eb_id := Some (ref_id e)\<rparr> \<and>
      resolve (re_bundle_codec env) e (w_store w') = (Inr (Some bundle), w_store w') \<and>
      current_rows (w_store w') (watch_id_to_string i) = Some (r, p) \<and>
      de (re_state_codec env) p = Inr (WatchActive (Some e)) \<and>
      current_rows (w_store w') (run_key i at) = Some (2, q) \<and>
      de (re_run_codec env) q = Inr (Completed e)))"
  using assms(1)
proof (rule run_cases)
  fix def w1 p
  assume new: "current_rows (w_store w) (run_key i at) = None" "stored_definition env i (w_store w) def"
    and c1: "current_rows (w_store w1) = (current_rows (w_store w))(run_key i at \<mapsto> (1, p))"
    "history_rows (w_store w1) = history_rows (w_store w)" "w_fetches w1 = w_fetches w"
    and ex: "execute_claimed env i (run_key i at) 1 def req w1 = (Inr e, w')"
  have ok1: "store_ok (w_store w1)"
    using assms(5) c1 by (auto simp: store_ok_def store_wf_def hist_distinct_def hist_positive_def)
  from ex show ?thesis
  proof (rule execute_claimed_Inr)
    fix binding page rec st s2 s3 q
    assume b: "bind_target (re_parse_url env) (wd_target def) req = Inr binding"
      "re_respond env (length (w_fetches w1)) binding = Inr page" "w_fetches w' = w_fetches w1 @ [binding]"
      and rec: "record_evidence (re_bundle_codec env) (re_fresh env) (re_now env)
       (build_evidence (re_deps env) page (Option.bind (pg_bytes page) str_from_utf8) False False)
       (w_store w1) = (Inr rec, s2)"
      and e: "e = EvidenceRef (re_fresh env)" "eb_id rec = Some (re_fresh env)"
      and ap: "apply_watch_transition (re_state_codec env) i (re_now env) (Observe e) s2 = (Inr st, s3)"
      and q: "ser (re_run_codec env) (Completed e) = Inr q"
      and wr: "write_current (run_key i at) (Some 1) q s3 = (Inr (1 + 1), w_store w')"
    note w' = write_current_Inr [OF wr]
    have g1: "grows (w_store w1) s2" using keepsD [OF keeps_grows_evidence grows_refl rec] .
    have g2: "grows s2 s3" using keepsD [OF keeps_grows_watch grows_refl ap] .
    have g3: "grows s3 (w_store w')" using keepsD [OF keeps_grows_write grows_refl wr] .
    have wf: "store_wf (w_store w1)" "store_wf (w_store w')"
      and pre: "prefix (history_rows s2) (history_rows (w_store w'))"
      using ok1 g1 g2 g3 by (auto simp: grows_def store_ok_def intro: prefix_order.trans)
    have res: "resolve (re_bundle_codec env) e (w_store w') = (Inr (Some rec), w_store w')"
      using record_then_resolve [OF assms(2) wf(1) rec e(2) wf(2) assms(6) pre] e(1) by simp
    have rec_eq: "rec = (build_evidence (re_deps env) page (Option.bind (pg_bytes page) str_from_utf8) False False)
      \<lparr>eb_id := Some (ref_id e)\<rparr>"
      using record_evidence_Inr [OF rec] e by auto
    have "\<exists>r np. current_rows s3 (watch_id_to_string i) = Some (r, np) \<and>
        de (re_state_codec env) np = Inr (WatchActive (Some e))"
      using ap unfolding apply_watch_transition_def
      by (rule apply_durable_Inr) (use codec_okD [OF assms(3)] in \<open>auto elim!: observe_evidence_InrE\<close>)
    then have watch: "\<exists>r np. current_rows (w_store w') (watch_id_to_string i) = Some (r, np) \<and>
        de (re_state_codec env) np = Inr (WatchActive (Some e))"
      using w'(3) by simp
    then obtain r np where rnp: "current_rows (w_store w') (watch_id_to_string i) = Some (r, np)"
      "de (re_state_codec env) np = Inr (WatchActive (Some e))" by blast
    have run: "current_rows (w_store w') (run_key i at) = Some (2, q)"
      using w'(3) by (simp add: numeral_2_eq_2)
    show ?thesis
      by (intro disjI2 conjI new(1), rule exI [of _ def], rule exI [of _ binding], rule exI [of _ page], rule exI [of _ rec],
          rule exI [of _ r], rule exI [of _ np], rule exI [of _ q])
         (use new(2) b c1(3) res rec_eq rnp run codec_okD [OF assms(4) q] in simp)
  qed
qed blast

lemma successful_run_effects_witness:
  "(\<exists>def. stored_definition sample_env sample_watch (w_store sample_world) def) \<and>
   resolve (re_bundle_codec sample_env) (EvidenceRef sample_evidence) (w_store after_run)
     = (Inr (Some sample_bundle), w_store after_run)"
proof -
  have f: "w_fetches after_run \<noteq> w_fetches sample_world"
    by (simp add: sample_run_fetches sample_world_ok)
  have h: "healthy (w_store after_run)" by code_simp
  have c: "codec_ok (re_bundle_codec sample_env)" "codec_ok (re_state_codec sample_env)"
    "codec_ok (re_run_codec sample_env)"
    using faithful_watch_state_codec by (simp_all add: sample_env_def faithful_def)
  have s: "store_ok (w_store sample_world)" by (simp add: sample_world_ok)
  note run = successful_run_effects [OF sample_run c s h]
  from run f obtain b d where stored: "stored_definition sample_env sample_watch (w_store sample_world) d"
      and "resolve (re_bundle_codec sample_env) (EvidenceRef sample_evidence) (w_store after_run)
      = (Inr (Some b), w_store after_run)" by blast
  moreover have "fst (resolve (re_bundle_codec sample_env) (EvidenceRef sample_evidence) (w_store after_run))
      = Inr (Some sample_bundle)" by code_simp
  ultimately show ?thesis by auto
qed

text \<open>A run whose fetch failed is not retried: its claim stays, and every later attempt at
  the same tick is answered with \<open>RunAlreadyInProgress\<close> (on a backend without faults,
  with the schedule and the definition readable).\<close>

theorem failed_fetch_blocks_tick:
  assumes "execute_scheduled_watch_run env i at req w = (Inl (ExecFetch m), w1)"
    and "codec_ok (re_run_codec env)" "healthy (w_store w1)"
    and "fst (read_watch_schedule (re_sched_codec env) i (w_store w1)) = Inr (Some sched)"
    and "fst (read_watch_definition (re_def_codec env) i (w_store w1)) = Inr (Some def)"
  shows "execute_scheduled_watch_run env i at req' w1 = (Inl RunAlreadyInProgress, w1)"
  using assms(1)
proof (rule run_cases)
  fix d w2 p
  assume ser: "ser (re_run_codec env) Claimed = Inr p"
    and row: "current_rows (w_store w2) = (current_rows (w_store w))(run_key i at \<mapsto> (1, p))"
    and ex: "execute_claimed env i (run_key i at) 1 d req w2 = (Inl (ExecFetch m), w1)"
  have "current_rows (w_store w1) (run_key i at) = Some (1, p)"
    using row execute_claimed_fetch_failed [OF ex] by simp
  with ser have claim: "claim_run env (run_key i at) (w_store w1) = (Inl RunAlreadyInProgress, w_store w1)"
    using assms(3) codec_okD [OF assms(2) ser]
    by (simp add: claim_run_def act_bind_lift write_current_healthy lost_claim_def act_bind_def act_map_err_def)
  have reads: "read_watch_schedule (re_sched_codec env) i (w_store w1) = (Inr (Some sched), w_store w1)"
    "read_watch_definition (re_def_codec env) i (w_store w1) = (Inr (Some def), w_store w1)"
    using assms(4,5) read_first_store [OF assms(3)]
    unfolding read_watch_schedule_def read_watch_definition_def by metis+
  show ?thesis
    using reads claim by (simp add: execute_scheduled_watch_run_def act_bind_def with_store_def act_map_err_def)
qed blast

end
