(* ===== verification/Store_Properties.thy ===== *)
theory Store_Properties
  imports Scheduled_Run
begin

text \<open>
  Properties of the single components over the durable store: opening, identities,
  evidence, watches, sessions, change detection and health.
\<close>

section \<open>Opening the store\<close>

lemma open_loop_sleeps:
  "open_loop n slept s = (res, slept', s') \<Longrightarrow> n < MAX_ATTEMPTS \<Longrightarrow> slept = map (\<lambda>k. 20 * k) [1..<n + 1] \<Longrightarrow>
    \<exists>m. m < MAX_ATTEMPTS \<and> slept' = map (\<lambda>k. 20 * k) [1..<m + 1] \<and> tables s' = tables s \<and>
      (\<forall>e. res = Inl e \<longrightarrow> m + 1 = MAX_ATTEMPTS \<or> \<not> is_sqlite_busy e)"
proof (induction n slept s arbitrary: res slept' s' rule: open_loop.induct)
  case (1 n slept s)
  obtain r t where o: "open_with_options s = (r, t)" by fastforce
  have t: "tables t = tables s" by (rule frameD [OF frame_open o])
  note unfold = "1.prems"(1) [unfolded open_loop.simps [of n slept s] o Let_def]
  show ?case
  proof (cases r)
    case (Inr u)
    then show ?thesis using unfold "1.prems"(2,3) t by (intro exI [of _ n]) auto
  next
    case (Inl e)
    show ?thesis
    proof (cases "n + 1 < MAX_ATTEMPTS \<and> is_sqlite_busy e")
      case False
      then show ?thesis using unfold Inl "1.prems"(2,3) t by (intro exI [of _ n]) auto
    next
      case True
      have "\<exists>m. m < MAX_ATTEMPTS \<and> slept' = map (\<lambda>k. 20 * k) [1..<m + 1] \<and> tables s' = tables t \<and>
          (\<forall>e. res = Inl e \<longrightarrow> m + 1 = MAX_ATTEMPTS \<or> \<not> is_sqlite_busy e)"
        by (rule "1.IH" [OF refl o [symmetric]]) (use True Inl unfold "1.prems"(3) in auto)
      then show ?thesis using t by simp
    qed
  qed
qed

text \<open>Opening retries a bounded number of times: it makes at most five attempts and sleeps
  20, 40, 60, 80 milliseconds between them, in this order; it gives up before the fifth
  only on an error that is not SQLite's busy code; and it never touches the tables.\<close>

theorem open_retries_bounded:
  assumes "open_store (Inr options) s = (res, slept, s')"
  shows "\<exists>m < 5. slept = map (\<lambda>k. 20 * k) [1..<m + 1] \<and> tables s' = tables s \<and>
    (\<forall>e. res = Inl e \<longrightarrow> m = 4 \<or> \<not> is_sqlite_busy e)"
  using open_loop_sleeps [of 0 "[]" s res slept s'] assms
  by (auto simp: open_store_def MAX_ATTEMPTS_def)

definition busy :: "sqlx_error option" where
  "busy = Some (SqlxDatabase (Some ''5'') False ''database is locked'')"

section \<open>Identities and keys\<close>

text \<open>Parsing and printing of all five kinds of identity are inverse to each other: a string
  parses to an identity exactly when it is the printed form of it, which has sixteen
  bytes; so no identity has a second spelling.\<close>

theorem identities_roundtrip:
  "(evidence_id_from_str s = Inr (EvidenceId b) \<longleftrightarrow>
      s = evidence_id_to_string (EvidenceId b) \<and> length b = ID_BYTES) \<and>
   (research_id_from_str s = Inr (ResearchId b) \<longleftrightarrow>
      s = research_id_to_string (ResearchId b) \<and> length b = ID_BYTES) \<and>
   (watch_id_from_str s = Inr (WatchId b) \<longleftrightarrow>
      s = watch_id_to_string (WatchId b) \<and> length b = ID_BYTES) \<and>
   (auth_session_id_from_str s = Inr (AuthSessionId b) \<longleftrightarrow>
      s = auth_session_id_to_string (AuthSessionId b) \<and> length b = ID_BYTES) \<and>
   (iam_trace_id_from_str s = Inr (IamTraceId b) \<longleftrightarrow>
      s = iam_trace_id_to_string (IamTraceId b) \<and> length b = ID_BYTES)"
proof -
  have inv: "parse_id pfx s = Inr b \<longleftrightarrow> s = format_id pfx b \<and> length b = ID_BYTES" for pfx
    using parse_id_Inr parse_format_id by blast
  have sum: "map_sum id C r = Inr (C b) \<longleftrightarrow> r = Inr b" if "inj C"
    for C :: "bytes \<Rightarrow> 'c" and r :: "identity_parse_error + bytes"
    using that by (cases r) (auto simp: inj_def)
  show ?thesis
    by (simp add: evidence_id_from_str_def research_id_from_str_def watch_id_from_str_def
        auth_session_id_from_str_def iam_trace_id_from_str_def sum inj_def inv)
qed

text \<open>The keys under which the components store their rows.\<close>

datatype storage_key =
    EvidenceKey evidence_id | ResearchKey research_id | WatchKey watch_id | DefinitionKey watch_id
  | ScheduleKey watch_id | RunKey watch_id nat | SessionKey auth_session_id

fun storage_key_string :: "storage_key \<Rightarrow> string" where
  "storage_key_string (EvidenceKey e) = evidence_id_to_string e"
| "storage_key_string (ResearchKey r) = research_id_to_string r"
| "storage_key_string (WatchKey w) = watch_id_to_string w"
| "storage_key_string (DefinitionKey w) = definition_key w"
| "storage_key_string (ScheduleKey w) = schedule_key w"
| "storage_key_string (RunKey w seconds) = run_key w (int seconds * 1000000000)"
| "storage_key_string (SessionKey a) = auth_session_id_to_string a"

text \<open>Keys of different components, of different entities and of different ticks never
  collide, and no recorded change event has the key of another component, whatever the
  hash function is.\<close>

theorem storage_keys_never_collide:
  "inj storage_key_string \<and> ceid_str (change_event_id sha ev) \<notin> range storage_key_string"
proof
  have apart: "research_id_to_string r \<noteq> k" "auth_session_id_to_string a \<noteq> k"
    "k \<noteq> research_id_to_string r" "k \<noteq> auth_session_id_to_string a"
    if "CHR ''#'' \<in> set k" for k r a
    using that hash_notin_ids by metis+
  show "inj storage_key_string"
  proof (rule injI)
    fix x y assume "storage_key_string x = storage_key_string y"
    then show "x = y"
      by (cases x; cases y)
         (simp_all add: apart hash_in_keys unix_seconds_def del: evidence_id_to_string.simps
            research_id_to_string.simps watch_id_to_string.simps auth_session_id_to_string.simps)
  qed
  have first: "storage_key_string k ! 0 \<in> {CHR ''e'', CHR ''r'', CHR ''w'', CHR ''a''}" for k
  proof -
    have w: "(watch_id_to_string i @ u) ! 0 = CHR ''w''" "watch_id_to_string i ! 0 = CHR ''w''" for i u
      by (cases i; simp add: format_id_def prefix_defs)+
    show ?thesis
    proof (cases k)
      case (EvidenceKey e)
      then show ?thesis by (cases e) (simp add: format_id_def prefix_defs)
    next
      case (ResearchKey r)
      then show ?thesis by (cases r) (simp add: format_id_def prefix_defs)
    next
      case (SessionKey a)
      then show ?thesis by (cases a) (simp add: format_id_def prefix_defs)
    qed (simp_all add: w definition_key_def schedule_key_def run_key_def del: watch_id_to_string.simps)
  qed
  have c: "ceid_str (change_event_id sha ev) ! 0 = CHR ''c''"
    by (simp add: change_event_id_def derive_change_id_def CHANGE_PREFIX_def Let_def)
  show "ceid_str (change_event_id sha ev) \<notin> range storage_key_string"
  proof
    assume "ceid_str (change_event_id sha ev) \<in> range storage_key_string"
    then obtain k where "ceid_str (change_event_id sha ev) = storage_key_string k" by blast
    then show False using first [of k] c by simp
  qed
qed

section \<open>Watches refine the domain-state module\<close>

text \<open>
  The stored rows of a watch, read as the current state and the history log of
  \<open>domain_state.rs\<close>.
\<close>

definition durable_log ::
  "watch_state codec \<Rightarrow> watch_id \<Rightarrow> domain_persistence
    \<Rightarrow> ((watch_id, watch_state) current_state \<times> (watch_id, watch_state) history_log) option" where
  "durable_log cs i s =
     (case current_rows s (watch_id_to_string i) of
        None \<Rightarrow> None
      | Some (r, p) \<Rightarrow>
          (case (de cs p, decode_states cs (history_of s (watch_id_to_string i))) of
             (Inr st, Inr past) \<Rightarrow>
               Some (cs_new i st, HistoryLog (map2 (\<lambda>st h.
                 \<lparr>he_identity = i, he_state = st, he_recorded_at = snd (snd h)\<rparr>)
                 past (history_of s (watch_id_to_string i))))
           | _ \<Rightarrow> None))"

lemma durable_log_Some:
  "durable_log cs i s = Some cl \<longleftrightarrow>
     (\<exists>r p st past. current_rows s (watch_id_to_string i) = Some (r, p) \<and> de cs p = Inr st \<and>
        map (\<lambda>x. de cs (fst (snd x))) (history_of s (watch_id_to_string i)) = map Inr past \<and>
        cl = (cs_new i st, HistoryLog (map2 (\<lambda>st h.
          \<lparr>he_identity = i, he_state = st, he_recorded_at = snd (snd h)\<rparr>)
          past (history_of s (watch_id_to_string i)))))"
proof -
  have dec: "decode_states cs h = Inr past \<longleftrightarrow> map (\<lambda>x. de cs (fst (snd x))) h = map Inr past" for h past
    by (rule decode_states_Inr)
  show ?thesis
    unfolding durable_log_def dec [symmetric]
    by (auto split: option.splits sum.splits)
qed

text \<open>One accepted transition on a healthy store, spelled out.\<close>

lemma watch_transition_accepted:
  assumes "faithful cs" "healthy s" "watch_inv cs i s"
    and row: "current_rows s (watch_id_to_string i) = Some (r, p)" "de cs p = Inr st"
    and step: "watch_step t st = Inr st'"
  obtains s' where "apply_watch_transition cs i now t s = (Inr st', s')"
proof -
  have "map fst (history_of s (watch_id_to_string i)) = [1..<r]"
    using assms(3) row(1) by (simp add: watch_inv_def entity_inv_def)
  then have "r \<notin> fst ` set (history_of s (watch_id_to_string i))"
    by (metis atLeastLessThan_iff less_irrefl list.set_map set_upt)
  then have "(watch_id_to_string i, r) \<notin> set (map history_key (history_rows s))"
    by (auto simp: history_of_def history_key_def image_image)
  moreover have "\<exists>b. ser cs x = Inr b" for x using assms(1) by (simp add: faithful_def codec_total_def)
  ultimately have "fst (apply_watch_transition cs i now t s) = Inr st'"
    using apply_durable_healthy [OF assms(2) row, where errs = watch_errors and i = i and now = now
        and tr = "watch_step t"] step
    by (simp add: apply_watch_transition_def)
  then show thesis using that by (metis prod.collapse)
qed

lemma watch_transition_rejected:
  assumes row: "current_rows s (watch_id_to_string i) = Some (r, p)" "de cs p = Inr st"
    and step: "watch_step t st = Inl rej"
    and ap: "apply_watch_transition cs i now t s = (res, s')"
  shows "tables s' = tables s"
proof (cases res)
  case (Inl e)
  with ap have "apply_durable cs watch_errors (watch_id_to_string i) i now (watch_step t) s = (Inl e, s')"
    by (simp add: apply_watch_transition_def)
  from apply_durable_Inl [OF this] show ?thesis using row step by auto
next
  case (Inr st')
  with ap have "apply_durable cs watch_errors (watch_id_to_string i) i now (watch_step t) s = (Inr st', s')"
    by (simp add: apply_watch_transition_def)
  then show ?thesis by (rule apply_durable_Inr) (use row step in auto)
qed

lemma durable_log_step:
  assumes f: "faithful cs" and h: "healthy s" and inv: "watch_inv cs i s" and l: "durable_log cs i s = Some cl"
    and now: "now = time_of_unix_ms ms"
    and ap: "apply_watch_transition cs i now t s = (res, s')"
  shows "durable_log cs i s' = Some (run_logged [watch_step t] now cl)"
proof -
  let ?k = "watch_id_to_string i"
  let ?mk = "\<lambda>past h. map2 (\<lambda>st h. \<lparr>he_identity = i, he_state = st, he_recorded_at = snd (snd h)\<rparr>) past h"
  from l obtain r p st past where row: "current_rows s ?k = Some (r, p)" "de cs p = Inr st"
    and past: "map (\<lambda>x. de cs (fst (snd x))) (history_of s ?k) = map Inr past"
    and cl: "cl = (cs_new i st, HistoryLog (?mk past (history_of s ?k)))"
    unfolding durable_log_Some by blast
  show ?thesis
  proof (cases "watch_step t st")
    case (Inl rej)
    have tab: "tables s' = tables s" by (rule watch_transition_rejected [OF row Inl ap])
    then have "current_rows s' = current_rows s" by (simp add: tables_def)
    with history_of_tables [OF tab, of ?k] have "durable_log cs i s' = durable_log cs i s"
      unfolding durable_log_def by (simp only:)
    then show ?thesis using l cl Inl by (simp add: cs_apply_def cs_new_def)
  next
    case (Inr st')
    from watch_transition_accepted [OF f h inv row Inr] ap
    have "apply_durable cs watch_errors ?k i now (watch_step t) s = (Inr st', s')"
      unfolding apply_watch_transition_def by (metis prod.inject)
    then show ?thesis
    proof (rule apply_durable_Inr)
      fix r' p' st0 np sp
      assume a: "current_rows s ?k = Some (r', p')" "de cs p' = Inr st0" "watch_step t st0 = Inr st'"
        "ser cs st' = Inr np" "ser cs st0 = Inr sp"
        "current_rows s' = (current_rows s)(?k \<mapsto> (r' + 1, np))"
        "history_rows s' = history_rows s @
          [\<lparr>hr_identity = ?k, hr_revision = r', hr_state = sp, hr_recorded_ms = unix_ms now\<rparr>]"
      have same: "r' = r" "st0 = st" using a row by simp_all
      have "map fst (history_of s ?k) = [1..<r]"
        using inv row(1) by (simp add: watch_inv_def entity_inv_def)
      then have "x \<in> set (history_of s ?k) \<Longrightarrow> fst x \<le> r" for x
        by (metis atLeastLessThan_iff image_eqI less_imp_le list.set_map set_upt)
      then have hist: "history_of s' ?k = history_of s ?k @ [(r, sp, now)]"
        using history_of_snoc [OF a(7)] same by (simp add: now)
      have ok: "de cs np = Inr st'" "de cs sp = Inr st"
        using a(4,5) same f codec_okD by (auto simp: faithful_def)
      have "length past = length (history_of s ?k)" using past by (metis length_map)
      then have "?mk (past @ [st]) (history_of s' ?k) =
          ?mk past (history_of s ?k) @ [\<lparr>he_identity = i, he_state = st, he_recorded_at = now\<rparr>]"
        by (simp add: hist)
      moreover have "map (\<lambda>x. de cs (fst (snd x))) (history_of s' ?k) = map Inr (past @ [st])"
        by (simp add: hist past ok)
      ultimately have "durable_log cs i s' = Some (cs_new i st',
          HistoryLog (?mk past (history_of s ?k) @ [\<lparr>he_identity = i, he_state = st, he_recorded_at = now\<rparr>]))"
        unfolding durable_log_Some using a(6) ok(1) by (intro exI [of _ "r' + 1"] exI [of _ np] exI [of _ st'] exI [of _ "past @ [st]"]) simp
      then show ?thesis
        using cl Inr by (simp add: cs_apply_def cs_new_def log_append_def)
    qed
  qed
qed

lemma run_logged_Cons: "run_logged (t # ts) now cl = run_logged ts now (run_logged [t] now cl)"
  by (cases cl) (simp split: sum.splits)

text \<open>C7. The durable watch refines the in-memory model of \<open>domain_state.rs\<close>: reading its rows as
  a current state with a history log, every sequence of transitions applied to the store
  (whole milliseconds, no backend faults) gives the rows that the same sequence gives
  applied to the current state and its log.\<close>

theorem watch_refines_domain_state:
  assumes "faithful cs" "healthy s" "watch_inv cs i s" "durable_log cs i s = Some cl"
  shows "durable_log cs i (fold (\<lambda>t s. snd (apply_watch_transition cs i (time_of_unix_ms ms) t s)) ts s)
    = Some (run_logged (map watch_step ts) (time_of_unix_ms ms) cl)"
  using assms(2-4)
proof (induction ts arbitrary: s cl)
  case (Cons t ts)
  obtain res s' where ap: "apply_watch_transition cs i (time_of_unix_ms ms) t s = (res, s')" by fastforce
  note step = durable_log_step [OF assms(1) Cons.prems refl ap]
  have "watch_inv cs i s'"
    using entity_inv_any_outcome [OF assms(1) Cons.prems(1) _ rangeI [of watch_step t]
        ap [unfolded apply_watch_transition_def]] Cons.prems(2)
    by (simp add: watch_inv_def)
  moreover have "healthy s'" by (rule keepsD [OF keeps_healthy_ops(5) Cons.prems(1) ap])
  moreover have "fold (\<lambda>t s. snd (apply_watch_transition cs i (time_of_unix_ms ms) t s)) (t # ts) s
      = fold (\<lambda>t s. snd (apply_watch_transition cs i (time_of_unix_ms ms) t s)) ts s'"
    by (simp add: ap)
  ultimately show ?case
    using Cons.IH [OF _ _ step] by (simp only: list.map run_logged_Cons [symmetric])
qed simp

lemma watch_refines_domain_state_witness:
  "\<exists>cl. durable_log watch_state_codec sample_watch
     (fold (\<lambda>t s. snd (apply_watch_transition watch_state_codec sample_watch (time_of_unix_ms 0) t s))
        [watch_transition.Stop, Observe (EvidenceRef sample_evidence)] watched_store) = Some cl \<and>
     cs_state (fst cl) = WatchStopped None \<and> map he_state (entries (snd cl)) = [WatchActive None]"
proof -
  have h: "healthy watched_store" by code_simp
  have inv: "watch_inv watch_state_codec sample_watch watched_store"
    using complete.run [OF ledger_run_samples(1)] complete_empty
    by (simp add: complete_ledger_def)
  have l: "durable_log watch_state_codec sample_watch watched_store =
      Some (cs_new sample_watch (WatchActive None), HistoryLog [])" by code_simp
  show ?thesis
    using watch_refines_domain_state [OF faithful_watch_state_codec h inv l, of 0
        "[watch_transition.Stop, Observe (EvidenceRef sample_evidence)]"]
    by (simp add: cs_apply_def cs_new_def log_append_def)
qed

section \<open>Sessions\<close>

lemma entity_fresh_revision:
  assumes "entity_inv c T k s" "current_rows s k = Some (r, p)"
  shows "(k, r) \<notin> set (map history_key (history_rows s))"
proof -
  have "map fst (history_of s k) = [1..<r]" using assms by (simp add: entity_inv_def)
  then have "r \<notin> fst ` set (history_of s k)" by (metis atLeastLessThan_iff less_irrefl list.set_map set_upt)
  then show ?thesis by (auto simp: history_of_def history_key_def image_image)
qed

lemma apply_durable_rejected:
  assumes "healthy s" "current_rows s k = Some (r, p)" "de c p = Inr st" "tr st = Inl rej"
  shows "apply_durable c errs k i now tr s = (Inl (te_rejected errs rej), s)"
  using assms by (simp add: apply_durable_def act_bind_def read_current_as_healthy cs_apply_def cs_new_def)

text \<open>A paused session resumes exactly with the token recorded when it was paused: with that
  token it becomes active again with its origin and profile; any other token is answered
  with \<open>ContinuityMismatch\<close> and nothing changes.\<close>

theorem resume_needs_recorded_token:
  assumes "faithful ca" "healthy s" "session_inv ca a s"
    and "current_rows s (auth_session_id_to_string a) = Some (r, p)"
    and "de ca p = Inr (SessPaused org prof recorded)"
  shows "fst (apply_session_transition ca a now (Resume tok) s) =
      (if tok = recorded then Inr (SessActive org prof)
       else Inl (SessTransitionRejected ContinuityMismatch)) \<and>
    (tok \<noteq> recorded \<longrightarrow> snd (apply_session_transition ca a now (Resume tok) s) = s)"
proof (cases "tok = recorded")
  case True
  have "\<exists>b. ser ca x = Inr b" for x using assms(1) by (simp add: faithful_def codec_total_def)
  then have "fst (apply_session_transition ca a now (Resume tok) s) =
      map_err (te_rejected session_errors) (session_step (Resume tok) (SessPaused org prof recorded))"
    unfolding apply_session_transition_def
    by (rule apply_durable_healthy [OF assms(2,4,5)])
       (rule entity_fresh_revision [OF assms(3) [unfolded session_inv_def] assms(4)])
  then show ?thesis using True by simp
next
  case False
  have "session_step (Resume tok) (SessPaused org prof recorded) = Inl ContinuityMismatch"
    using False by auto
  then have "apply_durable ca session_errors (auth_session_id_to_string a) a now (session_step (Resume tok)) s
      = (Inl (te_rejected session_errors ContinuityMismatch), s)"
    by (rule apply_durable_rejected [OF assms(2,4,5)])
  with False show ?thesis
    by (simp add: apply_session_transition_def session_errors_def del: session_step.simps)
qed

section \<open>Evidence\<close>

lemma audit_fold:
  "btree_sorted m \<Longrightarrow>
    (let r = fold (\<lambda>name observed.
         let values = header_get_all h name in
         if values \<noteq> [] then btree_insert name values observed else observed) names m
     in btree_sorted r \<and> map_of r name =
       (if name \<in> set names \<and> header_get_all h name \<noteq> [] then Some (header_get_all h name) else map_of m name))"
proof (induction names arbitrary: m)
  case (Cons n names)
  show ?case
  proof (cases "header_get_all h n = []")
    case True
    then show ?thesis using Cons.IH [OF Cons.prems] by (auto simp: Let_def)
  next
    case False
    then show ?thesis
      using Cons.IH [OF btree_sorted_insert [OF Cons.prems, of n "header_get_all h n"]]
      by (auto simp: Let_def map_of_btree_insert)
  qed
qed (simp add: Let_def)

text \<open>The audited response headers are a map in increasing key order that holds exactly the
  allowlisted names the response carries, each with all of its values in the order of
  the response.\<close>

theorem audit_headers_exact:
  "sorted_wrt (<) (map fst (audit_response_headers headers)) \<and>
   map_of (audit_response_headers headers) =
     (\<lambda>name. if name \<in> set AUDIT_RESPONSE_HEADER_ALLOWLIST \<and> header_get_all headers name \<noteq> []
        then Some (header_get_all headers name) else None)"
  using audit_fold [of "[]" headers AUDIT_RESPONSE_HEADER_ALLOWLIST]
  by (auto simp: audit_response_headers_def Let_def fun_eq_iff)

section \<open>Change detection\<close>

text \<open>Comparing the evidence of two plain fetches answers by the hashes of the two response
  bodies, so equal bodies are unchanged and a reported change always names two different
  hashes; and a plain fetch is never compared with a page rendered by a browser.\<close>

theorem comparison_of_fetches:
  assumes "pg_bytes p1 = Some b1" "pg_bytes p2 = Some b2"
  shows "compute_change_result (build_evidence deps p1 c1 w1 False) (build_evidence deps p2 c2 w2 False) =
      (if sha256_hex deps b1 = sha256_hex deps b2 then Unchanged ResponseBodyHash
       else Changed ResponseBodyHash (sha256_hex deps b1) (sha256_hex deps b2)) \<and>
    compute_change_result (build_evidence deps p1 c1 w1 False) (build_evidence deps p2 c2 w2 True) =
      Uncomparable NoConsistentContentSignal"
  using assms
  by (auto simp: compute_change_result_def comparable_hash_def build_evidence_def Let_def split: option.splits)

lemma detect_append_outcome:
  assumes "detect_and_record_change sha ce cs cc now w p c s = (Inr ev, s')"
  shows "ce_watch ev = w \<and> ce_previous ev = p \<and> ce_current ev = c \<and> ce_detected_at ev = now \<and>
    (\<exists>q. ser cc ev = Inr q \<and>
      (history_at s (ceid_str (change_event_id sha ev), 1) = None \<and>
         history_rows s' = history_rows s @ [\<lparr>hr_identity = ceid_str (change_event_id sha ev),
           hr_revision = 1, hr_state = q, hr_recorded_ms = unix_ms now\<rparr>]
       \<or> tables s' = tables s))"
  using assms
proof (rule detect_Inr)
  fix s1 pb cb q
  let ?k = "ceid_str (change_event_id sha ev)"
  assume t: "tables s1 = tables s" and ev: "ev = \<lparr>ce_watch = w, ce_previous = p, ce_current = c,
      ce_result = compute_change_result pb cb, ce_detected_at = now\<rparr>" and q: "ser cc ev = Inr q"
    and a: "append_history ?k 1 q now s1 = (Inr (), s') \<or> append_history ?k 1 q now s1 = (Inl HistoryAlreadyExists, s')"
  from a show ?thesis
  proof
    assume b: "append_history ?k 1 q now s1 = (Inr (), s')"
    have "history_at s1 = history_at s" using t by (simp add: history_at_def tables_def)
    then show ?thesis
      using append_history_at(1) [OF b] append_history_Inr(2) [OF b] t ev q by (auto simp: tables_def)
  next
    assume "append_history ?k 1 q now s1 = (Inl HistoryAlreadyExists, s')"
    then have "tables s' = tables s" using append_history_Inl t by metis
    then show ?thesis using ev q by simp
  qed
qed

text \<open>Recording a comparison is idempotent on the store: when the event was already recorded,
  a later detection of the same comparison, after any operations, succeeds without
  writing, and the ledger still holds the first event.  What it returns is not that event
  but one with its own detection time.\<close>

theorem repeated_detection:
  assumes first: "detect_and_record_change sha ce cs cc now w p c s = (Inr ev, s1)"
    and fresh: "history_at s (ceid_str (change_event_id sha ev), 1) = None" "tables s1 \<noteq> tables s"
    and ok: "store_ok s" "codec_ok cc" "ledger_run cs ca ci s1 s2"
    and again: "detect_and_record_change sha ce' cs cc' now' w p c s2 = (Inr ev', s3)" "healthy s3"
  shows "tables s3 = tables s2 \<and> ce_detected_at ev' = now' \<and>
    change_event_id sha ev' = change_event_id sha ev \<and>
    read_change_event cc (change_event_id sha ev') s3 = (Inr (Some ev), s3)"
proof -
  let ?k = "ceid_str (change_event_id sha ev)"
  note o1 = detect_append_outcome [OF first] and o2 = detect_append_outcome [OF again(1)]
  have same: "change_event_id sha ev' = change_event_id sha ev"
    using o1 o2 by (simp add: change_event_id_def)
  obtain q where q: "ser cc ev = Inr q" and rows: "history_rows s1 = history_rows s @
      [\<lparr>hr_identity = ?k, hr_revision = 1, hr_state = q, hr_recorded_ms = unix_ms now\<rparr>]"
    using o1 fresh by auto
  have g: "grows s s1" using keepsD [OF keeps_grows_detect grows_refl first] .
  have g2: "grows s1 s2" by (rule ledger_run_grows [OF ok(3)])
  have pre: "prefix (history_rows s1) (history_rows s2)" and ok2: "store_wf s1" "store_wf s2"
    using g g2 ok(1) unfolding grows_def store_ok_def by blast+
  have mem: "\<lparr>hr_identity = ?k, hr_revision = 1, hr_state = q, hr_recorded_ms = unix_ms now\<rparr> \<in> set (history_rows s2)"
    using rows pre by (auto dest!: set_mono_prefix)
  then have at: "history_at s2 (?k, 1) = Some (q, unix_ms now)"
    using history_at_row ok2(2) by (simp add: store_wf_def)
  then have t: "tables s3 = tables s2" using o2 same by auto
  have "store_wf s3" using t ok2(2) by (simp add: store_wf_def hist_distinct_def hist_positive_def tables_def)
  moreover have "history_at s3 (?k, 1) = Some (q, unix_ms now)"
    using at t by (simp add: history_at_def tables_def)
  ultimately have "read_change_event cc (change_event_id sha ev') s3 = (Inr (Some ev), s3)"
    using read_first_recorded [OF _ again(2), of ?k q "unix_ms now" cc ChangePersistence ChangeSerialization]
      codec_okD [OF ok(2) q] same
    by (simp add: read_change_event_def)
  then show ?thesis using t same o2 by simp
qed

section \<open>Health\<close>

text \<open>The evidence part of the health report, when every reference of the watch can be looked
  up: unknown without evidence, failed when the latest reference does not resolve,
  degraded when only an older one does not, healthy otherwise; and looking changes
  nothing.\<close>

theorem evidence_health_exact:
  assumes "healthy s" "\<forall>e \<in> set refs. \<exists>b. ledger_state ce s e = Inr b"
  shows "assess_evidence ce refs s =
    (Inr (if refs = [] then Unknown
          else if ledger_state ce s (last refs) = Inr None then Failed
          else if \<exists>e \<in> set (butlast refs). ledger_state ce s e = Inr None then Degraded
          else Healthy), s)"
proof (cases "refs = []")
  case False
  then obtain b where b: "ledger_state ce s (last refs) = Inr b" using assms(2) last_in_set by blast
  have "\<And>e. e \<in> set (butlast refs) \<Longrightarrow> \<exists>b. ledger_state ce s e = Inr b"
    using assms(2) in_set_butlastD by fast
  note rest = all_historical_healthy [OF assms(1) this]
  show ?thesis
    using False b rest resolves_healthy [OF assms(1) b]
    by (cases b) (simp_all add: assess_evidence_def act_bind_def)
qed (simp add: assess_evidence_def)

text \<open>A health report is observational and consistent: it changes neither table, it says
  healthy execution exactly when the watch has evidence, and then its evidence status is
  not unknown.\<close>

theorem health_report_observational:
  assumes "assess_watch_health sha cd cs csch ce cc i s = (Inr report, s')"
  shows "tables s' = tables s \<and> whr_watch report = i \<and>
    (whr_execution report = Unknown \<longleftrightarrow> whr_evidence report = Unknown) \<and>
    (whr_evidence report = Unknown \<longrightarrow> whr_change_detection report = TypeLevelReady)"
proof -
  have hist: "all_historical_resolve ce es t = (Inr x, t') \<Longrightarrow> x \<noteq> Unknown" for es t x t'
    by (induction es arbitrary: t) (auto simp: act_bind_Inr_iff split: if_splits)
  have ev: "assess_evidence ce es t = (Inr x, t') \<Longrightarrow> x = Unknown \<longleftrightarrow> es = []" for es t x t'
    by (auto simp: assess_evidence_def act_bind_Inr_iff split: if_splits dest: hist)
  have cd: "assess_change_detection sha cc i [] t = (Inr x, t') \<Longrightarrow> x = TypeLevelReady" for t x t'
    by (simp add: assess_change_detection_def)
  show ?thesis
    using assms frameD [OF frame_assess_watch_health assms]
    by (auto simp: assess_watch_health_def act_bind_Inr_iff Let_def assess_execution_def
        dest!: ev dest: cd split: if_splits)
qed

end
