(* ===== verification/Network_Properties.thy ===== *)
theory Network_Properties
  imports Codecs
begin

text \<open>
  Properties of the transport guards: redirects, internal addresses, the Tor endpoint
  grammar, target planning and the crawl boundary.
\<close>

section \<open>Redirect chains\<close>

text \<open>
  A chain of redirects that the installed policy followed: every URL after the first was
  accepted with the URLs before it as the hops so far.
\<close>

definition followed :: "(url \<Rightarrow> url list \<Rightarrow> hop) \<Rightarrow> url list \<Rightarrow> bool" where
  "followed pol us \<longleftrightarrow> us \<noteq> [] \<and> (\<forall>i < length us. 0 < i \<longrightarrow> pol (us ! i) (take i us) = Follow)"

lemma pinned_follow:
  assumes "pin_redirect_policy (ssrf_screened_base_policy limit) policy next (start # rest) = Follow"
  shows "\<not> is_ssrf_redirect next \<and> length rest < TOR_REDIRECT_LIMIT \<and>
    (case policy of PolicyDefault \<Rightarrow> \<not> is_onion_url next
       | PolicyTor _ \<Rightarrow> is_onion_url next = is_onion_url start \<and>
           (is_onion_url start \<longrightarrow> u_host_str next = u_host_str start))"
  using assms
  by (auto simp: pin_redirect_policy_def canonical_redirect_decision_def Let_def
      split: if_splits transport_policy.splits sum.splits)

text \<open>C34. A request under the pinned redirect policy ends where it may: the chain has at most
  seven redirects; no followed URL is classified as internal; without Tor no followed URL
  is an onion service; under Tor the chain never crosses between onion and clearnet, and
  a chain that starts at an onion service stays at that host.\<close>

theorem redirects_confined:
  assumes "followed (pin_redirect_policy (ssrf_screened_base_policy limit) policy) (start # rest)"
  shows "length rest \<le> TOR_REDIRECT_LIMIT \<and>
    (\<forall>u \<in> set rest. \<not> is_ssrf_redirect u \<and>
      (case policy of PolicyDefault \<Rightarrow> \<not> is_onion_url u
         | PolicyTor _ \<Rightarrow> is_onion_url u = is_onion_url start \<and>
             (is_onion_url start \<longrightarrow> u_host_str u = u_host_str start)))"
proof -
  have hop: "\<not> is_ssrf_redirect (rest ! i) \<and> i < TOR_REDIRECT_LIMIT \<and>
      (case policy of PolicyDefault \<Rightarrow> \<not> is_onion_url (rest ! i)
         | PolicyTor _ \<Rightarrow> is_onion_url (rest ! i) = is_onion_url start \<and>
             (is_onion_url start \<longrightarrow> u_host_str (rest ! i) = u_host_str start))"
    if "i < length rest" for i
  proof -
    have "pin_redirect_policy (ssrf_screened_base_policy limit) policy ((start # rest) ! Suc i)
        (take (Suc i) (start # rest)) = Follow"
      using assms that unfolding followed_def by (metis Suc_less_eq length_Cons zero_less_Suc)
    then have "pin_redirect_policy (ssrf_screened_base_policy limit) policy (rest ! i)
        (start # take i rest) = Follow" by simp
    from pinned_follow [OF this] that show ?thesis by simp
  qed
  have "length rest \<le> TOR_REDIRECT_LIMIT"
    using hop [of "length rest - 1"] by (cases rest) auto
  then show ?thesis using hop by (auto simp: in_set_conv_nth)
qed

definition plain_url :: "string \<Rightarrow> url" where
  "plain_url host = \<lparr>u_as_str = ''http://'' @ host, u_scheme = ''http'', u_username = [], u_password = None,
     u_host_str = Some host, u_port = None, u_path = ''/'', u_query = None, u_fragment = None\<rparr>"

text \<open>A name that starts neither with a hexadecimal digit nor with a colon is no address.\<close>

lemma named_host:
  assumes "hex_value c = None" "c \<noteq> CHR '':''"
  shows "parse_ip_addr (c # s) = None"
proof -
  have num: "read_number r m z b (c # s) = None" for r m z b
    using assms by (simp add: read_number_def radix_value_def)
  have "read_octets (Suc k) 0 (c # s) = None" for k
    using num by (simp add: read_separator_def)
  from this [of 3] have v4: "read_ipv4_addr (c # s) = None" by (simp add: read_ipv4_addr_def)
  have "read_groups (Suc k) 0 (c # s) = ([], False, c # s)" for k
    using v4 num by (simp add: read_separator_def)
  from this [of 7] have "read_groups 8 0 (c # s) = ([], False, c # s)" by simp
  then show ?thesis using v4 assms(2) by (simp add: parse_ip_addr_def read_ipv6_addr_def read_given_char_def)
qed

lemma redirects_confined_witness:
  "\<not> is_ssrf_redirect (plain_url ''site.org'') \<and> \<not> is_onion_url (plain_url ''site.org'')"
proof -
  have "\<not> is_ssrf_redirect (plain_url ''site.org'')"
    by (simp add: plain_url_def is_ssrf_redirect_def ip_host_def named_host hex_value_def suffix_to_prefix)
  moreover have "\<not> is_onion_url (plain_url ''site.org'')" by code_simp
  ultimately have "pin_redirect_policy (ssrf_screened_base_policy 7) PolicyDefault (plain_url ''site.org'') [plain_url ''a.se'']
      = Follow"
    by (simp add: pin_redirect_policy_def ssrf_screened_base_policy_def canonical_redirect_decision_def
        TOR_REDIRECT_LIMIT_def)
  then have "followed (pin_redirect_policy (ssrf_screened_base_policy 7) PolicyDefault)
      [plain_url ''a.se'', plain_url ''site.org'']"
    by (auto simp: followed_def less_Suc_eq)
  from redirects_confined [OF this] show ?thesis by simp
qed

section \<open>Internal addresses\<close>

lemma hex_value_digit [simp]: "n < 10 \<Longrightarrow> hex_value (digit_char n) = Some n"
  by (drule less_10_cases) (elim disjE; simp add: digit_char_def hex_value_def)

text \<open>Reading a printed number back, up to the next separator.\<close>

definition stops :: "string \<Rightarrow> bool" where
  "stops rest \<longleftrightarrow> (case rest of [] \<Rightarrow> True | c # _ \<Rightarrow> radix_value 10 c = None)"

lemma read_digits_stop: "stops rest \<Longrightarrow> read_digits 10 m b acc n rest = Some (acc, n, rest)"
  by (cases rest) (auto simp: stops_def)

lemma show_nat_small: "n < 10 \<Longrightarrow> show_nat n = [digit_char n]"
  by (subst show_nat.simps) simp

lemma show_nat_large: "10 \<le> n \<Longrightarrow> show_nat n = show_nat (n div 10) @ [digit_char (n mod 10)]"
  by (subst show_nat.simps) simp

lemma show_nat_two: "10 \<le> n \<Longrightarrow> n < 100 \<Longrightarrow> show_nat n = [digit_char (n div 10), digit_char (n mod 10)]"
  by (simp add: show_nat_large show_nat_small)

lemma show_nat_three:
  "100 \<le> n \<Longrightarrow> n < 256 \<Longrightarrow>
    show_nat n = [digit_char (n div 100), digit_char (n div 10 mod 10), digit_char (n mod 10)]"
  by (simp add: show_nat_large [of n] show_nat_two div_mult2_eq [symmetric])

lemma digit_char_0: "n < 10 \<Longrightarrow> digit_char n = CHR ''0'' \<longleftrightarrow> n = 0"
  by (drule less_10_cases) (elim disjE; simp add: digit_char_def)

lemma read_number_show:
  assumes "n < 256" "stops rest"
  shows "read_number 10 3 False 255 (show_nat n @ rest) = Some (n, rest)"
proof -
  have radix: "k < 10 \<Longrightarrow> radix_value 10 (digit_char k) = Some k" for k
    by (simp add: radix_value_def)
  consider "n < 10" | "10 \<le> n" "n < 100" | "100 \<le> n" by linarith
  then show ?thesis
  proof cases
    case 1
    then show ?thesis
      using assms by (simp add: read_number_def show_nat_small radix read_digits_stop)
  next
    case 2
    have "digit_char (n div 10) \<noteq> CHR ''0''" using 2 by (subst digit_char_0) auto
    then show ?thesis
      using 2 assms by (simp add: read_number_def show_nat_two radix read_digits_stop)
  next
    case 3
    define x y z where "x = n div 100" and "y = n div 10 mod 10" and "z = n mod 10"
    have xyz: "x < 10" "y < 10" "z < 10" "(x * 10 + y) * 10 + z = n" "0 < x"
      using assms 3 div_mult_mod_eq [of "n div 10" 10] div_mult_mod_eq [of n 10] div_mult2_eq [of n 10 10]
      unfolding x_def y_def z_def by auto
    have shown: "show_nat n = [digit_char x, digit_char y, digit_char z]"
      unfolding x_def y_def z_def by (rule show_nat_three [OF 3 assms(1)])
    have "digit_char x \<noteq> CHR ''0''" using xyz by (subst digit_char_0) auto
    moreover have "x * 10 + y \<le> 255" "x \<le> 255" using xyz assms(1) by linarith+
    ultimately show ?thesis
      using xyz assms unfolding read_number_def shown by (simp add: radix read_digits_stop)
  qed
qed

definition dotted :: "nat \<Rightarrow> nat \<Rightarrow> nat \<Rightarrow> nat \<Rightarrow> string" where
  "dotted a b c d = show_nat a @ CHR ''.'' # show_nat b @ CHR ''.'' # show_nat c @ CHR ''.'' # show_nat d"

lemma stops_dot [simp]: "stops (CHR ''.'' # s)" "stops []"
  by (simp_all add: stops_def radix_value_def hex_value_def)

lemma read_octets_4:
  "read_octets 4 0 s = read_octets (Suc (Suc (Suc (Suc 0)))) 0 s"
  by (simp add: numeral_eq_Suc)

lemma parse_dotted:
  assumes "a < 256" "b < 256" "c < 256" "d < 256"
  shows "parse_ip_addr (dotted a b c d) = Some (V4 [a, b, c, d])"
proof -
  have d: "read_number 10 3 False 255 (show_nat d) = Some (d, [])"
    using read_number_show [of d "[]"] assms by simp
  have "read_ipv4_addr (dotted a b c d) = Some ([a, b, c, d], [])"
    unfolding read_ipv4_addr_def dotted_def read_octets_4
    using assms by (simp add: read_separator_def read_given_char_def read_number_show d)
  then show ?thesis by (simp add: parse_ip_addr_def)
qed

lemma show_nat_chars: "set (show_nat n) \<subseteq> set ''.0123456789''"
  using show_nat_digits [of n] by (simp only: list.set) (rule subsetI, drule subsetD, assumption, blast)

lemma dotted_chars: "set (dotted a b c d) \<subseteq> set ''.0123456789''"
  unfolding dotted_def set_append list.set(2) using show_nat_chars
  by (simp only: Un_subset_iff insert_subset) simp

text \<open>C35. For every URL whose host is an IPv4 address in dotted decimal form, the redirect guard
  refuses exactly the internal ones: loopback, the three private ranges, link-local with
  the cloud metadata address, the unspecified and the broadcast address, and 0.0.0.0/8.\<close>

theorem ipv4_hosts_classified:
  assumes "a < 256" "b < 256" "c < 256" "d < 256" "u_scheme u = ''http'' \<or> u_scheme u = ''https''"
    and "u_host_str u = Some (dotted a b c d)"
  shows "is_ssrf_redirect u \<longleftrightarrow>
    a \<in> {0, 10, 127} \<or> a = 172 \<and> 16 \<le> b \<and> b \<le> 31 \<or> [a, b] = [192, 168] \<or> [a, b] = [169, 254] \<or>
    [a, b, c, d] = [255, 255, 255, 255]"
proof -
  let ?h = "dotted a b c d"
  note parse = parse_dotted [OF assms(1-4)]
  have no: "?h \<noteq> s" if "x \<in> set s" "x \<notin> set ''.0123456789''" for x s
    using dotted_chars [of a b c d] that by blast
  have names: "?h \<noteq> ''localhost''" "?h \<noteq> ''[::1]''" "?h \<noteq> ''[::0]''" "?h \<noteq> ''metadata.google.internal''"
    "?h \<noteq> ''metadata.goog''" "\<not> suffix ''.localhost'' ?h"
    using no [of "CHR ''l''" "''localhost''"] no [of "CHR '':''" "''[::1]''"] no [of "CHR '':''" "''[::0]''"]
      no [of "CHR ''m''" "''metadata.google.internal''"] no [of "CHR ''m''" "''metadata.goog''"]
      dotted_chars [of a b c d] by (auto simp: suffix_def)
  have zero: "?h = ''0.0.0.0'' \<Longrightarrow> [a, b, c, d] = [0, 0, 0, 0]"
  proof -
    have "''0.0.0.0'' = dotted 0 0 0 0" by (simp add: dotted_def show_nat_small digit_char_def)
    then show "?h = ''0.0.0.0'' \<Longrightarrow> [a, b, c, d] = [0, 0, 0, 0]"
      using parse parse_dotted [of 0 0 0 0] by simp
  qed
  have meta: "?h = ''169.254.169.254'' \<Longrightarrow> [a, b, c, d] = [169, 254, 169, 254]"
  proof -
    have "''169.254.169.254'' = dotted 169 254 169 254"
      by (simp add: dotted_def show_nat_three digit_char_def)
    then show "?h = ''169.254.169.254'' \<Longrightarrow> [a, b, c, d] = [169, 254, 169, 254]"
      using parse parse_dotted [of 169 254 169 254] by simp
  qed
  have "CHR ''['' \<notin> set ?h" using dotted_chars [of a b c d] by auto
  then have "ip_host ?h = ?h" by (auto simp: ip_host_def strip_prefix_Some split: option.splits)
  then show ?thesis
    using assms(5,6) parse names zero meta by (auto simp: is_ssrf_redirect_def)
qed

lemma ipv4_hosts_classified_witness:
  "is_ssrf_redirect (plain_url (dotted 172 31 0 1)) \<and> \<not> is_ssrf_redirect (plain_url (dotted 172 32 0 1))"
  using ipv4_hosts_classified [of 172 31 0 1 "plain_url (dotted 172 31 0 1)"]
    ipv4_hosts_classified [of 172 32 0 1 "plain_url (dotted 172 32 0 1)"]
  by (simp add: plain_url_def)

section \<open>Fully qualified spellings\<close>

text \<open>No reader of \<open>core::net\<close> gets past a final dot, so a name that ends with one is no address.\<close>

definition ends_dot :: "string \<Rightarrow> bool" where
  "ends_dot s \<longleftrightarrow> s \<noteq> [] \<and> last s = CHR ''.''"

lemma ends_dot_Cons: "ends_dot (c # s) \<Longrightarrow> c \<noteq> CHR ''.'' \<or> s \<noteq> [] \<Longrightarrow> ends_dot s"
  by (auto simp: ends_dot_def split: if_splits)

lemma read_digits_dot: "read_digits r m b acc n s = Some (v, k, s') \<Longrightarrow> ends_dot s \<Longrightarrow> ends_dot s'"
proof (induction r m b acc n s rule: read_digits.induct)
  case (2 r m b acc n c cs)
  show ?case
  proof (cases "radix_value r c")
    case (Some d)
    then have "c \<noteq> CHR ''.''" by (auto simp: radix_value_def hex_value_def)
    then show ?thesis using 2 Some ends_dot_Cons [of c cs] by (auto split: if_splits)
  qed (use 2 in simp)
qed simp

lemma read_number_dot: "read_number r m z b s = Some (v, s') \<Longrightarrow> ends_dot s \<Longrightarrow> ends_dot s'"
  by (auto simp: read_number_def Let_def split: option.splits if_splits dest: read_digits_dot)

lemma read_number_empty [simp]: "read_number r m z b [] = None"
  by (simp add: read_number_def)

lemma read_separator_dot:
  assumes "read_separator sep i inner s = Some (v, s')" "ends_dot s"
    and "\<And>t v t'. inner t = Some (v, t') \<Longrightarrow> ends_dot t \<Longrightarrow> ends_dot t'" "inner [] = None"
  shows "ends_dot s'"
proof (cases "i = 0")
  case True
  then show ?thesis using assms by (simp add: read_separator_def)
next
  case False
  then obtain t where t: "s = sep # t" "inner t = Some (v, s')"
    using assms(1) by (auto simp: read_separator_def read_given_char_def split: list.splits if_splits)
  then have "t \<noteq> []" using assms(4) by auto
  then show ?thesis using t assms(2,3) ends_dot_Cons by blast
qed

lemma read_separator_number_dot:
  assumes "read_separator sep i (read_number r m z b) s = Some (v, s')" "ends_dot s"
  shows "ends_dot s'"
  by (rule read_separator_dot [OF assms]) (simp_all add: read_number_dot)

lemma read_octets_dot: "read_octets k i s = Some (ns, s') \<Longrightarrow> ends_dot s \<Longrightarrow> ends_dot s'"
proof (induction k i s arbitrary: ns rule: read_octets.induct)
  case (2 k i s)
  from "2.prems"(1) obtain n t ms where
    t: "read_separator (CHR ''.'') i (read_number 10 3 False 255) s = Some (n, t)"
    and rest: "read_octets k (i + 1) t = Some (ms, s')"
    by (auto split: option.splits prod.splits)
  show ?case using "2.IH" [OF t refl rest] read_separator_number_dot [OF t "2.prems"(2)] by blast
qed simp

lemma read_ipv4_dot: "read_ipv4_addr s = Some (v, s') \<Longrightarrow> ends_dot s \<Longrightarrow> ends_dot s'"
  unfolding read_ipv4_addr_def by (rule read_octets_dot)

lemma read_ipv4_empty [simp]: "read_ipv4_addr [] = None"
  by (simp add: read_ipv4_addr_def read_separator_def numeral_eq_Suc)

lemma read_separator_ipv4_dot:
  assumes "read_separator sep i read_ipv4_addr s = Some (v, s')" "ends_dot s"
  shows "ends_dot s'"
  by (rule read_separator_dot [OF assms]) (simp_all add: read_ipv4_dot)

lemma read_groups_dot: "read_groups k i s = (gs, v4, s') \<Longrightarrow> ends_dot s \<Longrightarrow> ends_dot s'"
proof (induction k i s arbitrary: gs v4 s' rule: read_groups.induct)
  case (2 k i s)
  let ?v4 = "if 0 < k then read_separator (CHR '':'') i read_ipv4_addr s else None"
  let ?num = "read_separator (CHR '':'') i (read_number 16 4 True 65535) s"
  show ?case
  proof (cases ?v4)
    case (Some v)
    then have "?v4 = Some (fst v, s')" using "2.prems"(1) by (cases v) auto
    then have "read_separator (CHR '':'') i read_ipv4_addr s = Some (fst v, s')" by (simp split: if_splits)
    then show ?thesis using read_separator_ipv4_dot "2.prems"(2) by blast
  next
    case none: None
    show ?thesis
    proof (cases ?num)
      case None
      then show ?thesis using none 2 by simp
    next
      case (Some x)
      then obtain g r where num: "?num = Some (g, r)" by (cases x) auto
      obtain ns w q where rest: "read_groups k (i + 1) r = (ns, w, q)" by (metis prod_cases3)
      have "q = s'" using "2.prems"(1) num rest by (simp only: read_groups.simps none) simp
      then show ?thesis
        using "2.IH" [OF none num refl rest] read_separator_number_dot [OF num "2.prems"(2)] by blast
    qed
  qed
qed simp

lemma read_colon_dot: "read_given_char (CHR '':'') s = Some s' \<Longrightarrow> ends_dot s \<Longrightarrow> ends_dot s'"
  using ends_dot_Cons by (auto simp: read_given_char_def split: list.splits if_splits)

lemma read_ipv6_dot: "read_ipv6_addr s = Some (v, s') \<Longrightarrow> ends_dot s \<Longrightarrow> ends_dot s'"
  by (auto simp: read_ipv6_addr_def split: option.splits prod.splits if_splits
      dest!: read_groups_dot read_colon_dot)

lemma dotted_name_no_address: "parse_ip_addr (h @ ''.'') = None"
proof -
  have "ends_dot (h @ ''.'')" by (simp add: ends_dot_def)
  then show ?thesis
    using read_ipv4_dot [of "h @ ''.''"] read_ipv6_dot [of "h @ ''.''"]
    by (auto simp: parse_ip_addr_def ends_dot_def split: option.splits list.splits)
qed

text \<open>C36. Every host name written with a trailing dot, the fully qualified spelling, passes the
  redirect guard, whatever the name is: for \<open>localhost.\<close>, \<open>a.localhost.\<close> and
  \<open>metadata.google.internal.\<close> the guard does not refuse what it refuses without the dot, and
  a redirect there is followed under the default policy within the limit, unless the name
  is an onion name.  The onion classifier of the same module answers alike with and
  without the dot.\<close>

theorem trailing_dot_passes_guard:
  assumes "u_scheme u = ''http'' \<or> u_scheme u = ''https''" "u_host_str u = Some (h @ ''.'')"
  shows "\<not> is_ssrf_redirect u \<and> is_onion_url u = is_onion_url (u\<lparr>u_host_str := Some h\<rparr>) \<and>
    (\<not> is_onion_url u \<and> length previous \<le> limit \<and> length previous \<le> 7 \<longrightarrow>
      pin_redirect_policy (ssrf_screened_base_policy limit) PolicyDefault u previous = Follow) \<and>
    (h = ''localhost'' \<or> suffix ''.localhost'' h \<or> h = ''metadata.google.internal'' \<or> h = ''metadata.goog'' \<longrightarrow>
      is_ssrf_redirect (u\<lparr>u_host_str := Some h\<rparr>))"
proof -
  have last: "h @ ''.'' \<noteq> s" "\<not> suffix s (h @ ''.'')" if "s \<noteq> []" "last s \<noteq> CHR ''.''" for s
    using that by (auto simp: suffix_def) (metis last_appendR last_snoc)
  have "ip_host (h @ ''.'') = h @ ''.''"
  proof (cases "strip_prefix ''['' (h @ ''.'')")
    case (Some g)
    then have "CHR ''['' # g = h @ ''.''" by (simp add: strip_prefix_Some)
    moreover have "ends_dot (h @ ''.'')" by (simp add: ends_dot_def)
    ultimately have "ends_dot g" using ends_dot_Cons [of "CHR ''[''" g] by simp
    then have "strip_suffix '']'' g = None"
      by (cases g rule: rev_cases) (auto simp: strip_suffix_def ends_dot_def)
    then show ?thesis using Some by (simp add: ip_host_def)
  qed (simp add: ip_host_def)
  then have pass: "\<not> is_ssrf_redirect u"
    using assms last by (auto simp: is_ssrf_redirect_def dotted_name_no_address)
  moreover have "is_onion_url u = is_onion_url (u\<lparr>u_host_str := Some h\<rparr>)"
    using assms(2) by (simp add: is_onion_url_def is_onion_host_def trim_end_dots_def)
  moreover have "pin_redirect_policy (ssrf_screened_base_policy limit) PolicyDefault u previous = Follow"
    if "\<not> is_onion_url u" "length previous \<le> limit" "length previous \<le> 7"
    using that pass by (simp add: pin_redirect_policy_def ssrf_screened_base_policy_def
        canonical_redirect_decision_def TOR_REDIRECT_LIMIT_def Let_def)
  ultimately show ?thesis using assms(1) by (auto simp: is_ssrf_redirect_def)
qed

lemma trailing_dot_passes_guard_witness:
  "is_ssrf_redirect (plain_url ''localhost'') \<and>
   pin_redirect_policy (ssrf_screened_base_policy 7) PolicyDefault (plain_url ''localhost.'') [plain_url ''a.se''] = Follow"
proof -
  have "\<not> is_onion_url (plain_url ''localhost.'')" by code_simp
  then show ?thesis
    using trailing_dot_passes_guard [of "plain_url ''localhost.''" "''localhost''" "[plain_url ''a.se'']" 7]
    by (simp add: plain_url_def is_ssrf_redirect_def)
qed

section \<open>Policies, targets, boundary\<close>

text \<open>A transport request becomes the Tor policy exactly when it names Tor and gives an
  endpoint that parses as \<open>socks5h\<close> with host and explicit port and without credentials,
  path, query and fragment; it becomes the default policy exactly when it asks for the
  default and gives no endpoint; nothing is guessed.\<close>

theorem policy_exact:
  "(into_policy parse req = Inr (PolicyTor (TorTransportConfig s)) \<longleftrightarrow>
      tr_mode req = ModeTor \<and>
      (\<exists>endpoint u. tr_proxy req = Some endpoint \<and> parse endpoint = Inr u \<and> s = u_as_str u \<and>
         u_scheme u = ''socks5h'' \<and> u_username u = [] \<and> u_password u = None \<and> u_host_str u \<noteq> None \<and>
         u_port u \<noteq> None \<and> u_path u = [] \<and> u_query u = None \<and> u_fragment u = None)) \<and>
   (into_policy parse req = Inr PolicyDefault \<longleftrightarrow> tr_mode req = ModeDefault \<and> tr_proxy req = None)"
  by (cases "tr_mode req"; cases "tr_proxy req")
     (auto simp: into_policy_def tor_config_new_def res_bind_def map_err_def split: sum.splits)

text \<open>A crawl stays inside the boundary its seed was validated for: every URL the boundary
  allows is itself admissible under the policy, is an onion service exactly when the seed
  is, and then has the seed's host, up to case.\<close>

theorem boundary_confines_crawl:
  assumes "validate_target seed policy = Inr ()"
    and "crawl_boundary_allows (boundary_from_seed policy seed) u"
  shows "validate_target u policy = Inr () \<and> is_onion_url u = is_onion_url seed \<and>
    (is_onion_url seed \<longrightarrow> (\<exists>h h'. u_host_str u = Some h \<and> u_host_str seed = Some h' \<and>
       eq_ignore_ascii_case h h'))"
  using assms
  by (cases policy)
     (auto simp: validate_target_def boundary_from_seed_def crawl_boundary_allows_def Let_def
        eq_ignore_ascii_case_def is_onion_url_def split: bool.splits if_splits option.splits)

text \<open>Planning answers every input, in order, and a planned target can be bound exactly when
  the request converts to a policy that admits it: planned targets parse, are http or
  https and carry no credentials; a binding keeps the target's URL and never pairs an
  onion service with the default transport.\<close>

theorem planned_targets_bound_safely:
  assumes idem: "\<forall>s u. parse s = Inr u \<longrightarrow> parse (u_as_str u) = Inr u"
    and "i < length inputs" "plan parse inputs ! i = Inr target"
    and "bind_target parse target req = Inr b"
  shows "length (plan parse inputs) = length inputs \<and> ab_url b = dt_url target \<and>
    into_policy parse req = Inr (ab_transport b) \<and>
    (\<exists>u. parse (ab_url b) = Inr u \<and> (u_scheme u = ''http'' \<or> u_scheme u = ''https'') \<and>
       u_username u = [] \<and> u_password u = None \<and> (ab_transport b = PolicyDefault \<longrightarrow> \<not> is_onion_url u))"
proof -
  have "plan_input parse (inputs ! i) = Inr target" using assms(2,3) by (simp add: plan_def)
  then obtain s k v where "plan_one parse s k v = Inr target" by (cases "inputs ! i") auto
  then obtain u where u: "parse (dt_url target) = Inr u" "u_scheme u = ''http'' \<or> u_scheme u = ''https''"
      "u_username u = []" "u_password u = None"
    using idem by (auto simp: plan_one_def split: sum.splits if_splits)
  from bind_target_Inr [OF assms(4)] u show ?thesis
    by (auto simp: plan_def validate_target_def Let_def split: bool.splits)
qed

end
