(* ===== verification/Research_Properties.thy ===== *)
theory Research_Properties
  imports Codecs
begin

text \<open>
  Properties of the research engine and of durable research sessions: the excerpts shown
  to a model, what a result may contain, the limits of a run, and what is stored of it.
\<close>

section \<open>Excerpts and cleaned HTML\<close>

lemma text_ok_ascii: "\<forall>c \<in> set s. (of_char c :: nat) < 128 \<Longrightarrow> text_ok s"
  by (force simp: text_ok_def continuation_byte_def dest: nth_mem)

text \<open>C39. The excerpt of a document is made for every budget without a slice that would panic, and
  it fits the budget; it is the document, nothing, or pieces of the document in order, each
  from one character boundary to another, with the omission marker between them.\<close>

theorem excerpt_fits_budget:
  assumes "text_ok s"
  shows "\<exists>t. select_bounded_research_markdown s budget = Some t \<and> length t \<le> budget \<and>
    (t = s \<or> t = [] \<or> (\<exists>rs. ranges_in s 0 (length s) rs \<and> push_ranges s True rs = Some t))"
  using select_bounded_ok [OF assms, of budget] by metis

lemma excerpt_fits_budget_witness:
  "\<exists>t. select_bounded_research_markdown ''# A'' 2 = Some t \<and> length t \<le> 2"
  using excerpt_fits_budget [OF text_ok_ascii, of "''# A''" 2] by auto

text \<open>The sections of a document are its pieces between headings of the highest level that
  repeats: they are disjoint, in order, cut at character boundaries, and together they
  are the document.\<close>

theorem sections_partition_document:
  assumes "text_ok s" "s \<noteq> []"
  shows "ranges_in s 0 (length s) (research_markdown_sections s) \<and>
    concat (map (\<lambda>(a, b). take (b - a) (drop a s)) (research_markdown_sections s)) = s"
proof -
  define h where "h = scan_headings s"
  have h: "headings_ok s h" "hs_offset h = length s"
    using scan_headings_ok [OF assms(1)] by (simp_all add: h_def)
  have all: "concat (map (\<lambda>(a, b). take (b - a) (drop a s))
      (windows (0 # map fst (filter P (hs_headings h)) @ [length s]))) = s" for P
  proof -
    have "sorted (0 # map fst (filter P (hs_headings h)) @ [length s])"
      using h by (auto simp: headings_ok_def sorted_append intro: sorted_filter_fst)
    from windows_cover [OF this, of s] show ?thesis by simp
  qed
  then have "concat (map (\<lambda>(a, b). take (b - a) (drop a s)) (research_markdown_sections s)) = s"
    by (auto simp: research_markdown_sections_def Let_def h_def split: option.splits)
  with sections_ranges [OF assms] show ?thesis by simp
qed

lemma remove_tag_loop_subseq: "subseq (remove_tag_loop op cl s lower p) (drop p s)"
proof (induction op cl s lower p rule: remove_tag_loop.induct)
  case (1 op cl s lower p)
  show ?case
  proof (cases "p < length s")
    case False
    then show ?thesis by (simp add: remove_tag_loop.simps)
  next
    case p: True
    show ?thesis
    proof (cases "find_from op lower p")
      case None
      with p show ?thesis by (subst remove_tag_loop.simps) simp
    next
      case start: (Some a)
      have split: "drop p s = take a (drop p s) @ drop (p + a) s"
        by (metis append_take_drop_id drop_drop add.commute)
      have less: "subseq (drop (p + a + k) s) (drop (p + a) s)" for k
        by (metis add.commute drop_drop suffix_drop suffix_imp_subseq)
      show ?thesis
      proof (cases "find_from cl lower (p + a)")
        case None
        with p start show ?thesis
          by (subst remove_tag_loop.simps) (simp add: Let_def split [symmetric])
      next
        case end': (Some b)
        show ?thesis
        proof (cases "cl = []")
          case True
          have "remove_tag_loop op cl s lower p = take a (drop p s)"
            using p start end' True by (subst remove_tag_loop.simps) (simp add: Let_def)
          then show ?thesis by (metis prefix_imp_subseq take_is_prefix)
        next
          case False
          have "subseq (remove_tag_loop op cl s lower (p + a + b + length cl)) (drop (p + a) s)"
            using 1 [OF p start refl end' False] less [of "b + length cl"]
            by (metis add.assoc subseq_order.trans)
          moreover have "remove_tag_loop op cl s lower p =
              take a (drop p s) @ remove_tag_loop op cl s lower (p + a + b + length cl)"
            using p start end' False by (subst remove_tag_loop.simps) (simp add: Let_def)
          ultimately show ?thesis by (subst split) (simp add: list_emb_append_mono)
        qed
      qed
    qed
  qed
qed

lemma remove_tags_subseq: "subseq (remove_tags html tags) html"
proof (induction tags arbitrary: html)
  case (Cons tag tags)
  have "subseq (remove_tag tag html) html"
    using remove_tag_loop_subseq [of _ _ html _ 0] by (simp add: remove_tag_def)
  with Cons [of "remove_tag tag html"] show ?case
    by (simp add: remove_tags_def)
qed (simp_all add: remove_tags_def)

text \<open>Cleaning HTML only deletes: in every mode the result is a subsequence of the document.
  Deleting is done once per tag, so an element that is spread around another can come
  together by it.\<close>

theorem cleaning_only_deletes:
  "subseq (clean_html mode html) html \<and>
   clean_html CleanMinimal ''<scr<script></script>ipt>'' = ''<script>''"
proof -
  have "clean_html CleanMinimal ''<scr<script></script>ipt>'' = ''<script>''" by code_simp
  moreover have "subseq (clean_html mode html) html"
    by (cases mode) (simp_all add: remove_tags_subseq)
  ultimately show ?thesis by blast
qed

section \<open>A sample engine\<close>

text \<open>
  One search result, one page (\<open>sample_page\<close>), a model whose extraction has one fact and whose
  synthesis cites the given labels.
\<close>

definition sample_research_deps :: "string list \<Rightarrow> string agent_deps" where
  "sample_research_deps ids = \<lparr>parse_extraction = (\<lambda>_. Inr \<lparr>rx_facts = [\<lparr>xf_topic = ''t'', xf_finding = ''f''\<rparr>],
       rx_missing_evidence = []\<rparr>),
     parse_json_value = Inr,
     synthesis_of_value = (\<lambda>_. Inr \<lparr>vs_sufficient = True, vs_summary = ''ok'', vs_source_ids = ids\<rparr>),
     print_extraction = (\<lambda>_. ''{}''), materialize_markdown = (\<lambda>content url. Inr content),
     split_non_alphanumeric = (\<lambda>s. [s]), to_lowercase = to_ascii_lowercase\<rparr>"

definition sample_hit :: search_result where
  "sample_hit = \<lparr>sr_title = ''A'', sr_url = ''http://a.se/'', sr_snippet = None, sr_date = None, sr_position = 1\<rparr>"

definition sample_agent :: "string list \<Rightarrow> (string, session_world) agent" where
  "sample_agent ids = \<lparr>ag_deps = sample_research_deps ids,
     ag_llm = Some (\<lambda>req w. (Inr \<lparr>cr_content = ''x'', cr_usage = token_usage_default,
       cr_finish_reason = Some finish_reason.Stop\<rparr>, w)),
     ag_search_provider = Some (\<lambda>q opts w. (Inr \<lparr>srs_query = q, srs_results = [sample_hit],
       srs_total_results = None, srs_backend_failure = False\<rparr>, w)),
     ag_page_acquirer = None, ag_client = (\<lambda>url w. (Inl (Remote ''offline''), w)),
     ag_html_max_bytes = 50, ag_limits = usage_limits_new\<rparr>"

definition sample_session_env :: session_env where
  "sample_session_env = \<lparr>se_fetch_page = (\<lambda>n url. Inr sample_page), se_fresh_evidence = (\<lambda>n. sample_evidence),
     se_evidence_deps = sample_deps, se_utf8_lossy = map (\<lambda>b. char_of (unat b)),
     se_bundle_codec = table_codec [sample_bundle],
     se_session_codec = \<lparr>ser = (\<lambda>s. Inr [if se_state s = RClaimed then 0 else 1]), de = (\<lambda>_. Inl ''unread'')\<rparr>,
     se_now = 0\<rparr>"

definition sample_options :: "bool \<Rightarrow> research_options" where
  "sample_options synthesize = \<lparr>ro_max_pages = 1, ro_search_options = None, ro_extraction_prompt = None,
     ro_synthesize = synthesize\<rparr>"

definition sample_research_id :: research_id where "sample_research_id = ResearchId (replicate 16 3)"

definition sample_start :: "session_world agent_state" where
  "sample_start = \<lparr>ag_usage = usage_stats_new,
     ag_world = \<lparr>sw_store = empty_store [], sw_retained = [], sw_fetched = []\<rparr>\<rparr>"

section \<open>What a result may contain\<close>

lemma validate_facts_Inr:
  "validate_facts fs = Inr () \<longleftrightarrow> (\<forall>f \<in> set fs. char_count (xf_topic f) \<le> 40 \<and> char_count (xf_finding f) \<le> 240)"
  by (induction fs) auto

lemma validate_extraction_Inr:
  "validate_extraction x = Inr () \<longleftrightarrow>
    length (rx_facts x) \<le> 6 \<and>
    (\<forall>f \<in> set (rx_facts x). char_count (xf_topic f) \<le> 40 \<and> char_count (xf_finding f) \<le> 240) \<and>
    length (rx_missing_evidence x) \<le> 4 \<and> (\<forall>m \<in> set (rx_missing_evidence x). char_count m \<le> 160) \<and>
    (rx_facts x \<noteq> [] \<or> rx_missing_evidence x \<noteq> [])"
  by (auto simp: validate_extraction_def res_bind_Inr validate_facts_Inr not_le not_less)

text \<open>C38. A research result is bounded by the request and grounded in it: at most \<open>max_pages\<close>
  extractions, each within the limits on facts and missing evidence; a summary exactly with
  a verdict, never without synthesis being requested or without an extraction; it opens
  with the insufficiency phrase exactly when the verdict is insufficient; a sufficient one
  cites a source, and every citation names one of the extractions of this result.\<close>

theorem research_result_grounded:
  assumes "research a topic options st = (Inr r, st')"
  shows "rr_topic r = topic \<and> length (rr_extractions r) \<le> ro_max_pages options \<and>
    (\<forall>x \<in> set (rr_extractions r). length (rx_facts (px_extracted x)) \<le> 6 \<and>
       length (rx_missing_evidence (px_extracted x)) \<le> 4 \<and>
       (rx_facts (px_extracted x) \<noteq> [] \<or> rx_missing_evidence (px_extracted x) \<noteq> []) \<and>
       (\<forall>f \<in> set (rx_facts (px_extracted x)). char_count (xf_topic f) \<le> 40 \<and> char_count (xf_finding f) \<le> 240)) \<and>
    (rr_summary r = None \<longleftrightarrow> rr_synthesis_sufficient r = None) \<and>
    (rr_synthesis_sufficient r \<noteq> None \<longrightarrow> ro_synthesize options \<and> rr_extractions r \<noteq> []) \<and>
    (\<forall>s. rr_summary r = Some s \<longrightarrow>
       (prefix insufficient_prefix s \<longleftrightarrow> rr_synthesis_sufficient r = Some False)) \<and>
    (rr_synthesis_sufficient r = Some True \<longrightarrow> rr_synthesis_source_ids r \<noteq> []) \<and>
    set (rr_synthesis_source_ids r) \<subseteq> source_label ` {1..length (rr_extractions r)}"
proof -
  note r = research_Inr [OF assms]
  then have x: "\<forall>x \<in> set (rr_extractions r). validate_extraction (px_extracted x) = Inr ()"
    by (simp add: research_ok_def)
  show ?thesis
    using r x unfolding validate_extraction_Inr
    by (cases "rr_synthesis_sufficient r") (auto simp: research_ok_def)
qed

text \<open>The sample session, claimed, and the outcome of its research.\<close>

definition claim_outcome where
  "claim_outcome ids = claim_durable_research sample_session_env sample_research_id (Inr (sample_agent ids))
     ''topic'' (sample_options True) (ag_world sample_start)"

definition sample_claim :: "string list \<Rightarrow> string claimed_research" where
  "sample_claim ids = projr (fst (claim_outcome ids))"

definition research_outcome ::
  "string list \<Rightarrow> (agent_error + research_result) \<times> session_world agent_state" where
  "research_outcome ids = research (cl_agent (sample_claim ids)) ''topic'' (sample_options True)
     (sample_start\<lparr>ag_world := snd (claim_outcome ids)\<rparr>)"

definition sample_result :: "string list \<Rightarrow> research_result" where
  "sample_result ids = projr (fst (research_outcome ids))"

definition cited_twice :: "string list" where
  "cited_twice = [source_label 1, source_label 1]"

lemma sample_result_ids: "rr_synthesis_source_ids (sample_result cited_twice) = cited_twice"
  by code_simp

lemma sample_claim_Inr:
  "claim_durable_research sample_session_env sample_research_id (Inr (sample_agent cited_twice)) ''topic''
     (sample_options True) (ag_world sample_start) = (Inr (sample_claim cited_twice), snd (claim_outcome cited_twice))"
proof -
  have "\<not> isl (fst (claim_outcome cited_twice))" by code_simp
  then show ?thesis by (simp add: sample_claim_def claim_outcome_def prod_eq_iff)
qed

lemma sample_research_Inr:
  "research (cl_agent (sample_claim cited_twice)) ''topic'' (sample_options True)
     (sample_start\<lparr>ag_world := snd (claim_outcome cited_twice)\<rparr>) =
   (Inr (sample_result cited_twice), snd (research_outcome cited_twice))"
proof -
  have "\<not> isl (fst (research_outcome cited_twice))" by code_simp
  then show ?thesis by (simp add: sample_result_def research_outcome_def prod_eq_iff)
qed

lemma research_result_grounded_witness:
  "set cited_twice \<subseteq> source_label ` {1..length (rr_extractions (sample_result cited_twice))}"
  using research_result_grounded [OF sample_research_Inr] by (simp add: sample_result_ids)

lemma select_terms_filter:
  "length selected < MAX_TERMS \<Longrightarrow>
    select_terms d words selected = selected @ take (MAX_TERMS - length selected) (filter (salient d) words)"
proof (induction words arbitrary: selected)
  case (Cons w ws)
  show ?case
  proof (cases "length selected + 1 = MAX_TERMS")
    case True
    then have "MAX_TERMS - length selected = 1" by simp
    with True Cons show ?thesis by (simp add: Let_def)
  next
    case False
    then have "MAX_TERMS - length selected = Suc (MAX_TERMS - length (selected @ [w]))"
      using Cons.prems by simp
    with False Cons show ?thesis by (simp add: Let_def)
  qed
qed simp

text \<open>Salient words make the fallback query: it is the first eight words of the topic, in
  order, that are neither short nor stop words, joined by spaces; there is none when fewer
  than three remain, when the topic has at most two words, or when it would be the topic.\<close>

theorem focused_query_is_salient_prefix:
  "focused_research_query d topic =
     (let words = filter (\<lambda>w. w \<noteq> []) (split_non_alphanumeric d topic);
          terms = take 8 (filter (salient d) words)
      in if 2 < length words \<and> 3 \<le> length terms \<and>
            to_lowercase d (join_space terms) \<noteq> join_space (map (to_lowercase d) words)
         then Some (join_space terms) else None)"
proof -
  have "select_terms d words [] = take 8 (filter (salient d) words)" for words
    using select_terms_filter [of "[]" d words] by (simp add: MAX_TERMS_def)
  then show ?thesis unfolding focused_research_query_def Let_def
    by (auto simp: not_less not_le min_less_iff_disj)
qed

section \<open>Limits\<close>

text \<open>A whole research run, whatever the providers do and however it ends, never makes more
  model or search calls than the limits allow.\<close>

theorem calls_stay_within_limits:
  assumes "within (max_llm_calls (ag_limits a)) (us_llm_calls (ag_usage st))"
    and "within (max_search_calls (ag_limits a)) (us_search_calls (ag_usage st))"
    and "research a topic options st = (r, st')"
  shows "within (max_llm_calls (ag_limits a)) (us_llm_calls (ag_usage st')) \<and>
    within (max_search_calls (ag_limits a)) (us_search_calls (ag_usage st'))"
  using keepsD [OF keeps_research [OF keeps_calls_search keeps_calls_complete keeps_calls_acquire] _ assms(3)]
    assms(1,2) by (simp add: calls_within_def)

text \<open>The limit on fetches binds only the agent's own client: once it is reached, the client
  refuses, but an installed acquirer is called and counted all the same.\<close>

theorem fetch_limit_skipped_by_acquirer:
  assumes "max_fetch_calls (ag_limits a) = Some limit" "limit \<le> us_fetch_calls (ag_usage st)"
  shows "(ag_page_acquirer a = None \<longrightarrow> acquire_source a url st =
      (Inl (LimitExceeded (FetchCalls (us_fetch_calls (ag_usage st)) limit)), st)) \<and>
    (\<forall>f. ag_page_acquirer a = Some f \<longrightarrow> acquire_source a url st =
      outside (f url) (st\<lparr>ag_usage := increment_fetch_calls (ag_usage st)\<rparr>))"
proof -
  have "check_fetch_limit (ag_usage st) (ag_limits a) = Some (FetchCalls (us_fetch_calls (ag_usage st)) limit)"
    using assms by (simp add: check_fetch_limit_def)
  then show ?thesis
    by (auto simp: acquire_source_def agent_fetch_def act_bind_def check_limit_def count_def)
qed

text \<open>The token check is exact as long as the sum of the two counters does not overflow: it
  passes exactly when every limit that is set lies above its counter.\<close>

theorem token_limits_exact:
  assumes "unat (us_prompt_tokens u) + unat (us_completion_tokens u) < 2 ^ 64"
  shows "check_token_limits u limits = None \<longleftrightarrow>
    (\<forall>m. max_total_tokens limits = Some m \<longrightarrow> unat (us_prompt_tokens u) + unat (us_completion_tokens u) < unat m) \<and>
    (\<forall>m. max_prompt_tokens limits = Some m \<longrightarrow> us_prompt_tokens u < m) \<and>
    (\<forall>m. max_completion_tokens limits = Some m \<longrightarrow> us_completion_tokens u < m)"
proof -
  have "unat (us_prompt_tokens u + us_completion_tokens u) =
      unat (us_prompt_tokens u) + unat (us_completion_tokens u)"
    using assms by (subst unat_add_lem [symmetric]) simp
  then show ?thesis
    by (auto simp: check_token_limits_def exceeds_def Let_def not_le word_less_nat_alt word_le_nat_alt
        split: option.splits if_splits)
qed

section \<open>What is stored of a session\<close>

lemma validate_extractions_Inr:
  "validate_extractions k xs bs = Inr () \<Longrightarrow> i < length xs \<Longrightarrow>
    dx_source_number (xs ! i) = k + i + 1 \<and> dx_evidence (xs ! i) = sb_evidence (bs ! (k + i))"
proof (induction k xs bs arbitrary: i rule: validate_extractions.induct)
  case (2 k x xs bs)
  then show ?case by (cases i) (fastforce simp: Let_def split: if_splits)+
qed simp

lemma validate_citations_Inr:
  "validate_citations bs seen cs = Inr () \<Longrightarrow>
    distinct (map dc_source_number cs) \<and> set (map dc_source_number cs) \<inter> set seen = {} \<and>
    (\<forall>c \<in> set cs. \<exists>b \<in> set bs. sb_source_number b = dc_source_number c \<and> sb_evidence b = dc_evidence c)"
proof (induction bs seen cs rule: validate_citations.induct)
  case (2 bs seen c cs)
  then show ?case
    by (auto simp: find_binding_def split: if_splits option.splits dest!: find_pred)
qed simp

text \<open>\<open>published\<close>: what a terminal record that passed the validation says of its evidence.\<close>

definition published :: "research_session \<Rightarrow> bool" where
  "published s \<longleftrightarrow>
     (\<forall>d. se_result s = Some d \<longrightarrow>
        length (dr_extractions d) = length (se_source_bindings s) \<and> dr_extractions d \<noteq> [] \<and>
        (\<forall>i < length (dr_extractions d). dx_source_number (dr_extractions d ! i) = i + 1 \<and>
           dx_evidence (dr_extractions d ! i) = sb_evidence (se_source_bindings s ! i)) \<and>
        (\<forall>y. dr_synthesis d = Some y \<longrightarrow>
           (se_state s = CompletedSuccessfully \<longrightarrow> ds_citations y \<noteq> []) \<and>
           distinct (map dc_source_number (ds_citations y)) \<and>
           (\<forall>c \<in> set (ds_citations y). \<exists>b \<in> set (se_source_bindings s).
              sb_source_number b = dc_source_number c \<and> sb_evidence b = dc_evidence c)))"

lemma validate_published:
  assumes "validate_session_result s = Inr ()"
  shows "published s"
proof -
  have "length (dr_extractions d) = length (se_source_bindings s) \<and> dr_extractions d \<noteq> [] \<and>
      validate_extractions 0 (dr_extractions d) (se_source_bindings s) = Inr () \<and>
      (\<forall>y. dr_synthesis d = Some y \<longrightarrow> (se_state s = CompletedSuccessfully \<longrightarrow> ds_citations y \<noteq> []) \<and>
         validate_citations (se_source_bindings s) [] (ds_citations y) = Inr ())"
    if "se_result s = Some d" for d
    using assms that by (auto simp: validate_session_result_def res_bind_Inr split: if_splits option.splits)
  then show ?thesis
    unfolding published_def using validate_extractions_Inr validate_citations_Inr by fastforce
qed

text \<open>C37. A durable research run that returns has stored exactly two revisions of its session: the
  claim and the terminal record it returned.  The terminal record is no claim, each of its
  extractions carries the evidence of the source with its number, and its citations are
  distinct and name bound sources.  The model and the search provider are assumed not to
  write the rows of this session.\<close>

theorem completed_run_is_recorded:
  assumes "run_durable_research env i (Inr agent) t options st = (Inr (final, result), st')"
    and "history_of (sw_store (ag_world st)) (research_id_to_string i) = []"
    and "\<forall>f q opts. ag_search_provider agent = Some f \<longrightarrow> frame (session_rows i) (f q opts)"
    and "\<forall>f req. ag_llm agent = Some f \<longrightarrow> frame (session_rows i) (f req)"
  shows "\<exists>p1 p2. ser (se_session_codec env) (claimed_session env i t options) = Inr p1 \<and>
    ser (se_session_codec env) final = Inr p2 \<and>
    session_rows i (ag_world st') = (Some (2, p2),
       [(1, p1, time_of_unix_ms (unix_ms (se_now env))), (2, p2, time_of_unix_ms (unix_ms (se_now env)))]) \<and>
    se_id final = i \<and> se_state final \<noteq> RClaimed \<and> published final"
proof (rule run_Inr [OF assms(1,2)])
  show "frame (session_rows i) (f q opts)" if "ag_search_provider agent = Some f" for f q opts
    using assms(3) that by blast
  show "frame (session_rows i) (f req)" if "ag_llm agent = Some f" for f req
    using assms(4) that by blast
qed (use validate_published in blast)

lemma sample_agent_frames:
  "\<forall>f q opts. ag_search_provider (sample_agent ids) = Some f \<longrightarrow> frame (session_rows i) (f q opts)"
  "\<forall>g req. ag_llm (sample_agent ids) = Some g \<longrightarrow> frame (session_rows i) (g req)"
  by (auto simp: sample_agent_def frame_def)

definition sample_session_run where
  "sample_session_run ids synthesize = run_durable_research sample_session_env sample_research_id
     (Inr (sample_agent ids)) ''topic'' (sample_options synthesize) sample_start"

lemma sample_session_run_Inr:
  "\<exists>final result st. sample_session_run [] False = (Inr (final, result), st)"
proof -
  have "\<not> isl (fst (sample_session_run [] False))" by code_simp
  then show ?thesis by (metis prod.collapse sum.collapse(2))
qed

lemma completed_run_is_recorded_witness:
  "\<exists>p. session_rows sample_research_id (ag_world (snd (sample_session_run [] False))) = (Some (2, p), [(1, [0], 0), (2, p, 0)])"
proof -
  obtain final result st where run: "sample_session_run [] False = (Inr (final, result), st)"
    using sample_session_run_Inr by blast
  have "history_of (sw_store (ag_world sample_start)) (research_id_to_string sample_research_id) = []"
    by (simp add: sample_start_def history_of_def empty_store_def)
  from completed_run_is_recorded [OF run [unfolded sample_session_run_def] this sample_agent_frames] run
  show ?thesis
    by (auto simp: sample_session_env_def claimed_session_def time_of_unix_ms_def unix_ms_def)
qed

text \<open>A durable research run that fails after its claim leaves the session readable: either
  its rows are exactly what the claim wrote, or the current row is a terminal record at
  revision 2 whose history entry is missing.  There is no retry and nothing else.\<close>

theorem failed_run_leaves_record:
  assumes "claim_durable_research env i (Inr agent) t options (ag_world st) = (Inr c, w1)"
    and "run_durable_research env i (Inr agent) t options st = (Inl e, st')"
    and "\<forall>f q opts. ag_search_provider agent = Some f \<longrightarrow> frame (session_rows i) (f q opts)"
    and "\<forall>f req. ag_llm agent = Some f \<longrightarrow> frame (session_rows i) (f req)"
  shows "(\<exists>p. ser (se_session_codec env) (claimed_session env i t options) = Inr p \<and>
      fst (session_rows i w1) = Some (1, p) \<and> session_rows i (ag_world st') = session_rows i w1) \<or>
    (\<exists>final p. ser (se_session_codec env) final = Inr p \<and> se_id final = i \<and>
      session_rows i (ag_world st') = (Some (2, p), snd (session_rows i w1)))"
proof (rule run_Inl_claimed [OF assms(1,2)])
  show "frame (session_rows i) (f q opts)" if "ag_search_provider agent = Some f" for f q opts
    using assms(3) that by blast
  show "frame (session_rows i) (f req)" if "ag_llm agent = Some f" for f req
    using assms(4) that by blast
qed blast+

lemma bound_result_publishable:
  assumes "research a topic options st = (Inr r, st')" "ro_max_pages options < 2 ^ 64"
    and "bind_sources env retained (Inr r) s = (Inr (sources, bindings), s')"
  shows "(\<exists>d. build_durable_result (Inr r)
      (terminal_state (Inr r) (ro_synthesize options) observed) bindings = Inr d) \<longleftrightarrow>
    distinct (rr_synthesis_source_ids r)"
proof -
  note r = research_Inr [OF assms(1)]
  note built = build_durable_result_research [where obs = observed and synthesize = "ro_synthesize options",
      OF _ _ bind_sources_Inr [OF assms(3)]]
  have "length (rr_extractions r) < 2 ^ 64" using r assms(2) by linarith
  then show ?thesis using built r by force
qed

text \<open>The outcome of a research run whose extractions were bound to their evidence can be
  published exactly when its citations are distinct: the model's answer may name a source
  twice (the engine accepts that), and then the durable result is refused.\<close>

theorem publishable_iff_citations_distinct:
  assumes "research a topic options st = (Inr r, st')" "ro_max_pages options < 2 ^ 64"
    and "bind_sources env retained (Inr r) s = (Inr (sources, bindings), s')"
  shows "(\<exists>d. build_durable_result (Inr r)
      (terminal_state (Inr r) (ro_synthesize options) observed) bindings = Inr d) \<longleftrightarrow>
    distinct (rr_synthesis_source_ids r)"
  by (rule bound_result_publishable [OF assms])

text \<open>C40. A repeated citation strands the session: when the research of a claimed session
  answers with one, the run ends with an error and writes nothing more, so the session
  stays claimed although the research succeeded.\<close>

theorem repeated_citation_strands_session:
  assumes claim: "claim_durable_research env i (Inr agent) t options (ag_world st) = (Inr c, w1)"
    and research: "research (cl_agent c) t options (st\<lparr>ag_world := w1\<rparr>) = (Inr r, st2)"
    and repeated: "\<not> distinct (rr_synthesis_source_ids r)" "ro_max_pages options < 2 ^ 64"
  shows "\<exists>e st'. run_durable_research env i (Inr agent) t options st = (Inl e, st') \<and>
    tables (sw_store (ag_world st')) = tables (sw_store (ag_world st2))"
proof -
  from claim have c: "cl_session c = claimed_session env i t options" "cl_options c = options"
    by (auto elim: claim_Inr)
  let ?w = "ag_world st2"
  obtain x s1 where bind: "bind_sources env (sw_retained ?w) (Inr r) (sw_store ?w) = (x, s1)" by fastforce
  have same: "tables s1 = tables (sw_store ?w)" by (rule frameD [OF frame_bind_sources bind])
  have "\<exists>e w. finalize_claimed env (cl_session c) rv (Inr r) (ro_max_pages options) (ro_synthesize options) ?w
      = (Inl e, w) \<and> tables (sw_store w) = tables (sw_store ?w)" for rv
  proof (cases x)
    case (Inl e)
    with bind same show ?thesis
      by (simp add: finalize_claimed_def act_bind_def on_store_def)
  next
    case (Inr y)
    obtain sources bindings where y: "y = (sources, bindings)" by fastforce
    have "\<exists>e. build_durable_result (Inr r) (terminal_state (Inr r) (ro_synthesize options)
        (observed_acquisitions (sw_retained ?w))) bindings = Inl e"
      using bound_result_publishable [OF research repeated(2) bind [unfolded Inr y]] repeated(1)
      by (metis sum.exhaust)
    with bind same Inr y show ?thesis
      by (auto simp: finalize_claimed_def act_bind_def on_store_def)
  qed
  then obtain e w where f: "finalize_claimed env (cl_session c) (cl_claim_revision c) (Inr r)
      (ro_max_pages options) (ro_synthesize options) ?w = (Inl e, w)"
    "tables (sw_store w) = tables (sw_store ?w)" by blast
  have "run_durable_research env i (Inr agent) t options st = (Inl e, st2\<lparr>ag_world := w\<rparr>)"
    using claim research f(1) c
    by (simp add: run_durable_research_def act_bind_def outside_def execute_def claimed_session_def)
  with f(2) show ?thesis by auto
qed

lemma repeated_citation_strands_session_witness:
  "isl (fst (run_durable_research sample_session_env sample_research_id (Inr (sample_agent cited_twice)) ''topic''
     (sample_options True) sample_start))"
proof -
  have "\<not> distinct (rr_synthesis_source_ids (sample_result cited_twice))" "ro_max_pages (sample_options True) < 2 ^ 64"
    unfolding sample_result_ids by (simp_all add: cited_twice_def sample_options_def)
  from repeated_citation_strands_session [OF sample_claim_Inr sample_research_Inr this] show ?thesis by auto
qed

end
