(* ===== verification/Callback_Properties.thy ===== *)
theory Callback_Properties
  imports Codecs
begin

text \<open>
  Properties of the callback inspector: the life of a trace, callbacks among other
  requests, what the facts of a callback reveal of its secrets.
\<close>

section \<open>Sample requests\<close>

definition sample_iam_deps :: iam_deps where
  "sample_iam_deps = \<lparr>form_pairs = (\<lambda>b. [(''code'', ''s3cret''), (''lang'', ''de'')]),
     json_parse = (\<lambda>b. Inl ''none''), json_print = (\<lambda>v. ''json''), b64_url = (\<lambda>s. None), b64_std = (\<lambda>s. None),
     xml_events = (\<lambda>b. []), iam_sha = (\<lambda>b. show_nat (length b))\<rparr>"

definition sample_trace :: iam_trace_id where
  "sample_trace = IamTraceId (replicate 16 7)"

definition sample_observation :: iam_callback_observation where
  "sample_observation = \<lparr>io_trace = sample_trace, io_method = ''GET'',
     io_target = ''/iam/callback/'' @ iam_trace_id_to_string sample_trace, io_observed_at_unix_ms = 0,
     io_protocol = OAuth2, io_facts = [fact_redacted (\<lambda>b. show_nat (length b)) ''code'' ''s3cret'',
       fact_observed ''lang'' ''de'']\<rparr>"

definition sample_iam_env :: iam_env where
  "sample_iam_env = \<lparr>ie_deps = sample_iam_deps, ie_options = (\<lambda>path. Inr ()),
     ie_lookup = (\<lambda>name. if name = ''SCORPION_DOMAIN_DB'' then Some ''/var/scorpion.db'' else None),
     ie_state_codec = trace_state_codec, ie_observation_codec = table_codec [sample_observation],
     ie_now = 0, ie_fresh = sample_trace\<rparr>"

definition trace_store :: domain_persistence where
  "trace_store = snd (create_trace sample_iam_env (empty_store []))"

definition callback_store :: domain_persistence where
  "callback_store = snd (receive_callback sample_iam_env alone (iam_trace_id_to_string sample_trace)
     ''GET'' ''code=s3cret&lang=de'' None [] trace_store)"

lemma trace_store_row:
  "current_rows trace_store (iam_trace_id_to_string sample_trace) = Some (1, [0])"
  "history_of trace_store (iam_trace_id_to_string sample_trace) = []" "healthy trace_store"
  by code_simp+

lemma sample_configured: "iam_configured sample_iam_env"
proof -
  have "resolve_domain_database_path None (ie_lookup sample_iam_env) = Inr ''/var/scorpion.db''" by code_simp
  then show ?thesis by (simp add: iam_configured_def sample_iam_env_def)
qed

lemma sample_request:
  "request_facts sample_iam_deps ''GET'' ''code=s3cret&lang=de'' None [] = Inr (OAuth2, io_facts sample_observation)"
proof -
  have v: "valid_percent_encoding ''code=s3cret&lang=de''" by code_simp
  have s: "is_sensitive_name ''code''" "\<not> is_sensitive_name ''lang''" "\<not> is_saml_response_name ''code''"
    "\<not> is_saml_response_name ''lang''" by code_simp+
  show ?thesis
    using v s by (simp add: request_facts_def parse_query_facts_def validate_percent_encoding_def pairs_facts_def
        facts_from_pairs_def push_fact_def sample_iam_deps_def IAM_MAX_FACTS_def IAM_MAX_KEY_BYTES_def
        IAM_MAX_VALUE_BYTES_def finalize_iam_facts_def find_pair_def classify_protocol_def
        mark_state_not_validated_def sample_observation_def fact_redacted_def fact_observed_def redact_def Let_def)
qed

lemma sample_trace_id: "iam_trace_id_from_str (trim (iam_trace_id_to_string sample_trace)) = Inr sample_trace"
  by code_simp

section \<open>The life of a trace\<close>

lemma numbered_subset:
  assumes xs: "map fst xs = [1..<Suc (length xs)]" and ys: "map fst ys = [1..<Suc (length ys)]"
    and sub: "set xs \<subseteq> set ys"
  shows "length xs \<le> length ys" "take (length xs) ys = xs"
proof -
  have fx: "fst (xs ! m) = m + 1" if "m < length xs" for m
    using that arg_cong [OF xs, of "\<lambda>l. l ! m"] by (simp del: upt_Suc)
  have fy: "fst (ys ! m) = m + 1" if "m < length ys" for m
    using that arg_cong [OF ys, of "\<lambda>l. l ! m"] by (simp del: upt_Suc)
  have at: "m < length ys \<and> ys ! m = xs ! m" if m: "m < length xs" for m
  proof -
    have "xs ! m \<in> set ys" using sub m by auto
    then obtain j where j: "j < length ys" "ys ! j = xs ! m" by (auto simp: in_set_conv_nth)
    then have "j = m" using fx [OF m] fy [of j] by simp
    then show ?thesis using j by simp
  qed
  show le: "length xs \<le> length ys"
  proof (rule ccontr)
    assume "\<not> length xs \<le> length ys"
    then show False using at [of "length ys"] by simp
  qed
  show "take (length xs) ys = xs"
    by (rule nth_equalityI) (use le at in auto)
qed

lemma trace_inv_numbered:
  "trace_inv c i s \<Longrightarrow> map fst (history_of s (iam_trace_id_to_string i)) =
     [1..<Suc (length (history_of s (iam_trace_id_to_string i)))]"
  by (cases "current_rows s (iam_trace_id_to_string i)") (auto simp: trace_inv_def)

lemma prefix_history:
  assumes "prefix (history_rows s) (history_rows s')" "trace_inv c i s" "trace_inv c i s'"
  shows "take (length (history_of s (iam_trace_id_to_string i))) (history_of s' (iam_trace_id_to_string i)) =
      history_of s (iam_trace_id_to_string i)"
proof (rule numbered_subset(2) [OF trace_inv_numbered [OF assms(2)] trace_inv_numbered [OF assms(3)]])
  show "set (history_of s (iam_trace_id_to_string i)) \<subseteq> set (history_of s' (iam_trace_id_to_string i))"
    using assms(1) by (auto simp: history_of_def prefix_def)
qed

text \<open>C8. Whatever the operations, their interleaving with callbacks and the backend faults, the
  observations of every trace are numbered 1, 2, ... without a gap, a trace is at revision
  1 and awaiting or at revision 2 and received with at least one observation; a received
  trace never changes its state again and no recorded observation is changed or lost.\<close>

theorem trace_life:
  assumes "codec_ok ci" "ledger_run cs ca ci (empty_store fs) s" "ledger_run cs ca ci s s'"
  shows "trace_ok ci (current_rows s (iam_trace_id_to_string i)) (history_of s (iam_trace_id_to_string i)) \<and>
    (\<forall>p. current_rows s (iam_trace_id_to_string i) = Some (2, p) \<longrightarrow>
      current_rows s' (iam_trace_id_to_string i) = Some (2, p)) \<and>
    take (length (history_of s (iam_trace_id_to_string i))) (history_of s' (iam_trace_id_to_string i)) =
      history_of s (iam_trace_id_to_string i)"
proof -
  let ?k = "iam_trace_id_to_string i"
  have inv: "trace_inv ci i s" "trace_inv ci i s'"
    using traces.run [OF assms(2)] traces.run [OF assms(3)] traces_empty assms(1) by blast+
  have g: "grows s s'" using ledger_run_grows [OF assms(3)] .
  have "current_rows s' ?k = Some (2, p)" if row: "current_rows s ?k = Some (2, p)" for p
  proof (rule ccontr)
    assume ne: "current_rows s' ?k \<noteq> Some (2, p)"
    then have "current.revision s ?k < current.revision s' ?k" using g row unfolding grows_def by metis
    then have "2 < current.revision s' ?k" using row by (simp add: current.revision_def)
    then show False using inv(2)
      by (cases "current_rows s' ?k") (auto simp: trace_inv_def current.revision_def)
  qed
  moreover have "take (length (history_of s ?k)) (history_of s' ?k) = history_of s ?k"
    using prefix_history [OF _ inv] g by (simp add: grows_def)
  ultimately show ?thesis using inv(1) by (simp add: trace_inv_def)
qed


text \<open>The stores that the attempts of a callback meet, when others only run operations of the ledger.\<close>

lemma rounds_reachable:
  assumes "ledger_run cs ca ci (empty_store fs) s" "n \<le> N"
    and "\<forall>m < N. ledger_run cs ca ci (rounds elsewhere 0 s m) (rounds elsewhere 0 s (Suc m))"
  shows "ledger_run cs ca ci (empty_store fs) (rounds elsewhere 0 s n)"
  using assms(2)
proof (induction n)
  case (Suc n)
  then show ?case using assms(3) rtranclp_trans by (metis Suc_le_lessD Suc_leD)
qed (use assms(1) in simp)

lemma rounds_orderly:
  assumes "ledger_run cs ca ci (empty_store fs) s" "n \<le> N" "codec_ok ci" "healthy s"
    and "\<forall>m < N. ledger_run cs ca ci (rounds elsewhere 0 s m) (rounds elsewhere 0 s (Suc m)) \<and>
      healthy (rounds elsewhere 0 s (Suc m))"
  shows "trace_inv ci i (rounds elsewhere 0 s n)" "orderly (iam_trace_id_to_string i) (rounds elsewhere 0 s n)"
proof -
  show inv: "trace_inv ci i (rounds elsewhere 0 s n)"
    using traces.run [OF rounds_reachable [OF assms(1,2)]] traces_empty assms(3,5) by blast
  have "healthy (rounds elsewhere 0 s n)" using assms(2,4,5) by (cases n) auto
  then show "orderly (iam_trace_id_to_string i) (rounds elsewhere 0 s n)"
    using trace_inv_numbered [OF inv] by (simp add: orderly_def gap_free_def)
qed

text \<open>C9. A well-formed callback to an existing trace on a backend that stays without faults, with
  any operations of other requests between the reading and the writing of each of its at
  most five attempts.  An attempt is overtaken when the others recorded an observation of the
  trace meanwhile.  At the first attempt that is not overtaken the observation is recorded
  under the next revision, after all that the others have recorded, and the trace is marked
  as received.  If all five attempts are overtaken the caller gets an error, and the store is
  what the others made of it.\<close>

theorem callback_recorded_despite_others:
  assumes "iam_configured env" "healthy s" "ie_state_codec env = ci" "codec_ok ci"
    and reach: "ledger_run cs ca ci (empty_store fs) s" and row: "current_rows s (iam_trace_id_to_string i) \<noteq> None"
    and "iam_trace_id_from_str (trim raw) = Inr i"
    and "request_facts (ie_deps env) http_method query content_type body = Inr (protocol, facts)"
    and "ser (ie_observation_codec env) \<lparr>io_trace = i, io_method = http_method,
        io_target = ''/iam/callback/'' @ iam_trace_id_to_string i,
        io_observed_at_unix_ms = unix_ms (ie_now env), io_protocol = protocol, io_facts = facts\<rparr> = Inr payload"
    and "ser ci Received = Inr q"
    and others: "\<forall>m < 5. ledger_run cs ca ci (rounds elsewhere 0 s m) (rounds elsewhere 0 s (Suc m)) \<and>
        healthy (rounds elsewhere 0 s (Suc m))"
  shows "(\<forall>n < 5. (\<forall>m < n. overtaken (iam_trace_id_to_string i) elsewhere s m) \<and>
              \<not> overtaken (iam_trace_id_to_string i) elsewhere s n \<longrightarrow>
          (\<exists>H s' p. H = history_of (rounds elsewhere 0 s (Suc n)) (iam_trace_id_to_string i) \<and>
            receive_callback env elsewhere raw http_method query content_type body s =
              (Inr (iam_trace_id_to_string i), s') \<and>
            history_of s' (iam_trace_id_to_string i) =
              H @ [(length H + 1, payload, time_of_unix_ms (unix_ms (ie_now env)))] \<and>
            current_rows s' (iam_trace_id_to_string i) = Some (2, p) \<and> de ci p = Inr Received)) \<and>
    ((\<forall>n < 5. overtaken (iam_trace_id_to_string i) elsewhere s n) \<longrightarrow>
          receive_callback env elsewhere raw http_method query content_type body s =
            (Inl PersistenceFailed, rounds elsewhere 0 s 5))"
proof (intro conjI allI impI; (elim conjE)?)
  let ?k = "iam_trace_id_to_string i" let ?at = "rounds elsewhere 0 s"
  note run = receive_callback_attempts [OF assms(1,2,7) row assms(8,9), of elsewhere]
  have inv: "trace_inv ci i (?at n)" and ord: "orderly ?k (?at n)" if "n \<le> 5" for n
    using rounds_orderly [OF reach that assms(4,2) others] by blast+
  have g: "grows (?at m) (?at (Suc m))" if "m < 5" for m using others ledger_run_grows that by blast
  {
    fix n assume n: "n < 5" and before: "\<forall>m < n. overtaken ?k elsewhere s m" and free: "\<not> overtaken ?k elsewhere s n"
    let ?u = "?at (Suc n)" let ?H = "history_of ?u ?k"
    have "length (history_of (?at n) ?k) \<le> length ?H"
      using g [OF n] history_length_mono [of "?at n" ?u ?k] unfolding grows_def by blast
    then have same: "length ?H = length (history_of (?at n) ?k)" using free unfolding overtaken_def by linarith
    obtain x v where ap: "append_history ?k (length ?H + 1) payload (ie_now env) ?u = (x, v)" by fastforce
    have u: "healthy ?u" "gap_free ?k ?u" using ord [of "Suc n"] n by (simp_all add: orderly_def del: rounds.simps)
    note appended = append_next_healthy [OF u ap]
    have "append_attempts IAM_MAX_REVISION_RETRIES 0 elsewhere ?k payload (ie_now env) s =
        (let u = ?u; r = length (history_of u ?k) + 1 in (Inr r, snd (append_history ?k r payload (ie_now env) u)))"
    proof (rule append_attempts_until)
      show "n < IAM_MAX_REVISION_RETRIES" using n by (simp add: IAM_MAX_REVISION_RETRIES_def)
      show "\<forall>m \<le> Suc n. orderly ?k (?at m)" using ord n by (simp del: rounds.simps)
    qed (use before same in \<open>simp_all add: overtaken_def del: rounds.simps\<close>)
    then have attempts: "append_attempts IAM_MAX_REVISION_RETRIES 0 elsewhere ?k payload (ie_now env) s =
        (Inr (length ?H + 1), v)"
      using ap by (simp add: Let_def del: rounds.simps)
    have row_n: "current_rows (?at m) ?k \<noteq> None" if "m \<le> 5" for m
      using that
    proof (induction m)
      case (Suc m)
      then show ?case using grows_row_stays [OF g [of m]] by simp
    qed (use row in simp)
    have v: "trace_inv ci i v" "current_rows v ?k \<noteq> None"
      using trace_inv_append [OF inv [of "Suc n"] row_n [of "Suc n"] le_refl ap] n
        append_history_Inr(3) [OF ap [unfolded appended(1)]] row_n [of "Suc n"] by (simp_all del: rounds.simps)
    obtain p where p: "current_rows (try_mark_received env i v) ?k = Some (2, p)" "de ci p = Inr Received"
      "history_rows (try_mark_received env i v) = history_rows v"
      using try_mark_result [of v env i q] appended(2) assms(3,4,10) v by auto
    have "receive_callback env elsewhere raw http_method query content_type body s =
        (Inr ?k, try_mark_received env i v)"
      using run attempts by simp
    then show "\<exists>H s' p. H = ?H \<and>
        receive_callback env elsewhere raw http_method query content_type body s = (Inr ?k, s') \<and>
        history_of s' ?k = H @ [(length H + 1, payload, time_of_unix_ms (unix_ms (ie_now env)))] \<and>
        current_rows s' ?k = Some (2, p) \<and> de ci p = Inr Received"
      using appended(3) p history_of_rows [OF p(3), of ?k] by metis
  }
  assume all: "\<forall>n < 5. overtaken ?k elsewhere s n"
  have "append_attempts 5 0 elsewhere ?k payload (ie_now env) s = (Inl PersistenceFailed, ?at 5)"
    by (rule append_attempts_exhausted) (use ord all in \<open>simp_all add: overtaken_def del: rounds.simps\<close>)
  then show "receive_callback env elsewhere raw http_method query content_type body s = (Inl PersistenceFailed, ?at 5)"
    using run by (simp add: IAM_MAX_REVISION_RETRIES_def del: append_attempts.simps)
qed

lemma sample_ser: "ser (ie_observation_codec sample_iam_env) sample_observation = Inr []"
  by (simp add: sample_iam_env_def table_codec_def)

lemma ledger_run_trace:
  "ledger_run watch_state_codec session_state_codec trace_state_codec (empty_store []) trace_store"
  "ledger_run watch_state_codec session_state_codec trace_state_codec (empty_store []) callback_store"
  "ledger_run watch_state_codec session_state_codec trace_state_codec trace_store callback_store"
proof -
  have env: "ie_state_codec sample_iam_env = trace_state_codec" by (simp add: sample_iam_env_def)
  have a: "ledger_step watch_state_codec session_state_codec trace_state_codec (empty_store []) trace_store"
    unfolding trace_store_def by (rule step_create_trace [OF env]) (rule surjective_pairing)
  have b: "ledger_step watch_state_codec session_state_codec trace_state_codec trace_store callback_store"
    unfolding callback_store_def
    by (rule step_receive_callback [OF env _ surjective_pairing]) (simp add: alone_def)
  show ra: "ledger_run watch_state_codec session_state_codec trace_state_codec (empty_store []) trace_store"
    using a by (rule r_into_rtranclp)
  show rb: "ledger_run watch_state_codec session_state_codec trace_state_codec trace_store callback_store"
    using b by (rule r_into_rtranclp)
  show "ledger_run watch_state_codec session_state_codec trace_state_codec (empty_store []) callback_store"
    using ra rb by (rule rtranclp_trans)
qed

lemma sample_env_fields:
  "ie_state_codec sample_iam_env = trace_state_codec" "ie_deps sample_iam_env = sample_iam_deps"
  "ie_now sample_iam_env = 0" "ser trace_state_codec Received = Inr [1]"
  by (simp_all add: sample_iam_env_def trace_state_codec_def)

text \<open>Another client that sends one callback between the reading and the writing of every attempt.\<close>

primrec competitor :: "nat \<Rightarrow> domain_persistence" where
  "competitor 0 = trace_store"
| "competitor (Suc n) = snd (receive_callback sample_iam_env alone (iam_trace_id_to_string sample_trace)
     ''GET'' ''code=s3cret&lang=de'' None [] (competitor n))"

lemma competitor_run:
  "ledger_run watch_state_codec session_state_codec trace_state_codec (competitor n) (competitor (Suc n))"
  unfolding competitor.simps(2)
  by (rule r_into_rtranclp, rule step_receive_callback [OF sample_env_fields(1) _ surjective_pairing])
     (simp add: alone_def)

lemma sample_record:
  "ser (ie_observation_codec sample_iam_env) \<lparr>io_trace = sample_trace, io_method = ''GET'',
      io_target = ''/iam/callback/'' @ iam_trace_id_to_string sample_trace,
      io_observed_at_unix_ms = unix_ms (ie_now sample_iam_env), io_protocol = OAuth2,
      io_facts = io_facts sample_observation\<rparr> = Inr []"
  "request_facts (ie_deps sample_iam_env) ''GET'' ''code=s3cret&lang=de'' None [] =
      Inr (OAuth2, io_facts sample_observation)"
  using sample_ser sample_request by (simp_all add: sample_observation_def sample_env_fields unix_ms_def)

lemma competitor_inv: "trace_inv trace_state_codec sample_trace (competitor n)"
proof -
  have "ledger_run watch_state_codec session_state_codec trace_state_codec (empty_store []) (competitor n)"
  proof (induction n)
    case (Suc n)
    then show ?case using competitor_run by (rule rtranclp_trans)
  qed (simp add: ledger_run_trace(1))
  then show ?thesis using traces.run traces_empty trace_state_codec_ok by blast
qed

lemma competitor_store:
  "healthy (competitor n) \<and> current_rows (competitor n) (iam_trace_id_to_string sample_trace) \<noteq> None \<and>
   length (history_of (competitor n) (iam_trace_id_to_string sample_trace)) = n"
proof (induction n)
  case (Suc n)
  let ?k = "iam_trace_id_to_string sample_trace" let ?s = "competitor n"
  have s: "healthy ?s" "current_rows ?s ?k \<noteq> None" "length (history_of ?s ?k) = n" using Suc.IH by blast+
  have gap: "gap_free ?k ?s" using trace_inv_numbered [OF competitor_inv] by (simp add: gap_free_def)
  obtain v where v: "append_attempts IAM_MAX_REVISION_RETRIES 0 alone ?k [] (ie_now sample_iam_env) ?s = (Inr (n + 1), v)"
    "append_history ?k (n + 1) [] (ie_now sample_iam_env) ?s = (Inr (), v)"
    using append_attempts_alone [OF s(1) gap [unfolded gap_free_def], of IAM_MAX_REVISION_RETRIES 0 "[]" "ie_now sample_iam_env"]
      s(3) by (auto simp: IAM_MAX_REVISION_RETRIES_def simp del: append_attempts.simps)
  have next_store: "competitor (Suc n) = try_mark_received sample_iam_env sample_trace v"
    using receive_callback_attempts [OF sample_configured s(1) sample_trace_id s(2) sample_record(2,1), of alone] v(1)
    by simp
  have v': "append_history ?k (length (history_of ?s ?k) + 1) [] (ie_now sample_iam_env) ?s = (Inr (), v)"
    using v(2) unfolding s(3) .
  note appended = append_next_healthy [OF s(1) gap v']
  have inv: "trace_inv trace_state_codec sample_trace v" "current_rows v ?k \<noteq> None"
    using trace_inv_append [OF competitor_inv s(2) le_refl v'] s(2) append_history_Inr(3) [OF v(2)] by simp_all
  have mark: "\<exists>p. current_rows (competitor (Suc n)) ?k = Some (2, p)" "history_rows (competitor (Suc n)) = history_rows v"
    unfolding next_store
    using try_mark_result [of v sample_iam_env sample_trace "[1]"] appended(2) inv trace_state_codec_ok
    by (auto simp: sample_env_fields)
  have "healthy (competitor (Suc n))" unfolding next_store using try_mark_healthy [OF appended(2)] .
  then show ?case using mark(1) appended(3) history_of_rows [OF mark(2), of ?k] s(3) by auto
qed (simp add: trace_store_row)

lemma competitor_rounds: "rounds (\<lambda>k _. competitor (Suc k)) 0 trace_store n = competitor n"
  by (cases n) simp_all

lemma callback_recorded_despite_others_witness:
  "(\<exists>p. history_of callback_store (iam_trace_id_to_string sample_trace) = [(1, [], time_of_unix_ms (unix_ms 0))] \<and>
     current_rows callback_store (iam_trace_id_to_string sample_trace) = Some (2, p) \<and>
     de trace_state_codec p = Inr Received) \<and>
   receive_callback sample_iam_env (\<lambda>k _. competitor (Suc k)) (iam_trace_id_to_string sample_trace)
     ''GET'' ''code=s3cret&lang=de'' None [] trace_store = (Inl PersistenceFailed, competitor 5)"
proof -
  let ?k = "iam_trace_id_to_string sample_trace"
  have row: "current_rows trace_store ?k \<noteq> None" by (simp add: trace_store_row)
  note callback = callback_recorded_despite_others [OF sample_configured trace_store_row(3) sample_env_fields(1)
        trace_state_codec_ok ledger_run_trace(1) row sample_trace_id sample_record(2,1) sample_env_fields(4)]
  have idle: "rounds alone 0 trace_store n = trace_store" for n
    by (induction n) (simp_all add: alone_def)
  have "\<exists>H s' p. H = history_of trace_store ?k \<and>
      receive_callback sample_iam_env alone ?k ''GET'' ''code=s3cret&lang=de'' None [] trace_store = (Inr ?k, s') \<and>
      history_of s' ?k = H @ [(length H + 1, [], time_of_unix_ms (unix_ms (ie_now sample_iam_env)))] \<and>
      current_rows s' ?k = Some (2, p) \<and> de trace_state_codec p = Inr Received"
    using callback [of alone] trace_store_row(3) by (simp add: idle overtaken_def del: rounds.simps) fastforce
  moreover have "receive_callback sample_iam_env (\<lambda>k _. competitor (Suc k)) ?k ''GET'' ''code=s3cret&lang=de'' None []
      trace_store = (Inl PersistenceFailed, competitor 5)"
    using callback [of "\<lambda>k _. competitor (Suc k)"] competitor_run competitor_store
    by (simp add: competitor_rounds overtaken_def del: rounds.simps competitor.simps)
  ultimately show ?thesis by (auto simp: callback_store_def trace_store_row sample_env_fields)
qed

lemma trace_life_witness:
  "\<exists>H p. history_of callback_store (iam_trace_id_to_string sample_trace) = H \<and>
     trace_ok trace_state_codec (current_rows callback_store (iam_trace_id_to_string sample_trace)) H \<and>
     take 0 H = history_of trace_store (iam_trace_id_to_string sample_trace)"
  using trace_life [OF trace_state_codec_ok ledger_run_trace(1,3), of sample_trace]
    trace_life [OF trace_state_codec_ok ledger_run_trace(2) rtranclp.rtrancl_refl, of sample_trace]
  by (simp add: trace_store_row)

lemma read_trace_healthy:
  assumes "iam_configured env" "healthy s" "iam_trace_id_from_str (trim raw) = Inr i"
    and row: "current_rows s (iam_trace_id_to_string i) = Some (r, p)" "deserialize_state env p = Inr st"
    and vs: "view_observations env (history_of s (iam_trace_id_to_string i)) = Inr vs"
    and rep: "repaired_state env i st (history_of s (iam_trace_id_to_string i)) s = (Inr st', s')"
  shows "read_trace env raw s = (Inr \<lparr>tb_trace_id = iam_trace_id_to_string i, tb_state = state_label st',
    tb_observations = vs\<rparr>, s')"
proof -
  let ?k = "iam_trace_id_to_string i"
  have bind: "act_bind (iam_open_store env) f s = f () s"
    "act_bind (act_map_err map_persistence_error (read_current ?k)) g s = g (Some (r, p)) s"
    "act_bind (act_map_err map_persistence_error (read_history ?k)) h s = h (history_of s ?k) s"
    "act_bind (repaired_state env i st (history_of s ?k)) j s = j st' s'" for f g h j
    using iam_open_healthy [OF assms(1,2)] rep row assms(2)
    by (simp_all add: act_bind_def act_map_err_apply)
  show ?thesis unfolding read_trace_def by (simp add: bind act_bind_lift assms(3) row vs)
qed

text \<open>Reading an existing trace on a store without faults answers with all its observations in
  the order of their revisions, and with the state that they imply: received exactly when
  there is one.  A mark that a callback lost is made up for in the store.\<close>

theorem reading_repairs_state:
  assumes "iam_configured env" "healthy s" "ie_state_codec env = ci" "codec_ok ci"
    and "ledger_run cs ca ci (empty_store fs) s" "current_rows s (iam_trace_id_to_string i) \<noteq> None"
    and "iam_trace_id_from_str (trim raw) = Inr i" "ser ci Received = Inr q"
    and obs: "\<forall>x \<in> set (history_of s (iam_trace_id_to_string i)). \<exists>ob. de (ie_observation_codec env) (fst (snd x)) = Inr ob"
  shows "\<exists>view s' r p. read_trace env raw s = (Inr view, s') \<and>
    tb_state view = (if history_of s (iam_trace_id_to_string i) = [] then ''awaiting_callback'' else ''received'') \<and>
    map ov_revision (tb_observations view) = [1..<Suc (length (history_of s (iam_trace_id_to_string i)))] \<and>
    current_rows s' (iam_trace_id_to_string i) = Some (r, p) \<and>
    (de ci p = Inr Received \<longleftrightarrow> history_of s (iam_trace_id_to_string i) \<noteq> [])"
proof -
  let ?k = "iam_trace_id_to_string i"
  let ?h = "history_of s ?k"
  have inv: "trace_inv ci i s" using traces.run [OF assms(5)] traces_empty assms(4) by blast
  obtain r p where row: "current_rows s ?k = Some (r, p)" using assms(6) by auto
  have views: "\<exists>vs. view_observations env h = Inr vs \<and> map ov_revision vs = map fst h"
    if "\<forall>x \<in> set h. \<exists>ob. de (ie_observation_codec env) (fst (snd x)) = Inr ob" for h
    using that by (induction h) (auto simp: map_err_def)
  obtain vs where vs: "view_observations env ?h = Inr vs" "map ov_revision vs = [1..<Suc (length ?h)]"
    using views [OF obs] trace_inv_numbered [OF inv] by auto
  show ?thesis
  proof (cases "de ci p = Inr AwaitingCallback \<and> ?h \<noteq> []")
    case False
    then obtain st where st: "de ci p = Inr st" "st = AwaitingCallback \<longleftrightarrow> ?h = []"
      using inv row by (auto simp: trace_inv_def)
    have "repaired_state env i st ?h s = (Inr st, s)" using st(2) by (simp add: repaired_state_def)
    then have "read_trace env raw s = (Inr \<lparr>tb_trace_id = ?k, tb_state = state_label st, tb_observations = vs\<rparr>, s)"
      using read_trace_healthy [OF assms(1,2,7) row _ vs(1)] st(1) assms(3) by (simp add: deserialize_state_def)
    then show ?thesis using row st vs(2) by (cases st) (simp_all add: state_label_def)
  next
    case True
    let ?t = "try_mark_received env i s"
    obtain p' where p': "current_rows ?t ?k = Some (2, p')" "de ci p' = Inr Received"
      using try_mark_result(1) [of s env i q] assms(2,3,4,6,8) inv by auto
    have "healthy ?t" using try_mark_healthy [OF assms(2)] .
    then have "repaired_state env i AwaitingCallback ?h s = (Inr Received, ?t)"
      using True p' assms(3)
      by (simp add: repaired_state_def mark_received_def act_bind_def act_map_err_apply deserialize_state_def)
    then have "read_trace env raw s = (Inr \<lparr>tb_trace_id = ?k, tb_state = state_label Received,
        tb_observations = vs\<rparr>, ?t)"
      using read_trace_healthy [OF assms(1,2,7) row _ vs(1)] True assms(3) by (simp add: deserialize_state_def)
    then show ?thesis using p' vs(2) True by (simp add: state_label_def)
  qed
qed

section \<open>Parameters\<close>

definition plain_status :: "iam_protocol \<Rightarrow> string \<Rightarrow> string \<Rightarrow> iam_fact_status" where
  "plain_status protocol name value =
     (if (protocol = OAuth2 \<or> protocol = Oidc) \<and> name = ''state'' then NotValidated value else Observed value)"

definition parameter_fact :: "iam_deps \<Rightarrow> iam_protocol \<Rightarrow> string \<times> string \<Rightarrow> iam_fact" where
  "parameter_fact d protocol p =
     \<lparr>if_name = fst p,
      if_status = (if is_sensitive_name (fst p) then Redacted (iam_sha d (str_bytes (snd p)))
                   else plain_status protocol (fst p) (snd p))\<rparr>"

lemma name_of_parameter_fact [simp]: "if_name (parameter_fact d protocol p) = fst p"
  by (simp add: parameter_fact_def)

lemma push_parameter_Inr:
  "push_fact d facts name v (is_sensitive_name name) = Inr facts' \<Longrightarrow>
    facts' = facts @ [parameter_fact d Generic (name, v)] \<and> length facts < IAM_MAX_FACTS"
  by (auto simp: push_fact_def parameter_fact_def plain_status_def fact_redacted_def redact_def
      fact_observed_def split: if_splits)

lemma push_pairs_Inr:
  "push_pairs d pairs facts = Inr facts' \<Longrightarrow> length facts \<le> IAM_MAX_FACTS \<Longrightarrow>
    facts' = facts @ map (parameter_fact d Generic) pairs \<and> length facts' \<le> IAM_MAX_FACTS"
proof (induction d pairs facts rule: push_pairs.induct)
  case (2 d name v rest facts)
  then obtain f1 where f1: "push_fact d facts name v (is_sensitive_name name) = Inr f1"
    "push_pairs d rest f1 = Inr facts'" by (auto simp: res_bind_Inr)
  note p = push_parameter_Inr [OF f1(1)]
  then have "length f1 \<le> IAM_MAX_FACTS" by simp
  from 2(1) [OF f1(2) this] show ?case using p by auto
qed simp

lemma mark_parameter_facts:
  "protocol = OAuth2 \<or> protocol = Oidc \<Longrightarrow>
    mark_state_not_validated (map (parameter_fact d Generic) pairs) = map (parameter_fact d protocol) pairs"
  by (auto simp: mark_state_not_validated_def parameter_fact_def plain_status_def)

lemma unmarked_parameter_facts:
  "protocol \<noteq> OAuth2 \<Longrightarrow> protocol \<noteq> Oidc \<Longrightarrow> parameter_fact d protocol = parameter_fact d Generic"
  by (rule ext) (simp add: parameter_fact_def plain_status_def)

text \<open>What a decoded token adds: its facts, or the reason why it was not decoded.\<close>

definition decoded_facts :: "string \<Rightarrow> string + iam_fact list \<Rightarrow> iam_fact list" where
  "decoded_facts error_name decoded =
     (case decoded of Inr fs \<Rightarrow> fs | Inl reason \<Rightarrow> [fact_not_validated error_name reason])"

lemma append_decoded_Inr:
  "append_decoded e facts decoded = Inr facts' \<Longrightarrow>
    facts' = facts @ decoded_facts e decoded \<and> length facts' \<le> IAM_MAX_FACTS"
  by (auto simp: append_decoded_def decoded_facts_def Let_def split: if_splits)

definition jwt_part :: "iam_deps \<Rightarrow> (string \<times> string) list \<Rightarrow> iam_fact list" where
  "jwt_part d pairs =
     (case find_pair (\<lambda>name. name = ''id_token'') pairs of
        None \<Rightarrow> [] | Some raw \<Rightarrow> decoded_facts ''jwt.decode_error'' (decode_id_token d raw))"

definition saml_part :: "iam_deps \<Rightarrow> (string \<times> string) list \<Rightarrow> iam_fact list" where
  "saml_part d pairs =
     (case find_pair is_saml_response_name pairs of
        None \<Rightarrow> [] | Some raw \<Rightarrow> decoded_facts ''saml.decode_error'' (decode_saml_response d raw))"

lemma find_pair_Some: "find_pair P pairs \<noteq> None \<longleftrightarrow> (\<exists>p \<in> set pairs. P (fst p))"
  unfolding find_pair_def by (auto simp: find_None_iff) force

lemma finalize_parameters:
  assumes "finalize_iam_facts d (map (parameter_fact d Generic) pairs)
      (find_pair (\<lambda>name. name = ''id_token'') pairs) (find_pair is_saml_response_name pairs) = Inr (protocol, facts)"
    and "length pairs \<le> IAM_MAX_FACTS"
  shows "protocol = classify_protocol (\<exists>p \<in> set pairs. is_saml_response_name (fst p))
      (\<exists>p \<in> set pairs. fst p = ''id_token'') (\<exists>p \<in> set pairs. fst p = ''code'')
      (\<exists>p \<in> set pairs. fst p = ''error'') (\<exists>p \<in> set pairs. fst p = ''state'')"
    "facts = map (parameter_fact d protocol) pairs @ jwt_part d pairs @ saml_part d pairs"
    "length facts \<le> IAM_MAX_FACTS"
proof -
  let ?fs = "map (parameter_fact d Generic) pairs"
  let ?jwt = "find_pair (\<lambda>name. name = ''id_token'') pairs" let ?saml = "find_pair is_saml_response_name pairs"
  let ?marked = "if protocol = OAuth2 \<or> protocol = Oidc then mark_state_not_validated ?fs else ?fs"
  have names: "(\<exists>fact \<in> set ?fs. if_name fact = n) \<longleftrightarrow> (\<exists>p \<in> set pairs. fst p = n)" for n by simp
  have marked: "?marked = map (parameter_fact d protocol) pairs"
    using mark_parameter_facts [of protocol d pairs] unmarked_parameter_facts [of protocol d] by simp
  from assms(1) obtain f1 where
    f1: "(case ?jwt of None \<Rightarrow> Inr ?marked | Some raw \<Rightarrow> append_id_token_facts d ?marked raw) = Inr f1"
    and f2: "(case ?saml of None \<Rightarrow> Inr f1 | Some raw \<Rightarrow> append_saml_response_facts d f1 raw) = Inr facts"
    and protocol: "protocol = classify_protocol (?saml \<noteq> None) (?jwt \<noteq> None) (\<exists>p \<in> set pairs. fst p = ''code'')
      (\<exists>p \<in> set pairs. fst p = ''error'') (\<exists>p \<in> set pairs. fst p = ''state'')"
    unfolding finalize_iam_facts_def Let_def names res_bind_Inr sum.inject prod.inject by blast
  show "protocol = classify_protocol (\<exists>p \<in> set pairs. is_saml_response_name (fst p))
      (\<exists>p \<in> set pairs. fst p = ''id_token'') (\<exists>p \<in> set pairs. fst p = ''code'')
      (\<exists>p \<in> set pairs. fst p = ''error'') (\<exists>p \<in> set pairs. fst p = ''state'')"
    using protocol unfolding find_pair_Some .
  have one: "f1 = map (parameter_fact d protocol) pairs @ jwt_part d pairs \<and> length f1 \<le> IAM_MAX_FACTS"
    using f1 assms(2) unfolding marked append_id_token_facts_def jwt_part_def
    by (auto split: option.splits dest!: append_decoded_Inr)
  then show "facts = map (parameter_fact d protocol) pairs @ jwt_part d pairs @ saml_part d pairs"
    "length facts \<le> IAM_MAX_FACTS"
    using f2 unfolding append_saml_response_facts_def saml_part_def
    by (auto split: option.splits dest!: append_decoded_Inr)
qed

text \<open>C10. The facts of a callback with a query, with or without tokens in it, are at most 64: first
  one per parameter, in their order, a parameter with a sensitive name (which \<open>id_token\<close> and
  \<open>SAMLResponse\<close> have) as the digest of its value only, \<open>state\<close> of an OAuth2 or OIDC callback
  as not validated, every other as observed; then the facts of the first \<open>id_token\<close>, if there
  is one, then those of the first SAML response, each replaced by the reason if it was not
  decoded.  And the protocol follows from the names: SAML before OIDC before OAuth2.\<close>

theorem query_secrets_digested:
  assumes "parse_query_facts d query = Inr (protocol, facts)"
    and "pairs = form_pairs d (str_bytes query)"
  shows "facts = map (parameter_fact d protocol) pairs @ jwt_part d pairs @ saml_part d pairs \<and>
    length facts \<le> 64 \<and>
    protocol = (if \<exists>p \<in> set pairs. is_saml_response_name (fst p) then Saml
                else if \<exists>p \<in> set pairs. fst p = ''id_token'' then Oidc
                else if \<exists>p \<in> set pairs. fst p \<in> {''code'', ''error'', ''state''} then OAuth2 else Generic)"
proof -
  have "pairs_facts d pairs = Inr (protocol, facts)"
    using assms by (auto simp: parse_query_facts_def res_bind_Inr)
  then obtain fs where push: "push_pairs d pairs [] = Inr fs"
    and fin: "finalize_iam_facts d fs (find_pair (\<lambda>name. name = ''id_token'') pairs)
      (find_pair is_saml_response_name pairs) = Inr (protocol, facts)"
    by (auto simp: pairs_facts_def facts_from_pairs_def res_bind_Inr)
  have fs: "fs = map (parameter_fact d Generic) pairs" "length pairs \<le> IAM_MAX_FACTS"
    using push_pairs_Inr [OF push] by auto
  note parts = finalize_parameters [OF fin [unfolded fs(1)] fs(2)]
  have "protocol = (if \<exists>p \<in> set pairs. is_saml_response_name (fst p) then Saml
                else if \<exists>p \<in> set pairs. fst p = ''id_token'' then Oidc
                else if \<exists>p \<in> set pairs. fst p \<in> {''code'', ''error'', ''state''} then OAuth2 else Generic)"
    unfolding parts(1) classify_protocol_def by auto
  with parts(2,3) show ?thesis by (simp add: IAM_MAX_FACTS_def)
qed

section \<open>JSON bodies\<close>

text \<open>
  Two values that agree on what may be shown: the same members in the same order, and a
  member with a sensitive name has values of the same digest.  Arrays directly inside
  arrays are printed whole, so they have to be equal.
\<close>

definition same_digest :: "iam_deps \<Rightarrow> json \<Rightarrow> json \<Rightarrow> bool" where
  "same_digest d v w \<longleftrightarrow>
     iam_sha d (str_bytes (json_scalar_to_string d v)) = iam_sha d (str_bytes (json_scalar_to_string d w)) \<and>
     (length (json_scalar_to_string d v) \<le> IAM_MAX_VALUE_BYTES \<longleftrightarrow>
      length (json_scalar_to_string d w) \<le> IAM_MAX_VALUE_BYTES)"

fun public_eq :: "iam_deps \<Rightarrow> json \<Rightarrow> json \<Rightarrow> bool"
  and public_fields :: "iam_deps \<Rightarrow> (string \<times> json) list \<Rightarrow> (string \<times> json) list \<Rightarrow> bool"
  and public_items :: "iam_deps \<Rightarrow> json list \<Rightarrow> json list \<Rightarrow> bool" where
  "public_eq d (JObject ms) w \<longleftrightarrow> (case w of JObject ns \<Rightarrow> public_fields d ms ns | _ \<Rightarrow> False)"
| "public_eq d (JArray vs) w \<longleftrightarrow> (case w of JArray ws \<Rightarrow> public_items d vs ws | _ \<Rightarrow> False)"
| "public_eq d v w \<longleftrightarrow> v = w"
| "public_fields d [] ns \<longleftrightarrow> ns = []"
| "public_fields d ((key, v) # ms) ns \<longleftrightarrow>
     (case ns of
        (key', w) # ns' \<Rightarrow>
          key' = key \<and> (if is_sensitive_name key then same_digest d v w else public_eq d v w) \<and>
          public_fields d ms ns'
      | [] \<Rightarrow> False)"
| "public_items d [] ws \<longleftrightarrow> ws = []"
| "public_items d (v # vs) ws \<longleftrightarrow>
     (case ws of
        w # ws' \<Rightarrow> (case v of JObject ms \<Rightarrow> public_eq d v w | _ \<Rightarrow> v = w) \<and> public_items d vs ws'
      | [] \<Rightarrow> False)"

lemma push_redacted_same:
  "same_digest d v w \<Longrightarrow> push_fact d facts name (json_scalar_to_string d v) True =
     push_fact d facts name (json_scalar_to_string d w) True"
  by (auto simp: same_digest_def push_fact_def fact_redacted_def redact_def not_less)


lemma flatten_public:
  "public_eq d v w \<Longrightarrow> flatten_json_facts d v pfx depth facts = flatten_json_facts d w pfx depth facts"
  "public_fields d ms ns \<Longrightarrow> flatten_fields d ms pfx depth facts = flatten_fields d ns pfx depth facts"
  "public_items d vs ws \<Longrightarrow> flatten_items d vs name index depth facts = flatten_items d ws name index depth facts"
proof (induction d v pfx depth facts and d ms pfx depth facts and d vs name index depth facts
    arbitrary: w and ns and ws rule: flatten_json_facts_flatten_fields_flatten_items.induct)
  case (1 d v pfx depth facts)
  then show ?case by (cases v; cases w) auto
next
  case (3 d key field_value rest pfx depth facts)
  show ?case
  proof (cases ns)
    case (Cons n ns')
    obtain k w where n: "n = (k, w)" by (cases n)
    then have p: "k = key" "public_fields d rest ns'"
      "if is_sensitive_name key then same_digest d field_value w else public_eq d field_value w"
      using "3.prems" Cons by auto
    let ?name = "if pfx = [] then key else pfx @ ''.'' @ key"
    have tail: "flatten_fields d rest pfx depth = flatten_fields d ns' pfx depth"
      by (rule ext) (rule "3.IH"(3) [OF refl p(2)])
    have head: "(if is_sensitive_name key then push_fact d facts ?name (json_scalar_to_string d field_value) True
        else case field_value of
               JObject members \<Rightarrow> flatten_json_facts d (JObject members) ?name (depth + 1) facts
             | JArray items \<Rightarrow> flatten_items d items ?name 0 depth facts
             | other \<Rightarrow> push_fact d facts ?name (json_scalar_to_string d other) False) =
      (if is_sensitive_name key then push_fact d facts ?name (json_scalar_to_string d w) True
        else case w of
               JObject members \<Rightarrow> flatten_json_facts d (JObject members) ?name (depth + 1) facts
             | JArray items \<Rightarrow> flatten_items d items ?name 0 depth facts
             | other \<Rightarrow> push_fact d facts ?name (json_scalar_to_string d other) False)"
    proof (cases "is_sensitive_name key")
      case True
      then show ?thesis using p(3) push_redacted_same by simp
    next
      case False
      then have pe: "public_eq d field_value w" using p(3) by simp
      show ?thesis
      proof (cases field_value)
        case (JObject members)
        then obtain members' where w: "w = JObject members'" using pe by (cases w) auto
        show ?thesis
          using "3.IH"(2) [OF refl False JObject, of w] pe JObject w False by (simp del: flatten_json_facts.simps)
      next
        case (JArray items)
        then obtain items' where w: "w = JArray items'" using pe by (cases w) auto
        show ?thesis
          using "3.IH"(1) [OF refl False JArray, of items'] pe JArray w False by simp
      qed (use pe in simp_all)
    qed
    show ?thesis
      unfolding Cons n p(1) flatten_fields.simps(2) Let_def head by (simp only: tail)
  qed (use "3.prems" in auto)
next
  case (5 d item rest name index depth facts)
  show ?case
  proof (cases ws)
    case (Cons w ws')
    then have p: "case item of JObject ms \<Rightarrow> public_eq d item w | _ \<Rightarrow> item = w" "public_items d rest ws'"
      using "5.prems" by auto
    let ?name = "name @ ''['' @ show_nat index @ '']''"
    have tail: "flatten_items d rest name (index + 1) depth = flatten_items d ws' name (index + 1) depth"
      by (rule ext) (rule "5.IH"(2) [OF refl p(2)])
    have head: "(case item of
              JObject members \<Rightarrow> flatten_json_facts d (JObject members) ?name (depth + 1) facts
            | other \<Rightarrow> push_fact d facts ?name (json_scalar_to_string d other) False) =
      (case w of
              JObject members \<Rightarrow> flatten_json_facts d (JObject members) ?name (depth + 1) facts
            | other \<Rightarrow> push_fact d facts ?name (json_scalar_to_string d other) False)"
    proof (cases item)
      case (JObject members)
      then obtain members' where w: "w = JObject members'" using p(1) by (cases w) auto
      show ?thesis
        using "5.IH"(1) [OF refl JObject, of w] p(1) JObject w by (simp del: flatten_json_facts.simps)
    qed (use p(1) in simp_all)
    show ?thesis unfolding Cons flatten_items.simps(2) Let_def head by (simp only: tail)
  qed (use "5.prems" in auto)
qed auto


text \<open>The tokens that are decoded: the text of the first \<open>id_token\<close> member and of the first SAML response.\<close>

definition body_tokens :: "(string \<times> json) list \<Rightarrow> string option \<times> string option" where
  "body_tokens ms = (Option.bind (map_of ms ''id_token'') json_str,
     Option.bind (find_pair is_saml_response_name ms) json_str)"

lemma json_body_tokens:
  "json_body_facts d (JObject ms) =
    res_bind (flatten_json_facts d (JObject ms) [] 0 [])
      (\<lambda>facts. finalize_iam_facts d facts (fst (body_tokens ms)) (snd (body_tokens ms)))"
  by (simp add: json_body_facts_def json_get_def body_tokens_def del: flatten_json_facts.simps)

text \<open>C11. Two JSON callbacks that agree on everything but the values of members with sensitive
  names, and on the digests of those, are recorded alike: at any nesting of objects, also
  inside the elements of arrays, a secret is visible through its digest only.  Two
  exceptions are part of the statement: the bodies have the same text of a top-level
  \<open>id_token\<close> and SAML response, or none, because those are decoded and their claims recorded;
  and \<open>public_fields\<close> asks arrays directly inside arrays to be equal, because those are
  printed whole (the theorem after this one).\<close>

theorem json_secrets_digested:
  assumes "media_type_of content_type = ''application/json''"
    and "json_parse d body1 = Inr (JObject ms)" "json_parse d body2 = Inr (JObject ns)"
    and "public_fields d ms ns" "body_tokens ms = body_tokens ns"
  shows "parse_post_facts d content_type body1 = parse_post_facts d content_type body2"
proof -
  have "public_eq d (JObject ms) (JObject ns)" using assms(4) by simp
  then have "flatten_json_facts d (JObject ms) [] 0 [] = flatten_json_facts d (JObject ns) [] 0 []"
    by (rule flatten_public(1))
  then have "json_body_facts d (JObject ms) = json_body_facts d (JObject ns)"
    unfolding json_body_tokens assms(5) by (rule arg_cong)
  then show ?thesis using assms(1-3) by (simp add: parse_post_facts_def Let_def)
qed

text \<open>Not so in an array directly inside an array: it is printed whole, so that a password in
  it is recorded in plain text, while the same member one array further out is redacted.\<close>

theorem nested_array_shows_secret:
  assumes "media_type_of content_type = ''application/json''"
    and "json_parse d body = Inr (JObject [(key, JArray [JArray [JObject [(''password'', JString secret)]]])])"
    and "json_parse d flat = Inr (JObject [(key, JArray [JObject [(''password'', JString secret)]])])"
    and "\<not> is_sensitive_name key" "key \<noteq> []" "key \<notin> {''error'', ''state''}"
    and "length key \<le> 200" "length secret \<le> IAM_MAX_VALUE_BYTES"
    and "length (json_print d (JArray [JObject [(''password'', JString secret)]])) \<le> IAM_MAX_VALUE_BYTES"
  shows "parse_post_facts d content_type body = Inr (Generic,
      [fact_observed (key @ ''[0]'') (json_print d (JArray [JObject [(''password'', JString secret)]]))]) \<and>
    parse_post_facts d content_type flat = Inr (Generic,
      [fact_redacted (iam_sha d) (key @ ''[0].password'') secret])"
proof -
  have zero: "show_nat 0 = ''0''" by code_simp
  have pw: "is_sensitive_name ''password''" by code_simp
  have "is_sensitive_name ''id_token''" "is_sensitive_name ''code''" by code_simp+
  then have key: "key \<noteq> ''id_token''" "key \<noteq> ''code''" using assms(4) by auto
  have "\<not> is_saml_response_name key"
  proof
    assume "is_saml_response_name key"
    then have "to_ascii_lowercase key = ''samlresponse''"
      by (simp add: is_saml_response_name_def eq_ignore_ascii_case_def) code_simp
    then show False using assms(4) by (simp add: is_sensitive_name_def SENSITIVE_NAMES_def)
  qed
  then show ?thesis
    using assms zero pw key
    by (simp add: parse_post_facts_def json_body_facts_def json_get_def find_pair_def push_fact_def Let_def
        json_scalar_to_string_def IAM_MAX_FACTS_def IAM_MAX_KEY_BYTES_def IAM_MAX_JSON_DEPTH_def
        finalize_iam_facts_def classify_protocol_def fact_observed_def fact_redacted_def redact_def)
qed

definition leak_deps :: iam_deps where
  "leak_deps = \<lparr>form_pairs = (\<lambda>b. []),
     json_parse = (\<lambda>b. Inr (JObject [(''users'',
        if b = [] then JArray [JArray [JObject [(''password'', JString ''hunter2'')]]]
        else JArray [JObject [(''password'', JString ''hunter2'')]])])),
     json_print = (\<lambda>v. ''[{\"password\":\"hunter2\"}]''), b64_url = (\<lambda>s. None), b64_std = (\<lambda>s. None),
     xml_events = (\<lambda>b. []), iam_sha = (\<lambda>b. ''digest'')\<rparr>"

lemma json_media: "media_type_of (Some ''application/json'') = ''application/json''"
  by code_simp

section \<open>SAML facts\<close>

definition all_shown :: "iam_fact list \<Rightarrow> bool" where
  "all_shown facts \<longleftrightarrow> (\<forall>f \<in> set facts. \<forall>h. if_status f \<noteq> Redacted h)"

lemma saml_names_plain: "take 5 name = ''saml.'' \<Longrightarrow> \<not> is_sensitive_name name"
proof
  assume n: "take 5 name = ''saml.''" "is_sensitive_name name"
  have "take 5 (to_ascii_lowercase name) = to_ascii_lowercase (take 5 name)"
    by (simp add: to_ascii_lowercase_def take_map)
  also have "\<dots> = ''saml.''" unfolding n(1) by code_simp
  finally show False using n(2) by (auto simp: is_sensitive_name_def SENSITIVE_NAMES_def)
qed

lemma push_saml_shown:
  "push_saml_text_fact d facts name v force = Inr facts' \<Longrightarrow> take 5 name = ''saml.'' \<Longrightarrow>
    all_shown facts \<Longrightarrow> all_shown facts'"
  using saml_names_plain [of name]
  by (auto simp: push_saml_text_fact_def all_shown_def fact_observed_def fact_not_validated_def split: if_splits)

lemma push_attribute_shown:
  "push_attribute d attrs name target force st = Inr st' \<Longrightarrow> take 5 target = ''saml.'' \<Longrightarrow>
    all_shown (sa_facts st) \<Longrightarrow> all_shown (sa_facts st')"
  by (auto simp: push_attribute_def res_bind_Inr split: option.splits dest: push_saml_shown)

lemma element_facts_shown:
  "element_facts d kind attrs st = Inr st' \<Longrightarrow> all_shown (sa_facts st) \<Longrightarrow> all_shown (sa_facts st')"
  by (cases kind) (auto simp: res_bind_Inr Let_def split: if_splits dest!: push_attribute_shown)

lemma finalize_capture_shown:
  "finalize_saml_capture d c facts = Inr facts' \<Longrightarrow> all_shown facts \<Longrightarrow> all_shown facts'"
  by (auto simp: finalize_saml_capture_def split: option.splits saml_element.splits dest: push_saml_shown)

lemma take_capture_shown:
  "take_capture d st = Inr st' \<Longrightarrow> all_shown (sa_facts st) \<Longrightarrow> all_shown (sa_facts st')"
  by (auto simp: take_capture_def res_bind_Inr dest: finalize_capture_shown)

lemma begin_capture_shown:
  "begin_capture d kind is_empty depth st = Inr st' \<Longrightarrow> all_shown (sa_facts st) \<Longrightarrow> all_shown (sa_facts st')"
  by (auto simp: begin_capture_def Let_def split: if_splits dest: take_capture_shown)

lemma saml_element_shown:
  "saml_element_event d is_empty local_name attrs st = Inr st' \<Longrightarrow> all_shown (sa_facts st) \<Longrightarrow> all_shown (sa_facts st')"
  by (auto simp: saml_element_event_def Let_def res_bind_Inr split: if_splits
      dest: element_facts_shown begin_capture_shown)

lemma saml_event_shown:
  "saml_event d e st = Inr st' \<Longrightarrow> all_shown (sa_facts st) \<Longrightarrow> all_shown (sa_facts st')"
  by (cases e) (auto simp: Let_def res_bind_Inr split: option.splits if_splits
      dest: saml_element_shown take_capture_shown)

lemma saml_loop_shown:
  "saml_loop d es st = Inr st' \<Longrightarrow> all_shown (sa_facts st) \<Longrightarrow> all_shown (sa_facts st')"
  by (induction es arbitrary: st) (auto simp: res_bind_Inr dest: saml_event_shown)

text \<open>C13. No fact taken from a SAML response is ever redacted: the name under which it is checked
  is never a sensitive one.  In particular the value of an attribute that is itself called
  \<open>client_secret\<close> or \<open>password\<close> is recorded in plain text.\<close>

theorem saml_facts_never_redacted:
  assumes "parse_saml_xml d xml = Inr facts"
  shows "\<forall>f \<in> set facts. \<forall>h. if_status f \<noteq> Redacted h"
proof -
  obtain st where st: "saml_loop d (xml_events d xml) saml_start = Inr st"
    and facts: "facts = sa_facts st @
         [fact_observed ''saml.response.signature.present'' (show_bool (sa_response_signature st)),
          fact_observed ''saml.assertion.signature.present'' (show_bool (sa_assertion_signature st)),
          fact_not_validated ''saml.signature.verification'' ''not_attempted'']"
    using assms by (auto simp: parse_saml_xml_def res_bind_Inr)
  have "all_shown (sa_facts st)"
    by (rule saml_loop_shown [OF st]) (simp add: saml_start_def all_shown_def)
  then show ?thesis unfolding facts
    by (auto simp: all_shown_def fact_observed_def fact_not_validated_def)
qed

lemma query_secrets_digested_witness:
  "io_facts sample_observation = map (parameter_fact sample_iam_deps OAuth2) [(''code'', ''s3cret''), (''lang'', ''de'')]"
proof -
  have parsed: "parse_query_facts sample_iam_deps ''code=s3cret&lang=de'' = Inr (OAuth2, io_facts sample_observation)"
    using sample_request by (simp add: request_facts_def)
  have pairs: "form_pairs sample_iam_deps (str_bytes ''code=s3cret&lang=de'') = [(''code'', ''s3cret''), (''lang'', ''de'')]"
    by (simp add: sample_iam_deps_def)
  have "\<not> is_saml_response_name ''code''" "\<not> is_saml_response_name ''lang''" by code_simp+
  then have "jwt_part sample_iam_deps [(''code'', ''s3cret''), (''lang'', ''de'')] = []"
    "saml_part sample_iam_deps [(''code'', ''s3cret''), (''lang'', ''de'')] = []"
    by (simp_all add: jwt_part_def saml_part_def find_pair_def)
  then show ?thesis using query_secrets_digested [OF parsed refl] by (simp add: pairs)
qed

definition digest_deps :: iam_deps where
  "digest_deps = leak_deps\<lparr>json_parse := (\<lambda>b. Inr (JObject [(''user'', JString ''eve''),
     (''auth'', JObject [(''password'', JString (if b = [] then ''hunter2'' else ''letmein''))])]))\<rparr>"

lemma json_secrets_digested_witness:
  "parse_post_facts digest_deps (Some ''application/json'') [] =
   parse_post_facts digest_deps (Some ''application/json'') [0]"
proof (rule json_secrets_digested [OF json_media])
  let ?body = "\<lambda>secret. [(''user'', JString ''eve''), (''auth'', JObject [(''password'', JString secret)])]"
  show "json_parse digest_deps [] = Inr (JObject (?body ''hunter2''))"
    "json_parse digest_deps [0] = Inr (JObject (?body ''letmein''))"
    by (simp_all add: digest_deps_def)
  have "is_sensitive_name ''password''" "\<not> is_sensitive_name ''user''" "\<not> is_sensitive_name ''auth''" by code_simp+
  moreover have "same_digest digest_deps (JString ''hunter2'') (JString ''letmein'')"
    by (simp add: same_digest_def digest_deps_def leak_deps_def json_scalar_to_string_def IAM_MAX_VALUE_BYTES_def)
  ultimately show "public_fields digest_deps (?body ''hunter2'') (?body ''letmein'')" by simp
  have "\<not> is_saml_response_name ''user''" "\<not> is_saml_response_name ''auth''" by code_simp+
  then show "body_tokens (?body ''hunter2'') = body_tokens (?body ''letmein'')"
    by (simp add: body_tokens_def find_pair_def)
qed

definition saml_deps :: iam_deps where
  "saml_deps = leak_deps\<lparr>xml_events := (\<lambda>b.
     [XmlStart ''Attribute'' [(''Name'', Some ''client_secret'')], XmlStart ''AttributeValue'' [],
      XmlText (Some ''s3cret''), XmlEnd ''AttributeValue'', XmlEnd ''Attribute''])\<rparr>"

lemma saml_facts_never_redacted_witness:
  "\<exists>facts. parse_saml_xml saml_deps [] = Inr facts \<and>
     fact_observed ''saml.attribute.value[client_secret]'' ''s3cret'' \<in> set facts \<and>
     (\<forall>f \<in> set facts. \<forall>h. if_status f \<noteq> Redacted h)"
proof -
  have names: "\<not> is_sensitive_name ''saml.attribute.name''" "\<not> is_sensitive_name ''saml.attribute.value[client_secret]''"
    by (rule saml_names_plain; simp)+
  have run: "parse_saml_xml saml_deps [] = Inr
      [fact_observed ''saml.attribute.name'' ''client_secret'',
       fact_observed ''saml.attribute.value[client_secret]'' ''s3cret'',
       fact_observed ''saml.response.signature.present'' ''false'',
       fact_observed ''saml.assertion.signature.present'' ''false'',
       fact_not_validated ''saml.signature.verification'' ''not_attempted'']"
    by (simp add: parse_saml_xml_def saml_deps_def saml_element_event_def classify_saml_element_def saml_start_def
        push_attribute_def attribute_value_def push_saml_text_fact_def names begin_capture_def starts_capture_def
        take_capture_def finalize_saml_capture_def IAM_MAX_FACTS_def IAM_MAX_VALUE_BYTES_def SAML_MAX_TEXT_BYTES_def
        SAML_MAX_ATTRIBUTES_def SAML_MAX_XML_DEPTH_def show_bool_def Let_def map_filter_simps)
  then show ?thesis using saml_facts_never_redacted [OF run] by simp
qed

end
