(* ===== verification/Inspection_Properties.thy ===== *)
theory Inspection_Properties
  imports Codecs
begin

text \<open>
  Properties of the page audit and of content lineage: which findings a page has, that
  findings are told apart by their identities, what an audit leaves in the store.
\<close>

section \<open>The rules as a table\<close>

text \<open>
  The findings of an acquired page: identifier, severity and condition of every rule in
  order.  \<open>content\<close> says that the page is a successful HTML document.
\<close>

definition missing_header :: "page \<Rightarrow> string \<Rightarrow> bool" where
  "missing_header page name \<longleftrightarrow>
     (case pg_headers page of None \<Rightarrow> False | Some h \<Rightarrow> map_of (audit_response_headers h) name = None)"

definition audit_table :: "audit_env \<Rightarrow> page \<Rightarrow> (string \<times> finding_severity \<times> bool) list" where
  "audit_table env page =
     (let content = (is_success_2xx (pg_status_code page) \<and>
            classify_representation (declared_content_type (au_deps env) page) = RepHtml);
          html = extract_html_facts (au_html_events env) (au_page_html env page);
          scheme = url_scheme_of (au_parse_url env) (pg_url_final page)
      in [(''seo.canonical.missing'', SevMedium, content \<and> hf_canonical_links html = []),
          (''seo.title.missing'', SevMedium, content \<and> \<not> hf_title_present html),
          (''seo.meta_description.missing'', SevLow, content \<and> \<not> hf_meta_description_present html),
          (''seo.h1.missing'', SevLow, content \<and> hf_h1_count html = 0),
          (''seo.h1.multiple'', SevLow, content \<and> 1 < hf_h1_count html),
          (''seo.html_lang.missing'', SevLow, content \<and> \<not> hf_html_lang_present html),
          (''seo.image_alt.missing'', SevLow, content \<and> 0 < hf_images_missing_alt html),
          (''security.https.missing'', SevHigh, scheme = Some SchemeHttp),
          (''security.hsts.missing'', SevMedium,
             scheme = Some SchemeHttps \<and> missing_header page ''strict-transport-security''),
          (''security.csp.missing'', SevMedium, content \<and> missing_header page ''content-security-policy''),
          (''security.x_content_type_options.missing'', SevLow,
             content \<and> missing_header page ''x-content-type-options'')])"

definition table_finding :: "evidenced_page_facts \<Rightarrow> (evidenced_page_facts \<Rightarrow> finding option) \<Rightarrow>
    string \<times> finding_severity \<times> bool \<Rightarrow> bool" where
  "table_finding ev rule row \<longleftrightarrow>
     (case (rule ev, row) of
        (None, (rid, sev, b)) \<Rightarrow> \<not> b
      | (Some f, (rid, sev, b)) \<Rightarrow> b \<and> fi_rule_id f = rid \<and> fi_severity f = sev \<and>
          fi_target f = pf_final_url (ep_facts ev) \<and> fi_evidence f = [ep_evidence_ref ev])"

lemma rules_match_table:
  assumes "ep_facts ev = page_facts_of env page"
  shows "list_all2 (table_finding ev) (PAGE_RULES (au_parse_url env)) (audit_table env page)"
proof -
  let ?h = "extract_html_facts (au_html_events env) (au_page_html env page)"
  have html: "pf_html (ep_facts ev) =
      (if classify_representation (declared_content_type (au_deps env) page) = RepHtml then Some ?h else None)"
    and seo: "page_content_seo_applicable (ep_facts ev) \<longleftrightarrow> is_success_2xx (pg_status_code page) \<and>
      classify_representation (declared_content_type (au_deps env) page) = RepHtml"
    and url: "pf_final_url (ep_facts ev) = pg_url_final page"
    and headers: "pf_response_headers (ep_facts ev) = map_option audit_response_headers (pg_headers page)"
    using assms by (simp_all add: page_facts_of_def page_content_seo_applicable_def Let_def)
  note facts = html seo url headers
  have "table_finding ev seo_canonical_missing (audit_table env page ! 0)"
    "table_finding ev seo_title_missing (audit_table env page ! 1)"
    "table_finding ev seo_meta_description_missing (audit_table env page ! 2)"
    "table_finding ev seo_h1_missing (audit_table env page ! 3)"
    "table_finding ev seo_h1_multiple (audit_table env page ! 4)"
    "table_finding ev seo_html_lang_missing (audit_table env page ! 5)"
    "table_finding ev seo_image_alt_missing (audit_table env page ! 6)"
    by (simp_all add: table_finding_def audit_table_def Let_def facts seo_canonical_missing_def
        seo_title_missing_def seo_meta_description_missing_def seo_h1_missing_def seo_h1_multiple_def
        seo_html_lang_missing_def seo_image_alt_missing_def) blast+
  moreover have "table_finding ev (security_https_missing (au_parse_url env)) (audit_table env page ! 7)"
    by (cases "url_scheme_of (au_parse_url env) (pg_url_final page)"; cases "the (url_scheme_of (au_parse_url env) (pg_url_final page))")
      (simp_all add: table_finding_def audit_table_def Let_def facts security_https_missing_def)
  moreover have "table_finding ev (security_hsts_missing (au_parse_url env)) (audit_table env page ! 8)"
    "table_finding ev security_csp_missing (audit_table env page ! 9)"
    "table_finding ev security_x_content_type_options_missing (audit_table env page ! 10)"
    by (auto simp: table_finding_def audit_table_def Let_def facts
        security_hsts_missing_def security_csp_missing_def security_x_content_type_options_missing_def
        missing_header_def split: option.splits)
  ultimately show ?thesis
    by (simp add: PAGE_RULES_def audit_table_def Let_def)
qed

lemma findings_of_table:
  "list_all2 (table_finding ev) rules rows \<Longrightarrow>
    map (\<lambda>f. (fi_rule_id f, fi_severity f)) (List.map_filter (\<lambda>rule. rule ev) rules) =
      map (\<lambda>(rid, sev, b). (rid, sev)) (filter (\<lambda>(rid, sev, b). b) rows) \<and>
    (\<forall>f \<in> set (List.map_filter (\<lambda>rule. rule ev) rules).
       fi_target f = pf_final_url (ep_facts ev) \<and> fi_evidence f = [ep_evidence_ref ev])"
  by (induction rules rows rule: list_all2_induct)
    (auto simp: map_filter_simps table_finding_def split: option.splits prod.splits)

text \<open>The audit of an acquired page finds what the table says: for each of the eleven rules,
  in order, a finding exactly when its condition holds of the page, with the rule's
  severity, the page's final URL as target and the page's own evidence.\<close>

theorem audit_follows_table:
  assumes "ep_facts ev = page_facts_of env page"
  shows "map (\<lambda>f. (fi_rule_id f, fi_severity f)) (analyze_page (au_parse_url env) ev) =
      map (\<lambda>(rid, sev, b). (rid, sev)) (filter (\<lambda>(rid, sev, b). b) (audit_table env page)) \<and>
    (\<forall>f \<in> set (analyze_page (au_parse_url env) ev).
       fi_target f = pg_url_final page \<and> fi_evidence f = [ep_evidence_ref ev])"
proof -
  have "pf_final_url (ep_facts ev) = pg_url_final page" using assms by (simp add: page_facts_of_def Let_def)
  then show ?thesis
    using findings_of_table [OF rules_match_table [OF assms]] by (simp add: analyze_page_def)
qed


section \<open>Identities of findings\<close>

lemma append_last_sep_eq:
  assumes "x \<notin> set us" "x \<notin> set vs"
  shows "xs @ x # us = ys @ x # vs \<longleftrightarrow> xs = ys \<and> us = vs"
proof -
  have "xs @ x # us = ys @ x # vs \<longleftrightarrow> rev us @ x # rev xs = rev vs @ x # rev ys"
    by (metis append_Cons append_Nil append_assoc rev.simps(2) rev_append rev_rev_ident)
  then show ?thesis using append_sep_eq [of x "rev us" "rev vs"] assms by auto
qed

lemma four_parts:
  assumes "x \<notin> set b" "x \<notin> set c" "x \<notin> set d" "x \<notin> set b'" "x \<notin> set c'" "x \<notin> set d'"
    and "a @ x # b @ x # c @ x # d = a' @ x # b' @ x # c' @ x # d'"
  shows "a = a' \<and> b = b' \<and> c = c' \<and> d = d'"
proof -
  note last = append_last_sep_eq [where x = x]
  have "a @ x # b @ x # c = a' @ x # b' @ x # c'" "d = d'"
    using last [of d d' "a @ x # b @ x # c" "a' @ x # b' @ x # c'"] assms by auto
  moreover from this have "a @ x # b = a' @ x # b'" "c = c'"
    using last [of c c' "a @ x # b" "a' @ x # b'"] assms by auto
  moreover from this have "a = a'" "b = b'" using last [of b b' a a'] assms by auto
  ultimately show ?thesis by simp
qed

lemma identity_repr_inj: "identity_repr c = identity_repr c' \<longleftrightarrow> c = c'"
  by (cases c; cases c') (auto split: if_splits simp: scheme_str.simps elim!: scheme_str.elims)

lemma bar_notin_show [simp]: "CHR ''|'' \<notin> set (show_nat n)"
  using show_nat_digits [of n] by auto

lemma bar_notin_repr [simp]: "CHR ''|'' \<notin> set (identity_repr c)"
proof (cases c)
  case (Scheme s)
  then show ?thesis by (cases s) auto
qed auto

lemma bar_notin_labels [simp]: "CHR ''|'' \<notin> set (category_str c)" "CHR ''|'' \<notin> set (severity_str s)"
  by (cases c; cases s; simp)+

lemma labels_inj [simp]: "category_str c = category_str c' \<longleftrightarrow> c = c'" "severity_str s = severity_str s' \<longleftrightarrow> s = s'"
  by (cases c; cases c'; simp) (cases s; cases s'; simp)

lemma sep_notin_evidence [simp]:
  "CHR ''|'' \<notin> set (evidence_id_to_string e)" "CHR '','' \<notin> set (evidence_id_to_string e)"
  "evidence_id_to_string e \<noteq> []"
proof -
  obtain b where e: "e = EvidenceId b" by (cases e)
  show "CHR ''|'' \<notin> set (evidence_id_to_string e)" "CHR '','' \<notin> set (evidence_id_to_string e)"
    "evidence_id_to_string e \<noteq> []"
    using set_hex [of b] by (auto simp: e format_id_def EVIDENCE_PREFIX_def)
qed

lemma bar_notin_join: "\<forall>x \<in> set xs. CHR ''|'' \<notin> set x \<Longrightarrow> CHR ''|'' \<notin> set (join_with '','' xs)"
  by (induction "'',''::string" xs rule: join_with.induct) auto

lemma join_comma_inj:
  "\<forall>x \<in> set xs. CHR '','' \<notin> set x \<and> x \<noteq> [] \<Longrightarrow> \<forall>y \<in> set ys. CHR '','' \<notin> set y \<and> y \<noteq> [] \<Longrightarrow>
    join_with '','' xs = join_with '','' ys \<Longrightarrow> xs = ys"
proof (induction xs arbitrary: ys)
  case Nil
  then show ?case by (cases ys rule: remdups_adj.cases) auto
next
  case (Cons x xs)
  note IH = Cons.IH and prems = Cons.prems
  show ?case
  proof (cases ys)
    case Nil
    then show ?thesis using prems by (cases xs) auto
  next
    case (Cons y ys')
    show ?thesis
    proof (cases xs; cases ys')
      fix x2 xs2 y2 ys2 assume a: "xs = x2 # xs2" "ys' = y2 # ys2"
      then have "x @ CHR '','' # join_with '','' xs = y @ CHR '','' # join_with '','' ys'"
        using prems(3) Cons by simp
      then have "x = y \<and> join_with '','' xs = join_with '','' ys'"
        using append_sep_eq [of "CHR '',''" x y] prems(1,2) Cons by auto
      then show ?thesis using IH [of ys'] prems(1,2) Cons by auto
    qed (use prems Cons in \<open>auto dest: append_sep_neq\<close>)
  qed
qed

lemma str_bytes_inj: "str_bytes x = str_bytes y \<longleftrightarrow> x = y"
proof -
  have "inj (of_char :: char \<Rightarrow> 8 word)"
  proof (rule injI)
    fix c d assume "(of_char c :: 8 word) = of_char d"
    then have "(of_nat (of_char c) :: 8 word) = of_nat (of_char d)" by (simp only: of_nat_of_char)
    then have "unat (of_nat (of_char c) :: 8 word) = unat (of_nat (of_char d) :: 8 word)" by (rule arg_cong)
    moreover have "(of_char c :: nat) < 256" for c by simp
    ultimately have "(of_char c :: nat) = of_char d" by (simp only: unat_of_nat len_num1 len_bit0) simp
    then show "c = d" by simp
  qed
  then show ?thesis by (simp add: str_bytes_def inj_map_eq_map)
qed

text \<open>Findings of the rules are told apart by their identities: two different findings have
  different identity texts, even when a target or an observed value contains the separator,
  so two findings share an identity only when SHA-256 collides on their texts.\<close>

theorem finding_identities_distinct:
  assumes "CHR ''|'' \<notin> set (fi_rule_id f)" "CHR ''|'' \<notin> set (fi_rule_id g)"
  shows "(finding_key_text f = finding_key_text g \<longleftrightarrow> f = g) \<and>
    (finding_id_of sha f = finding_id_of sha g \<and> f \<noteq> g \<longrightarrow>
       str_bytes (finding_key_text f) \<noteq> str_bytes (finding_key_text g) \<and>
       sha (str_bytes (finding_key_text f)) = sha (str_bytes (finding_key_text g)))"
proof -
  have "f = g" if key: "finding_key_text f = finding_key_text g"
  proof -
    let ?ids = "\<lambda>f. map (\<lambda>e. evidence_id_to_string (ref_id e)) (fi_evidence f)"
    have free: "CHR ''|'' \<notin> set (join_with '','' (?ids h))" for h by (rule bar_notin_join) simp
    have head: "fi_rule_id f = fi_rule_id g" "fi_rule_version f = fi_rule_version g"
        "fi_category f = fi_category g" "fi_severity f = fi_severity g"
      and rest: "fi_target f @ CHR ''|'' # identity_repr (fi_observed f) @ CHR ''|'' # identity_repr (fi_expected f) @ CHR ''|'' # join_with '','' (?ids f) =
        fi_target g @ CHR ''|'' # identity_repr (fi_observed g) @ CHR ''|'' # identity_repr (fi_expected g) @ CHR ''|'' # join_with '','' (?ids g)"
      using key assms by (simp_all add: finding_key_text_def append_sep_eq)
    have "fi_target f = fi_target g \<and> identity_repr (fi_observed f) = identity_repr (fi_observed g) \<and>
        identity_repr (fi_expected f) = identity_repr (fi_expected g) \<and>
        join_with '','' (?ids f) = join_with '','' (?ids g)"
      by (rule four_parts [OF _ _ _ _ _ _ rest]) (simp_all add: free)
    then have same: "fi_target f = fi_target g" "fi_observed f = fi_observed g" "fi_expected f = fi_expected g"
        "join_with '','' (?ids f) = join_with '','' (?ids g)"
      by (simp_all add: identity_repr_inj)
    moreover have "?ids f = ?ids g" using join_comma_inj [of "?ids f" "?ids g"] same(4) by auto
    moreover have "inj (\<lambda>e. evidence_id_to_string (ref_id e))"
      by (auto intro!: injI evidence_ref.expand)
    ultimately show "f = g" using head same(1-3) by (simp add: inj_map_eq_map)
  qed
  then show ?thesis by (auto simp: finding_id_of_def str_bytes_inj)
qed

section \<open>What an audit leaves in the store\<close>

abbreviation finding_key :: "audit_env \<Rightarrow> finding \<Rightarrow> string" where
  "finding_key env f \<equiv> fid_str (finding_id_of (sha256_hex (au_deps env)) f)"

text \<open>No fault of the database claims a uniqueness violation: only the primary key gives those.\<close>

definition honest :: "domain_persistence \<Rightarrow> bool" where
  "honest s \<longleftrightarrow> (\<forall>code msg. Some (SqlxDatabase code True msg) \<notin> set (db_faults s))"

lemma honest_empty [simp]: "honest (empty_store [])"
  by (simp add: honest_def empty_store_def)

lemma honest_more [simp]: "honest (s\<lparr>history_rows := h\<rparr>) = honest s"
  by (simp add: honest_def)

lemma keeps_honest_sql [triple_intro]: "keeps honest sql_call"
  by (auto simp: keeps_def sql_call_def honest_def split: list.splits option.splits)

lemma keeps_honest_result [triple_intro]: "keeps honest (\<lambda>s. (f s, s))"
  by (simp add: keeps_def)

lemma keeps_honest_insert: "keeps honest (sql_insert_history row)"
  unfolding sql_insert_history_def by (intro triple_intro) (simp add: keeps_def)

lemma keeps_honest_append [triple_intro]: "keeps honest (append_history k r p t)"
  using keepsD [OF keeps_honest_insert]
  by (auto simp: keeps_def append_history_def split: prod.splits sum.splits sqlx_error.splits bool.splits)

lemma keeps_honest_ops [triple_intro]:
  "keeps honest (read_history k)" "keeps honest (read_first_record c perr serr k)"
  "keeps honest (write_record c perr serr k x now)" "keeps honest (resolve ce r)"
  "keeps honest (record_evidence ce e now b)" "keeps honest (append_once perr k p t y)"
proof -
  show h: "keeps honest (read_history k)" for k
    unfolding read_history_def backend_call_def by (intro triple_intro)
  show r: "keeps honest (read_first_record c perr serr k)" for c :: "'x codec" and perr serr k
    unfolding read_first_record_def by (intro triple_intro h)
  show w: "keeps honest (write_record c perr serr k x now)" for c :: "'x codec" and perr serr k x now
    unfolding write_record_def by (intro triple_intro)
  show "keeps honest (resolve ce r)" unfolding resolve_def read_evidence_def by (rule r)
  show "keeps honest (record_evidence ce e now b)"
    unfolding record_evidence_def Let_def by (intro triple_intro w)
  show "keeps honest (append_once perr k p t y)" by (rule keeps_append_once) (rule keeps_honest_append)
qed

lemma keeps_honest_resolve_all [triple_intro]: "keeps honest (resolve_all ce es)"
  by (induction es) (auto intro!: triple_intro)

lemma keeps_honest_finding: "keeps honest (record_finding sha ce cf now f)"
  unfolding record_finding_def by (intro triple_intro)

lemma append_exists_honest:
  assumes "append_history k r p t s = (Inl HistoryAlreadyExists, s')" "honest s"
  shows "(k, r) \<in> set (map history_key (history_rows s))"
  using assms
  by (auto simp: append_history_def sql_insert_history_def act_bind_def history_key_def sql_call_def honest_def
      split: prod.splits sum.splits if_splits sqlx_error.splits bool.splits list.splits option.splits)

lemma append_once_at:
  assumes "append_once perr k p t x s = (Inr y, s')" "honest s"
  shows "y = x \<and> history_at s' (k, 1) \<noteq> None"
  using assms(1)
proof (rule append_once_cases)
  assume "Inr y = Inr x" "append_history k 1 p t s = (Inr (), s')"
  then show ?thesis using append_history_at(2) by fastforce
next
  assume exists: "Inr y = Inr x" "append_history k 1 p t s = (Inl HistoryAlreadyExists, s')" "tables s' = tables s"
  from append_exists_honest [OF exists(2) assms(2)] exists(1,3) show ?thesis
    by (auto simp: history_at_None tables_def)
qed simp

lemma grows_ok: "grows s s' \<Longrightarrow> store_ok s \<Longrightarrow> store_ok s'"
  by (simp add: grows_def)

lemma store_ok_wf: "store_ok s \<Longrightarrow> store_wf s"
  by (simp add: store_ok_def)

lemma grows_history_at: "grows s s' \<Longrightarrow> history_at s k \<noteq> None \<Longrightarrow> history_at s' k \<noteq> None"
  by (auto simp: grows_def history_at_None dest: set_mono_prefix)

lemma record_finding_Inr:
  assumes "record_finding sha ce cf now f s = (Inr r, s')" "honest s"
  shows "r = f \<and> history_at s' (fid_str (finding_id_of sha f), 1) \<noteq> None \<and> grows s s' \<and> honest s'"
proof -
  obtain s1 p where res: "resolve_all ce (fi_evidence f) s = (Inr (), s1)"
    and app: "append_once AuditPersistence (fid_str (finding_id_of sha f)) p now f s1 = (Inr r, s')"
    using assms(1) by (auto simp: record_finding_def act_bind_Inr_iff)
  have "honest s1" using keepsD [OF keeps_honest_resolve_all assms(2) res] .
  then show ?thesis
    using append_once_at [OF app] keepsD [OF keeps_grows_finding grows_refl assms(1)]
      keepsD [OF keeps_honest_finding assms(2,1)] by simp
qed

lemma record_findings_Inr:
  "record_findings sha ce cf now fs s = (Inr rs, s') \<Longrightarrow> honest s \<Longrightarrow>
    rs = fs \<and> grows s s' \<and> (\<forall>f \<in> set fs. history_at s' (fid_str (finding_id_of sha f), 1) \<noteq> None)"
proof (induction fs arbitrary: s rs)
  case Nil
  then show ?case by (simp add: grows_refl act_ok_def)
next
  case (Cons f fs)
  then obtain r s1 rs' where f: "record_finding sha ce cf now f s = (Inr r, s1)"
    and rest: "record_findings sha ce cf now fs s1 = (Inr rs', s')" and rs: "rs = r # rs'"
    by (auto simp: act_bind_Inr_iff act_ok_def)
  note one = record_finding_Inr [OF f Cons.prems(2)]
  with Cons.IH [OF rest] have rest: "rs' = fs" "grows s1 s'"
    "\<forall>f \<in> set fs. history_at s' (fid_str (finding_id_of sha f), 1) \<noteq> None" by auto
  moreover have "grows s s'" using one rest grows_trans by blast
  moreover have "history_at s' (fid_str (finding_id_of sha f), 1) \<noteq> None"
    using one rest(2) grows_history_at by blast
  ultimately show ?case using one rs by simp
qed

text \<open>C12. An audit answers for what it acquired: its evidence is the page it fetched and can be
  read back at any later time; a page that was never observed has no findings and no
  markers; otherwise the findings are those of the rules on that page, all citing that
  evidence and all in the ledger of findings at any later time.\<close>

theorem audit_answers_for_its_page:
  assumes "store_ok s" "honest s" "codec_ok (au_bundle_codec env)"
    and "audit_page env cf url s = (Inr res, s')"
    and "ledger_run cs ca ci s' t" "healthy t"
  shows "\<exists>page ev. au_fetch env url = Inr page \<and>
    ep_facts ev = page_facts_of env page \<and> ep_evidence_ref ev = pa_evidence_ref res \<and>
    resolve (au_bundle_codec env) (pa_evidence_ref res) t =
      (Inr (Some ((build_evidence (au_deps env) page (Some (au_page_html env page)) False False)
         \<lparr>eb_id := Some (au_fresh env)\<rparr>)), t) \<and>
    (if pg_observed_status_code page = None
     then pa_outcome res = TargetUnobserved \<and> pa_findings res = [] \<and> pa_technology_markers res = []
     else pa_outcome res = Evaluated \<and> pa_findings res = analyze_page (au_parse_url env) ev \<and>
       pa_technology_markers res = extract_technology_markers ev) \<and>
    (\<forall>f \<in> set (pa_findings res). fi_evidence f = [pa_evidence_ref res] \<and> history_at t (finding_key env f, 1) \<noteq> None)"
proof -
  let ?sha = "sha256_hex (au_deps env)"
  obtain page ev s1 where page: "au_fetch env url = Inr page"
    and facts: "record_page_facts env page s = (Inr ev, s1)"
    and rest: "(if pf_observed_status (ep_facts ev) \<noteq> None then
       act_bind (record_findings ?sha (au_bundle_codec env) cf (au_now env) (analyze_page (au_parse_url env) ev)) (\<lambda>findings.
       act_ok \<lparr>pa_outcome = Evaluated, pa_evidence_ref = ep_evidence_ref ev, pa_findings = findings,
               pa_technology_markers = extract_technology_markers ev\<rparr>)
     else act_ok \<lparr>pa_outcome = TargetUnobserved, pa_evidence_ref = ep_evidence_ref ev,
                  pa_findings = [], pa_technology_markers = []\<rparr>) s1 = (Inr res, s')"
    using assms(4) unfolding audit_page_def by (auto simp: act_bind_Inr_iff)
  let ?b = "build_evidence (au_deps env) page (Some (au_page_html env page)) False False"
  obtain b where rec: "record_evidence (au_bundle_codec env) (au_fresh env) (au_now env) ?b s = (Inr b, s1)"
    and ev: "ep_facts ev = page_facts_of env page"
      "ep_evidence_ref ev = EvidenceRef (case eb_id b of Some e \<Rightarrow> e | None \<Rightarrow> au_fresh env)"
    using facts by (auto simp: record_page_facts_def act_bind_Inr_iff act_map_err_Inr_iff act_ok_def Let_def)
  have b: "b = ?b\<lparr>eb_id := Some (au_fresh env)\<rparr>" "eb_id b = Some (au_fresh env)"
    using record_evidence_Inr [OF rec] by (auto simp: build_evidence_def Let_def)
  have obs: "pf_observed_status (ep_facts ev) = pg_observed_status_code page"
    by (simp add: ev page_facts_of_def page_provenance_of_def Let_def)
  have out: "pa_evidence_ref res = ep_evidence_ref ev \<and> grows s1 s' \<and>
    (if pg_observed_status_code page = None
     then pa_outcome res = TargetUnobserved \<and> pa_findings res = [] \<and> pa_technology_markers res = []
     else pa_outcome res = Evaluated \<and> pa_findings res = analyze_page (au_parse_url env) ev \<and>
       pa_technology_markers res = extract_technology_markers ev) \<and>
    (\<forall>f \<in> set (pa_findings res). history_at s' (finding_key env f, 1) \<noteq> None)"
    using rest obs keepsD [OF keeps_honest_ops(5) assms(2) rec]
    by (auto simp: act_bind_Inr_iff act_ok_def grows_refl split: if_splits dest!: record_findings_Inr)
  have later: "grows s' t" by (rule ledger_run_grows) (rule assms(5))
  have "grows s s1" using keepsD [OF keeps_grows_evidence grows_refl rec] .
  then have "grows s t" "prefix (history_rows s1) (history_rows t)"
    using out later grows_trans [of s1 s' t] grows_trans [of s s1 t] by (auto simp: grows_def [of s1 t])
  then have "resolve (au_bundle_codec env) (EvidenceRef (au_fresh env)) t = (Inr (Some b), t)"
    using record_then_resolve [OF assms(3) _ rec b(2) _ assms(6)] assms(1) by (simp add: grows_def store_ok_def)
  moreover have "fi_evidence f = [ep_evidence_ref ev]" if "f \<in> set (analyze_page (au_parse_url env) ev)" for f
    using findings_of_table [OF rules_match_table [OF ev(1)]] that by (simp add: analyze_page_def)
  ultimately show ?thesis
    using page ev out b grows_history_at [OF later]
    by (intro exI [of _ page] exI [of _ ev]) (auto split: if_splits)
qed

section \<open>Content lineage\<close>

text \<open>The lineage of the same bytes and transformation is one fact: recorded again at any
  later time, under any clock and cited evidence, it gives the same identity, leaves the
  store as it was, and reads back as it was recorded first.\<close>

theorem lineage_recorded_once:
  assumes "store_ok s" "honest s" "codec_ok c"
    and "record_lineage sha c now b e d b' s = (Inr i, s1)" "history_of s (tlid_str i) = []"
    and "ledger_run cs ca ci s1 s2" "healthy s2"
    and "ser c (new_lineage_record sha now' b e' d b') = Inr p"
  shows "record_lineage sha c now' b e' d b' s2 = (Inr i, s2) \<and>
    read_lineage c i s2 = (Inr (Some (new_lineage_record sha now b e d b')), s2)"
proof -
  let ?r = "new_lineage_record sha now b e d b'"
  have fresh: "(tlid_str i, 1) \<notin> set (map history_key (history_rows s))"
    using assms(5) by (auto simp: history_of_Nil history_key_def)
  obtain q where q: "ser c ?r = Inr q" "i = lineage_id sha ?r"
    and app: "append_history (tlid_str i) 1 q now s = (Inr (), s1) \<or>
      append_history (tlid_str i) 1 q now s = (Inl HistoryAlreadyExists, s1)"
    by (rule record_lineage_Inr [OF assms(4)])
  have app: "append_history (tlid_str i) 1 q now s = (Inr (), s1)"
    using app fresh append_exists_honest assms(2) by blast
  have "grows s s1" using keepsD [OF keeps_grows_lineage grows_refl assms(4)] .
  moreover have later: "grows s1 s2" by (rule ledger_run_grows) (rule assms(6))
  ultimately have wf: "store_wf s" "store_wf s2" using assms(1) grows_ok store_ok_wf by blast+
  have "write_record c LineagePersistence LineageSerialization (tlid_str i) ?r now s = (Inr (), s1)"
    by (simp add: write_record_def q(1) act_bind_lift act_map_err_def app del: One_nat_def)
  from write_then_read [OF assms(3) wf(1) this wf(2) assms(7)] later
  have read: "read_lineage c i s2 = (Inr (Some ?r), s2)" by (simp add: read_lineage_def grows_def)
  have "history_at s2 (tlid_str i, 1) \<noteq> None"
    using append_history_at(2) [OF app] grows_history_at [OF later] by simp
  then have "append_history (tlid_str i) 1 p now' s2 = (Inl HistoryAlreadyExists, s2)"
    by (simp add: append_history_healthy [OF assms(7)] history_at_None)
  moreover have "lineage_id sha (new_lineage_record sha now' b e' d b') = i"
    by (simp add: q lineage_id_of_new)
  moreover have "tl_recorded_at (new_lineage_record sha now' b e' d b') = now'"
    by (simp add: new_lineage_record_def)
  ultimately have "record_lineage sha c now' b e' d b' s2 = (Inr i, s2)"
    by (simp add: record_lineage_def Let_def act_bind_lift assms(8) append_once_def)
  with read show ?thesis by simp
qed

section \<open>Witnesses\<close>

definition html_deps :: evidence_deps where
  "html_deps = sample_deps\<lparr>header_to_str := (\<lambda>b. Some (map (\<lambda>w. char_of (unat w)) b))\<rparr>"

definition sample_audit :: audit_env where
  "sample_audit = \<lparr>au_deps = html_deps, au_page_html = (\<lambda>_. ''<h1>hi</h1>''),
     au_html_events = (\<lambda>_. [HtmlElement [(''lang'', ''sv'')], HeadingOne]),
     au_parse_url = sample_parser, au_fetch = (\<lambda>_. Inr sample_page),
     au_bundle_codec = table_codec [(build_evidence html_deps sample_page (Some ''<h1>hi</h1>'') False False)
       \<lparr>eb_id := Some sample_evidence\<rparr>],
     au_fresh = sample_evidence, au_now = 0\<rparr>"

definition finding_codec :: "finding codec" where
  "finding_codec = \<lparr>ser = (\<lambda>f. Inr (str_bytes (fi_rule_id f))), de = (\<lambda>_. Inl ''opaque'')\<rparr>"

definition audited :: "(audit_error + page_audit_result) \<times> domain_persistence" where
  "audited = audit_page sample_audit finding_codec ''http://a.se/'' (empty_store [])"

lemma audited_Inr: "audited = (Inr (projr (fst audited)), snd audited)"
proof -
  have "isl (fst audited) = False" by code_simp
  then show ?thesis by (cases "fst audited") (auto simp: prod_eq_iff)
qed

lemma audited_healthy: "healthy (snd audited)"
  by code_simp

theorem audit_answers_for_its_page_witness:
  "length (pa_findings (projr (fst audited))) = 1 \<and>
   list_all (\<lambda>f. history_at (snd audited) (finding_key sample_audit f, 1) \<noteq> None)
     (pa_findings (projr (fst audited))) \<and>
   resolve (au_bundle_codec sample_audit) (pa_evidence_ref (projr (fst audited))) (snd audited) =
     (Inr (Some ((build_evidence html_deps sample_page (Some ''<h1>hi</h1>'') False False)
        \<lparr>eb_id := Some sample_evidence\<rparr>)), snd audited)"
proof -
  have run: "audit_page sample_audit finding_codec ''http://a.se/'' (empty_store []) =
      (Inr (projr (fst audited)), snd audited)"
    using audited_Inr by (simp add: audited_def)
  have "codec_ok (au_bundle_codec sample_audit)" by (simp add: sample_audit_def)
  from audit_answers_for_its_page [OF store_ok_empty honest_empty this run rtranclp.rtrancl_refl audited_healthy]
  obtain page where "au_fetch sample_audit ''http://a.se/'' = Inr page"
    and res: "resolve (au_bundle_codec sample_audit) (pa_evidence_ref (projr (fst audited))) (snd audited) =
      (Inr (Some ((build_evidence (au_deps sample_audit) page (Some (au_page_html sample_audit page)) False False)
         \<lparr>eb_id := Some (au_fresh sample_audit)\<rparr>)), snd audited)"
    and all: "\<forall>f \<in> set (pa_findings (projr (fst audited))). history_at (snd audited) (finding_key sample_audit f, 1) \<noteq> None"
    by blast
  from this(1) have page: "page = sample_page" by (simp add: sample_audit_def)
  have "length (pa_findings (projr (fst audited))) = 1" by code_simp
  with all res show ?thesis
    by (simp only: page list_all_iff) (simp add: sample_audit_def)
qed

end
