(* ===== verification/Chain_Graph.thy ===== *)
theory Chain_Graph
  imports Json_Value "HOL-Library.AList"
begin

text \<open>
  Dependency graphs of actions (\<open>spider_agent_types/src/concurrent_chain.rs\<close>) and their
  execution (\<open>spider_agent/src/automation/concurrent_chain.rs\<close>).

  A \<open>HashMap\<close> is an association list with distinct keys.  Where the code iterates over one,
  \<open>order\<close> gives the keys in the order of the iteration, which is not specified: a theorem
  about all \<open>order\<close> that permute the keys holds for every iteration order.
\<close>

section \<open>Steps and results\<close>

record dependent_step =
  ds_id :: string
  ds_action :: json
  ds_depends_on :: "string list"
  ds_blocks :: "string list"
  ds_description :: "string option"

definition new_step :: "string \<Rightarrow> json \<Rightarrow> dependent_step" where
  "new_step i action = \<lparr>ds_id = i, ds_action = action, ds_depends_on = [], ds_blocks = [], ds_description = None\<rparr>"

definition depends_on :: "string \<Rightarrow> dependent_step \<Rightarrow> dependent_step" where
  "depends_on step_id s = s\<lparr>ds_depends_on := ds_depends_on s @ [step_id]\<rparr>"

definition depends_on_all :: "string list \<Rightarrow> dependent_step \<Rightarrow> dependent_step" where
  "depends_on_all step_ids s = s\<lparr>ds_depends_on := ds_depends_on s @ step_ids\<rparr>"

definition with_description :: "string \<Rightarrow> dependent_step \<Rightarrow> dependent_step" where
  "with_description desc s = s\<lparr>ds_description := Some desc\<rparr>"

definition is_parallel_safe :: "dependent_step \<Rightarrow> bool" where
  "is_parallel_safe s \<longleftrightarrow>
     (case ds_action s of
        JObject members \<Rightarrow>
          list_all (\<lambda>(name, _). name \<in> set [''Wait'', ''WaitFor'', ''WaitForWithTimeout'',
            ''WaitForNavigation'', ''WaitForLoad'', ''WaitForNetworkIdle'',
            ''WaitForNetworkAlmostIdle'', ''WaitForDom'', ''Screenshot'']) members
      | _ \<Rightarrow> False)"

record step_result =
  sr_success :: bool
  sr_output :: "json option"
  sr_error :: "string option"
  sr_duration_ms :: nat

definition step_success :: step_result where
  "step_success = \<lparr>sr_success = True, sr_output = None, sr_error = None, sr_duration_ms = 0\<rparr>"

definition step_success_with_output :: "json \<Rightarrow> step_result" where
  "step_success_with_output v =
     \<lparr>sr_success = True, sr_output = Some v, sr_error = None, sr_duration_ms = 0\<rparr>"

definition step_failure :: "string \<Rightarrow> step_result" where
  "step_failure e = \<lparr>sr_success = False, sr_output = None, sr_error = Some e, sr_duration_ms = 0\<rparr>"

definition with_duration :: "nat \<Rightarrow> step_result \<Rightarrow> step_result" where
  "with_duration ms r = r\<lparr>sr_duration_ms := ms\<rparr>"

record chain_result =
  cr_success :: bool
  cr_steps_executed :: nat
  cr_max_parallel :: nat
  cr_duration_ms :: nat
  cr_step_results :: "string \<rightharpoonup> step_result"
  cr_first_error :: "string option"

definition new_chain_result :: chain_result where
  "new_chain_result = \<lparr>cr_success = True, cr_steps_executed = 0, cr_max_parallel = 0,
     cr_duration_ms = 0, cr_step_results = Map.empty, cr_first_error = None\<rparr>"

definition record_step :: "string \<Rightarrow> step_result \<Rightarrow> chain_result \<Rightarrow> chain_result" where
  "record_step step_id r c =
     (let c = (if \<not> sr_success r \<and> cr_first_error c = None
               then c\<lparr>cr_first_error := sr_error r, cr_success := False\<rparr> else c)
      in c\<lparr>cr_step_results := (cr_step_results c)(step_id \<mapsto> r),
           cr_steps_executed := cr_steps_executed c + 1\<rparr>)"

section \<open>The graph\<close>

record dependency_graph =
  dg_steps :: "(string \<times> dependent_step) list"
  dg_ready :: "string list"
  dg_waiting :: "(string \<times> string set) list"
  dg_completed :: "string set"
  dg_failed :: "string set"
  dg_results :: "string \<rightharpoonup> step_result"

text \<open>\<open>blocks_map.entry(dep).or_default().push(id)\<close>.\<close>

definition push_block :: "string \<Rightarrow> string \<Rightarrow> (string \<times> string list) list \<Rightarrow> (string \<times> string list) list" where
  "push_block i dep blocks =
     AList.update dep ((case map_of blocks dep of None \<Rightarrow> [] | Some l \<Rightarrow> l) @ [i]) blocks"

text \<open>First pass: the steps by identifier and what each step blocks.\<close>

fun collect_steps ::
  "dependent_step list \<Rightarrow> (string \<times> dependent_step) list \<Rightarrow> (string \<times> string list) list
    \<Rightarrow> string + (string \<times> dependent_step) list \<times> (string \<times> string list) list" where
  "collect_steps [] steps blocks = Inr (steps, blocks)"
| "collect_steps (s # ss) steps blocks =
     (if map_of steps (ds_id s) \<noteq> None then Inl (''Duplicate step ID: '' @ ds_id s)
      else collect_steps ss (AList.update (ds_id s) s steps)
             (fold (push_block (ds_id s)) (ds_depends_on s) blocks))"

text \<open>Second pass: the first dependency that is not a step.\<close>

definition check_dependencies :: "string list \<Rightarrow> dependent_step list \<Rightarrow> string + unit" where
  "check_dependencies ids steps =
     (case find (\<lambda>(s, dep). dep \<notin> set ids)
             (concat (map (\<lambda>s. map (Pair s) (ds_depends_on s)) steps)) of
        None \<Rightarrow> Inr ()
      | Some (s, dep) \<Rightarrow> Inl (''Step '' @ [CHR 0x27] @ ds_id s @ [CHR 0x27] @
          '' depends on non-existent step '' @ [CHR 0x27] @ dep @ [CHR 0x27]))"

text \<open>Third pass.\<close>

definition populate_blocks ::
  "(string \<times> string list) list \<Rightarrow> (string \<times> dependent_step) list \<Rightarrow> (string \<times> dependent_step) list" where
  "populate_blocks blocks =
     map (\<lambda>(i, s). (i, case map_of blocks i of None \<Rightarrow> s | Some bs \<Rightarrow> s\<lparr>ds_blocks := bs\<rparr>))"

section \<open>Cycles\<close>

datatype color = White | Gray | Black

text \<open>
  The depth-first search: \<open>None\<close> is exhausted fuel, \<open>Inl\<close> the cycle found, \<open>Inr\<close> the colours and
  the path.  \<open>path.iter().position(..).unwrap()\<close> cannot fail on a gray node, which is on the
  path.
\<close>

type_synonym dfs_state = "(string \<rightharpoonup> color) \<times> string list"

function (sequential)
  dfs :: "nat \<Rightarrow> (string \<times> dependent_step) list \<Rightarrow> string \<Rightarrow> dfs_state \<Rightarrow> (string list + dfs_state) option" and
  dfs_deps :: "nat \<Rightarrow> (string \<times> dependent_step) list \<Rightarrow> string list \<Rightarrow> dfs_state \<Rightarrow> (string list + dfs_state) option" where
  "dfs 0 steps node st = None"
| "dfs (Suc n) steps node (colors, path) =
     (case (case map_of steps node of
              None \<Rightarrow> Some (Inr (colors(node \<mapsto> Gray), path @ [node]))
            | Some s \<Rightarrow> dfs_deps n steps (ds_depends_on s) (colors(node \<mapsto> Gray), path @ [node])) of
        None \<Rightarrow> None
      | Some (Inl cycle) \<Rightarrow> Some (Inl cycle)
      | Some (Inr (colors, path)) \<Rightarrow> Some (Inr (colors(node \<mapsto> Black), butlast path)))"
| "dfs_deps n steps [] st = Some (Inr st)"
| "dfs_deps n steps (dep # deps) (colors, path) =
     (case colors dep of
        Some Gray \<Rightarrow> Some (Inl (dropWhile (\<lambda>x. x \<noteq> dep) path))
      | Some Black \<Rightarrow> dfs_deps n steps deps (colors, path)
      | _ \<Rightarrow>
          (case dfs n steps dep (colors, path) of
             None \<Rightarrow> None
           | Some (Inl cycle) \<Rightarrow> Some (Inl cycle)
           | Some (Inr st) \<Rightarrow> dfs_deps n steps deps st))"
  by pat_completeness auto
termination
  by (relation "(\<lambda>x. case x of Inl (n, _) \<Rightarrow> n | Inr (n, _) \<Rightarrow> n) <*mlex*>
      measure (\<lambda>x. case x of Inl _ \<Rightarrow> 0 | Inr (_, _, deps, _) \<Rightarrow> Suc (length deps))")
    (auto simp: mlex_iff intro!: wf_mlex)

fun dfs_all ::
  "nat \<Rightarrow> (string \<times> dependent_step) list \<Rightarrow> string list \<Rightarrow> (string \<rightharpoonup> color) \<Rightarrow> (string list + unit) option" where
  "dfs_all n steps [] colors = Some (Inr ())"
| "dfs_all n steps (i # is) colors =
     (if colors i = Some White then
        (case dfs n steps i (colors, []) of
           None \<Rightarrow> None
         | Some (Inl cycle) \<Rightarrow> Some (Inl cycle)
         | Some (Inr (colors, _)) \<Rightarrow> dfs_all n steps is colors)
      else dfs_all n steps is colors)"

text \<open>The recursion is never deeper than the number of steps.\<close>

definition detect_cycle ::
  "(string list \<Rightarrow> string list) \<Rightarrow> (string \<times> dependent_step) list \<Rightarrow> (string list + unit) option" where
  "detect_cycle order steps =
     dfs_all (length steps) steps (order (map fst steps))
       (\<lambda>i. if i \<in> set (map fst steps) then Some White else None)"

section \<open>Construction\<close>

definition initial_ready :: "(string \<times> dependent_step) list \<Rightarrow> string list \<Rightarrow> string list" where
  "initial_ready steps ids =
     filter (\<lambda>i. case map_of steps i of None \<Rightarrow> False | Some s \<Rightarrow> ds_depends_on s = []) ids"

definition initial_waiting :: "(string \<times> dependent_step) list \<Rightarrow> string list \<Rightarrow> (string \<times> string set) list" where
  "initial_waiting steps ids =
     map (\<lambda>i. (i, case map_of steps i of None \<Rightarrow> {} | Some s \<Rightarrow> set (ds_depends_on s)))
       (filter (\<lambda>i. case map_of steps i of None \<Rightarrow> False | Some s \<Rightarrow> ds_depends_on s \<noteq> []) ids)"

text \<open>\<open>None\<close> would be exhausted fuel.\<close>

definition graph_new ::
  "(string list \<Rightarrow> string list) \<Rightarrow> dependent_step list \<Rightarrow> (string + dependency_graph) option" where
  "graph_new order steps =
     (case collect_steps steps [] [] of
        Inl e \<Rightarrow> Some (Inl e)
      | Inr (dg, blocks) \<Rightarrow>
          (let ids = order (map fst dg)
           in case check_dependencies ids (map (\<lambda>i. the (map_of dg i)) ids) of
                Inl e \<Rightarrow> Some (Inl e)
              | Inr _ \<Rightarrow>
                  (let dg = populate_blocks blocks dg
                   in case detect_cycle order dg of
                        None \<Rightarrow> None
                      | Some (Inl cycle) \<Rightarrow>
                          Some (Inl (''Cycle detected in dependency graph: '' @ join_with '' -> '' cycle))
                      | Some (Inr _) \<Rightarrow>
                          Some (Inr \<lparr>dg_steps = dg, dg_ready = initial_ready dg ids,
                            dg_waiting = initial_waiting dg ids, dg_completed = {}, dg_failed = {},
                            dg_results = Map.empty\<rparr>))))"

section \<open>Operations\<close>

definition get_step :: "dependency_graph \<Rightarrow> string \<Rightarrow> dependent_step option" where
  "get_step g i = map_of (dg_steps g) i"

definition ready_steps :: "dependency_graph \<Rightarrow> dependent_step list" where
  "ready_steps g = List.map_filter (get_step g) (dg_ready g)"

definition is_complete :: "dependency_graph \<Rightarrow> bool" where
  "is_complete g \<longleftrightarrow> card (dg_completed g) + card (dg_failed g) = length (dg_steps g)"

definition has_failed :: "dependency_graph \<Rightarrow> bool" where
  "has_failed g \<longleftrightarrow> dg_failed g \<noteq> {}"

definition take_ready_step :: "dependency_graph \<Rightarrow> dependent_step option \<times> dependency_graph" where
  "take_ready_step g =
     (case dg_ready g of
        [] \<Rightarrow> (None, g)
      | i # is \<Rightarrow> (get_step g i, g\<lparr>dg_ready := is\<rparr>))"

definition take_ready_steps :: "nat \<Rightarrow> dependency_graph \<Rightarrow> string list \<times> dependency_graph" where
  "take_ready_steps max_n g = (take max_n (dg_ready g), g\<lparr>dg_ready := drop max_n (dg_ready g)\<rparr>)"

definition unblock :: "string \<Rightarrow> string \<Rightarrow> dependency_graph \<Rightarrow> dependency_graph" where
  "unblock step_id blocked g =
     (case map_of (dg_waiting g) blocked of
        None \<Rightarrow> g
      | Some deps \<Rightarrow>
          (let deps = deps - {step_id}
           in if deps = {}
              then g\<lparr>dg_waiting := AList.delete blocked (dg_waiting g), dg_ready := dg_ready g @ [blocked]\<rparr>
              else g\<lparr>dg_waiting := AList.update blocked deps (dg_waiting g)\<rparr>))"

definition complete :: "string \<Rightarrow> step_result \<Rightarrow> dependency_graph \<Rightarrow> dependency_graph" where
  "complete step_id r g =
     (let g = g\<lparr>dg_completed := insert step_id (dg_completed g)\<rparr>;
          g = (if sr_success r then g else g\<lparr>dg_failed := insert step_id (dg_failed g)\<rparr>);
          g = g\<lparr>dg_results := (dg_results g)(step_id \<mapsto> r)\<rparr>
      in case get_step g step_id of
           None \<Rightarrow> g
         | Some s \<Rightarrow> fold (unblock step_id) (ds_blocks s) g)"

section \<open>Topological order\<close>

text \<open>
  \<open>None\<close> is the subtraction \<open>*deg -= 1\<close> at zero: a panic, or in a release build a wrap to the
  largest \<open>usize\<close>.
\<close>

fun decrement ::
  "string list \<Rightarrow> (string \<times> nat) list \<Rightarrow> string list \<Rightarrow> ((string \<times> nat) list \<times> string list) option" where
  "decrement [] degs queue = Some (degs, queue)"
| "decrement (b # bs) degs queue =
     (case map_of degs b of
        None \<Rightarrow> decrement bs degs queue
      | Some d \<Rightarrow>
          if d = 0 then None
          else decrement bs (AList.update b (d - 1) degs) (if d - 1 = 0 then queue @ [b] else queue))"

definition degree_sum :: "(string \<times> nat) list \<Rightarrow> nat" where
  "degree_sum degs = sum_list (map snd degs)"

lemma degree_sum_update:
  "map_of degs b = Some d \<Longrightarrow> 0 < d \<Longrightarrow> Suc (degree_sum (AList.update b (d - 1) degs)) = degree_sum degs"
  by (induction degs) (auto simp: degree_sum_def)

lemma decrement_decreases:
  "decrement bs degs queue = Some (degs', queue') \<Longrightarrow>
    degree_sum degs' + length queue' \<le> degree_sum degs + length queue"
proof (induction bs degs queue rule: decrement.induct)
  case (2 b bs degs queue)
  show ?case
  proof (cases "map_of degs b")
    case None
    then show ?thesis using 2 by simp
  next
    case (Some d)
    then have "0 < d" using "2.prems" by (auto split: if_splits)
    then show ?thesis using 2 Some degree_sum_update [OF Some] by (auto split: if_splits)
  qed
qed auto

function kahn_loop ::
  "(string \<times> dependent_step) list \<Rightarrow> string list \<Rightarrow> (string \<times> nat) list \<Rightarrow> string list \<Rightarrow> string list option" where
  "kahn_loop steps result degs [] = Some result"
| "kahn_loop steps result degs (i # queue) =
     (case map_of steps i of
        None \<Rightarrow> kahn_loop steps (result @ [i]) degs queue
      | Some s \<Rightarrow>
          (case decrement (ds_blocks s) degs queue of
             None \<Rightarrow> None
           | Some (degs', queue') \<Rightarrow> kahn_loop steps (result @ [i]) degs' queue'))"
  by pat_completeness auto
termination
  by (relation "measure (\<lambda>(_, _, degs, queue). degree_sum degs + length queue)")
    (auto dest: decrement_decreases)

definition execution_order :: "(string list \<Rightarrow> string list) \<Rightarrow> dependency_graph \<Rightarrow> string list option" where
  "execution_order order g =
     (let steps = dg_steps g;
          ids = order (map fst steps);
          deps = (\<lambda>i. case map_of steps i of None \<Rightarrow> [] | Some s \<Rightarrow> ds_depends_on s)
      in kahn_loop steps [] (map (\<lambda>i. (i, length (deps i))) ids) (filter (\<lambda>i. deps i = []) ids))"

section \<open>Parallelism\<close>

text \<open>The simulation completes all ready steps at once; it does not end when none is ready.\<close>

partial_function (option) parallel_loop :: "nat \<Rightarrow> dependency_graph \<Rightarrow> nat option" where
  "parallel_loop m g =
     (if is_complete g then Some m
      else parallel_loop (max m (length (dg_ready g)))
             (fold (\<lambda>i. complete i step_success) (dg_ready g) (g\<lparr>dg_ready := []\<rparr>)))"

definition max_parallelism :: "dependency_graph \<Rightarrow> nat option" where
  "max_parallelism g = (if dg_steps g = [] then Some 0 else parallel_loop 0 g)"

section \<open>Execution\<close>

record chain_config =
  cc_max_parallel :: nat
  cc_stop_on_failure :: bool
  cc_step_timeout_ms :: nat
  cc_enable_parallel :: bool

definition default_chain_config :: chain_config where
  "default_chain_config = \<lparr>cc_max_parallel = 4, cc_stop_on_failure = True,
     cc_step_timeout_ms = 30000, cc_enable_parallel = True\<rparr>"

datatype run_outcome = Finished step_result | Panicked string

text \<open>
  What running a step comes to, how long it takes, and in which order the steps of a
  parallel batch finish.  A step runs at most once, so functions of the step are enough.
\<close>

record chain_env =
  ce_run :: "dependent_step \<Rightarrow> run_outcome"
  ce_elapsed :: "dependent_step \<Rightarrow> nat"
  ce_arrival :: "string list \<Rightarrow> string list"

definition finish ::
  "chain_env \<Rightarrow> string \<Rightarrow> dependent_step \<Rightarrow> step_result \<Rightarrow> dependency_graph \<times> chain_result
    \<Rightarrow> dependency_graph \<times> chain_result" where
  "finish env i s r st =
     (let r = r\<lparr>sr_duration_ms := ce_elapsed env s\<rparr>
      in (complete i r (fst st), record_step i r (snd st)))"

text \<open>A panic of a spawned task is a failed result of a step called \<open>unknown\<close>.\<close>

fun join_batch ::
  "chain_env \<Rightarrow> string list \<Rightarrow> dependency_graph \<times> chain_result \<Rightarrow> dependency_graph \<times> chain_result" where
  "join_batch env [] st = st"
| "join_batch env (i # is) st =
     (case get_step (fst st) i of
        None \<Rightarrow> join_batch env is st
      | Some s \<Rightarrow>
          (case ce_run env s of
             Finished r \<Rightarrow> join_batch env is (finish env i s r st)
           | Panicked e \<Rightarrow>
               join_batch env is
                 (fst st, record_step ''unknown'' (step_failure (''Task panic: '' @ e)) (snd st))))"

text \<open>A panic in the sequential branch unwinds through the executor: \<open>None\<close>.\<close>

fun run_sequentially ::
  "chain_env \<Rightarrow> bool \<Rightarrow> string list \<Rightarrow> dependency_graph \<times> chain_result
    \<Rightarrow> (dependency_graph \<times> chain_result) option" where
  "run_sequentially env stop [] st = Some st"
| "run_sequentially env stop (i # is) st =
     (case get_step (fst st) i of
        None \<Rightarrow> run_sequentially env stop is st
      | Some s \<Rightarrow>
          (case ce_run env s of
             Panicked e \<Rightarrow> None
           | Finished r \<Rightarrow>
               (let st = finish env i s r st
                in if stop \<and> has_failed (fst st) then Some st else run_sequentially env stop is st)))"

definition run_batch ::
  "chain_env \<Rightarrow> chain_config \<Rightarrow> string list \<Rightarrow> dependency_graph \<times> chain_result
    \<Rightarrow> (dependency_graph \<times> chain_result) option" where
  "run_batch env config ids st =
     (if cc_enable_parallel config \<and> 1 < length ids then Some (join_batch env (ce_arrival env ids) st)
      else run_sequentially env (cc_stop_on_failure config) ids st)"

definition outstanding :: "dependency_graph \<Rightarrow> nat" where
  "outstanding g = length (dg_ready g) + length (dg_waiting g)"

lemma length_delete: "map_of xs k = Some v \<Longrightarrow> length (AList.delete k xs) < length xs"
  by (induction xs) (auto simp: AList.delete_eq intro: le_less_trans [OF length_filter_le])

lemma length_update: "map_of xs k = Some v \<Longrightarrow> length (AList.update k w xs) = length xs"
  by (induction xs) auto

lemma outstanding_unblock: "outstanding (unblock i b g) \<le> outstanding g"
  using length_delete [of "dg_waiting g" b] length_update [of "dg_waiting g" b]
  by (auto simp: outstanding_def unblock_def Let_def split: option.splits)

lemma outstanding_complete: "outstanding (complete i r g) \<le> outstanding g"
proof -
  have "outstanding (fold (unblock i) bs h) \<le> outstanding h" for bs h
    by (induction bs arbitrary: h) (auto intro: le_trans outstanding_unblock)
  then have "outstanding (fold (unblock i) bs h) \<le> outstanding g" if "outstanding h = outstanding g" for bs h
    using that by metis
  then show ?thesis by (auto simp: complete_def Let_def outstanding_def split: option.splits)
qed

lemma outstanding_finish: "outstanding (fst (finish env i s r st)) \<le> outstanding (fst st)"
  by (simp add: finish_def Let_def outstanding_complete)

lemma outstanding_join: "outstanding (fst (join_batch env is st)) \<le> outstanding (fst st)"
proof (induction env "is" st rule: join_batch.induct)
  case (2 env i "is" st)
  show ?case
  proof (cases "get_step (fst st) i")
    case (Some s)
    then show ?thesis
      using "2.IH"(2,3) [OF Some] outstanding_finish [of env i s _ st] le_trans
      by (cases "ce_run env s") fastforce+
  qed (use 2 in simp)
qed simp

lemma outstanding_run:
  "run_sequentially env stop is st = Some st' \<Longrightarrow> outstanding (fst st') \<le> outstanding (fst st)"
proof (induction env stop "is" st rule: run_sequentially.induct)
  case (2 env stop i "is" st)
  show ?case
  proof (cases "get_step (fst st) i")
    case (Some s)
    then obtain r where r: "ce_run env s = Finished r" using 2 by (auto split: run_outcome.splits)
    show ?thesis
      using "2.IH"(2) [OF Some r refl] "2.prems" Some r outstanding_finish [of env i s r st]
      by (auto simp: Let_def split: if_splits intro: le_trans)
  qed (use 2 in simp)
qed simp

lemma outstanding_batch:
  "run_batch env config ids st = Some st' \<Longrightarrow> outstanding (fst st') \<le> outstanding (fst st)"
  by (auto simp: run_batch_def outstanding_join split: if_splits dest: outstanding_run)

lemma outstanding_take: "0 < n \<Longrightarrow> dg_ready g \<noteq> [] \<Longrightarrow> outstanding (snd (take_ready_steps n g)) < outstanding g"
  by (cases "dg_ready g") (auto simp: take_ready_steps_def outstanding_def)

text \<open>\<open>elapsed\<close> is the measured duration of the whole chain.\<close>

function execute_loop ::
  "chain_env \<Rightarrow> chain_config \<Rightarrow> nat \<Rightarrow> dependency_graph \<times> chain_result
    \<Rightarrow> (nat \<times> dependency_graph \<times> chain_result) option" where
  "execute_loop env config max_seen st =
     (if is_complete (fst st) \<or> cc_stop_on_failure config \<and> has_failed (fst st) then Some (max_seen, st)
      else
        (case take_ready_steps (cc_max_parallel config) (fst st) of (ids, g) \<Rightarrow>
           if ids = [] then Some (max_seen, (g, snd st))
           else
             (case run_batch env config ids (g, snd st) of
                None \<Rightarrow> None
              | Some st' \<Rightarrow> execute_loop env config (max max_seen (length ids)) st')))"
  by pat_completeness auto
termination
proof (relation "measure (\<lambda>(_, _, _, st). outstanding (fst st))", goal_cases)
  case (2 env config max_seen st ids g st')
  then have "outstanding (fst st') \<le> outstanding g" by (auto dest: outstanding_batch)
  moreover have "outstanding g < outstanding (fst st)"
    using 2 outstanding_take [of "cc_max_parallel config" "fst st"] by (auto simp: take_ready_steps_def)
  ultimately show ?case by simp
qed simp

declare execute_loop.simps [simp del]

definition execute_graph ::
  "chain_env \<Rightarrow> chain_config \<Rightarrow> nat \<Rightarrow> dependency_graph \<Rightarrow> (chain_result \<times> dependency_graph) option" where
  "execute_graph env config elapsed g =
     (case execute_loop env config 0 (g, new_chain_result) of
        None \<Rightarrow> None
      | Some (max_seen, g', c) \<Rightarrow>
          Some (c\<lparr>cr_max_parallel := max_seen, cr_duration_ms := elapsed\<rparr>, g'))"

end
