(* ===== verification/Chain_Properties.thy ===== *)
theory Chain_Properties
  imports Chain_Graph
begin

text \<open>
  Properties of dependency graphs: which step lists are accepted (the depth-first search
  against acyclicity), the topological order, what every use of a graph keeps, and whole
  executions.
\<close>

section \<open>The depth-first search\<close>

definition deps_of :: "(string \<times> dependent_step) list \<Rightarrow> string \<Rightarrow> string list" where
  "deps_of steps i = (case map_of steps i of None \<Rightarrow> [] | Some s \<Rightarrow> ds_depends_on s)"

text \<open>\<open>(d, i)\<close>: the step \<open>i\<close> depends on \<open>d\<close>.\<close>

definition dep_rel :: "(string \<times> dependent_step) list \<Rightarrow> (string \<times> string) set" where
  "dep_rel steps = {(d, i). d \<in> set (deps_of steps i)}"

definition chain :: "(string \<times> dependent_step) list \<Rightarrow> string list \<Rightarrow> bool" where
  "chain steps path \<longleftrightarrow> successively (\<lambda>a b. b \<in> set (deps_of steps a)) path"

text \<open>The gray nodes are the path; black nodes have no infinite chain of dependencies.\<close>

definition dfs_inv :: "(string \<times> dependent_step) list \<Rightarrow> dfs_state \<Rightarrow> bool" where
  "dfs_inv steps st \<longleftrightarrow> (case st of (c, path) \<Rightarrow>
     (\<forall>x. c x = Some Gray \<longleftrightarrow> x \<in> set path) \<and> distinct path \<and> chain steps path \<and>
     (\<forall>x. c x = Some Black \<longrightarrow> x \<in> Wellfounded.acc (dep_rel steps)))"

definition cyclic_path :: "(string \<times> dependent_step) list \<Rightarrow> string list \<Rightarrow> bool" where
  "cyclic_path steps cyc \<longleftrightarrow> cyc \<noteq> [] \<and> chain steps cyc \<and> hd cyc \<in> set (deps_of steps (last cyc))"

definition keeps_colors :: "(string \<rightharpoonup> color) \<Rightarrow> (string \<rightharpoonup> color) \<Rightarrow> bool" where
  "keeps_colors c c' \<longleftrightarrow> (\<forall>x. c x = Some Gray \<or> c x = Some Black \<longrightarrow> c' x = c x) \<and> (\<forall>x. c x \<noteq> None \<longrightarrow> c' x \<noteq> None)"

lemma keeps_colors_trans: "keeps_colors a b \<Longrightarrow> keeps_colors b c \<Longrightarrow> keeps_colors a c"
  by (auto simp: keeps_colors_def)

lemma chain_snoc:
  "chain steps (path @ [x]) \<longleftrightarrow> chain steps path \<and> (path = [] \<or> x \<in> set (deps_of steps (last path)))"
  by (auto simp: chain_def successively_append_iff)

lemma chain_dropWhile: "chain steps path \<Longrightarrow> chain steps (dropWhile P path)"
  unfolding chain_def by (metis successively_append_iff takeWhile_dropWhile_id)

lemma cycle_found:
  assumes "dfs_inv steps (c, path)" "c d = Some Gray" "d \<in> set (deps_of steps (last path))"
  shows "cyclic_path steps (dropWhile (\<lambda>x. x \<noteq> d) path)"
proof -
  have "d \<in> set path" using assms(1,2) by (auto simp: dfs_inv_def)
  then have ne: "dropWhile (\<lambda>x. x \<noteq> d) path \<noteq> []" by auto
  then have "hd (dropWhile (\<lambda>x. x \<noteq> d) path) = d" using hd_dropWhile [of "\<lambda>x. x \<noteq> d" path] by simp
  moreover have "last (dropWhile (\<lambda>x. x \<noteq> d) path) = last path"
    using ne last_append takeWhile_dropWhile_id by metis
  ultimately show ?thesis
    using ne assms(1,3) by (auto simp: cyclic_path_def dfs_inv_def intro: chain_dropWhile)
qed

text \<open>What a search from \<open>node\<close>, and through the dependencies \<open>ds\<close> of the last node, gives.\<close>

definition dfs_post ::
  "(string \<times> dependent_step) list \<Rightarrow> dfs_state \<Rightarrow> string set \<Rightarrow> (string list + dfs_state) option \<Rightarrow> bool" where
  "dfs_post steps st nodes res \<longleftrightarrow>
     (case res of
        None \<Rightarrow> True
      | Some (Inl cyc) \<Rightarrow> cyclic_path steps cyc
      | Some (Inr st') \<Rightarrow> dfs_inv steps st' \<and> snd st' = snd st \<and> keeps_colors (fst st) (fst st') \<and>
          (\<forall>x \<in> nodes. fst st' x = Some Black))"

lemma dfs_enter:
  assumes "dfs_inv steps (c, path)" "c node \<noteq> Some Gray" "c node \<noteq> Some Black"
    and "path = [] \<or> node \<in> set (deps_of steps (last path))"
  shows "dfs_inv steps (c(node \<mapsto> Gray), path @ [node])"
  using assms by (auto simp: dfs_inv_def chain_snoc split: if_splits)

lemma dfs_leave:
  assumes inv: "dfs_inv steps (c', path @ [node])" and black: "\<forall>d \<in> set (deps_of steps node). c' d = Some Black"
  shows "dfs_inv steps (c'(node \<mapsto> Black), path)"
proof -
  have "node \<in> Wellfounded.acc (dep_rel steps)"
  proof (rule accI)
    fix d assume "(d, node) \<in> dep_rel steps"
    then have "c' d = Some Black" using black by (simp add: dep_rel_def)
    then show "d \<in> Wellfounded.acc (dep_rel steps)" using inv by (simp add: dfs_inv_def)
  qed
  then show ?thesis using inv by (auto simp: dfs_inv_def chain_snoc split: if_splits)
qed

lemma dfs_correct:
  "dfs_inv steps st \<Longrightarrow> fst st node \<noteq> Some Gray \<Longrightarrow> fst st node \<noteq> Some Black \<Longrightarrow>
     snd st = [] \<or> node \<in> set (deps_of steps (last (snd st))) \<Longrightarrow>
     dfs_post steps st {node} (dfs n steps node st)"
  "dfs_inv steps st \<Longrightarrow> snd st \<noteq> [] \<Longrightarrow> set ds \<subseteq> set (deps_of steps (last (snd st))) \<Longrightarrow>
     dfs_post steps st (set ds) (dfs_deps n steps ds st)"
proof (induction n steps node st and n steps ds st rule: dfs_dfs_deps.induct)
  case (1 steps node st)
  then show ?case by (simp add: dfs_post_def)
next
  case (2 n steps node c path)
  have inner: "dfs_inv steps (c(node \<mapsto> Gray), path @ [node])" using dfs_enter 2(2-5) by simp
  have kept: "keeps_colors c (c'(node \<mapsto> Black))" if "keeps_colors (c(node \<mapsto> Gray)) c'" for c'
    using that "2.prems"(2,3) unfolding keeps_colors_def by (auto split: if_splits)
  show ?case
  proof (cases "map_of steps node")
    case None
    then show ?thesis
      using dfs_leave [OF inner] kept [of "c(node \<mapsto> Gray)"]
      by (simp add: dfs_post_def deps_of_def) (simp add: keeps_colors_def)
  next
    case (Some s)
    then have ds: "deps_of steps node = ds_depends_on s" by (simp add: deps_of_def)
    have "dfs_post steps (c(node \<mapsto> Gray), path @ [node]) (set (ds_depends_on s))
        (dfs_deps n steps (ds_depends_on s) (c(node \<mapsto> Gray), path @ [node]))"
      using "2.IH" [OF Some inner] ds by simp
    then show ?thesis
      using dfs_leave [of steps _ path node] kept ds Some
      by (auto simp: dfs_post_def split: option.splits sum.splits)
  qed
next
  case (3 n steps st)
  then show ?case by (simp add: dfs_post_def keeps_colors_def)
next
  case (4 n steps d ds c path)
  have d: "d \<in> set (deps_of steps (last path))" and ds: "set ds \<subseteq> set (deps_of steps (last path))"
    using "4.prems"(3) by auto
  have rest: "dfs_post steps (c, path) (set (d # ds)) (dfs_deps n steps ds (c', path))"
    if "dfs_post steps (c', path) (set ds) (dfs_deps n steps ds (c', path))" "keeps_colors c c'" "c' d = Some Black" for c'
    using that by (auto simp: dfs_post_def keeps_colors_def split: option.splits sum.splits)
  show ?case
  proof (cases "c d = Some Gray \<or> c d = Some Black")
    case True
    then show ?thesis
    proof
      assume gray: "c d = Some Gray"
      then show ?thesis using cycle_found [OF "4.prems"(1) gray d] by (simp add: dfs_post_def)
    next
      assume black: "c d = Some Black"
      then have "dfs_post steps (c, path) (set ds) (dfs_deps n steps ds (c, path))"
        using 4 ds by simp
      then show ?thesis using rest black by (simp add: keeps_colors_def)
    qed
  next
    case False
    then have this_step: "dfs_deps n steps (d # ds) (c, path) =
        (case dfs n steps d (c, path) of None \<Rightarrow> None | Some (Inl cycle) \<Rightarrow> Some (Inl cycle)
         | Some (Inr st) \<Rightarrow> dfs_deps n steps ds st)"
      by (auto split: option.splits color.splits)
    from False have white: "c d = None \<or> c d = Some White"
      by (cases "c d"; cases "the (c d)") auto
    then have one: "dfs_post steps (c, path) {d} (dfs n steps d (c, path))"
      using "4.IH" "4.prems" d by auto
    show ?thesis
    proof (cases "dfs n steps d (c, path)")
      case (Some res)
      show ?thesis
      proof (cases res)
        case (Inr st)
        obtain c' where st: "st = (c', path)" "dfs_inv steps (c', path)" "keeps_colors c c'" "c' d = Some Black"
          using one Some Inr by (cases st) (auto simp: dfs_post_def)
        have "dfs_post steps (c', path) (set ds) (dfs_deps n steps ds (c', path))"
          using white "4.IH" "4.prems" Some Inr st(1,2) ds by auto
        then show ?thesis using rest [of c'] st this_step Some Inr by simp
      qed (use one Some this_step in \<open>simp add: dfs_post_def\<close>)
    qed (use this_step in \<open>simp add: dfs_post_def\<close>)
  qed
qed

text \<open>Fuel for every node that is not on the path is enough.\<close>

definition closed_steps :: "(string \<times> dependent_step) list \<Rightarrow> bool" where
  "closed_steps steps \<longleftrightarrow> (\<forall>i. set (deps_of steps i) \<subseteq> set (map fst steps))"

abbreviation unvisited :: "(string \<times> dependent_step) list \<Rightarrow> dfs_state \<Rightarrow> nat" where
  "unvisited steps st \<equiv> card (set (map fst steps) - set (snd st))"

lemma dfs_enough_fuel:
  "dfs_inv steps st \<Longrightarrow> fst st node \<noteq> Some Gray \<Longrightarrow> fst st node \<noteq> Some Black \<Longrightarrow>
     snd st = [] \<or> node \<in> set (deps_of steps (last (snd st))) \<Longrightarrow> closed_steps steps \<Longrightarrow>
     node \<in> set (map fst steps) \<Longrightarrow> unvisited steps st \<le> n \<Longrightarrow> dfs n steps node st \<noteq> None"
  "dfs_inv steps st \<Longrightarrow> snd st \<noteq> [] \<Longrightarrow> set ds \<subseteq> set (deps_of steps (last (snd st))) \<Longrightarrow>
     closed_steps steps \<Longrightarrow> unvisited steps st \<le> n \<Longrightarrow> dfs_deps n steps ds st \<noteq> None"
proof (induction n steps node st and n steps ds st rule: dfs_dfs_deps.induct)
  case (1 steps node st)
  then have "node \<in> set (map fst steps) - set (snd st)" by (cases st) (auto simp: dfs_inv_def)
  then have "unvisited steps st \<noteq> 0" by (metis card_0_eq empty_iff finite_Diff List.finite_set)
  then show ?case using 1 by simp
next
  case (2 n steps node c path)
  have inner: "dfs_inv steps (c(node \<mapsto> Gray), path @ [node])" using dfs_enter 2(2-5) by simp
  have "node \<notin> set path" using 2 by (auto simp: dfs_inv_def)
  then have "node \<in> set (map fst steps) - set path" using "2.prems"(6) by blast
  then have "Suc (card (set (map fst steps) - set path - {node})) = unvisited steps (c, path)"
    by (simp add: card_Suc_Diff1 del: card_Diff_insert)
  moreover have "set (map fst steps) - set (path @ [node]) = set (map fst steps) - set path - {node}" by auto
  ultimately have "unvisited steps (c, path) = Suc (card (set (map fst steps) - set (path @ [node])))" by metis
  then have fuel: "unvisited steps (c(node \<mapsto> Gray), path @ [node]) \<le> n" using "2.prems"(7) by simp
  show ?case
  proof (cases "map_of steps node")
    case (Some s)
    then show ?thesis
      using "2.IH" [OF Some inner _ _ "2.prems"(5) fuel]
      by (auto simp: deps_of_def split: sum.splits)
  qed simp
next
  case (4 n steps d ds c path)
  have d: "d \<in> set (deps_of steps (last path))" and ds: "set ds \<subseteq> set (deps_of steps (last path))"
    using "4.prems"(3) by auto
  have node: "d \<in> set (map fst steps)" using d "4.prems"(4) by (auto simp: closed_steps_def)
  show ?case
  proof (cases "c d = Some Gray \<or> c d = Some Black")
    case True
    then show ?thesis using 4 ds by auto
  next
    case False
    from False have white: "c d = None \<or> c d = Some White"
      by (cases "c d"; cases "the (c d)") auto
    then have one: "dfs n steps d (c, path) \<noteq> None"
      using "4.IH" "4.prems" d node by auto
    have post: "dfs_post steps (c, path) {d} (dfs n steps d (c, path))"
      using dfs_correct(1) [of steps "(c, path)" d n] "4.prems" False d by simp
    have "dfs_deps n steps ds st \<noteq> None" if "dfs n steps d (c, path) = Some (Inr st)" for st
      using white "4.IH" "4.prems" that ds post by (cases st) (auto simp: dfs_post_def)
    then show ?thesis using white one by (auto split: sum.splits)
  qed
qed simp

text \<open>A cyclic path is a cycle of the relation; a node without infinite chains is not on one.\<close>

lemma chain_reaches: "chain steps path \<Longrightarrow> path \<noteq> [] \<Longrightarrow> (last path, hd path) \<in> (dep_rel steps)\<^sup>*"
proof (induction path rule: rev_induct)
  case (snoc x path)
  show ?case
  proof (cases "path = []")
    case False
    then have "(x, last path) \<in> dep_rel steps" using snoc.prems by (auto simp: chain_snoc dep_rel_def)
    then show ?thesis using snoc False by (auto simp: chain_snoc intro: converse_rtrancl_into_rtrancl)
  qed simp
qed simp

lemma cyclic_path_cycle: "cyclic_path steps cyc \<Longrightarrow> \<not> acyclic (dep_rel steps)"
proof -
  assume "cyclic_path steps cyc"
  then have "(last cyc, hd cyc) \<in> (dep_rel steps)\<^sup>*" "(hd cyc, last cyc) \<in> dep_rel steps"
    using chain_reaches [of steps cyc] by (simp_all add: cyclic_path_def dep_rel_def)
  then show ?thesis unfolding acyclic_def by (meson rtrancl_into_trancl2)
qed

lemma dfs_all_correct:
  assumes "closed_steps steps" "card (set (map fst steps)) \<le> n"
  shows "dfs_inv steps (c, []) \<Longrightarrow> set is \<subseteq> set (map fst steps) \<Longrightarrow> set is \<subseteq> dom c \<Longrightarrow>
    (case dfs_all n steps is c of None \<Rightarrow> False
     | Some (Inl cyc) \<Rightarrow> cyclic_path steps cyc
     | Some (Inr _) \<Rightarrow> set is \<subseteq> Wellfounded.acc (dep_rel steps))"
proof (induction "is" arbitrary: c)
  case (Cons i "is")
  have rest: "case dfs_all n steps is c' of None \<Rightarrow> False
     | Some (Inl cyc) \<Rightarrow> cyclic_path steps cyc
     | Some (Inr _) \<Rightarrow> set (i # is) \<subseteq> Wellfounded.acc (dep_rel steps)"
    if "dfs_inv steps (c', [])" "set is \<subseteq> dom c'" "c' i = Some Black" for c'
    using Cons.IH [OF that(1) _ that(2)] Cons.prems(2) that(1,3)
    by (auto simp: dfs_inv_def split: option.splits sum.splits)
  show ?case
  proof (cases "c i = Some White")
    case False
    obtain col where "c i = Some col" using Cons.prems(3) by auto
    moreover have "c i \<noteq> Some Gray" using Cons.prems(1) by (simp add: dfs_inv_def)
    ultimately have "c i = Some Black" using False by (cases col) auto
    then show ?thesis using rest [of c] False Cons.prems by simp
  next
    case True
    have some: "dfs n steps i (c, []) \<noteq> None"
      using dfs_enough_fuel(1) [OF Cons.prems(1), of i n] True Cons.prems(2) assms by simp
    have post: "dfs_post steps (c, []) {i} (dfs n steps i (c, []))"
      using dfs_correct(1) [OF Cons.prems(1), of i n] True by simp
    show ?thesis
    proof (cases "the (dfs n steps i (c, []))")
      case (Inl cyc)
      then show ?thesis using some post True by (auto simp: dfs_post_def)
    next
      case (Inr st)
      then have st: "dfs n steps i (c, []) = Some (Inr st)" using some by auto
      then have "dfs_inv steps (fst st, [])" "fst st i = Some Black"
        using post by (cases st; simp add: dfs_post_def)+
      moreover have "set is \<subseteq> dom (fst st)"
        using post st Cons.prems(3) by (auto simp: dfs_post_def keeps_colors_def)
      ultimately show ?thesis using rest st True by (cases st) simp
    qed
  qed
qed simp

lemma acc_acyclic:
  assumes "set (map fst steps) \<subseteq> Wellfounded.acc (dep_rel steps)"
  shows "wf (dep_rel steps)"
proof -
  have "x \<in> Wellfounded.acc (dep_rel steps)" for x
  proof (cases "map_of steps x")
    case None
    show ?thesis by (rule accI) (simp add: dep_rel_def deps_of_def None)
  next
    case (Some s)
    then have "x \<in> set (map fst steps)" by (metis map_of_eq_None_iff option.distinct(1) set_map)
    then show ?thesis using assms by blast
  qed
  then show ?thesis by (auto intro: acc_wfI)
qed

lemma detect_cycle_correct:
  assumes "closed_steps steps" "distinct (map fst steps)" "set (order (map fst steps)) = set (map fst steps)"
  shows "case detect_cycle order steps of None \<Rightarrow> False
    | Some (Inl cyc) \<Rightarrow> cyclic_path steps cyc \<and> \<not> acyclic (dep_rel steps)
    | Some (Inr _) \<Rightarrow> wf (dep_rel steps)"
proof -
  let ?c = "\<lambda>i. if i \<in> set (map fst steps) then Some White else None"
  have "dfs_inv steps (?c, [])" by (auto simp: dfs_inv_def chain_def)
  moreover have "card (set (map fst steps)) \<le> length steps" using card_length [of "map fst steps"] by simp
  moreover have "set (order (map fst steps)) \<subseteq> dom ?c" unfolding assms(3) by (auto simp: dom_def)
  ultimately show ?thesis
    using dfs_all_correct [OF assms(1), of "length steps" ?c "order (map fst steps)"] assms(3)
    using cyclic_path_cycle acc_acyclic [of steps]
    by (auto simp: detect_cycle_def split: option.splits sum.splits)
qed

section \<open>Which lists of steps are accepted\<close>

definition list_of :: "(string \<times> string list) list \<Rightarrow> string \<Rightarrow> string list" where
  "list_of m d = (case map_of m d of None \<Rightarrow> [] | Some l \<Rightarrow> l)"

lemma list_of_push: "list_of (push_block i dep m) d = list_of m d @ (if d = dep then [i] else [])"
  by (auto simp: list_of_def push_block_def AList.update_conv' split: option.splits)

lemma list_of_pushes:
  "count_list (list_of (fold (push_block i) deps m) d) j =
    count_list (list_of m d) j + (if j = i then count_list deps d else 0)"
  by (induction deps arbitrary: m) (auto simp: list_of_push)

definition keyed :: "dependent_step list \<Rightarrow> (string \<times> dependent_step) list" where
  "keyed = map (\<lambda>s. (ds_id s, s))"

lemma keyed_fst [simp]: "map fst (keyed ss) = map ds_id ss"
  by (simp add: keyed_def)

lemma keyed_ids [simp]: "fst ` set (keyed ss) = ds_id ` set ss"
  by (simp add: keyed_def image_image)

lemma update_fresh: "map_of m k = None \<Longrightarrow> AList.update k v m = m @ [(k, v)]"
  by (induction m) (auto split: if_splits)

lemma collect_steps_result:
  assumes "distinct (map fst m)"
  shows "case collect_steps ss m blocks of
      Inl e \<Rightarrow> \<not> distinct (map fst m @ map ds_id ss)
    | Inr (m', blocks') \<Rightarrow> distinct (map fst m @ map ds_id ss) \<and> m' = m @ keyed ss \<and>
        (\<forall>d j. count_list (list_of blocks' d) j =
           count_list (list_of blocks d) j + sum_list (map (\<lambda>s. if ds_id s = j then count_list (ds_depends_on s) d else 0) ss))"
  using assms
proof (induction ss arbitrary: m blocks)
  case (Cons s ss)
  show ?case
  proof (cases "map_of m (ds_id s)")
    case None
    then have "ds_id s \<notin> fst ` set m" by (simp add: map_of_eq_None_iff)
    then have "distinct (map fst (AList.update (ds_id s) s m))"
      using Cons.prems None by (simp add: update_fresh)
    from Cons.IH [OF this, of "fold (push_block (ds_id s)) (ds_depends_on s) blocks"] None
    show ?thesis
      by (auto simp: update_fresh list_of_pushes keyed_def split: sum.splits)
  next
    case (Some x)
    then have "ds_id s \<in> set (map fst m)" by (metis map_of_eq_None_iff option.distinct(1) set_map)
    then show ?thesis using Some by auto
  qed
qed (auto simp: keyed_def)

lemma map_of_keyed:
  "distinct (map ds_id ss) \<Longrightarrow> map_of (keyed ss) i = Some s \<longleftrightarrow> s \<in> set ss \<and> ds_id s = i"
  by (induction ss) (auto simp: keyed_def image_iff)

lemma deps_of_keyed: "distinct (map ds_id ss) \<Longrightarrow> s \<in> set ss \<Longrightarrow> deps_of (keyed ss) (ds_id s) = ds_depends_on s"
  using map_of_keyed [of ss "ds_id s" s] by (simp add: deps_of_def)

lemma deps_of_foreign: "i \<notin> set (map fst steps) \<Longrightarrow> deps_of steps i = []"
  by (simp add: deps_of_def map_of_eq_None_iff [THEN iffD2])

lemma map_of_populate:
  "map_of (populate_blocks bl m) i = map_option (\<lambda>s. if map_of bl i = None then s else s\<lparr>ds_blocks := list_of bl i\<rparr>) (map_of m i)"
  by (induction m) (auto simp: populate_blocks_def list_of_def split: option.splits)

lemma populate_fst [simp]: "map fst (populate_blocks bl m) = map fst m"
  by (auto simp: populate_blocks_def)

lemma deps_of_populate [simp]: "deps_of (populate_blocks bl m) i = deps_of m i"
  by (auto simp: deps_of_def map_of_populate split: option.splits)

lemma dep_rel_populate [simp]: "dep_rel (populate_blocks bl m) = dep_rel m"
  by (simp add: dep_rel_def)

lemma check_dependencies_ok:
  "check_dependencies ids ss = Inr () \<longleftrightarrow> (\<forall>s \<in> set ss. set (ds_depends_on s) \<subseteq> set ids)"
proof -
  let ?found = "find (\<lambda>(s, dep). dep \<notin> set ids) (concat (map (\<lambda>s. map (Pair s) (ds_depends_on s)) ss))"
  have "check_dependencies ids ss = Inr () \<longleftrightarrow> ?found = None"
    by (auto simp: check_dependencies_def split: option.splits)
  then show ?thesis by (auto simp: find_None_iff)
qed

text \<open>The relation and the conditions on a list of steps.\<close>

definition step_rel :: "dependent_step list \<Rightarrow> (string \<times> string) set" where
  "step_rel ss = {(d, i). \<exists>s \<in> set ss. ds_id s = i \<and> d \<in> set (ds_depends_on s)}"

definition acceptable :: "dependent_step list \<Rightarrow> bool" where
  "acceptable ss \<longleftrightarrow> distinct (map ds_id ss) \<and>
     (\<forall>s \<in> set ss. set (ds_depends_on s) \<subseteq> ds_id ` set ss) \<and> acyclic (step_rel ss)"

lemma dep_rel_keyed: "distinct (map ds_id ss) \<Longrightarrow> dep_rel (keyed ss) = step_rel ss"
proof -
  assume dist: "distinct (map ds_id ss)"
  have "d \<in> set (deps_of (keyed ss) i) \<longleftrightarrow> (\<exists>s \<in> set ss. ds_id s = i \<and> d \<in> set (ds_depends_on s))" for d i
  proof (cases "i \<in> ds_id ` set ss")
    case False
    then show ?thesis using deps_of_foreign [of i "keyed ss"] by auto
  next
    case True
    then obtain s where s: "s \<in> set ss" "i = ds_id s" by auto
    then have "s' = s" if "s' \<in> set ss" "ds_id s' = i" for s'
      using that dist by (auto simp: distinct_map dest: inj_onD)
    then show ?thesis using s deps_of_keyed [OF dist s(1)] by auto
  qed
  then show ?thesis by (auto simp: dep_rel_def step_rel_def)
qed

lemma closed_keyed:
  assumes "distinct (map ds_id ss)" "\<forall>s \<in> set ss. set (ds_depends_on s) \<subseteq> ds_id ` set ss"
  shows "closed_steps (keyed ss)"
proof -
  have "set (deps_of (keyed ss) i) \<subseteq> ds_id ` set ss" for i
  proof (cases "i \<in> ds_id ` set ss")
    case True
    then obtain s where s: "s \<in> set ss" "i = ds_id s" by auto
    then have "set (ds_depends_on s) \<subseteq> ds_id ` set ss" using assms(2) by blast
    then show ?thesis using s deps_of_keyed [OF assms(1)] by simp
  qed (use deps_of_foreign [of i "keyed ss"] in simp)
  then show ?thesis by (simp add: closed_steps_def)
qed

definition iteration_order :: "(string list \<Rightarrow> string list) \<Rightarrow> bool" where
  "iteration_order order \<longleftrightarrow> (\<forall>xs. set (order xs) = set xs \<and> (distinct xs \<longrightarrow> distinct (order xs)))"

lemma graph_new_cases:
  assumes "iteration_order order"
  shows "graph_new order ss \<noteq> None \<and> ((\<exists>g. graph_new order ss = Some (Inr g)) \<longleftrightarrow> acceptable ss)"
proof (cases "distinct (map ds_id ss)")
  case False
  then have "\<exists>e. collect_steps ss [] [] = Inl e"
    using collect_steps_result [of "[]" ss "[]"] by (auto split: sum.splits)
  then show ?thesis using False by (auto simp: graph_new_def acceptable_def)
next
  case True
  obtain blocks where col: "collect_steps ss [] [] = Inr (keyed ss, blocks)"
    using collect_steps_result [of "[]" ss "[]"] True by (auto split: sum.splits)
  let ?ids = "order (map ds_id ss)"
  have ids: "set ?ids = ds_id ` set ss" using assms by (simp add: iteration_order_def)
  have "the (map_of (keyed ss) (ds_id s)) = s" if "s \<in> set ss" for s
    using that map_of_keyed [OF True, of "ds_id s" s] by simp
  then have "set (map (\<lambda>i. the (map_of (keyed ss) i)) ?ids) = set ss"
    by (simp add: ids image_image)
  then have check: "check_dependencies ?ids (map (\<lambda>i. the (map_of (keyed ss) i)) ?ids) = Inr () \<longleftrightarrow>
      (\<forall>s \<in> set ss. set (ds_depends_on s) \<subseteq> ds_id ` set ss)"
    by (simp only: check_dependencies_ok ids)
  show ?thesis
  proof (cases "\<forall>s \<in> set ss. set (ds_depends_on s) \<subseteq> ds_id ` set ss")
    case False
    then obtain e where "check_dependencies ?ids (map (\<lambda>i. the (map_of (keyed ss) i)) ?ids) = Inl e"
      using check by (metis old.sum.exhaust old.unit.exhaust)
    then show ?thesis using False col by (simp add: graph_new_def acceptable_def)
  next
    case closed: True
    let ?dg = "populate_blocks blocks (keyed ss)"
    have "closed_steps ?dg"
      using closed_keyed [OF True closed] unfolding closed_steps_def deps_of_populate populate_fst .
    moreover have "distinct (map fst ?dg)" using True by simp
    ultimately have det: "case detect_cycle order ?dg of None \<Rightarrow> False
      | Some (Inl cyc) \<Rightarrow> cyclic_path ?dg cyc \<and> \<not> acyclic (dep_rel ?dg)
      | Some (Inr _) \<Rightarrow> wf (dep_rel ?dg)"
      using detect_cycle_correct assms unfolding iteration_order_def by blast
    have "dep_rel ?dg = step_rel ss" by (simp add: dep_rel_keyed [OF True])
    then show ?thesis
      using det closed check col True
      by (auto simp: graph_new_def acceptable_def wf_acyclic Let_def split: option.splits sum.splits)
  qed
qed

lemma new_graph_acceptable: "iteration_order order \<Longrightarrow> graph_new order ss = Some (Inr g) \<Longrightarrow> acceptable ss"
  using graph_new_cases by blast

text \<open>C15. The constructor of a dependency graph answers for every list of steps and every order of
  iteration (its depth-first search never goes deeper than there are steps), and accepts
  exactly the lists whose identifiers are distinct, whose dependencies are steps of the
  list and have no cycle.\<close>

theorem graph_accepts_exactly_acyclic:
  assumes "iteration_order order"
  shows "graph_new order ss \<noteq> None \<and> ((\<exists>g. graph_new order ss = Some (Inr g)) \<longleftrightarrow> acceptable ss)"
  by (rule graph_new_cases) (rule assms)

section \<open>Graphs in use\<close>

abbreviation ids_of :: "dependency_graph \<Rightarrow> string set" where
  "ids_of g \<equiv> set (map fst (dg_steps g))"

abbreviation deps_in :: "dependency_graph \<Rightarrow> string \<Rightarrow> string list" where
  "deps_in g i \<equiv> deps_of (dg_steps g) i"

definition blocks_of :: "(string \<times> dependent_step) list \<Rightarrow> string \<Rightarrow> string list" where
  "blocks_of steps i = (case map_of steps i of None \<Rightarrow> [] | Some s \<Rightarrow> ds_blocks s)"

text \<open>Distinct keys, dependencies inside, no cycle, and every dependency entered on both sides.\<close>

definition valid_steps :: "(string \<times> dependent_step) list \<Rightarrow> bool" where
  "valid_steps steps \<longleftrightarrow> distinct (map fst steps) \<and> closed_steps steps \<and> wf (dep_rel steps) \<and>
     (\<forall>d i. d \<in> set (map fst steps) \<longrightarrow> count_list (blocks_of steps d) i = count_list (deps_of steps i) d)"

definition waits :: "dependency_graph \<Rightarrow> string \<rightharpoonup> string set" where
  "waits g = map_of (dg_waiting g)"

text \<open>
  Taken steps that have not completed are in flight.  Every step is in exactly one of: ready,
  waiting, in flight, completed.
\<close>

definition in_flight :: "dependency_graph \<Rightarrow> string set" where
  "in_flight g = ids_of g - set (dg_ready g) - dom (waits g) - dg_completed g"

definition graph_inv :: "dependency_graph \<Rightarrow> bool" where
  "graph_inv g \<longleftrightarrow> valid_steps (dg_steps g) \<and>
     distinct (dg_ready g) \<and>
     set (dg_ready g) \<union> dom (waits g) \<union> dg_completed g \<subseteq> ids_of g \<and>
     set (dg_ready g) \<inter> dom (waits g) = {} \<and>
     dg_completed g \<inter> (set (dg_ready g) \<union> dom (waits g)) = {} \<and>
     (\<forall>i ds. waits g i = Some ds \<longrightarrow> ds = set (deps_in g i) - dg_completed g \<and> ds \<noteq> {}) \<and>
     (\<forall>i. i \<in> ids_of g \<longrightarrow> waits g i = None \<longrightarrow> set (deps_in g i) \<subseteq> dg_completed g) \<and>
     dg_failed g \<subseteq> dg_completed g"

lemma count_by_key:
  assumes "distinct (map ds_id ss)"
  shows "sum_list (map (\<lambda>s. if ds_id s = i then count_list (ds_depends_on s) d else 0) ss) =
    count_list (deps_of (keyed ss) i) d"
  using assms
proof (induction ss)
  case (Cons s ss)
  have "deps_of (keyed ss) i = []" if "ds_id s = i"
    using that Cons.prems deps_of_foreign [of i "keyed ss"] by auto
  then show ?case using Cons by (auto simp: deps_of_def keyed_def)
qed (simp add: keyed_def deps_of_def)

lemma case_deps:
  "map_of steps i \<noteq> None \<Longrightarrow>
    (case map_of steps i of None \<Rightarrow> b | Some s \<Rightarrow> P (ds_depends_on s)) = P (deps_of steps i)"
  by (auto simp: deps_of_def)

lemma graph_new_inv:
  assumes order: "iteration_order order" and new: "graph_new order ss = Some (Inr g)"
    and plain: "\<forall>s \<in> set ss. ds_blocks s = []"
  shows "graph_inv g \<and> acceptable ss \<and> ids_of g = ds_id ` set ss \<and> in_flight g = {} \<and>
    dg_completed g = {} \<and> dg_failed g = {} \<and> length (dg_steps g) = length ss \<and>
    dep_rel (dg_steps g) = step_rel ss \<and>
    (\<forall>s \<in> set ss. \<exists>bs. get_step g (ds_id s) = Some (s\<lparr>ds_blocks := bs\<rparr>))"
proof -
  have sets: "set (order xs) = set xs" for xs using order by (simp add: iteration_order_def)
  have acc: "acceptable ss" using new_graph_acceptable [OF order new] .
  then have dist: "distinct (map ds_id ss)" and closed: "\<forall>s \<in> set ss. set (ds_depends_on s) \<subseteq> ds_id ` set ss"
    and acyc: "acyclic (step_rel ss)" by (simp_all add: acceptable_def)
  obtain blocks where col: "collect_steps ss [] [] = Inr (keyed ss, blocks)"
    and cnt: "\<And>d j. count_list (list_of blocks d) j = count_list (deps_of (keyed ss) j) d"
    using collect_steps_result [of "[]" ss "[]"] dist
    by (auto simp: count_by_key list_of_def split: sum.splits)
  let ?dg = "populate_blocks blocks (keyed ss)"
  let ?ids = "order (map ds_id ss)"
  have g: "g = \<lparr>dg_steps = ?dg, dg_ready = initial_ready ?dg ?ids, dg_waiting = initial_waiting ?dg ?ids,
      dg_completed = {}, dg_failed = {}, dg_results = Map.empty\<rparr>" and det: "detect_cycle order ?dg = Some (Inr ())"
    using new col by (auto simp: graph_new_def Let_def split: option.splits sum.splits)
  have ids: "set ?ids = ds_id ` set ss" "distinct ?ids"
    using sets order dist by (auto simp: iteration_order_def)
  have closed_dg: "closed_steps ?dg"
    using closed_keyed [OF dist closed] unfolding closed_steps_def deps_of_populate populate_fst .
  have wf: "wf (dep_rel ?dg)"
    using detect_cycle_correct [OF closed_dg, of order] det dist sets by simp
  have blocks: "blocks_of ?dg d = list_of blocks d" if "d \<in> ds_id ` set ss" for d
  proof -
    from that obtain s where "s \<in> set ss" "ds_id s = d" by auto
    then show ?thesis using plain map_of_keyed [OF dist, of d s]
      by (simp add: blocks_of_def map_of_populate list_of_def)
  qed
  have valid: "valid_steps ?dg"
    using dist closed_dg wf blocks cnt by (simp add: valid_steps_def)
  have some: "map_of ?dg i \<noteq> None \<longleftrightarrow> i \<in> ds_id ` set ss" for i
    by (simp add: map_of_populate map_of_eq_None_iff)
  have there: "map_of ?dg i \<noteq> None" if "i \<in> set ?ids" for i using that some ids by simp
  have ready: "dg_ready g = filter (\<lambda>i. deps_of ?dg i = []) ?ids"
    unfolding g initial_ready_def dependency_graph.simps
    by (rule filter_cong [OF refl]) (rule case_deps, erule there)
  have "filter (\<lambda>i. case map_of ?dg i of None \<Rightarrow> False | Some s \<Rightarrow> ds_depends_on s \<noteq> []) ?ids =
      filter (\<lambda>i. deps_of ?dg i \<noteq> []) ?ids"
    by (rule filter_cong [OF refl]) (rule case_deps, erule there)
  moreover have "(case map_of ?dg i of None \<Rightarrow> {} | Some s \<Rightarrow> set (ds_depends_on s)) = set (deps_of ?dg i)"
    if "i \<in> set ?ids" for i by (rule case_deps) (rule there [OF that])
  ultimately have waiting: "dg_waiting g = map (\<lambda>i. (i, set (deps_of ?dg i))) (filter (\<lambda>i. deps_of ?dg i \<noteq> []) ?ids)"
    by (simp add: g initial_waiting_def)
  have waits: "waits g = (\<lambda>i. if i \<in> ds_id ` set ss \<and> deps_of ?dg i \<noteq> [] then Some (set (deps_of ?dg i)) else None)"
    unfolding waits_def waiting by (rule ext) (auto simp: map_of_map_restrict comp_def restrict_map_def ids)
  have inv: "graph_inv g"
    unfolding graph_inv_def ready waits
    using valid ids closed_dg by (auto simp: g split: if_splits)
  moreover have "in_flight g = {}"
    unfolding in_flight_def ready waits using ids by (auto simp: g dom_def)
  moreover have "\<exists>bs. get_step g (ds_id s) = Some (s\<lparr>ds_blocks := bs\<rparr>)" if s: "s \<in> set ss" for s
  proof -
    have "s\<lparr>ds_blocks := []\<rparr> = s" using plain s by (cases s) auto
    then have "get_step g (ds_id s) = Some (s\<lparr>ds_blocks := list_of blocks (ds_id s)\<rparr>)"
      using s map_of_keyed [OF dist, of "ds_id s" s] by (simp add: get_step_def g map_of_populate list_of_def)
    then show ?thesis by blast
  qed
  moreover have "length (dg_steps g) = length ss" by (simp add: g populate_blocks_def keyed_def)
  ultimately show ?thesis using acc by (simp add: g dep_rel_keyed [OF dist])
qed

text \<open>Between the calls of \<open>unblock\<close>: the steps in \<open>bs\<close> are still to be looked at.\<close>

definition mid_inv :: "string \<Rightarrow> string list \<Rightarrow> dependency_graph \<Rightarrow> bool" where
  "mid_inv k bs g \<longleftrightarrow> valid_steps (dg_steps g) \<and>
     distinct (dg_ready g) \<and>
     set (dg_ready g) \<union> dom (waits g) \<union> dg_completed g \<subseteq> ids_of g \<and>
     set (dg_ready g) \<inter> dom (waits g) = {} \<and>
     dg_completed g \<inter> (set (dg_ready g) \<union> dom (waits g)) = {} \<and>
     (\<forall>i ds. waits g i = Some ds \<longrightarrow> ds \<noteq> {} \<and>
        (if i \<in> set bs then ds - {k} else ds) = set (deps_in g i) - dg_completed g) \<and>
     (\<forall>i. i \<in> ids_of g \<longrightarrow> waits g i = None \<longrightarrow> set (deps_in g i) \<subseteq> dg_completed g) \<and>
     dg_failed g \<subseteq> dg_completed g \<and> k \<in> dg_completed g"

lemma unblock_unchanged [simp]:
  "dg_steps (unblock k b g) = dg_steps g" "dg_completed (unblock k b g) = dg_completed g"
  "dg_failed (unblock k b g) = dg_failed g" "dg_results (unblock k b g) = dg_results g"
  by (auto simp: unblock_def Let_def split: option.splits)

lemma unblock_waits:
  "waits (unblock k b g) =
    (case waits g b of None \<Rightarrow> waits g
     | Some ds \<Rightarrow> (waits g) (b := if ds - {k} = {} then None else Some (ds - {k})))"
  by (auto simp: waits_def unblock_def Let_def AList.update_conv' AList.delete_conv' split: option.splits)

lemma unblock_ready:
  "dg_ready (unblock k b g) =
    (case waits g b of None \<Rightarrow> dg_ready g
     | Some ds \<Rightarrow> if ds - {k} = {} then dg_ready g @ [b] else dg_ready g)"
  by (auto simp: waits_def unblock_def Let_def split: option.splits)

lemma unblock_placed:
  "set (dg_ready (unblock k b g)) \<union> dom (waits (unblock k b g)) = set (dg_ready g) \<union> dom (waits g)"
  by (auto simp: unblock_waits unblock_ready split: option.splits if_splits)

lemma mid_waits:
  "mid_inv k bs g \<Longrightarrow> waits g i = Some ds \<Longrightarrow>
    ds \<noteq> {} \<and> (if i \<in> set bs then ds - {k} else ds) = set (deps_in g i) - dg_completed g"
  unfolding mid_inv_def by blast

lemma unblock_mid:
  assumes "mid_inv k (b # bs) g" shows "mid_inv k bs (unblock k b g)"
proof (cases "waits g b")
  case None
  then have "unblock k b g = g" by (simp add: unblock_def waits_def)
  moreover have "mid_inv k bs g"
  proof -
    have "ds \<noteq> {} \<and> (if i \<in> set bs then ds - {k} else ds) = set (deps_in g i) - dg_completed g"
      if "waits g i = Some ds" for i ds
      using mid_waits [OF assms that] None that by (cases "i = b") simp_all
    then show ?thesis using assms unfolding mid_inv_def by blast
  qed
  ultimately show ?thesis by simp
next
  case (Some ds)
  have ds: "ds - {k} = set (deps_in g b) - dg_completed g" using mid_waits [OF assms Some] by simp
  have w: "waits (unblock k b g) = (waits g) (b := if ds - {k} = {} then None else Some (ds - {k}))"
    by (simp add: unblock_waits Some)
  have all: "valid_steps (dg_steps g)" "set (dg_ready g) \<union> dom (waits g) \<union> dg_completed g \<subseteq> ids_of g"
    "dg_completed g \<inter> (set (dg_ready g) \<union> dom (waits g)) = {}" "dg_failed g \<subseteq> dg_completed g" "k \<in> dg_completed g"
    using assms by (simp_all add: mid_inv_def)
  have 1: "distinct (dg_ready (unblock k b g))" "set (dg_ready (unblock k b g)) \<inter> dom (waits (unblock k b g)) = {}"
    using assms Some unfolding mid_inv_def w unblock_ready by (auto split: if_splits)
  have 2: "ds' \<noteq> {} \<and> (if i \<in> set bs then ds' - {k} else ds') = set (deps_in g i) - dg_completed g"
    if "waits (unblock k b g) i = Some ds'" for i ds'
  proof (cases "i = b")
    case True
    then have "ds' = ds - {k}" "ds' \<noteq> {}" using that w by (auto split: if_splits)
    then show ?thesis using ds True by auto
  next
    case False
    then have "waits g i = Some ds'" using that w by simp
    from mid_waits [OF assms this] False show ?thesis by simp
  qed
  have 3: "set (deps_in g i) \<subseteq> dg_completed g"
    if "i \<in> ids_of g" "waits (unblock k b g) i = None" for i
  proof (cases "i = b")
    case True
    then show ?thesis using that w ds by (auto split: if_splits)
  next
    case False
    then show ?thesis using that w assms by (simp add: mid_inv_def)
  qed
  show ?thesis
    unfolding mid_inv_def unblock_unchanged unblock_placed
    by (intro conjI allI impI) (use all 1 2 3 in blast)+
qed

lemma unblock_all_mid:
  "mid_inv k bs g \<Longrightarrow> mid_inv k [] (fold (unblock k) bs g)"
  by (induction bs arbitrary: g) (auto dest: unblock_mid)

lemma unblock_all_unchanged [simp]:
  "dg_steps (fold (unblock k) bs g) = dg_steps g" "dg_completed (fold (unblock k) bs g) = dg_completed g"
  "dg_failed (fold (unblock k) bs g) = dg_failed g" "dg_results (fold (unblock k) bs g) = dg_results g"
  by (induction bs arbitrary: g) auto

lemma unblock_all_placed:
  "set (dg_ready (fold (unblock k) bs g)) \<union> dom (waits (fold (unblock k) bs g)) =
    set (dg_ready g) \<union> dom (waits g)"
  by (induction bs arbitrary: g) (simp_all add: unblock_placed)

lemma complete_fields [simp]:
  "dg_steps (complete k r g) = dg_steps g" "dg_completed (complete k r g) = insert k (dg_completed g)"
  "dg_failed (complete k r g) = (if sr_success r then dg_failed g else insert k (dg_failed g))"
  "dg_results (complete k r g) = (dg_results g)(k \<mapsto> r)"
  by (auto simp: complete_def Let_def split: option.splits)

lemma complete_inv:
  assumes inv: "graph_inv g" and k: "k \<in> in_flight g"
  shows "graph_inv (complete k r g) \<and> in_flight (complete k r g) = in_flight g - {k}"
proof -
  let ?h = "g\<lparr>dg_completed := insert k (dg_completed g),
     dg_failed := if sr_success r then dg_failed g else insert k (dg_failed g),
     dg_results := (dg_results g)(k \<mapsto> r)\<rparr>"
  let ?bs = "blocks_of (dg_steps g) k"
  have "complete k r g = fold (unblock k) ?bs ?h"
    by (auto simp: complete_def Let_def get_step_def blocks_of_def split: option.splits)
  moreover have "mid_inv k ?bs ?h"
  proof -
    have "count_list ?bs i = count_list (deps_in g i) k" for i
      using inv k by (simp add: graph_inv_def valid_steps_def in_flight_def)
    then have "i \<in> set ?bs \<longleftrightarrow> k \<in> set (deps_in g i)" for i by (metis count_list_0_iff)
    moreover have "k \<in> ids_of g" "k \<notin> set (dg_ready g)" "k \<notin> dom (waits g)"
      using k by (auto simp: in_flight_def)
    moreover have "waits ?h = waits g" by (simp add: waits_def)
    ultimately show ?thesis using inv unfolding graph_inv_def mid_inv_def by auto
  qed
  then have "mid_inv k [] (fold (unblock k) ?bs ?h)" by (rule unblock_all_mid)
  moreover have "in_flight (fold (unblock k) ?bs ?h) = in_flight g - {k}"
    using unblock_all_placed [of k ?bs ?h] by (auto simp: in_flight_def waits_def)
  ultimately show ?thesis by (auto simp: mid_inv_def graph_inv_def)
qed

lemma take_steps_inv:
  assumes "graph_inv g" "take_ready_steps n g = (xs, g')"
  shows "graph_inv g' \<and> in_flight g' = in_flight g \<union> set xs \<and> set xs \<inter> in_flight g = {} \<and>
    distinct xs \<and> set xs \<subseteq> set (dg_ready g) \<and> dg_steps g' = dg_steps g \<and>
    dg_completed g' = dg_completed g \<and> dg_failed g' = dg_failed g"
proof -
  have xs: "xs = take n (dg_ready g)" and g': "g' = g\<lparr>dg_ready := drop n (dg_ready g)\<rparr>"
    using assms(2) by (simp_all add: take_ready_steps_def)
  have split: "set (dg_ready g) = set xs \<union> set (drop n (dg_ready g))" "set xs \<inter> set (drop n (dg_ready g)) = {}"
    using assms(1) xs by (metis append_take_drop_id set_append, metis append_take_drop_id distinct_append graph_inv_def)
  show ?thesis
    using assms(1) split xs unfolding graph_inv_def in_flight_def g' waits_def by (auto simp: distinct_take distinct_drop)
qed

section \<open>Every use of a graph\<close>

text \<open>
  The calls in any order, by any number of workers, with the list of what happened: the ids
  that \<open>take_ready_step\<close> and \<open>take_ready_steps\<close> return, in the order in which they return them,
  and the completions.  A worker completes a step that it was handed, once.
\<close>

datatype graph_event = HandedOut string | CompletedStep string

inductive graph_use :: "dependency_graph \<Rightarrow> graph_event list \<Rightarrow> dependency_graph \<Rightarrow> bool" for g0 where
  use_nothing: "graph_use g0 [] g0"
| use_take_one: "graph_use g0 es g \<Longrightarrow> take_ready_step g = (s, g') \<Longrightarrow>
    graph_use g0 (es @ (case s of None \<Rightarrow> [] | Some s \<Rightarrow> [HandedOut (ds_id s)])) g'"
| use_take_many: "graph_use g0 es g \<Longrightarrow> take_ready_steps n g = (xs, g') \<Longrightarrow>
    graph_use g0 (es @ map HandedOut xs) g'"
| use_complete: "graph_use g0 es g \<Longrightarrow> HandedOut k \<in> set es \<Longrightarrow> CompletedStep k \<notin> set es \<Longrightarrow>
    graph_use g0 (es @ [CompletedStep k]) (complete k r g)"

abbreviation graph_run :: "dependency_graph \<Rightarrow> dependency_graph \<Rightarrow> bool" where
  "graph_run g0 g \<equiv> \<exists>es. graph_use g0 es g"

text \<open>Every step is handed out after the completion of everything it depends on.\<close>

definition in_order :: "(string \<times> dependent_step) list \<Rightarrow> graph_event list \<Rightarrow> bool" where
  "in_order steps es \<longleftrightarrow> (\<forall>n < length es. \<forall>i. es ! n = HandedOut i \<longrightarrow>
     CompletedStep ` set (deps_of steps i) \<subseteq> set (take n es))"

lemma in_order_snoc:
  "in_order steps (es @ [e]) \<longleftrightarrow> in_order steps es \<and>
    (\<forall>i. e = HandedOut i \<longrightarrow> CompletedStep ` set (deps_of steps i) \<subseteq> set es)"
proof -
  have old: "(es @ [e]) ! n = es ! n" "take n (es @ [e]) = take n es" if "n < length es" for n
    using that by (simp_all add: nth_append)
  show ?thesis unfolding in_order_def length_append_singleton All_less_Suc using old by simp blast
qed

lemma in_order_before:
  assumes "in_order steps (ys @ HandedOut i # zs)"
  shows "CompletedStep ` set (deps_of steps i) \<subseteq> set ys"
  using assms [unfolded in_order_def, rule_format, of "length ys" i] by simp

lemma in_order_batch:
  assumes "in_order steps es" "\<forall>i \<in> set xs. CompletedStep ` set (deps_of steps i) \<subseteq> set es"
  shows "in_order steps (es @ map HandedOut xs)"
  using assms
proof (induction xs rule: rev_induct)
  case (snoc x xs)
  then have "in_order steps ((es @ map HandedOut xs) @ [HandedOut x])" by (subst in_order_snoc) auto
  then show ?case by simp
qed simp

text \<open>The keys of the steps are their ids, and the events say where every step is.\<close>

definition keyed_by_id :: "dependency_graph \<Rightarrow> bool" where
  "keyed_by_id g \<longleftrightarrow> (\<forall>i \<in> ids_of g. \<exists>s. get_step g i = Some s \<and> ds_id s = i)"

definition accounted :: "dependency_graph \<Rightarrow> graph_event list \<Rightarrow> dependency_graph \<Rightarrow> bool" where
  "accounted g0 es g \<longleftrightarrow> graph_inv g \<and> dg_steps g = dg_steps g0 \<and> distinct es \<and>
     in_order (dg_steps g0) es \<and> dg_completed g = {i. CompletedStep i \<in> set es} \<and>
     {i. HandedOut i \<in> set es} = in_flight g \<union> dg_completed g"

lemma accounted_in_flight:
  assumes "accounted g0 es g"
  shows "in_flight g = {i. HandedOut i \<in> set es \<and> CompletedStep i \<notin> set es}"
proof -
  have "in_flight g \<inter> dg_completed g = {}" by (auto simp: in_flight_def)
  moreover have "{i. HandedOut i \<in> set es} = in_flight g \<union> dg_completed g"
    "dg_completed g = {i. CompletedStep i \<in> set es}" using assms by (simp_all add: accounted_def)
  ultimately show ?thesis by blast
qed

lemma accounted_take:
  assumes acc: "accounted g0 es g" and take: "take_ready_steps n g = (xs, g')"
  shows "accounted g0 (es @ map HandedOut xs) g'"
proof -
  have inv: "graph_inv g" and events: "dg_completed g = {i. CompletedStep i \<in> set es}"
      "{i. HandedOut i \<in> set es} = in_flight g \<union> dg_completed g"
    using acc by (simp_all add: accounted_def)
  note taken = take_steps_inv [OF inv take]
  have ready: "i \<in> ids_of g" "waits g i = None" "i \<notin> dg_completed g" "i \<notin> in_flight g" if "i \<in> set xs" for i
    using that taken inv by (auto simp: graph_inv_def)
  then have "set (deps_of (dg_steps g0) i) \<subseteq> dg_completed g" if "i \<in> set xs" for i
    using that inv acc by (auto simp: graph_inv_def accounted_def)
  then have "in_order (dg_steps g0) (es @ map HandedOut xs)"
    using acc events(1) by (intro in_order_batch) (auto simp: accounted_def)
  moreover have "set es \<inter> set (map HandedOut xs) = {}" using ready(3,4) events(2) by auto
  then have "distinct (es @ map HandedOut xs)"
    using acc taken by (auto simp: accounted_def distinct_map inj_on_def)
  ultimately show ?thesis using acc taken events by (auto simp: accounted_def)
qed

lemma accounted_complete:
  assumes acc: "accounted g0 es g" and k: "HandedOut k \<in> set es" "CompletedStep k \<notin> set es"
  shows "accounted g0 (es @ [CompletedStep k]) (complete k r g)"
proof -
  have "k \<in> in_flight g" using acc k by (auto simp: accounted_def)
  then have post: "graph_inv (complete k r g) \<and> in_flight (complete k r g) = in_flight g - {k}"
    using acc complete_inv by (simp add: accounted_def)
  have "in_order (dg_steps g0) (es @ [CompletedStep k])"
    using acc by (simp add: in_order_snoc accounted_def)
  then show ?thesis using acc post k by (auto simp: accounted_def)
qed

lemma take_one_is_take:
  assumes "accounted g0 es g" "keyed_by_id g0" "take_ready_step g = (s, g')"
  shows "\<exists>xs. take_ready_steps 1 g = (xs, g') \<and>
    map HandedOut xs = (case s of None \<Rightarrow> [] | Some s \<Rightarrow> [HandedOut (ds_id s)])"
proof (cases "dg_ready g")
  case Nil
  then show ?thesis using assms(3) by (auto simp: take_ready_step_def take_ready_steps_def)
next
  case (Cons i rest)
  then have "i \<in> ids_of g0" using assms(1) by (auto simp: accounted_def graph_inv_def)
  then obtain t where t: "get_step g i = Some t" "ds_id t = i"
    using assms(1,2) by (auto simp: keyed_by_id_def accounted_def get_step_def)
  have "s = Some t" "take_ready_steps 1 g = ([i], g')"
    using assms(3) Cons t(1) by (auto simp: take_ready_step_def take_ready_steps_def)
  then show ?thesis using t(2) by simp
qed

lemma accounted_use:
  assumes "graph_use g0 es g" "graph_inv g0" "in_flight g0 = {}" "dg_completed g0 = {}" "keyed_by_id g0"
  shows "accounted g0 es g"
  using assms(1)
proof (induction rule: graph_use.induct)
  case use_nothing
  then show ?case using assms by (simp add: accounted_def in_order_def)
next
  case (use_take_one es g s g')
  then show ?case using take_one_is_take [OF _ assms(5)] accounted_take by metis
next
  case (use_take_many es g n xs g')
  then show ?case using accounted_take by blast
next
  case (use_complete es g k r)
  then show ?case using accounted_complete by blast
qed

text \<open>Every use of a graph that the constructor has accepted.\<close>

lemma graph_use_accounted:
  assumes "iteration_order order" "graph_new order ss = Some (Inr g0)" "\<forall>s \<in> set ss. ds_blocks s = []"
    and "graph_use g0 es g"
  shows "accounted g0 es g"
proof -
  note new = graph_new_inv [OF assms(1-3)]
  have "keyed_by_id g0"
    unfolding keyed_by_id_def
  proof
    fix i assume "i \<in> ids_of g0"
    then obtain s where s: "s \<in> set ss" "ds_id s = i" using new by auto
    with new obtain bs where "get_step g0 i = Some (s\<lparr>ds_blocks := bs\<rparr>)" by blast
    with s show "\<exists>t. get_step g0 i = Some t \<and> ds_id t = i" by simp
  qed
  with new show ?thesis using accounted_use [OF assms(4)] by blast
qed

lemma graph_run_inv:
  assumes "iteration_order order" "graph_new order ss = Some (Inr g0)" "\<forall>s \<in> set ss. ds_blocks s = []"
    and "graph_run g0 g"
  shows "graph_inv g \<and> dg_steps g = dg_steps g0"
  using assms(4) graph_use_accounted [OF assms(1-3)] by (auto simp: accounted_def)

lemma no_deadlock:
  assumes "graph_inv g" "in_flight g = {}" "dg_ready g = []"
  shows "dg_completed g = ids_of g"
proof (rule ccontr)
  assume "dg_completed g \<noteq> ids_of g"
  then have "dom (waits g) \<noteq> {}" using assms by (auto simp: graph_inv_def in_flight_def)
  moreover have wf: "wf (dep_rel (dg_steps g))" "closed_steps (dg_steps g)"
    using assms(1) by (simp_all add: graph_inv_def valid_steps_def)
  ultimately obtain i where i: "i \<in> dom (waits g)" and least: "\<And>d. (d, i) \<in> dep_rel (dg_steps g) \<Longrightarrow> d \<notin> dom (waits g)"
    by (metis all_not_in_conv wfE_min)
  obtain ds where "waits g i = Some ds" using i by auto
  then have "set (deps_in g i) - dg_completed g \<noteq> {}" using assms(1) by (metis graph_inv_def)
  then obtain d where "d \<in> set (deps_in g i)" "d \<notin> dg_completed g" by auto
  moreover from this have "d \<in> ids_of g" using wf(2) by (auto simp: closed_steps_def)
  ultimately show False using least [of d] assms by (auto simp: dep_rel_def in_flight_def)
qed

text \<open>C14. However a graph is used, by any interleaving of taking and completing steps: a step
  is handed out at most once, only after everything it depends on has completed, and is no
  longer ready afterwards; the completed steps of the graph are those that a worker has
  completed; and as long as some step has not completed, some step is ready or has been
  handed out and not yet completed, so the graph never blocks.  The steps come without
  \<open>blocks\<close> of their own: the constructor computes them.\<close>

theorem steps_wait_for_dependencies:
  assumes "iteration_order order" "\<forall>s \<in> set ss. ds_blocks s = []"
    and "graph_new order ss = Some (Inr g0)" "graph_use g0 es g"
  shows "distinct es \<and>
    (\<forall>s \<in> set ss. \<forall>ys zs. es = ys @ HandedOut (ds_id s) # zs \<longrightarrow>
      CompletedStep ` set (ds_depends_on s) \<subseteq> set ys) \<and>
    (\<forall>i. HandedOut i \<in> set es \<longrightarrow> i \<in> ds_id ` set ss \<and> i \<notin> set (dg_ready g)) \<and>
    dg_completed g = {i. CompletedStep i \<in> set es} \<and>
    ((\<exists>s \<in> set ss. CompletedStep (ds_id s) \<notin> set es) \<longrightarrow>
      dg_ready g \<noteq> [] \<or> (\<exists>i. HandedOut i \<in> set es \<and> CompletedStep i \<notin> set es))"
proof -
  note new = graph_new_inv [OF assms(1,3,2)]
  note acc = graph_use_accounted [OF assms(1,3,2,4), unfolded accounted_def]
  then have inv: "graph_inv g" and order: "in_order (dg_steps g0) es" by blast+
  note work = accounted_in_flight [OF graph_use_accounted [OF assms(1,3,2,4)]]
  have "CompletedStep ` set (ds_depends_on s) \<subseteq> set ys"
    if s: "s \<in> set ss" "es = ys @ HandedOut (ds_id s) # zs" for s ys zs
  proof -
    from new s obtain bs where "get_step g0 (ds_id s) = Some (s\<lparr>ds_blocks := bs\<rparr>)" by blast
    then have "deps_of (dg_steps g0) (ds_id s) = ds_depends_on s" by (simp add: deps_of_def get_step_def)
    then show ?thesis using in_order_before [of "dg_steps g0" ys "ds_id s" zs] order s(2) by simp
  qed
  moreover have "i \<in> ds_id ` set ss \<and> i \<notin> set (dg_ready g)" if "HandedOut i \<in> set es" for i
  proof -
    have "i \<in> in_flight g \<union> dg_completed g" using that acc by blast
    then have "i \<in> ids_of g \<and> i \<notin> set (dg_ready g)" using inv by (auto simp: in_flight_def graph_inv_def)
    then show ?thesis using acc new by simp
  qed
  moreover have "dg_ready g \<noteq> [] \<or> (\<exists>i. HandedOut i \<in> set es \<and> CompletedStep i \<notin> set es)"
    if "s \<in> set ss" "CompletedStep (ds_id s) \<notin> set es" for s
  proof -
    have "ds_id s \<in> ids_of g" "ds_id s \<notin> dg_completed g" using that acc new by auto
    then have "dg_ready g \<noteq> [] \<or> in_flight g \<noteq> {}" using no_deadlock [OF inv] by blast
    then show ?thesis using work by blast
  qed
  ultimately show ?thesis using acc by blast
qed

lemma complete_counts:
  assumes "graph_inv g"
  shows "is_complete g \<longleftrightarrow> card (ids_of g - dg_completed g) = card (dg_failed g)"
proof -
  have sub: "dg_completed g \<subseteq> ids_of g" "dg_failed g \<subseteq> dg_completed g"
    using assms by (auto simp: graph_inv_def)
  then have fin: "finite (dg_completed g)" by (meson List.finite_set finite_subset)
  have "card (ids_of g) = length (dg_steps g)"
    using assms by (metis distinct_card graph_inv_def length_map valid_steps_def)
  moreover have "card (ids_of g - dg_completed g) = card (ids_of g) - card (dg_completed g)"
    using fin sub(1) by (rule card_Diff_subset)
  moreover have "card (dg_completed g) \<le> card (ids_of g)" using sub(1) by (intro card_mono) auto
  ultimately show ?thesis by (auto simp: is_complete_def)
qed

text \<open>C18. A failed step is counted twice, as completed and as failed: while a step has failed, a
  graph says that it is complete exactly when as many steps have not been run as have
  failed, and it never says so once every step has been run.  The steps come without
  \<open>blocks\<close> of their own.\<close>

theorem failed_steps_counted_twice:
  assumes "iteration_order order" "\<forall>s \<in> set ss. ds_blocks s = []"
    and "graph_new order ss = Some (Inr g0)" "graph_run g0 g"
  shows "(is_complete g \<longleftrightarrow> card (ds_id ` set ss - dg_completed g) = card (dg_failed g)) \<and>
    (has_failed g \<and> dg_completed g = ds_id ` set ss \<longrightarrow> \<not> is_complete g)"
proof -
  note new = graph_new_inv [OF assms(1,3,2)]
  have inv: "graph_inv g" and steps: "dg_steps g = dg_steps g0"
    using graph_run_inv [OF assms(1,3,2,4)] by auto
  have "finite (dg_failed g)"
    using inv by (meson List.finite_set finite_subset graph_inv_def le_sup_iff)
  then show ?thesis using complete_counts [OF inv] new steps by (auto simp: has_failed_def)
qed

section \<open>The simulation of parallelism\<close>

lemma complete_all:
  assumes "graph_inv g" "set xs \<subseteq> in_flight g" "distinct xs" "\<forall>i \<in> set xs. sr_success (r i)"
  shows "let g' = fold (\<lambda>i. complete i (r i)) xs g in graph_inv g' \<and> in_flight g' = in_flight g - set xs \<and>
    dg_completed g' = dg_completed g \<union> set xs \<and> dg_failed g' = dg_failed g \<and> dg_steps g' = dg_steps g"
  using assms
proof (induction xs arbitrary: g)
  case (Cons x xs)
  have one: "graph_inv (complete x (r x) g)" "in_flight (complete x (r x) g) = in_flight g - {x}"
    using complete_inv [OF Cons.prems(1), of x] Cons.prems(2) by auto
  then have "set xs \<subseteq> in_flight (complete x (r x) g)" using Cons.prems(2,3) by auto
  from Cons.IH [OF one(1) this] Cons.prems(3,4) one(2) show ?case by (auto simp: Let_def)
qed (simp add: Let_def)

lemma parallel_round:
  assumes "graph_inv g" "dg_failed g = {}"
  shows "let g' = fold (\<lambda>i. complete i step_success) (dg_ready g) (g\<lparr>dg_ready := []\<rparr>) in
    graph_inv g' \<and> in_flight g' = in_flight g \<and> dg_completed g' = dg_completed g \<union> set (dg_ready g) \<and>
    dg_failed g' = {} \<and> dg_steps g' = dg_steps g"
proof -
  have "take_ready_steps (length (dg_ready g)) g = (dg_ready g, g\<lparr>dg_ready := []\<rparr>)"
    by (simp add: take_ready_steps_def)
  from take_steps_inv [OF assms(1) this]
  have t: "graph_inv (g\<lparr>dg_ready := []\<rparr>)" "in_flight (g\<lparr>dg_ready := []\<rparr>) = in_flight g \<union> set (dg_ready g)"
    "set (dg_ready g) \<inter> in_flight g = {}" "distinct (dg_ready g)" by auto
  show ?thesis
    using complete_all [OF t(1) _ t(4), of "\<lambda>_. step_success"] t(2,3) assms(2)
    by (auto simp: step_success_def Let_def)
qed

lemma parallel_loop_stuck:
  assumes "dg_ready g = []" "\<not> is_complete g"
  shows "parallel_loop m g = None"
proof -
  have same: "h\<lparr>dg_ready := []\<rparr> = h" if "dg_ready h = []" for h :: dependency_graph
    using that by (cases h) simp
  have "parallel_loop k h = Some y \<Longrightarrow> \<not> (dg_ready h = [] \<and> \<not> is_complete h)" for k h y
    by (erule parallel_loop.raw_induct [rotated]) (auto simp: same split: if_splits)
  then show ?thesis using assms by (cases "parallel_loop m g") auto
qed

lemma parallel_loop_result:
  assumes "graph_inv g" "dg_failed g = {}"
  shows "parallel_loop m g = None \<longleftrightarrow> in_flight g \<noteq> {}"
  using assms
proof (induction "card (ids_of g - dg_completed g)" arbitrary: g m rule: less_induct)
  case less
  let ?g = "fold (\<lambda>i. complete i step_success) (dg_ready g) (g\<lparr>dg_ready := []\<rparr>)"
  have fin: "finite (ids_of g - dg_completed g)" by simp
  have fin_iff: "is_complete g \<longleftrightarrow> ids_of g = dg_completed g"
    using complete_counts [OF less.prems(1)] less.prems by (auto simp: graph_inv_def)
  show ?case
  proof (cases "ids_of g = dg_completed g")
    case True
    then have "in_flight g = {}" by (auto simp: in_flight_def)
    then show ?thesis using fin_iff True by (subst parallel_loop.simps) simp
  next
    case not_done: False
    show ?thesis
    proof (cases "dg_ready g = []")
      case True
      have "in_flight g \<noteq> {}" using no_deadlock [OF less.prems(1)] True not_done by auto
      moreover have "parallel_loop m g = None" using parallel_loop_stuck True fin_iff not_done by blast
      ultimately show ?thesis by simp
    next
      case False
      note round = parallel_round [OF less.prems, unfolded Let_def]
      obtain i where i: "i \<in> set (dg_ready g)" using False by (cases "dg_ready g") auto
      then have "i \<in> ids_of g - dg_completed g" using less.prems(1) by (auto simp: graph_inv_def)
      then have "ids_of ?g - dg_completed ?g \<subset> ids_of g - dg_completed g" using round i by auto
      then have "card (ids_of ?g - dg_completed ?g) < card (ids_of g - dg_completed g)" by (rule psubset_card_mono [OF fin])
      from less.hyps [OF this] round have "parallel_loop (max m (length (dg_ready g))) ?g = None \<longleftrightarrow> in_flight g \<noteq> {}"
        by simp
      then show ?thesis using fin_iff not_done by (subst parallel_loop.simps) simp
    qed
  qed
qed

text \<open>C19. The calculation of the largest possible parallelism, on a graph in any state of use.
  While no step has failed it ends exactly when every step that was handed out has
  completed: while a worker holds a step, the simulation loops for ever.  And once every
  step has been run and one of them has failed it loops for ever too.\<close>

theorem max_parallelism_ends_iff_idle:
  assumes "iteration_order order" "\<forall>s \<in> set ss. ds_blocks s = []"
    and "graph_new order ss = Some (Inr g0)" "graph_use g0 es g"
  shows "(dg_failed g = {} \<longrightarrow>
      (max_parallelism g \<noteq> None \<longleftrightarrow> (\<forall>i. HandedOut i \<in> set es \<longrightarrow> CompletedStep i \<in> set es))) \<and>
    (dg_failed g \<noteq> {} \<and> (\<forall>s \<in> set ss. CompletedStep (ds_id s) \<in> set es) \<longrightarrow> max_parallelism g = None)"
proof -
  note new = graph_new_inv [OF assms(1,3,2)]
  note acc = graph_use_accounted [OF assms(1,3,2,4), unfolded accounted_def]
  then have inv: "graph_inv g" by blast
  have idle: "in_flight g = {} \<longleftrightarrow> (\<forall>i. HandedOut i \<in> set es \<longrightarrow> CompletedStep i \<in> set es)"
    using accounted_in_flight [OF graph_use_accounted [OF assms(1,3,2,4)]] by blast
  have "in_flight g = {}" if "dg_steps g = []" using that by (simp add: in_flight_def)
  then have "max_parallelism g \<noteq> None \<longleftrightarrow> in_flight g = {}" if "dg_failed g = {}"
    using parallel_loop_result [OF inv that] by (metis max_parallelism_def option.distinct(1))
  moreover have "max_parallelism g = None"
    if "dg_failed g \<noteq> {}" "\<forall>s \<in> set ss. CompletedStep (ds_id s) \<in> set es"
  proof -
    have all: "ids_of g - dg_completed g = {}" using that(2) acc new by auto
    moreover have "finite (dg_failed g)" using inv by (meson List.finite_set finite_subset graph_inv_def le_sup_iff)
    then have "card (dg_failed g) \<noteq> 0" using that(1) by simp
    ultimately have "\<not> is_complete g" using complete_counts [OF inv] by (simp only: card.empty)
    moreover have "set (dg_ready g) \<subseteq> ids_of g" "dg_completed g \<inter> set (dg_ready g) = {}"
      using inv by (simp_all add: graph_inv_def Int_Un_distrib)
    then have "set (dg_ready g) = {}"
      using all by (metis Diff_eq_empty_iff inf.absorb2 order.trans)
    ultimately have "parallel_loop 0 g = None" by (intro parallel_loop_stuck) simp_all
    moreover have "dg_steps g \<noteq> []" using that(1) inv by (auto simp: graph_inv_def)
    ultimately show ?thesis by (simp add: max_parallelism_def)
  qed
  ultimately show ?thesis using idle by blast
qed

section \<open>Whole executions\<close>

definition all_succeed :: "chain_env \<Rightarrow> bool" where
  "all_succeed env \<longleftrightarrow> (\<forall>s. \<exists>r. ce_run env s = Finished r \<and> sr_success r)"

text \<open>What holds between two batches as long as nothing has failed.\<close>

definition going_well :: "string set \<Rightarrow> dependency_graph \<times> chain_result \<Rightarrow> bool" where
  "going_well flying st \<longleftrightarrow> graph_inv (fst st) \<and> in_flight (fst st) = flying \<and> dg_failed (fst st) = {} \<and>
     cr_success (snd st) \<and> cr_first_error (snd st) = None \<and>
     cr_steps_executed (snd st) = card (dg_completed (fst st)) \<and>
     dom (cr_step_results (snd st)) = dg_completed (fst st)"

lemma get_step_known: "i \<in> ids_of g \<Longrightarrow> \<exists>s. get_step g i = Some s"
  by (metis get_step_def map_of_eq_None_iff not_None_eq set_map)

lemma finish_well:
  assumes "going_well flying st" "i \<in> flying" "sr_success r"
  shows "going_well (flying - {i}) (finish env i s r st) \<and>
    dg_steps (fst (finish env i s r st)) = dg_steps (fst st)"
proof -
  have i: "i \<in> in_flight (fst st)" using assms by (simp add: going_well_def)
  have "finite (dg_completed (fst st))" using assms(1)
    by (metis List.finite_set finite_subset going_well_def graph_inv_def le_sup_iff)
  moreover have "i \<notin> dg_completed (fst st)" using i by (simp add: in_flight_def)
  ultimately have "card (insert i (dg_completed (fst st))) = Suc (card (dg_completed (fst st)))" by simp
  then show ?thesis
    using assms complete_inv [OF _ i] by (simp add: going_well_def finish_def Let_def record_step_def)
qed

lemma join_well:
  assumes "all_succeed env"
  shows "going_well (set is) st \<Longrightarrow> distinct is \<Longrightarrow>
    going_well {} (join_batch env is st) \<and> dg_steps (fst (join_batch env is st)) = dg_steps (fst st)"
proof (induction "is" arbitrary: st)
  case (Cons i "is")
  have "i \<in> ids_of (fst st)" using Cons.prems(1) by (auto simp: going_well_def in_flight_def)
  then obtain s where s: "get_step (fst st) i = Some s" using get_step_known by blast
  obtain r where r: "ce_run env s = Finished r" "sr_success r" using assms by (auto simp: all_succeed_def)
  have "set (i # is) - {i} = set is" using Cons.prems(2) by auto
  then show ?case
    using finish_well [OF Cons.prems(1) _ r(2), of i env s] Cons.IH [of "finish env i s r st"] Cons.prems(2) s r by simp
qed simp

lemma run_well:
  assumes "all_succeed env"
  shows "going_well (set is) st \<Longrightarrow> distinct is \<Longrightarrow>
    \<exists>st'. run_sequentially env stop is st = Some st' \<and> going_well {} st' \<and> dg_steps (fst st') = dg_steps (fst st)"
proof (induction "is" arbitrary: st)
  case (Cons i "is")
  have "i \<in> ids_of (fst st)" using Cons.prems(1) by (auto simp: going_well_def in_flight_def)
  then obtain s where s: "get_step (fst st) i = Some s" using get_step_known by blast
  obtain r where r: "ce_run env s = Finished r" "sr_success r" using assms by (auto simp: all_succeed_def)
  have rest: "set (i # is) - {i} = set is" using Cons.prems(2) by auto
  note one = finish_well [OF Cons.prems(1) _ r(2), of i env s, unfolded rest]
  then have "\<not> has_failed (fst (finish env i s r st))" by (simp add: going_well_def has_failed_def)
  then show ?case
    using one Cons.IH [of "finish env i s r st"] Cons.prems(2) s r by (simp add: Let_def)
qed simp

lemma batch_well:
  assumes "all_succeed env" "iteration_order (ce_arrival env)" "going_well (set ids) st" "distinct ids"
  shows "\<exists>st'. run_batch env config ids st = Some st' \<and> going_well {} st' \<and> dg_steps (fst st') = dg_steps (fst st)"
proof (cases "cc_enable_parallel config \<and> 1 < length ids")
  case True
  have "going_well (set (ce_arrival env ids)) st" "distinct (ce_arrival env ids)"
    using assms(2-4) by (simp_all add: iteration_order_def)
  from join_well [OF assms(1) this] True show ?thesis by (simp add: run_batch_def)
next
  case False
  then show ?thesis using run_well [OF assms(1,3,4)] by (auto simp: run_batch_def)
qed

lemma loop_well:
  assumes "all_succeed env" "iteration_order (ce_arrival env)" "0 < cc_max_parallel config"
  shows "going_well {} st \<Longrightarrow> m \<le> cc_max_parallel config \<Longrightarrow>
    \<exists>m' st'. execute_loop env config m st = Some (m', st') \<and> m' \<le> cc_max_parallel config \<and>
      going_well {} st' \<and> dg_steps (fst st') = dg_steps (fst st) \<and> dg_completed (fst st') = ids_of (fst st')"
  using assms
proof (induction env config m st rule: execute_loop.induct)
  case (1 env config m st)
  note prems = "1.prems"
  have inv: "graph_inv (fst st)" and idle: "in_flight (fst st) = {}" and clean: "dg_failed (fst st) = {}"
    using prems(1) by (simp_all add: going_well_def)
  show ?case
  proof (cases "is_complete (fst st)")
    case True
    then have "dg_completed (fst st) = ids_of (fst st)"
      using complete_counts [OF inv] clean inv by (auto simp: graph_inv_def)
    then show ?thesis using prems True by (subst execute_loop.simps) simp
  next
    case False
    obtain ids g where take: "take_ready_steps (cc_max_parallel config) (fst st) = (ids, g)" by fastforce
    note t = take_steps_inv [OF inv take]
    have "dg_ready (fst st) \<noteq> []"
    proof
      assume "dg_ready (fst st) = []"
      then have "dg_completed (fst st) = ids_of (fst st)" using no_deadlock inv idle by blast
      then show False using False complete_counts [OF inv] clean by simp
    qed
    then have ne: "ids \<noteq> []" "length ids \<le> cc_max_parallel config"
      using take prems(5) by (auto simp: take_ready_steps_def)
    have "going_well (set ids) (g, snd st)" using prems(1) t idle by (simp add: going_well_def)
    moreover have "distinct ids" using t by simp
    ultimately obtain st' where st': "run_batch env config ids (g, snd st) = Some st'" "going_well {} st'"
        "dg_steps (fst st') = dg_steps g"
      using batch_well [OF prems(3,4)] by (metis fst_conv)
    have not_stopped: "\<not> (is_complete (fst st) \<or> cc_stop_on_failure config \<and> has_failed (fst st))"
      using False clean by (simp add: has_failed_def)
    have "max m (length ids) \<le> cc_max_parallel config" using prems(2) ne(2) by simp
    from "1.IH" [OF not_stopped take [symmetric] ne(1) st'(1) st'(2) this prems(3-5)]
    obtain m' st'' where "execute_loop env config (max m (length ids)) st' = Some (m', st'')"
      "m' \<le> cc_max_parallel config" "going_well {} st''" "dg_steps (fst st'') = dg_steps (fst st')"
      "dg_completed (fst st'') = ids_of (fst st'')"
      by blast
    moreover from this(1) have "execute_loop env config m st = Some (m', st'')"
      using not_stopped take ne(1) st'(1) by (subst execute_loop.simps) (simp del: split_paired_Ex, blast)
    moreover have "dg_steps (fst st') = dg_steps (fst st)" using st'(3) t by simp
    ultimately show ?thesis by metis
  qed
qed

text \<open>C16. A chain whose steps all succeed runs to its end: with at least one worker, in whatever
  order the steps of a batch finish, every step is run exactly once, the result is a
  success without an error, and no more than the allowed number of steps run at once.\<close>

theorem successful_chain_runs_every_step:
  assumes "iteration_order order" "\<forall>s \<in> set ss. ds_blocks s = []"
    and "graph_new order ss = Some (Inr g)"
    and "all_succeed env" "iteration_order (ce_arrival env)" "0 < cc_max_parallel config"
  shows "\<exists>c g'. execute_graph env config elapsed g = Some (c, g') \<and>
    dg_completed g' = ds_id ` set ss \<and> dom (cr_step_results c) = ds_id ` set ss \<and>
    cr_steps_executed c = length ss \<and> cr_success c \<and> cr_first_error c = None \<and>
    cr_max_parallel c \<le> cc_max_parallel config"
proof -
  note new = graph_new_inv [OF assms(1,3,2)]
  have "going_well {} (g, new_chain_result)" using new by (simp add: going_well_def new_chain_result_def)
  from loop_well [OF assms(4-6) this, of 0]
  obtain m st where loop: "execute_loop env config 0 (g, new_chain_result) = Some (m, st)" "m \<le> cc_max_parallel config"
    and well: "going_well {} st" and steps: "dg_steps (fst st) = dg_steps g" and all: "dg_completed (fst st) = ids_of (fst st)"
    by auto
  have "card (ids_of g) = length ss"
    using new by (metis distinct_card graph_inv_def length_map valid_steps_def)
  then show ?thesis
    using loop well steps all new by (cases st) (simp add: execute_graph_def going_well_def)
qed

section \<open>The topological order\<close>

text \<open>How many of the dependencies of \<open>i\<close> are not yet in \<open>done\<close>, with multiplicity.\<close>

definition open_deps :: "(string \<times> dependent_step) list \<Rightarrow> string set \<Rightarrow> string \<Rightarrow> nat" where
  "open_deps steps placed i = length (filter (\<lambda>d. d \<notin> placed) (deps_of steps i))"

lemma open_deps_insert:
  "x \<notin> placed \<Longrightarrow> open_deps steps placed i = open_deps steps (insert x placed) i + count_list (deps_of steps i) x"
proof -
  assume x: "x \<notin> placed"
  have "length (filter (\<lambda>d. d \<notin> placed) ds) = length (filter (\<lambda>d. d \<notin> insert x placed) ds) + count_list ds x" for ds
    by (induction ds) (use x in auto)
  then show ?thesis by (simp add: open_deps_def)
qed

lemma open_deps_0: "open_deps steps placed i = 0 \<longleftrightarrow> set (deps_of steps i) \<subseteq> placed"
  by (auto simp: open_deps_def filter_empty_conv)

lemma decrement_spec:
  assumes "set bs \<subseteq> I" "\<forall>i \<in> I. map_of degs i = Some (f i + count_list bs i)"
    and "distinct queue" "set queue \<subseteq> I" "set queue \<inter> placed = {}"
    and "\<forall>i \<in> I. i \<in> placed \<union> set queue \<longleftrightarrow> f i + count_list bs i = 0"
  shows "\<exists>degs' queue'. decrement bs degs queue = Some (degs', queue') \<and> (\<forall>i \<in> I. map_of degs' i = Some (f i)) \<and>
    distinct queue' \<and> set queue' \<subseteq> I \<and> set queue' \<inter> placed = {} \<and> (\<forall>i \<in> I. i \<in> placed \<union> set queue' \<longleftrightarrow> f i = 0)"
  using assms
proof (induction bs arbitrary: degs queue)
  case (Cons b bs)
  have b: "b \<in> I" "map_of degs b = Some (Suc (f b + count_list bs b))" "b \<notin> placed \<union> set queue"
    using Cons.prems(1,2,6) by auto
  let ?degs = "AList.update b (f b + count_list bs b) degs"
  let ?queue = "if f b + count_list bs b = 0 then queue @ [b] else queue"
  have 1: "\<forall>i \<in> I. map_of ?degs i = Some (f i + count_list bs i)"
    using Cons.prems(2) by (auto simp: AList.update_conv')
  have 2: "distinct ?queue" "set ?queue \<subseteq> I" "set ?queue \<inter> placed = {}" "set bs \<subseteq> I"
    using Cons.prems(1,3,4,5) b by auto
  have 3: "\<forall>i \<in> I. i \<in> placed \<union> set ?queue \<longleftrightarrow> f i + count_list bs i = 0"
  proof
    fix i assume i: "i \<in> I"
    have "i \<in> placed \<union> set queue \<longleftrightarrow> f i + count_list (b # bs) i = 0" using Cons.prems(6) i by (rule bspec)
    then show "i \<in> placed \<union> set ?queue \<longleftrightarrow> f i + count_list bs i = 0" using b(3) by (cases "i = b") auto
  qed
  have "decrement (b # bs) degs queue = decrement bs ?degs ?queue" using b(2) by simp
  then show ?case using Cons.IH [OF 2(4) 1 2(1-3) 3] by simp
qed auto

definition topological :: "(string \<times> dependent_step) list \<Rightarrow> string list \<Rightarrow> bool" where
  "topological steps xs \<longleftrightarrow> (\<forall>ys x zs. xs = ys @ x # zs \<longrightarrow> set (deps_of steps x) \<subseteq> set ys)"

lemma topological_Nil [simp]: "topological steps []"
  by (simp add: topological_def)

lemma topological_snoc: "topological steps xs \<Longrightarrow> set (deps_of steps x) \<subseteq> set xs \<Longrightarrow> topological steps (xs @ [x])"
  unfolding topological_def
proof (intro allI impI)
  fix ys y zs
  assume pre: "\<forall>ys x zs. xs = ys @ x # zs \<longrightarrow> set (deps_of steps x) \<subseteq> set ys"
    "set (deps_of steps x) \<subseteq> set xs" and eq: "xs @ [x] = ys @ y # zs"
  show "set (deps_of steps y) \<subseteq> set ys"
  proof (cases zs rule: rev_cases)
    case Nil
    then show ?thesis using eq pre(2) by simp
  next
    case (snoc zs' z)
    then have "xs = ys @ y # zs'" using eq by simp
    then show ?thesis using pre(1) by blast
  qed
qed

lemma kahn_loop_spec:
  "valid_steps steps \<Longrightarrow> distinct (result @ queue) \<Longrightarrow> set (result @ queue) \<subseteq> set (map fst steps) \<Longrightarrow>
    \<forall>i \<in> set (map fst steps). map_of degs i = Some (open_deps steps (set result) i) \<Longrightarrow>
    \<forall>i \<in> set (map fst steps). i \<in> set (result @ queue) \<longleftrightarrow> open_deps steps (set result) i = 0 \<Longrightarrow>
    topological steps result \<Longrightarrow>
    \<exists>xs. kahn_loop steps result degs queue = Some xs \<and> distinct xs \<and> set xs = set (map fst steps) \<and> topological steps xs"
proof (induction steps result degs queue rule: kahn_loop.induct)
  case (1 steps result degs)
  have "set result = set (map fst steps)"
  proof (rule ccontr)
    assume "set result \<noteq> set (map fst steps)"
    then obtain y where y: "y \<in> set (map fst steps) - set result" using "1.prems"(3) by auto
    have wf: "wf (dep_rel steps)" "closed_steps steps" using "1.prems"(1) by (simp_all add: valid_steps_def)
    from wfE_min [OF wf(1) y] obtain i where i: "i \<in> set (map fst steps) - set result"
      and least: "\<And>d. (d, i) \<in> dep_rel steps \<Longrightarrow> d \<notin> set (map fst steps) - set result" by blast
    have "open_deps steps (set result) i \<noteq> 0" using "1.prems"(5) i by auto
    then obtain d where d: "d \<in> set (deps_of steps i)" "d \<notin> set result" unfolding open_deps_0 by auto
    then have "d \<in> set (map fst steps)" using wf(2) unfolding closed_steps_def by blast
    then show False using least [of d] d by (simp add: dep_rel_def)
  qed
  then show ?case using "1.prems" by simp
next
  case (2 steps result degs x queue)
  note prems = "2.prems"
  let ?I = "set (map fst steps)"
  have x: "x \<in> ?I" "x \<notin> set result" using prems(2,3) by auto
  obtain s where s: "map_of steps x = Some s" using x(1) by (metis map_of_eq_None_iff not_None_eq set_map)
  have "blocks_of steps x = ds_blocks s" by (simp add: blocks_of_def s)
  then have count: "count_list (ds_blocks s) i = count_list (deps_of steps i) x" for i
    using prems(1) x(1) unfolding valid_steps_def by metis
  have inside: "set (ds_blocks s) \<subseteq> ?I"
  proof
    fix i assume "i \<in> set (ds_blocks s)"
    then have "deps_of steps i \<noteq> []" using count [of i] by (auto simp: count_list_0_iff)
    then show "i \<in> ?I" using deps_of_foreign [of i steps] by blast
  qed
  let ?f = "open_deps steps (set (result @ [x]))"
  have split: "open_deps steps (set result) i = ?f i + count_list (ds_blocks s) i" for i
    using open_deps_insert [OF x(2), of steps i] count by simp
  have start: "\<forall>i \<in> ?I. map_of degs i = Some (?f i + count_list (ds_blocks s) i)"
      "distinct queue" "set queue \<subseteq> ?I" "set queue \<inter> set (result @ [x]) = {}"
      "\<forall>i \<in> ?I. i \<in> set (result @ [x]) \<union> set queue \<longleftrightarrow> ?f i + count_list (ds_blocks s) i = 0"
    using prems(2-5) by (auto simp: split)
  from decrement_spec [OF inside start]
  obtain degs' queue' where dec: "decrement (ds_blocks s) degs queue = Some (degs', queue')"
    and post: "\<forall>i \<in> ?I. map_of degs' i = Some (?f i)" "distinct queue'" "set queue' \<subseteq> ?I"
      "set queue' \<inter> set (result @ [x]) = {}" "\<forall>i \<in> ?I. i \<in> set (result @ [x]) \<union> set queue' \<longleftrightarrow> ?f i = 0"
    by blast
  have "set (deps_of steps x) \<subseteq> set result"
    using prems(5) x(1) open_deps_0 [of steps "set result" x] by auto
  then have topo: "topological steps (result @ [x])" using topological_snoc prems(6) by blast
  have "distinct ((result @ [x]) @ queue')" "set ((result @ [x]) @ queue') \<subseteq> ?I"
    using prems(2,3) post(2-4) by auto
  moreover have "\<forall>i \<in> ?I. i \<in> set ((result @ [x]) @ queue') \<longleftrightarrow> ?f i = 0" using post(5) by simp
  ultimately show ?case using "2.IH"(2) [OF s dec refl prems(1) _ _ post(1) _ topo] s dec by simp
qed

text \<open>C17. The execution order that a graph reports is complete and sorted: every step is in it
  once and stands after everything it depends on, whatever the order of iteration; the
  subtraction in its loop never goes below zero.  This is for steps whose \<open>blocks\<close> are
  computed by the constructor, none of them being read with \<open>blocks\<close> of its own; the lemma
  \<open>foreign_blocks_underflow\<close> below shows what happens otherwise.\<close>

theorem execution_order_sorted:
  assumes "iteration_order order" "\<forall>s \<in> set ss. ds_blocks s = []"
    and "graph_new order ss = Some (Inr g0)" "graph_run g0 g"
  shows "\<exists>xs. execution_order order g = Some xs \<and> distinct xs \<and> set xs = ds_id ` set ss \<and>
    (\<forall>s \<in> set ss. \<forall>ys zs. xs = ys @ ds_id s # zs \<longrightarrow> set (ds_depends_on s) \<subseteq> set ys)"
proof -
  note new = graph_new_inv [OF assms(1,3,2)]
  have inv: "graph_inv g" and steps: "dg_steps g = dg_steps g0"
    using graph_run_inv [OF assms(1,3,2,4)] by auto
  let ?steps = "dg_steps g" let ?ids = "order (map fst ?steps)"
  have valid: "valid_steps ?steps" using inv by (simp add: graph_inv_def)
  have ids: "set ?ids = ids_of g" "distinct ?ids"
    using assms(1) valid by (simp_all add: iteration_order_def valid_steps_def)
  have start: "execution_order order g =
      kahn_loop ?steps [] (map (\<lambda>i. (i, length (deps_in g i))) ?ids) (filter (\<lambda>i. deps_in g i = []) ?ids)"
    by (simp add: execution_order_def Let_def deps_of_def)
  have "\<exists>xs. execution_order order g = Some xs \<and> distinct xs \<and> set xs = ids_of g \<and> topological ?steps xs"
    unfolding start
  proof (rule kahn_loop_spec [OF valid])
    show "distinct ([] @ filter (\<lambda>i. deps_in g i = []) ?ids)" using ids by simp
    show "set ([] @ filter (\<lambda>i. deps_in g i = []) ?ids) \<subseteq> ids_of g" using ids by auto
    show "\<forall>i \<in> ids_of g. map_of (map (\<lambda>i. (i, length (deps_in g i))) ?ids) i = Some (open_deps ?steps (set []) i)"
      using ids by (auto simp: map_of_map_restrict comp_def open_deps_def)
    show "\<forall>i \<in> ids_of g. i \<in> set ([] @ filter (\<lambda>i. deps_in g i = []) ?ids) \<longleftrightarrow> open_deps ?steps (set []) i = 0"
      using ids by (auto simp: open_deps_def)
  qed simp
  then obtain xs where xs: "execution_order order g = Some xs" "distinct xs" "set xs = ids_of g" "topological ?steps xs"
    by blast
  have "set (ds_depends_on s) \<subseteq> set ys" if s: "s \<in> set ss" "xs = ys @ ds_id s # zs" for s ys zs
  proof -
    from new s(1) obtain bs where "get_step g0 (ds_id s) = Some (s\<lparr>ds_blocks := bs\<rparr>)" by blast
    then have "deps_in g (ds_id s) = ds_depends_on s" by (simp add: steps deps_of_def get_step_def)
    then show ?thesis using xs(4) s(2) unfolding topological_def by metis
  qed
  then show ?thesis using xs new steps by auto
qed

section \<open>Blocks that are not computed\<close>

text \<open>
  A step that is read with \<open>blocks\<close> of its own, and that nothing depends on, keeps them: the
  subtraction then goes below zero.
\<close>

definition foreign_blocks :: "dependent_step list" where
  "foreign_blocks = [(new_step ''z'' JNull)\<lparr>ds_blocks := [''y'']\<rparr>, new_step ''x'' JNull,
     depends_on ''x'' (new_step ''y'' JNull)]"

lemma foreign_blocks_underflow:
  "\<exists>g. graph_new (\<lambda>ids. ids) foreign_blocks = Some (Inr g) \<and> execution_order (\<lambda>ids. ids) g = None"
proof -
  have "case graph_new (\<lambda>ids. ids) foreign_blocks of Some (Inr g) \<Rightarrow> execution_order (\<lambda>ids. ids) g = None | _ \<Rightarrow> False"
    by code_simp
  then show ?thesis by (auto split: option.splits sum.splits)
qed

section \<open>Witnesses\<close>

lemma iteration_order_id [simp]: "iteration_order (\<lambda>ids. ids)" "iteration_order rev"
  by (simp_all add: iteration_order_def)

definition sample_steps :: "dependent_step list" where
  "sample_steps = [new_step ''a'' JNull, new_step ''b'' JNull,
     depends_on_all [''a'', ''b''] (new_step ''c'' JNull)]"

definition sample_graph :: dependency_graph where
  "sample_graph = projr (the (graph_new (\<lambda>ids. ids) sample_steps))"

lemma sample_steps_plain: "\<forall>s \<in> set sample_steps. ds_blocks s = []"
  by (simp add: sample_steps_def new_step_def depends_on_all_def)

lemma sample_graph_new: "graph_new (\<lambda>ids. ids) sample_steps = Some (Inr sample_graph)"
proof -
  have "case graph_new (\<lambda>ids. ids) sample_steps of Some (Inr g) \<Rightarrow> True | _ \<Rightarrow> False" by code_simp
  then show ?thesis by (auto simp: sample_graph_def split: option.splits sum.splits)
qed

lemma sample_ids: "ds_id ` set sample_steps = {''a'', ''b'', ''c''}"
  by (auto simp: sample_steps_def new_step_def depends_on_all_def)

lemmas sample_new = iteration_order_id(1) sample_steps_plain sample_graph_new

theorem graph_accepts_exactly_acyclic_witness: "acceptable sample_steps"
  using graph_accepts_exactly_acyclic [OF iteration_order_id(1), of sample_steps] sample_graph_new by blast

text \<open>Two steps in work; then one of them has failed and the other succeeded.\<close>

definition busy_graph :: dependency_graph where
  "busy_graph = snd (take_ready_steps 2 sample_graph)"

definition hurt_graph :: dependency_graph where
  "hurt_graph = complete ''b'' step_success (complete ''a'' (step_failure ''boom'') busy_graph)"

abbreviation busy_events :: "graph_event list" where
  "busy_events \<equiv> [HandedOut ''a'', HandedOut ''b'']"

abbreviation hurt_events :: "graph_event list" where
  "hurt_events \<equiv> busy_events @ [CompletedStep ''a'', CompletedStep ''b'']"

lemma busy_use: "graph_use sample_graph busy_events busy_graph"
proof -
  have "take_ready_steps 2 sample_graph = ([''a'', ''b''], busy_graph)"
    unfolding busy_graph_def by (rule prod_eqI) (code_simp, simp)
  from use_take_many [OF use_nothing this] show ?thesis by simp
qed

lemma hurt_use: "graph_use sample_graph hurt_events hurt_graph"
proof -
  have "graph_use sample_graph (busy_events @ [CompletedStep ''a'']) (complete ''a'' (step_failure ''boom'') busy_graph)"
    by (rule use_complete [OF busy_use]) simp_all
  from use_complete [OF this, of "''b''" step_success] show ?thesis by (simp add: hurt_graph_def)
qed

lemma busy_run: "graph_run sample_graph busy_graph"
  using busy_use by blast

lemma busy_failed: "dg_failed busy_graph = {}" "dg_completed busy_graph = {}"
  by code_simp+

text \<open>The third step is handed out only now, and fails to reach the end of the chain.\<close>

definition last_graph :: dependency_graph where
  "last_graph = complete ''c'' step_success (snd (take_ready_step hurt_graph))"

abbreviation last_events :: "graph_event list" where
  "last_events \<equiv> hurt_events @ [HandedOut ''c'', CompletedStep ''c'']"

lemma last_use: "graph_use sample_graph last_events last_graph"
proof -
  have "map_option ds_id (fst (take_ready_step hurt_graph)) = Some ''c''" by code_simp
  then obtain s where s: "fst (take_ready_step hurt_graph) = Some s" "ds_id s = ''c''" by auto
  have "graph_use sample_graph (hurt_events @ (case Some s of None \<Rightarrow> [] | Some s \<Rightarrow> [HandedOut (ds_id s)]))
      (snd (take_ready_step hurt_graph))"
    by (rule use_take_one [OF hurt_use]) (metis s(1) surjective_pairing)
  then have "graph_use sample_graph (hurt_events @ [HandedOut ''c'']) (snd (take_ready_step hurt_graph))"
    using s(2) by simp
  from use_complete [OF this, of "''c''" step_success] show ?thesis by (simp add: last_graph_def)
qed

theorem steps_wait_for_dependencies_witness:
  "dg_completed last_graph = {''a'', ''b'', ''c''} \<and> CompletedStep ` set [''a'', ''b''] \<subseteq> set hurt_events"
proof -
  let ?c = "depends_on_all [''a'', ''b''] (new_step ''c'' JNull)"
  note w = steps_wait_for_dependencies [OF sample_new last_use]
  have c: "?c \<in> set sample_steps" "ds_id ?c = ''c''" "ds_depends_on ?c = [''a'', ''b'']"
    by (simp_all add: sample_steps_def depends_on_all_def new_step_def)
  have "last_events = hurt_events @ HandedOut (ds_id ?c) # [CompletedStep ''c'']" using c(2) by simp
  then have "CompletedStep ` set (ds_depends_on ?c) \<subseteq> set hurt_events" using w c(1) by blast
  moreover have "dg_completed last_graph = {''a'', ''b'', ''c''}" using w by auto
  ultimately show ?thesis using c(3) by simp
qed

theorem failed_steps_counted_twice_witness:
  "is_complete hurt_graph \<and> dg_ready hurt_graph = [''c''] \<and> ''c'' \<notin> dg_completed hurt_graph"
proof -
  have "graph_run sample_graph hurt_graph" using hurt_use by blast
  from failed_steps_counted_twice [OF sample_new this]
  have "is_complete hurt_graph"
    by (simp add: hurt_graph_def busy_failed sample_ids step_failure_def step_success_def)
  moreover have "dg_ready hurt_graph = [''c'']" by code_simp
  ultimately show ?thesis by (simp add: hurt_graph_def busy_failed)
qed

theorem max_parallelism_ends_iff_idle_witness:
  "max_parallelism busy_graph = None \<and> max_parallelism sample_graph \<noteq> None \<and> max_parallelism last_graph = None"
proof (intro conjI)
  show "max_parallelism busy_graph = None"
    using conjunct1 [OF max_parallelism_ends_iff_idle [OF sample_new busy_use], rule_format, OF busy_failed(1)]
    by (cases "max_parallelism busy_graph") auto
  have "dg_failed sample_graph = {}" by code_simp
  then show "max_parallelism sample_graph \<noteq> None"
    using max_parallelism_ends_iff_idle [OF sample_new use_nothing] by simp
  have "dg_failed last_graph \<noteq> {}" by code_simp
  moreover have "\<forall>s \<in> set sample_steps. CompletedStep (ds_id s) \<in> set last_events"
    by (simp add: sample_steps_def depends_on_all_def new_step_def)
  ultimately show "max_parallelism last_graph = None"
    using max_parallelism_ends_iff_idle [OF sample_new last_use] by blast
qed

definition sample_chain_env :: chain_env where
  "sample_chain_env = \<lparr>ce_run = (\<lambda>s. Finished step_success), ce_elapsed = (\<lambda>s. 1), ce_arrival = rev\<rparr>"

theorem successful_chain_runs_every_step_witness:
  "\<exists>c g'. execute_graph sample_chain_env default_chain_config 5 sample_graph = Some (c, g') \<and>
    cr_steps_executed c = 3 \<and> cr_success c \<and> dg_completed g' = {''a'', ''b'', ''c''}"
proof -
  have "all_succeed sample_chain_env" "iteration_order (ce_arrival sample_chain_env)"
    "0 < cc_max_parallel default_chain_config"
    by (simp_all add: all_succeed_def sample_chain_env_def default_chain_config_def step_success_def)
  from successful_chain_runs_every_step [OF sample_new this, of 5]
  show ?thesis unfolding sample_ids by (auto simp: sample_steps_def)
qed

theorem execution_order_sorted_witness:
  "\<exists>xs. execution_order (\<lambda>ids. ids) busy_graph = Some xs \<and> set xs = {''a'', ''b'', ''c''}"
proof -
  from execution_order_sorted [OF sample_new busy_run]
  obtain xs where "execution_order (\<lambda>ids. ids) busy_graph = Some xs" "set xs = ds_id ` set sample_steps"
    by (elim exE conjE)
  then show ?thesis unfolding sample_ids by (intro exI conjI)
qed

end
