(* ===== verification/Robots.thy ===== *)
theory Robots
  imports Rust_Str
begin

text \<open>
  The robots.txt parser (\<open>spider/src/packages/robotparser/parser.rs\<close>, the default build without
  the \<open>regex\<close> feature) and its use by the crawler (\<open>is_allowed_robots\<close> and
  \<open>configure_robots_parser\<close> in \<open>spider/src/website.rs\<close>).

  Arguments (\<open>robots_deps\<close>): percent decoding (a third-party crate), Unicode lower-casing (the
  tables of the standard library; \<open>unicode_ok\<close> says that it is ASCII lower-casing on ASCII),
  and the delay that a floating-point number stands for, \<open>None\<close> when the text is no finite
  number that is not negative.
\<close>

type_synonym duration = "nat \<times> nat"

record robots_deps =
  rd_percent_decode :: "bytes \<Rightarrow> bytes"
  rd_to_lowercase :: "string \<Rightarrow> string"
  rd_float_delay :: "string \<Rightarrow> duration option"

definition is_ascii :: "string \<Rightarrow> bool" where
  "is_ascii s \<longleftrightarrow> list_all (\<lambda>c. (of_char c :: nat) < 128) s"

definition unicode_ok :: "robots_deps \<Rightarrow> bool" where
  "unicode_ok d \<longleftrightarrow> (\<forall>s. is_ascii s \<longrightarrow> rd_to_lowercase d s = to_ascii_lowercase s)"

section \<open>Rules and entries\<close>

record rule_line =
  rl_path :: string
  rl_allowance :: bool

definition new_rule_line :: "string \<Rightarrow> bool \<Rightarrow> rule_line" where
  "new_rule_line path allowance =
     \<lparr>rl_path = path, rl_allowance = (path = [] \<and> \<not> allowance \<or> allowance)\<rparr>"

definition ends_with :: "char \<Rightarrow> string \<Rightarrow> bool" where
  "ends_with c s \<longleftrightarrow> s \<noteq> [] \<and> last s = c"

definition rule_applies_to :: "rule_line \<Rightarrow> string \<Rightarrow> bool" where
  "rule_applies_to r pathname \<longleftrightarrow>
     (if rl_path r = ''*''
         \<or> rl_path r = ''/'' \<and> pathname = ''/''
         \<or> ends_with (CHR ''/'') (rl_path r) \<and> prefix (rl_path r) pathname
      then True
      else ends_with (CHR ''*'') (rl_path r) \<and> prefix (butlast (rl_path r)) pathname
           \<or> pathname = rl_path r)"

record request_rate =
  rr_requests :: nat
  rr_seconds :: nat

record robots_entry =
  re_useragents :: "string list"
  re_rulelines :: "rule_line list"
  re_crawl_delay :: "duration option"
  re_req_rate :: "request_rate option"

definition new_entry :: robots_entry where
  "new_entry = \<lparr>re_useragents = [], re_rulelines = [], re_crawl_delay = None, re_req_rate = None\<rparr>"

definition prepare_useragent :: "robots_deps \<Rightarrow> string \<Rightarrow> string" where
  "prepare_useragent d useragent =
     (let base = hd (split_on (CHR ''/'') useragent)
      in if is_ascii base then to_ascii_lowercase base else rd_to_lowercase d base)"

definition applies_to_prepared :: "robots_entry \<Rightarrow> string \<Rightarrow> bool" where
  "applies_to_prepared e ua_lower \<longleftrightarrow>
     list_ex (\<lambda>agent. agent = ''*'' \<or> str_contains ua_lower agent) (re_useragents e)"

fun rules_allow :: "rule_line list \<Rightarrow> string \<Rightarrow> bool" where
  "rules_allow [] filename = True"
| "rules_allow (line # lines) filename =
     (if rule_applies_to line filename then rl_allowance line else rules_allow lines filename)"

definition allowance :: "robots_entry \<Rightarrow> string \<Rightarrow> bool" where
  "allowance e filename = rules_allow (re_rulelines e) filename"

definition push_useragent :: "robots_deps \<Rightarrow> string \<Rightarrow> robots_entry \<Rightarrow> robots_entry" where
  "push_useragent d useragent e = e\<lparr>re_useragents := re_useragents e @ [rd_to_lowercase d useragent]\<rparr>"

definition push_ruleline :: "rule_line \<Rightarrow> robots_entry \<Rightarrow> robots_entry" where
  "push_ruleline r e = e\<lparr>re_rulelines := re_rulelines e @ [r]\<rparr>"

definition has_useragent :: "robots_entry \<Rightarrow> bool" where
  "has_useragent e \<longleftrightarrow> ''*'' \<in> set (re_useragents e)"

definition entry_is_empty :: "robots_entry \<Rightarrow> bool" where
  "entry_is_empty e \<longleftrightarrow> re_useragents e = [] \<and> re_rulelines e = []"

definition set_crawl_delay :: "duration \<Rightarrow> robots_entry \<Rightarrow> robots_entry" where
  "set_crawl_delay delay e = e\<lparr>re_crawl_delay := Some delay\<rparr>"

definition set_req_rate :: "request_rate \<Rightarrow> robots_entry \<Rightarrow> robots_entry" where
  "set_req_rate r e = e\<lparr>re_req_rate := Some r\<rparr>"

definition extract_path :: "string \<Rightarrow> string" where
  "extract_path url =
     (if url \<noteq> [] then
        (let skip = (if prefix ''https://'' url then 8 else if prefix ''http://'' url then 7 else 0)
         in case find_char (CHR ''/'') (drop skip url) of
              Some path_start \<Rightarrow>
                (let path_offset = skip + path_start
                 in case find_char (CHR ''?'') (drop path_offset url) of
                      Some query_pos \<Rightarrow> take query_pos (drop path_offset url)
                    | None \<Rightarrow> drop path_offset url)
            | None \<Rightarrow> ''/'')
      else ''/'')"

section \<open>The parser\<close>

record robots_parser =
  rp_entries :: "robots_entry list"
  rp_default_entry :: robots_entry
  rp_disallow_all :: bool
  rp_allow_all :: bool
  rp_last_checked :: int

definition new_parser :: robots_parser where
  "new_parser = \<lparr>rp_entries = [], rp_default_entry = new_entry, rp_disallow_all = False,
     rp_allow_all = False, rp_last_checked = 0\<rparr>"

definition add_entry :: "robots_entry \<Rightarrow> robots_parser \<Rightarrow> robots_parser" where
  "add_entry e p =
     (if has_useragent e then
        (if entry_is_empty (rp_default_entry p) then p\<lparr>rp_default_entry := e\<rparr> else p)
      else p\<lparr>rp_entries := rp_entries p @ [e]\<rparr>)"

text \<open>
  The state of the loop over the lines: the parser, the number that says whether a
  \<open>User-agent\<close> line (1) or a rule (2) of the entry was seen, and the entry.
\<close>

type_synonym line_state = "robots_parser \<times> nat \<times> robots_entry"

definition at_empty_line :: "line_state \<Rightarrow> line_state" where
  "at_empty_line st =
     (case st of (p, state, e) \<Rightarrow>
        if state = 1 then (p, 0, new_entry)
        else if state = 2 then (add_entry e p, 0, new_entry)
        else st)"

text \<open>A line without comment and surrounding space, split at its first colon.\<close>

definition line_parts :: "robots_deps \<Rightarrow> string \<Rightarrow> (string \<times> string) option" where
  "line_parts d line =
     (let ln = trim (case find_char (CHR ''#'') line of Some i \<Rightarrow> take i line | None \<Rightarrow> line)
      in if ln = [] then None
         else case find_char (CHR '':'') ln of
                None \<Rightarrow> None
              | Some colon \<Rightarrow>
                  (let part1_raw = trim (drop (colon + 1) ln)
                   in Some (trim (take colon ln),
                        case str_from_utf8 (rd_percent_decode d (str_bytes part1_raw)) of
                          Some s \<Rightarrow> s | None \<Rightarrow> [])))"

definition parse_rate :: "string \<Rightarrow> request_rate option" where
  "parse_rate part1 =
     (case map (parse_unsigned 64) (split_on (CHR ''/'') part1) of
        [Some requests, Some seconds] \<Rightarrow> Some \<lparr>rr_requests = requests, rr_seconds = seconds\<rparr>
      | _ \<Rightarrow> None)"

definition parse_directive :: "robots_deps \<Rightarrow> string \<Rightarrow> string \<Rightarrow> line_state \<Rightarrow> line_state" where
  "parse_directive d part0 part1 st =
     (case st of (p, state, e) \<Rightarrow>
        if eq_ignore_ascii_case part0 ''user-agent'' then
          (let (p, e) = (if state = 2 then (add_entry e p, new_entry) else (p, e))
           in (p, 1, push_useragent d part1 e))
        else if eq_ignore_ascii_case part0 ''disallow'' then
          (if state \<noteq> 0 then (p, 2, push_ruleline (new_rule_line part1 False) e) else st)
        else if eq_ignore_ascii_case part0 ''allow'' then
          (if state \<noteq> 0 then (p, 2, push_ruleline (new_rule_line part1 True) e) else st)
        else if eq_ignore_ascii_case part0 ''crawl-delay'' then
          (if state \<noteq> 0 then
             (p, 2, case rd_float_delay d part1 of None \<Rightarrow> e | Some delay \<Rightarrow> set_crawl_delay delay e)
           else st)
        else if eq_ignore_ascii_case part0 ''sitemap'' then
          (if state \<noteq> 0 then (p, 2, e) else st)
        else if eq_ignore_ascii_case part0 ''request-rate'' \<and> state \<noteq> 0 then
          (p, 2, case parse_rate part1 of None \<Rightarrow> e | Some r \<Rightarrow> set_req_rate r e)
        else st)"

definition parse_line :: "robots_deps \<Rightarrow> string \<Rightarrow> line_state \<Rightarrow> line_state" where
  "parse_line d line st =
     (let st = (if line = [] then at_empty_line st else st)
      in case line_parts d line of
           None \<Rightarrow> st
         | Some (part0, part1) \<Rightarrow> parse_directive d part0 part1 st)"

definition parse_lines :: "robots_deps \<Rightarrow> string list \<Rightarrow> robots_parser \<Rightarrow> robots_parser" where
  "parse_lines d lines p =
     (case fold (parse_line d) lines (p, 0, new_entry) of
        (p, state, e) \<Rightarrow> if state = 2 then add_entry e p else p)"

text \<open>The lines of a text: a last line that is empty does not count.\<close>

definition text_lines :: "string \<Rightarrow> string list" where
  "text_lines text =
     (let parts = split_on (CHR 0x0A) text
      in if last parts = [] then butlast parts else parts)"

definition parse_str :: "robots_deps \<Rightarrow> string \<Rightarrow> robots_parser \<Rightarrow> robots_parser" where
  "parse_str d text p = (if text = [] then p else parse_lines d (text_lines text) p)"

section \<open>Reading\<close>

text \<open>
  \<open>secs\<close> is the time since the epoch, \<open>None\<close> when the clock is before it.  \<open>RobotsFailed\<close> is a
  request that gave no response, or a target that does not parse; a body is the list of
  its chunks, \<open>None\<close> for one that failed.
\<close>

definition modified :: "nat option \<Rightarrow> robots_parser \<Rightarrow> robots_parser" where
  "modified secs p = (case secs of None \<Rightarrow> p | Some n \<Rightarrow> p\<lparr>rp_last_checked := int n\<rparr>)"

datatype robots_answer = RobotsFailed | RobotsResponse nat "bytes option list"

fun collect_chunks :: "bytes option list \<Rightarrow> bytes option" where
  "collect_chunks [] = Some []"
| "collect_chunks (None # cs) = None"
| "collect_chunks (Some b # cs) = map_option ((@) b) (collect_chunks cs)"

definition read_with_executor ::
  "robots_deps \<Rightarrow> nat option \<Rightarrow> robots_answer \<Rightarrow> robots_parser \<Rightarrow> robots_parser" where
  "read_with_executor d secs answer p =
     (let p = modified secs p
      in case answer of
           RobotsFailed \<Rightarrow> p
         | RobotsResponse status chunks \<Rightarrow>
             if status = 401 \<or> status = 403 then p\<lparr>rp_disallow_all := True\<rparr>
             else if 400 \<le> status \<and> status < 500 then p\<lparr>rp_allow_all := True\<rparr>
             else if status = 200 then
               (case collect_chunks chunks of
                  None \<Rightarrow> p\<lparr>rp_allow_all := True\<rparr>
                | Some b \<Rightarrow>
                    (case str_from_utf8 b of
                       Some text \<Rightarrow> parse_str d text p
                     | None \<Rightarrow> p\<lparr>rp_allow_all := True\<rparr>))
             else p)"

text \<open>
  The same read by a plain client; the text of a body is its decoded text, \<open>None\<close> when the body
  could not be read.
\<close>

datatype client_answer = ClientFailed | ClientResponse nat "string option"

definition from_response :: "robots_deps \<Rightarrow> string option \<Rightarrow> robots_parser \<Rightarrow> robots_parser" where
  "from_response d text p =
     (case text of Some buf \<Rightarrow> parse_str d buf p | None \<Rightarrow> p\<lparr>rp_allow_all := True\<rparr>)"

definition read_with_client ::
  "robots_deps \<Rightarrow> nat option \<Rightarrow> client_answer \<Rightarrow> robots_parser \<Rightarrow> robots_parser" where
  "read_with_client d secs answer p =
     (let p = modified secs p
      in case answer of
           ClientFailed \<Rightarrow> p
         | ClientResponse status text \<Rightarrow>
             if status = 401 \<or> status = 403 then p\<lparr>rp_disallow_all := True\<rparr>
             else if 400 \<le> status \<and> status < 500 then p\<lparr>rp_allow_all := True\<rparr>
             else if status = 200 then from_response d text p
             else p)"

text \<open>
  What one call of \<open>configure_robots_parser\<close> gets to read: nothing without a host or, in a
  canonical run, without an executor.
\<close>

datatype robots_read = Unread | CanonicalRead robots_answer | ClientRead client_answer

definition read_robots :: "robots_deps \<Rightarrow> nat option \<Rightarrow> robots_read \<Rightarrow> robots_parser \<Rightarrow> robots_parser" where
  "read_robots d secs r p =
     (case r of
        Unread \<Rightarrow> p
      | CanonicalRead answer \<Rightarrow> read_with_executor d secs answer p
      | ClientRead answer \<Rightarrow> read_with_client d secs answer p)"

section \<open>Decisions\<close>

fun first_entry :: "robots_entry list \<Rightarrow> string \<Rightarrow> robots_entry option" where
  "first_entry [] ua_lower = None"
| "first_entry (e # es) ua_lower =
     (if applies_to_prepared e ua_lower then Some e else first_entry es ua_lower)"

definition entry_allowed :: "robots_deps \<Rightarrow> robots_parser \<Rightarrow> string \<Rightarrow> string \<Rightarrow> bool" where
  "entry_allowed d p useragent url_str =
     (case first_entry (rp_entries p) (prepare_useragent d useragent) of
        Some e \<Rightarrow> allowance e url_str
      | None \<Rightarrow> False)"

definition can_fetch :: "robots_deps \<Rightarrow> robots_parser \<Rightarrow> string \<Rightarrow> string \<Rightarrow> bool" where
  "can_fetch d p useragent url =
     (if rp_allow_all p then True
      else if rp_last_checked p = 0 \<or> rp_disallow_all p then False
      else
        (let url_str = extract_path url
         in if entry_allowed d p useragent url_str then True
            else if \<not> entry_is_empty (rp_default_entry p) then allowance (rp_default_entry p) url_str
            else True))"

definition get_crawl_delay :: "robots_deps \<Rightarrow> robots_parser \<Rightarrow> string option \<Rightarrow> duration option" where
  "get_crawl_delay d p useragent =
     (if rp_last_checked p = 0 then None
      else
        (let fallback = (if \<not> entry_is_empty (rp_default_entry p)
                         then re_crawl_delay (rp_default_entry p) else None)
         in case useragent of
              None \<Rightarrow> fallback
            | Some ua \<Rightarrow>
                (case first_entry (rp_entries p) (prepare_useragent d ua) of
                   Some e \<Rightarrow> re_crawl_delay e
                 | None \<Rightarrow> fallback)))"

definition get_req_rate :: "robots_deps \<Rightarrow> robots_parser \<Rightarrow> string \<Rightarrow> request_rate option" where
  "get_req_rate d p useragent =
     (if rp_last_checked p = 0 then None
      else case first_entry (rp_entries p) (prepare_useragent d useragent) of
             Some e \<Rightarrow> re_req_rate e
           | None \<Rightarrow> None)"

section \<open>Use by the crawler\<close>

text \<open>The part of the configuration and of the website that these functions read and write.\<close>

record robots_site =
  rs_tor_policy :: bool
  rs_status_invalid :: bool
  rs_respect_robots_txt :: bool
  rs_user_agent :: "string option"
  rs_parser :: "robots_parser option"
  rs_delay :: nat

definition is_allowed_robots :: "robots_deps \<Rightarrow> robots_site \<Rightarrow> string \<Rightarrow> bool" where
  "is_allowed_robots d w link =
     (if rs_respect_robots_txt w then
        (case rs_parser w of
           Some r \<Rightarrow> can_fetch d r (case rs_user_agent w of Some ua \<Rightarrow> ua | None \<Rightarrow> ''*'') link
         | None \<Rightarrow> True)
      else True)"

definition duration_millis :: "duration \<Rightarrow> nat" where
  "duration_millis t = fst t * 1000 + snd t div 1000000"

text \<open>\<open>tor_scope\<close> says that the call is inside an audited Tor scope.\<close>

definition configure_robots_parser ::
  "robots_deps \<Rightarrow> bool \<Rightarrow> nat option \<Rightarrow> robots_read \<Rightarrow> robots_site \<Rightarrow> robots_site" where
  "configure_robots_parser d tor_scope secs answer w =
     (if rs_tor_policy w \<and> \<not> tor_scope then w\<lparr>rs_status_invalid := True\<rparr>
      else if rs_respect_robots_txt w then
        (let r = (case rs_parser w of Some r \<Rightarrow> r | None \<Rightarrow> new_parser);
             w = w\<lparr>rs_parser := Some r\<rparr>
         in if rp_last_checked r \<le> 4000 then
              (let r = read_robots d secs answer r;
                   w = w\<lparr>rs_parser := Some r\<rparr>
               in case get_crawl_delay d r (rs_user_agent w) of
                    None \<Rightarrow> w
                  | Some delay \<Rightarrow> w\<lparr>rs_delay := min (duration_millis delay) 60000\<rparr>)
            else w)
      else w)"

end
