(* ===== verification/Robots_Properties.thy ===== *)
theory Robots_Properties
  imports Robots
begin

text \<open>
  Properties of the robots.txt parser: printed groups are read back, what every parse keeps,
  what each outcome of reading allows, and files that name no wildcard.
\<close>

section \<open>Reading back printed groups\<close>

definition plain_char :: "char \<Rightarrow> bool" where
  "plain_char c \<longleftrightarrow> 33 \<le> (of_char c :: nat) \<and> (of_char c :: nat) < 127 \<and> c \<noteq> CHR ''#'' \<and> c \<noteq> CHR ''%''"

definition plain :: "string \<Rightarrow> bool" where
  "plain s \<longleftrightarrow> list_all plain_char s"

lemma plain_not_space: "plain_char c \<Longrightarrow> \<not> ascii_space c \<and> \<not> wide_space2 a c \<and> \<not> wide_space2 c a \<and>
    \<not> wide_space3 a b c \<and> \<not> wide_space3 c a b"
  by (auto simp: plain_char_def ascii_space_def wide_space2_def wide_space3_def byte_in_def)

lemma trim_start_plain: "plain_char c \<Longrightarrow> trim_start (c # s) = c # s"
  using plain_not_space by (cases s; cases "tl s") auto

lemma trim_rev_plain: "plain_char c \<Longrightarrow> trim_rev (c # s) = c # s"
  using plain_not_space by (cases s; cases "tl s") auto

lemma trim_plain_ends:
  assumes "plain_char c" "plain_char e" shows "trim (c # s @ [e]) = c # s @ [e]"
  using assms by (simp add: trim_def trim_start_plain trim_end_def trim_rev_plain)

lemma trim_plain: "plain s \<Longrightarrow> trim s = s"
proof (cases s rule: rev_cases)
  case (snoc s' e)
  assume p: "plain s"
  then have e: "plain_char e" "trim_end (s' @ [e]) = s' @ [e]"
    using snoc by (simp_all add: plain_def trim_end_def trim_rev_plain)
  have "trim_start (s' @ [e]) = s' @ [e]"
    using p snoc e trim_start_plain trim_start_plain [of e "[]"] by (cases s') (auto simp: plain_def)
  then show ?thesis using snoc e by (simp add: trim_def)
qed (simp add: trim_def trim_end_def)

lemma trim_space_plain: "plain s \<Longrightarrow> trim (CHR '' '' # s) = s"
proof -
  assume p: "plain s"
  have "trim_start (CHR '' '' # s) = trim_start s"
    by (cases s; cases "tl s") (auto simp: ascii_space_def byte_in_def)
  then show ?thesis using trim_plain [OF p] by (simp add: trim_def)
qed

lemma utf8_plain: "plain s \<Longrightarrow> utf8_ok s"
  by (induction s) (auto simp: plain_def plain_char_def Let_def)

lemma str_from_bytes: "utf8_ok s \<Longrightarrow> str_from_utf8 (str_bytes s) = Some s"
proof -
  have "char_of (unat (of_char c :: 8 word)) = c" for c :: char
  proof -
    have "(of_char c :: nat) < 256" by simp
    then have "unat (of_nat (of_char c) :: 8 word) = of_char c" by (simp only: unat_of_nat len_num1 len_bit0) simp
    then show ?thesis by (simp only: of_nat_of_char char_of_char)
  qed
  then show "utf8_ok s \<Longrightarrow> ?thesis" by (simp add: str_from_utf8_def str_bytes_def comp_def Let_def)
qed

text \<open>Percent decoding leaves a text without percent signs alone.\<close>

definition decoder_ok :: "robots_deps \<Rightarrow> bool" where
  "decoder_ok d \<longleftrightarrow> (\<forall>s. CHR ''%'' \<notin> set s \<longrightarrow> rd_percent_decode d (str_bytes s) = str_bytes s)"

lemma find_char_split: "c \<notin> set s \<Longrightarrow> find_char c (s @ c # t) = Some (length s)"
  by (induction s) auto

lemma line_parts_printed:
  assumes "decoder_ok d" "plain name" "name \<noteq> []" "CHR '':'' \<notin> set name" "plain v"
  shows "line_parts d (name @ '': '' @ v) = Some (name, v)"
proof -
  let ?full = "name @ '':'' @ (if v = [] then [] else CHR '' '' # v)"
  have "CHR ''#'' \<notin> set name" "CHR ''#'' \<notin> set v"
    using assms(2,5) by (auto simp: plain_def plain_char_def list_all_iff)
  then have no_comment: "find_char (CHR ''#'') (name @ '': '' @ v) = None" by (simp add: find_char_None)
  obtain c n where name: "name = c # n" "plain_char c" using assms(2,3) by (cases name) (auto simp: plain_def)
  have trimmed: "trim (name @ '': '' @ v) = ?full"
  proof (cases v rule: rev_cases)
    case Nil
    have "trim_rev (CHR '' '' # CHR '':'' # rev n @ [c]) = CHR '':'' # rev n @ [c]"
      using trim_rev_plain [of "CHR '':''" "rev n @ [c]"]
      by (cases "rev n @ [c]") (auto simp: ascii_space_def byte_in_def plain_char_def)
    then show ?thesis using name Nil by (simp add: trim_def trim_start_plain trim_end_def)
  next
    case (snoc v' e)
    then have "plain_char e" using assms(5) by (simp add: plain_def)
    then show ?thesis using trim_plain_ends [OF name(2), of e "n @ '': '' @ v'"] snoc name by simp
  qed
  have colon: "find_char (CHR '':'') ?full = Some (length name)"
    using find_char_split [OF assms(4)] by simp
  have "trim (drop (length name + 1) ?full) = v"
    using trim_space_plain [OF assms(5)] by (auto simp: trim_def trim_end_def)
  moreover have "trim (take (length name) ?full) = name" using trim_plain [OF assms(2)] by simp
  moreover have "CHR ''%'' \<notin> set v" using assms(5) by (auto simp: plain_def plain_char_def list_all_iff)
  then have "str_from_utf8 (rd_percent_decode d (str_bytes v)) = Some v"
    using assms(1) str_from_bytes [OF utf8_plain [OF assms(5)]] by (simp add: decoder_ok_def)
  ultimately show ?thesis
    using no_comment trimmed colon name by (simp add: line_parts_def Let_def del: take_append drop_append)
qed

record robots_group =
  rg_agents :: "string list"
  rg_rules :: "(bool \<times> string) list"

definition group_ok :: "robots_group \<Rightarrow> bool" where
  "group_ok g \<longleftrightarrow> rg_agents g \<noteq> [] \<and> rg_rules g \<noteq> [] \<and>
     list_all plain (rg_agents g) \<and> list_all (\<lambda>r. plain (snd r)) (rg_rules g)"

definition print_rule :: "bool \<times> string \<Rightarrow> string" where
  "print_rule r = (if fst r then ''Allow'' else ''Disallow'') @ '': '' @ snd r"

definition print_group :: "robots_group \<Rightarrow> string list" where
  "print_group g = map (\<lambda>a. ''User-agent'' @ '': '' @ a) (rg_agents g) @ map print_rule (rg_rules g) @ [[]]"

definition print_file :: "robots_group list \<Rightarrow> string" where
  "print_file gs = concat (map (\<lambda>l. l @ [CHR 0x0A]) (concat (map print_group gs)))"

definition entry_of :: "robots_deps \<Rightarrow> robots_group \<Rightarrow> robots_entry" where
  "entry_of d g = \<lparr>re_useragents = map (rd_to_lowercase d) (rg_agents g),
     re_rulelines = map (\<lambda>(b, v). new_rule_line v b) (rg_rules g), re_crawl_delay = None, re_req_rate = None\<rparr>"

definition names_wildcard :: "robots_deps \<Rightarrow> robots_group \<Rightarrow> bool" where
  "names_wildcard d g \<longleftrightarrow> ''*'' \<in> rd_to_lowercase d ` set (rg_agents g)"

lemma directive_names:
  "plain ''User-agent''" "plain ''Allow''" "plain ''Disallow''"
  "eq_ignore_ascii_case ''User-agent'' ''user-agent''"
  "eq_ignore_ascii_case ''Allow'' ''allow''" "eq_ignore_ascii_case ''Disallow'' ''disallow''"
  "\<not> eq_ignore_ascii_case ''Allow'' ''user-agent''" "\<not> eq_ignore_ascii_case ''Allow'' ''disallow''"
  "\<not> eq_ignore_ascii_case ''Disallow'' ''user-agent''"
  by code_simp+

lemma parse_agent:
  assumes "decoder_ok d" "plain a" "state \<noteq> 2"
  shows "parse_line d (''User-agent'' @ '': '' @ a) (p, state, e) = (p, 1, push_useragent d a e)"
proof -
  have "line_parts d (''User-agent'' @ '': '' @ a) = Some (''User-agent'', a)"
    by (rule line_parts_printed) (use assms directive_names in simp_all)
  then show ?thesis using assms(3) by (simp add: parse_line_def parse_directive_def directive_names)
qed

lemma parse_rule:
  assumes "decoder_ok d" "plain (snd r)" "state \<noteq> 0"
  shows "parse_line d (print_rule r) (p, state, e) = (p, 2, push_ruleline (new_rule_line (snd r) (fst r)) e)"
proof -
  have "line_parts d (print_rule r) = Some (if fst r then ''Allow'' else ''Disallow'', snd r)"
    unfolding print_rule_def by (rule line_parts_printed) (use assms directive_names in \<open>simp_all split: if_splits\<close>)
  moreover have "print_rule r \<noteq> []" by (simp add: print_rule_def)
  ultimately show ?thesis using assms(3)
    by (cases "fst r") (simp_all add: parse_line_def parse_directive_def directive_names)
qed

lemma parse_agents:
  assumes "decoder_ok d"
  shows "list_all plain as \<Longrightarrow> as \<noteq> [] \<Longrightarrow> state \<noteq> 2 \<Longrightarrow>
    fold (parse_line d) (map (\<lambda>a. ''User-agent'' @ '': '' @ a) as) (p, state, e) =
      (p, 1, e\<lparr>re_useragents := re_useragents e @ map (rd_to_lowercase d) as\<rparr>)"
proof (induction "as" arbitrary: state e)
  case (Cons a "as")
  have "fold (parse_line d) (map (\<lambda>a. ''User-agent'' @ '': '' @ a) (a # as)) (p, state, e) =
      fold (parse_line d) (map (\<lambda>a. ''User-agent'' @ '': '' @ a) as) (p, 1, push_useragent d a e)"
    using parse_agent [OF assms, of a state p e] Cons.prems by simp
  then show ?case using Cons by (cases "as = []") (simp_all add: push_useragent_def)
qed simp

lemma parse_rules:
  assumes "decoder_ok d"
  shows "list_all (\<lambda>r. plain (snd r)) rs \<Longrightarrow> rs \<noteq> [] \<Longrightarrow> state \<noteq> 0 \<Longrightarrow>
    fold (parse_line d) (map print_rule rs) (p, state, e) =
      (p, 2, e\<lparr>re_rulelines := re_rulelines e @ map (\<lambda>(b, v). new_rule_line v b) rs\<rparr>)"
proof (induction rs arbitrary: state e)
  case (Cons r rs)
  have "fold (parse_line d) (map print_rule (r # rs)) (p, state, e) =
      fold (parse_line d) (map print_rule rs) (p, 2, push_ruleline (new_rule_line (snd r) (fst r)) e)"
    using parse_rule [OF assms, of r state p e] Cons.prems by simp
  then show ?case using Cons by (cases "rs = []"; cases r) (simp_all add: push_ruleline_def)
qed simp

lemma parse_group:
  assumes "decoder_ok d" "group_ok g"
  shows "fold (parse_line d) (print_group g) (p, 0, new_entry) = (add_entry (entry_of d g) p, 0, new_entry)"
proof -
  have "line_parts d [] = None" by (simp add: line_parts_def trim_def trim_end_def)
  then have blank: "parse_line d [] (p, 2, e) = (add_entry e p, 0, new_entry)" for e
    by (simp add: parse_line_def at_empty_line_def)
  have ok: "list_all plain (rg_agents g)" "rg_agents g \<noteq> []" "list_all (\<lambda>r. plain (snd r)) (rg_rules g)" "rg_rules g \<noteq> []"
    using assms(2) by (simp_all add: group_ok_def)
  show ?thesis
    unfolding print_group_def fold_append comp_def parse_agents [OF assms(1) ok(1,2) zero_neq_numeral]
      parse_rules [OF assms(1) ok(3,4) one_neq_zero]
    by (simp add: blank new_entry_def entry_of_def)
qed

lemma parse_groups:
  assumes "decoder_ok d"
  shows "list_all group_ok gs \<Longrightarrow>
    fold (parse_line d) (concat (map print_group gs)) (p, 0, new_entry) = (fold add_entry (map (entry_of d) gs) p, 0, new_entry)"
  by (induction gs arbitrary: p) (simp_all add: parse_group [OF assms])

lemma add_entries:
  "list_all group_ok gs \<Longrightarrow> rp_entries (fold add_entry (map (entry_of d) gs) p) =
      rp_entries p @ map (entry_of d) (filter (\<lambda>g. \<not> names_wildcard d g) gs) \<and>
    rp_default_entry (fold add_entry (map (entry_of d) gs) p) =
      (if entry_is_empty (rp_default_entry p)
       then (case filter (names_wildcard d) gs of [] \<Rightarrow> rp_default_entry p | g # _ \<Rightarrow> entry_of d g)
       else rp_default_entry p)"
proof (induction gs arbitrary: p)
  case (Cons g gs)
  have "has_useragent (entry_of d g) = names_wildcard d g" by (simp add: has_useragent_def entry_of_def names_wildcard_def)
  moreover have "\<not> entry_is_empty (entry_of d g)" using Cons.prems by (simp add: entry_is_empty_def entry_of_def group_ok_def)
  moreover have "rp_default_entry (p\<lparr>rp_entries := es\<rparr>) = rp_default_entry p" for es by simp
  ultimately show ?case using Cons.IH [of "add_entry (entry_of d g) p"] Cons.prems
    by (cases "names_wildcard d g"; cases "entry_is_empty (rp_default_entry p)")
      (simp_all add: add_entry_def split: list.splits)
qed simp

lemma split_on_snoc: "c \<notin> set l \<Longrightarrow> split_on c (l @ c # rest) = l # split_on c rest"
  by (induction l) auto

lemma text_lines_printed:
  assumes "\<forall>l \<in> set ls. CHR 0x0A \<notin> set l"
  shows "text_lines (concat (map (\<lambda>l. l @ [CHR 0x0A]) ls)) = ls"
proof -
  have "split_on (CHR 0x0A) (concat (map (\<lambda>l. l @ [CHR 0x0A]) ls)) = ls @ [[]]"
    using assms by (induction ls) (simp_all add: split_on_snoc)
  then show ?thesis by (simp add: text_lines_def)
qed

lemma printed_without_newline:
  "list_all group_ok gs \<Longrightarrow> \<forall>l \<in> set (concat (map print_group gs)). CHR 0x0A \<notin> set l"
proof -
  assume ok: "list_all group_ok gs"
  have plain: "CHR 0x0A \<notin> set v" if "plain v" for v
  proof
    assume "CHR 0x0A \<in> set v"
    then have "plain_char (CHR 0x0A)" using that by (simp add: plain_def list_all_iff)
    then show False by (simp add: plain_char_def)
  qed
  have group: "CHR 0x0A \<notin> set l" if "group_ok g" "l \<in> set (print_group g)" for g l
    using that(2)
  proof (unfold print_group_def, elim UnE set_append [THEN equalityD1, THEN subsetD, THEN UnE])
    assume "l \<in> set (map (\<lambda>a. ''User-agent'' @ '': '' @ a) (rg_agents g))"
    then show ?thesis using that(1) plain by (auto simp: group_ok_def list_all_iff)
  next
    assume "l \<in> set (map print_rule (rg_rules g))"
    then show ?thesis using that(1) plain by (auto simp: group_ok_def list_all_iff print_rule_def split: if_splits)
  qed simp
  then show ?thesis using ok by (auto simp: list_all_iff)
qed

text \<open>C30. A robots file that consists of groups, each of agents and rules with plain values, is read
  back exactly: the groups without a wildcard agent become the entries, in order, with their
  rules in order, and the first group with one becomes the default entry.\<close>

theorem robots_file_roundtrip:
  assumes "decoder_ok d" "gs \<noteq> []" "list_all group_ok gs"
  shows "rp_entries (parse_str d (print_file gs) new_parser) =
      map (entry_of d) (filter (\<lambda>g. \<not> names_wildcard d g) gs) \<and>
    rp_default_entry (parse_str d (print_file gs) new_parser) =
      (case filter (names_wildcard d) gs of [] \<Rightarrow> new_entry | g # _ \<Rightarrow> entry_of d g)"
proof -
  have "print_file gs \<noteq> []" using assms(2) by (cases gs) (simp_all add: print_file_def print_group_def)
  moreover have fresh: "rp_entries new_parser = []" "rp_default_entry new_parser = new_entry" "entry_is_empty new_entry"
    by (simp_all add: new_parser_def new_entry_def entry_is_empty_def)
  ultimately have "parse_str d (print_file gs) new_parser = fold add_entry (map (entry_of d) gs) new_parser"
    using text_lines_printed [OF printed_without_newline [OF assms(3)]] parse_groups [OF assms(1,3)]
    by (simp add: parse_str_def parse_lines_def print_file_def)
  then show ?thesis
    using add_entries [OF assms(3), of d new_parser] by (simp add: fresh split: list.splits)
qed

section \<open>What every parse keeps\<close>

text \<open>
  The specific entries name agents but no wildcard, the default entry is the first that names
  the wildcard or still empty; a rule without a path allows.
\<close>

definition rules_ok :: "robots_entry \<Rightarrow> bool" where
  "rules_ok e \<longleftrightarrow> (\<forall>r \<in> set (re_rulelines e). rl_path r = [] \<longrightarrow> rl_allowance r)"

definition parser_ok :: "robots_parser \<Rightarrow> bool" where
  "parser_ok p \<longleftrightarrow> (\<forall>e \<in> set (rp_entries p). re_useragents e \<noteq> [] \<and> \<not> has_useragent e \<and> rules_ok e) \<and>
     (entry_is_empty (rp_default_entry p) \<or> has_useragent (rp_default_entry p)) \<and> rules_ok (rp_default_entry p)"

definition line_state_ok :: "line_state \<Rightarrow> bool" where
  "line_state_ok st \<longleftrightarrow> (case st of (p, state, e) \<Rightarrow>
     parser_ok p \<and> rules_ok e \<and> (state \<noteq> 0 \<longrightarrow> re_useragents e \<noteq> []) \<and> (state = 0 \<longrightarrow> e = new_entry))"

lemma new_entry_ok [simp]: "rules_ok new_entry" "re_useragents new_entry = []"
  by (simp_all add: rules_ok_def new_entry_def)

lemma add_entry_ok: "parser_ok p \<Longrightarrow> re_useragents e \<noteq> [] \<Longrightarrow> rules_ok e \<Longrightarrow> parser_ok (add_entry e p)"
  by (auto simp: add_entry_def parser_ok_def)

lemma parse_directive_ok: "line_state_ok st \<Longrightarrow> line_state_ok (parse_directive d k v st)"
  by (auto simp: line_state_ok_def parse_directive_def push_useragent_def push_ruleline_def set_crawl_delay_def
      set_req_rate_def rules_ok_def new_rule_line_def new_entry_def Let_def add_entry_ok [unfolded rules_ok_def]
      split: prod.splits option.splits if_splits)

lemma parse_line_ok: "line_state_ok st \<Longrightarrow> line_state_ok (parse_line d line st)"
proof -
  assume "line_state_ok st"
  then have "line_state_ok (at_empty_line st)"
    by (auto simp: line_state_ok_def at_empty_line_def add_entry_ok split: prod.splits)
  with \<open>line_state_ok st\<close> show ?thesis
    by (auto simp: parse_line_def Let_def parse_directive_ok split: option.splits)
qed

lemma parse_lines_ok: "parser_ok p \<Longrightarrow> parser_ok (parse_lines d ls p)"
proof -
  assume p: "parser_ok p"
  have "line_state_ok (fold (parse_line d) ls st)" if "line_state_ok st" for st
    using that by (induction ls arbitrary: st) (simp_all add: parse_line_ok)
  from this [of "(p, 0, new_entry)"] p show ?thesis
    by (auto simp: parse_lines_def line_state_ok_def intro: add_entry_ok split: prod.splits)
qed

lemma new_parser_ok [simp]: "parser_ok new_parser"
  by (simp add: parser_ok_def new_parser_def entry_is_empty_def) (simp add: new_entry_def)

lemma parse_str_ok: "parser_ok p \<Longrightarrow> parser_ok (parse_str d text p)"
  by (simp add: parse_str_def parse_lines_ok)

text \<open>C31. Whatever is read, and however often: every specific entry names agents and never the
  wildcard, the default entry is empty or names the wildcard, and a rule with an empty path
  never forbids.\<close>

theorem robots_entries_well_formed:
  "parser_ok (fold (\<lambda>(secs, answer) p. read_robots d secs answer p) reads new_parser)"
proof -
  have upd: "parser_ok (p\<lparr>rp_disallow_all := b\<rparr>) = parser_ok p" "parser_ok (p\<lparr>rp_allow_all := b\<rparr>) = parser_ok p"
    "parser_ok (p\<lparr>rp_last_checked := n\<rparr>) = parser_ok p" for p b n
    by (simp_all add: parser_ok_def)
  have "parser_ok (read_with_executor d secs answer p)" if "parser_ok p" for secs answer p
    using that
    by (auto simp: read_with_executor_def modified_def Let_def upd parse_str_ok
        split: robots_answer.splits option.splits)
  moreover have "parser_ok (read_with_client d secs answer p)" if "parser_ok p" for secs answer p
    using that
    by (auto simp: read_with_client_def from_response_def modified_def Let_def upd parse_str_ok
        split: client_answer.splits option.splits)
  ultimately have "parser_ok (read_robots d secs answer p)" if "parser_ok p" for secs answer p
    using that by (cases answer) (simp_all add: read_robots_def)
  then have "parser_ok (fold (\<lambda>(secs, answer) p. read_robots d secs answer p) reads p)" if "parser_ok p" for p
    using that by (induction reads arbitrary: p) auto
  then show ?thesis by simp
qed

section \<open>Files that name no wildcard\<close>

definition wildcard_line :: "robots_deps \<Rightarrow> string \<Rightarrow> bool" where
  "wildcard_line d line \<longleftrightarrow>
     (case line_parts d line of
        None \<Rightarrow> False
      | Some (k, v) \<Rightarrow> eq_ignore_ascii_case k ''user-agent'' \<and> rd_to_lowercase d v = ''*'')"

definition no_wildcard :: "line_state \<Rightarrow> bool" where
  "no_wildcard st \<longleftrightarrow> (case st of (p, state, e) \<Rightarrow>
     rp_default_entry p = new_entry \<and> \<not> has_useragent e \<and> \<not> rp_disallow_all p \<and> rp_last_checked p \<noteq> 0)"

lemma no_wildcard_entry [simp]: "\<not> has_useragent new_entry"
  by (simp add: has_useragent_def)

lemma add_specific:
  "\<not> has_useragent e \<Longrightarrow> rp_default_entry (add_entry e p) = rp_default_entry p \<and>
    rp_disallow_all (add_entry e p) = rp_disallow_all p \<and> rp_last_checked (add_entry e p) = rp_last_checked p"
  by (simp add: add_entry_def)

lemma has_useragent_simps [simp]:
  "has_useragent (push_ruleline r e) = has_useragent e" "has_useragent (set_crawl_delay c e) = has_useragent e"
  "has_useragent (set_req_rate q e) = has_useragent e"
  "has_useragent (push_useragent d v e) \<longleftrightarrow> has_useragent e \<or> rd_to_lowercase d v = ''*''"
  by (auto simp: has_useragent_def push_ruleline_def set_crawl_delay_def set_req_rate_def push_useragent_def)

lemma parse_line_no_wildcard:
  assumes "no_wildcard st" "\<not> wildcard_line d line" shows "no_wildcard (parse_line d line st)"
proof -
  have empty: "no_wildcard (at_empty_line st)"
    using assms(1) by (auto simp: no_wildcard_def at_empty_line_def add_specific split: prod.splits)
  have "no_wildcard (parse_directive d k v st')"
    if "no_wildcard st'" "eq_ignore_ascii_case k ''user-agent'' \<longrightarrow> rd_to_lowercase d v \<noteq> ''*''" for st' k v
    using that
    by (auto simp: no_wildcard_def parse_directive_def Let_def add_specific split: prod.splits option.splits if_splits)
  note step = this
  show ?thesis
  proof (cases "line_parts d line")
    case None
    then show ?thesis using assms(1) empty by (simp add: parse_line_def Let_def)
  next
    case (Some kv)
    obtain k v where kv: "kv = (k, v)" by (cases kv)
    then have "eq_ignore_ascii_case k ''user-agent'' \<longrightarrow> rd_to_lowercase d v \<noteq> ''*''"
      using assms(2) Some by (simp add: wildcard_line_def)
    then show ?thesis using step [OF assms(1)] step [OF empty] Some kv by (simp add: parse_line_def Let_def)
  qed
qed

text \<open>C33. A robots.txt without a \<open>User-agent: *\<close> line forbids nothing, to any agent, whatever its
  rules for specific agents say: a refusal by the entry of the agent falls through to the
  default entry, and without one everything is allowed.\<close>

theorem specific_rules_never_forbid:
  assumes "0 < secs" "collect_chunks chunks = Some b" "str_from_utf8 b = Some text"
    and "\<forall>line \<in> set (text_lines text). \<not> wildcard_line d line"
  shows "can_fetch d (read_with_executor d (Some secs) (RobotsResponse 200 chunks) new_parser) useragent url"
proof -
  let ?p = "modified (Some secs) new_parser"
  have start: "no_wildcard (?p, 0, new_entry)"
    using assms(1) by (simp add: no_wildcard_def modified_def new_parser_def)
  have "no_wildcard (fold (parse_line d) ls st)" if "no_wildcard st" "\<forall>l \<in> set ls. \<not> wildcard_line d l" for ls st
    using that by (induction ls arbitrary: st) (simp_all add: parse_line_no_wildcard)
  from this [OF start assms(4)]
  have "rp_default_entry (parse_lines d (text_lines text) ?p) = new_entry \<and>
      \<not> rp_disallow_all (parse_lines d (text_lines text) ?p) \<and> rp_last_checked (parse_lines d (text_lines text) ?p) \<noteq> 0"
    by (auto simp: parse_lines_def no_wildcard_def add_specific split: prod.splits)
  moreover have "rp_default_entry ?p = new_entry \<and> \<not> rp_disallow_all ?p \<and> rp_last_checked ?p \<noteq> 0"
    using start by (simp add: no_wildcard_def)
  ultimately have "rp_default_entry (parse_str d text ?p) = new_entry \<and>
      \<not> rp_disallow_all (parse_str d text ?p) \<and> rp_last_checked (parse_str d text ?p) \<noteq> 0"
    by (simp add: parse_str_def)
  moreover have "entry_is_empty new_entry" by (simp add: entry_is_empty_def new_entry_def)
  ultimately show ?thesis
    using assms(2,3) by (simp add: read_with_executor_def can_fetch_def Let_def)
qed

text \<open>Witness: the file refuses everything to \<open>spider\<close>, and \<open>spider\<close> may fetch the page.\<close>

definition sample_robots_deps :: robots_deps where
  "sample_robots_deps = \<lparr>rd_percent_decode = id, rd_to_lowercase = to_ascii_lowercase, rd_float_delay = (\<lambda>_. None)\<rparr>"

definition sample_group :: robots_group where
  "sample_group = \<lparr>rg_agents = [''spider''], rg_rules = [(False, ''/'')]\<rparr>"

lemma sample_file_lines:
  "text_lines (print_file [sample_group]) = [''User-agent: spider'', ''Disallow: /'', []]"
  by code_simp

lemma sample_group_ok: "group_ok sample_group"
  by code_simp

lemma sample_file_text: "str_from_utf8 (str_bytes (print_file [sample_group])) = Some (print_file [sample_group])"
  by (rule str_from_bytes) code_simp

lemma sample_file_no_wildcard:
  "\<not> wildcard_line sample_robots_deps ''User-agent: spider''" "\<not> wildcard_line sample_robots_deps ''Disallow: /''"
  "\<not> wildcard_line sample_robots_deps []"
  by code_simp+

lemma specific_rules_never_forbid_witness:
  "can_fetch sample_robots_deps (read_with_executor sample_robots_deps (Some 1700000000)
     (RobotsResponse 200 [Some (str_bytes (print_file [sample_group]))]) new_parser) ''spider'' ''https://example.com/page''"
  by (rule specific_rules_never_forbid [OF _ _ sample_file_text])
    (simp_all add: sample_file_lines sample_file_no_wildcard)

lemma robots_file_roundtrip_witness:
  "rp_entries (parse_str sample_robots_deps (print_file [sample_group]) new_parser) =
      map (entry_of sample_robots_deps) (filter (\<lambda>g. \<not> names_wildcard sample_robots_deps g) [sample_group]) \<and>
    rp_default_entry (parse_str sample_robots_deps (print_file [sample_group]) new_parser) =
      (case filter (names_wildcard sample_robots_deps) [sample_group] of [] \<Rightarrow> new_entry
       | g # _ \<Rightarrow> entry_of sample_robots_deps g)"
  by (rule robots_file_roundtrip)
    (simp_all add: sample_group_ok decoder_ok_def sample_robots_deps_def)

section \<open>What the outcome of the first read decides\<close>

lemma unparsed_fetch:
  assumes "rp_entries p = []" "rp_default_entry p = new_entry"
  shows "can_fetch d p ua url \<longleftrightarrow> rp_allow_all p \<or> rp_last_checked p \<noteq> 0 \<and> \<not> rp_disallow_all p"
  using assms by (simp add: can_fetch_def entry_allowed_def entry_is_empty_def new_entry_def)

text \<open>The status a read saw, \<open>None\<close> for a request that failed.\<close>

definition read_status :: "robots_read \<Rightarrow> nat option" where
  "read_status r =
     (case r of
        CanonicalRead (RobotsResponse status _) \<Rightarrow> Some status
      | ClientRead (ClientResponse status _) \<Rightarrow> Some status
      | _ \<Rightarrow> None)"

lemma parse_str_time [simp]: "rp_last_checked (parse_str d text p) = rp_last_checked p"
proof -
  have add: "rp_last_checked (add_entry e q) = rp_last_checked q" for e q by (simp add: add_entry_def)
  have line: "rp_last_checked (fst (parse_line d l st)) = rp_last_checked (fst st)" for l st
    by (auto simp: parse_line_def parse_directive_def at_empty_line_def Let_def add split: prod.splits option.splits)
  have "rp_last_checked (fst (fold (parse_line d) ls st)) = rp_last_checked (fst st)" for ls st
    by (induction ls arbitrary: st) (simp_all add: line)
  from this [of _ "(p, 0, new_entry)"] show ?thesis
    by (auto simp: parse_str_def parse_lines_def add split: prod.splits) (metis fst_conv)+
qed

lemma read_time: "r \<noteq> Unread \<Longrightarrow> rp_last_checked (read_robots d (Some secs) r p) = int secs"
  by (auto simp: read_robots_def read_with_executor_def read_with_client_def from_response_def modified_def Let_def
      split: robots_read.splits robots_answer.splits client_answer.splits option.splits)

lemma read_without_body:
  assumes "r \<noteq> Unread" "read_status r \<noteq> Some 200"
  shows "rp_entries (read_robots d (Some secs) r new_parser) = []"
    "rp_default_entry (read_robots d (Some secs) r new_parser) = new_entry"
    "rp_disallow_all (read_robots d (Some secs) r new_parser) \<longleftrightarrow> read_status r \<in> {Some 401, Some 403}"
    "rp_allow_all (read_robots d (Some secs) r new_parser) \<Longrightarrow> read_status r \<notin> {Some 401, Some 403}"
  using assms
  by (auto simp: read_robots_def read_with_executor_def read_with_client_def modified_def new_parser_def Let_def
      read_status_def split: robots_read.splits robots_answer.splits client_answer.splits if_splits)

text \<open>C32. The first read of a website that respects robots.txt decides without a body: 401 and 403
  forbid every link, every other status but 200 and a request that failed allow every link.
  Whatever was read is final: the modification time is the time of the read and not its age, so
  no later call reads again.\<close>

theorem robots_outcome_is_final:
  assumes "rs_respect_robots_txt w" "rs_parser w = None" "\<not> rs_tor_policy w" "4000 < secs" "r \<noteq> Unread"
  shows "(read_status r \<noteq> Some 200 \<longrightarrow>
      is_allowed_robots d (configure_robots_parser d tor (Some secs) r w) link = (read_status r \<notin> {Some 401, Some 403})) \<and>
    configure_robots_parser d tor' later again (configure_robots_parser d tor (Some secs) r w) =
      configure_robots_parser d tor (Some secs) r w"
proof -
  let ?r = "read_robots d (Some secs) r new_parser"
  let ?w = "configure_robots_parser d tor (Some secs) r w"
  have "rp_last_checked new_parser = 0" by (simp add: new_parser_def)
  then have w: "rs_parser ?w = Some ?r" "rs_respect_robots_txt ?w" "\<not> rs_tor_policy ?w"
    using assms(1,2,3) by (simp_all add: configure_robots_parser_def Let_def split: option.splits)
  have checked: "rp_last_checked ?r = int secs" using assms(5) by (rule read_time)
  have "?w\<lparr>rs_parser := Some ?r\<rparr> = ?w" using w(1) by (cases ?w) simp
  then have "configure_robots_parser d tor' later again ?w = ?w"
    using w checked assms(4) by (simp add: configure_robots_parser_def [of d tor'] Let_def)
  moreover have "is_allowed_robots d ?w link = (read_status r \<notin> {Some 401, Some 403})" if "read_status r \<noteq> Some 200"
    using read_without_body [OF assms(5) that, of d secs] w checked assms(4)
    by (auto simp: is_allowed_robots_def unparsed_fetch)
  ultimately show ?thesis by blast
qed

definition sample_robots_site :: robots_site where
  "sample_robots_site = \<lparr>rs_tor_policy = False, rs_status_invalid = False, rs_respect_robots_txt = True,
     rs_user_agent = None, rs_parser = None, rs_delay = 0\<rparr>"

lemma robots_outcome_is_final_witness:
  "\<not> is_allowed_robots sample_robots_deps (configure_robots_parser sample_robots_deps False (Some 1700000000)
      (CanonicalRead (RobotsResponse 403 [])) sample_robots_site) ''https://example.com/''"
  using robots_outcome_is_final [of sample_robots_site 1700000000 "CanonicalRead (RobotsResponse 403 [])"
      sample_robots_deps False "''https://example.com/''" False None Unread]
  by (simp add: sample_robots_site_def read_status_def)

end
