(* ===== verification/File_System.thy ===== *)
theory File_System
  imports Prelude
begin

text \<open>
  The file system that the source reaches through \<open>tokio::fs\<close> and \<open>utils/uring_fs.rs\<close> (in its
  portable branch): names that refer to file contents by inode, so that an open file stays what
  it is when its name is moved.  A path is the list of its components.

  Every call takes the next element of two lists: what other processes do to the file system
  just before it, and the fault it ends with, if any; a failed write may have written some
  bytes.  Both lists are part of the state and arbitrary.
\<close>

type_synonym path = "string list"

datatype other_op = OtherWrite (other_path: path) bytes | OtherRemove (other_path: path)

record file_system =
  fs_names :: "path \<rightharpoonup> nat"
  fs_data :: "nat \<Rightarrow> bytes"
  fs_next :: nat
  fs_others :: "other_op list list"
  fs_faults :: "(nat \<times> string) option list"

section \<open>Calls\<close>

definition put_file :: "path \<Rightarrow> bytes \<Rightarrow> file_system \<Rightarrow> file_system" where
  "put_file p b s =
     (case fs_names s p of
        Some i \<Rightarrow> s\<lparr>fs_data := (fs_data s)(i := b)\<rparr>
      | None \<Rightarrow> s\<lparr>fs_names := (fs_names s)(p \<mapsto> fs_next s), fs_data := (fs_data s)(fs_next s := b),
                  fs_next := fs_next s + 1\<rparr>)"

definition unlink :: "path \<Rightarrow> file_system \<Rightarrow> file_system" where
  "unlink p s = s\<lparr>fs_names := (fs_names s)(p := None)\<rparr>"

fun other_step :: "other_op \<Rightarrow> file_system \<Rightarrow> file_system" where
  "other_step (OtherWrite p b) s = put_file p b s"
| "other_step (OtherRemove p) s = unlink p s"

definition run_others :: "file_system \<Rightarrow> file_system" where
  "run_others s =
     (case fs_others s of
        [] \<Rightarrow> s
      | ops # rest \<Rightarrow> (fold other_step ops s)\<lparr>fs_others := rest\<rparr>)"

definition fs_call :: "(file_system, nat \<times> string, unit) act" where
  "fs_call s =
     (let s = run_others s
      in case fs_faults s of
           [] \<Rightarrow> (Inr (), s)
         | None # fs \<Rightarrow> (Inr (), s\<lparr>fs_faults := fs\<rparr>)
         | Some e # fs \<Rightarrow> (Inl e, s\<lparr>fs_faults := fs\<rparr>))"

text \<open>\<open>Path::exists\<close> answers \<open>false\<close> when the file cannot be looked up.\<close>

definition path_exists :: "path \<Rightarrow> (file_system, 'e, bool) act" where
  "path_exists p s =
     (case fs_call s of
        (Inl _, s) \<Rightarrow> (Inr False, s)
      | (Inr _, s) \<Rightarrow> (Inr (fs_names s p \<noteq> None), s))"

definition file_create :: "path \<Rightarrow> (file_system, string, nat) act" where
  "file_create p s =
     (case fs_call s of
        (Inl (_, e), s) \<Rightarrow> (Inl e, s)
      | (Inr _, s) \<Rightarrow>
          (case fs_names s p of
             Some i \<Rightarrow> (Inr i, put_file p [] s)
           | None \<Rightarrow> (Inr (fs_next s), put_file p [] s)))"

definition append_data :: "nat \<Rightarrow> bytes \<Rightarrow> file_system \<Rightarrow> file_system" where
  "append_data i b s = s\<lparr>fs_data := (fs_data s)(i := fs_data s i @ b)\<rparr>"

definition file_write :: "nat \<Rightarrow> bytes \<Rightarrow> (file_system, string, unit) act" where
  "file_write i b s =
     (case fs_call s of
        (Inl (n, e), s) \<Rightarrow> (Inl e, append_data i (take n b) s)
      | (Inr _, s) \<Rightarrow> (Inr (), append_data i b s))"

definition file_close :: "nat \<Rightarrow> (file_system, string, unit) act" where
  "file_close i = act_map_err snd fs_call"

definition not_found :: string where
  "not_found = ''No such file or directory (os error 2)''"

definition file_rename :: "path \<Rightarrow> path \<Rightarrow> (file_system, string, unit) act" where
  "file_rename p q s =
     (case fs_call s of
        (Inl (_, e), s) \<Rightarrow> (Inl e, s)
      | (Inr _, s) \<Rightarrow>
          (case fs_names s p of
             None \<Rightarrow> (Inl not_found, s)
           | Some i \<Rightarrow> (Inr (), s\<lparr>fs_names := (fs_names s)(p := None, q \<mapsto> i)\<rparr>)))"

definition remove_file :: "path \<Rightarrow> (file_system, string, unit) act" where
  "remove_file p s =
     (case fs_call s of
        (Inl (_, e), s) \<Rightarrow> (Inl e, s)
      | (Inr _, s) \<Rightarrow>
          (case fs_names s p of
             None \<Rightarrow> (Inl not_found, s)
           | Some _ \<Rightarrow> (Inr (), unlink p s)))"

section \<open>Contents\<close>

text \<open>
  The abstract file system: what each path contains.  It is well-formed when no two names share
  an inode (there are no hard links) and new inodes are fresh.
\<close>

definition contents :: "file_system \<Rightarrow> path \<rightharpoonup> bytes" where
  "contents s p = map_option (fs_data s) (fs_names s p)"

definition fs_wf :: "file_system \<Rightarrow> bool" where
  "fs_wf s \<longleftrightarrow> (\<forall>p i. fs_names s p = Some i \<longrightarrow> i < fs_next s) \<and>
     (\<forall>p q i. fs_names s p = Some i \<longrightarrow> fs_names s q = Some i \<longrightarrow> p = q)"

fun abs_other :: "other_op \<Rightarrow> (path \<rightharpoonup> bytes) \<Rightarrow> (path \<rightharpoonup> bytes)" where
  "abs_other (OtherWrite p b) m = m(p \<mapsto> b)"
| "abs_other (OtherRemove p) m = m(p := None)"

lemma wf_less: "fs_wf s \<Longrightarrow> fs_names s p = Some i \<Longrightarrow> i < fs_next s"
  and wf_inj: "fs_wf s \<Longrightarrow> fs_names s p = Some i \<Longrightarrow> fs_names s q = Some i \<Longrightarrow> p = q"
  unfolding fs_wf_def by blast+

lemma wf_fresh: "fs_wf s \<Longrightarrow> fs_names s p \<noteq> Some (fs_next s)"
  using wf_less by blast

lemma contents_None [simp]: "contents s p = None \<longleftrightarrow> fs_names s p = None"
  by (simp add: contents_def)

lemma fs_fields [simp]:
  "contents (s\<lparr>fs_others := os\<rparr>) = contents s" "contents (s\<lparr>fs_faults := fs\<rparr>) = contents s"
  "fs_wf (s\<lparr>fs_others := os\<rparr>) = fs_wf s" "fs_wf (s\<lparr>fs_faults := fs\<rparr>) = fs_wf s"
  by (simp_all add: contents_def fs_wf_def fun_eq_iff)

lemma put_file_wf: "fs_wf s \<Longrightarrow> fs_wf (put_file p b s)"
  using wf_fresh [of s] unfolding put_file_def fs_wf_def
  by (auto split: option.splits simp: less_Suc_eq)

lemma put_file_contents: "fs_wf s \<Longrightarrow> contents (put_file p b s) = (contents s)(p \<mapsto> b)"
  using wf_fresh [of s] wf_inj [of s]
  by (auto simp: put_file_def contents_def fun_eq_iff map_option_case split: option.splits)

lemma put_file_others [simp]: "fs_others (put_file p b s) = fs_others s"
  by (simp add: put_file_def split: option.splits)

lemma unlink_wf: "fs_wf s \<Longrightarrow> fs_wf (unlink p s)"
  unfolding unlink_def fs_wf_def by auto

lemma unlink_contents: "contents (unlink p s) = (contents s)(p := None)"
  by (simp add: unlink_def contents_def fun_eq_iff)

lemma unlink_others [simp]: "fs_others (unlink p s) = fs_others s"
  by (simp add: unlink_def)

lemma other_step_wf: "fs_wf s \<Longrightarrow> fs_wf (other_step op s)"
  by (cases op) (simp_all add: put_file_wf unlink_wf)

lemma other_step_contents: "fs_wf s \<Longrightarrow> contents (other_step op s) = abs_other op (contents s)"
  by (cases op) (simp_all add: put_file_contents unlink_contents)

lemma other_steps: "fs_wf s \<Longrightarrow> fs_wf (fold other_step ops s) \<and>
    contents (fold other_step ops s) = fold abs_other ops (contents s)"
  by (induction ops arbitrary: s) (simp_all add: other_step_wf other_step_contents)

lemma run_others_wf: "fs_wf s \<Longrightarrow> fs_wf (run_others s)"
  using other_steps by (auto simp: run_others_def split: list.splits)

lemma run_others_contents: "fs_wf s \<Longrightarrow> contents (run_others s) = fold abs_other (concat (take 1 (fs_others s))) (contents s)"
  using other_steps by (auto simp: run_others_def split: list.splits)

lemma run_others_rest: "fs_others (run_others s) = drop 1 (fs_others s)"
  by (simp add: run_others_def split: list.splits)

lemma fs_call_state:
  assumes "fs_call s = (r, s')" "fs_wf s"
  shows "fs_wf s' \<and> contents s' = fold abs_other (concat (take 1 (fs_others s))) (contents s) \<and>
    fs_others s' = drop 1 (fs_others s)"
proof -
  have "s' = run_others s \<or> (\<exists>fs. s' = run_others s\<lparr>fs_faults := fs\<rparr>)"
    using assms(1) by (auto simp: fs_call_def Let_def split: list.splits option.splits)
  then show ?thesis using run_others_wf run_others_contents run_others_rest assms(2) by auto
qed

section \<open>A process on its own file\<close>

text \<open>
  \<open>away t s0 s\<close>: since \<open>s0\<close>, every path but \<open>t\<close> was changed by the other processes only.
\<close>

definition away :: "path \<Rightarrow> file_system \<Rightarrow> file_system \<Rightarrow> bool" where
  "away t s0 s \<longleftrightarrow> fs_wf s \<and> (\<exists>k. fs_others s = drop k (fs_others s0) \<and>
     (\<forall>p. p \<noteq> t \<longrightarrow> contents s p = fold abs_other (concat (take k (fs_others s0))) (contents s0) p))"

lemma away_refl: "fs_wf s \<Longrightarrow> away t s s"
  unfolding away_def by (intro conjI exI [of _ 0]) simp_all

lemma abs_other_away: "(\<And>q. q \<noteq> t \<Longrightarrow> m q = m' q) \<Longrightarrow> p \<noteq> t \<Longrightarrow> abs_other op m p = abs_other op m' p"
  by (cases op) auto

lemma fold_abs_other_away:
  "(\<And>q. q \<noteq> t \<Longrightarrow> m q = m' q) \<Longrightarrow> p \<noteq> t \<Longrightarrow> fold abs_other ops m p = fold abs_other ops m' p"
proof (induction ops arbitrary: m m')
  case (Cons op ops)
  have "abs_other op m q = abs_other op m' q" if "q \<noteq> t" for q
    using abs_other_away [of t m m' q op] Cons.prems(1) that by blast
  then show ?case using Cons.IH [of "abs_other op m" "abs_other op m'"] Cons.prems(2) by simp
qed simp

lemma away_call:
  assumes "away t s0 s" "fs_call s = (r, s')" shows "away t s0 s'"
proof -
  obtain k where k: "fs_wf s" "fs_others s = drop k (fs_others s0)"
    "\<And>p. p \<noteq> t \<Longrightarrow> contents s p = fold abs_other (concat (take k (fs_others s0))) (contents s0) p"
    using assms(1) unfolding away_def by blast
  note st = fs_call_state [OF assms(2) k(1)]
  have "take (k + 1) (fs_others s0) = take k (fs_others s0) @ take 1 (drop k (fs_others s0))"
    by (rule take_add)
  then have "contents s' p = fold abs_other (concat (take (k + 1) (fs_others s0))) (contents s0) p" if "p \<noteq> t" for p
    using fold_abs_other_away [of t "contents s"
        "fold abs_other (concat (take k (fs_others s0))) (contents s0)" p, OF k(3) that] st k(2) by simp
  then show ?thesis unfolding away_def using st k(2)
    by (intro conjI exI [of _ "k + 1"]) (simp_all add: add.commute)
qed

lemma away_change:
  assumes "away t s0 s" "fs_wf s'" "fs_others s' = fs_others s" "\<And>p. p \<noteq> t \<Longrightarrow> contents s' p = contents s p"
  shows "away t s0 s'"
  using assms unfolding away_def by metis

text \<open>\<open>quiet t s\<close>: the other processes leave \<open>t\<close> alone.\<close>

definition quiet :: "path \<Rightarrow> file_system \<Rightarrow> bool" where
  "quiet t s \<longleftrightarrow> (\<forall>ops \<in> set (fs_others s). \<forall>op \<in> set ops. other_path op \<noteq> t)"

lemma quiet_others: "fs_others s' = drop k (fs_others s) \<Longrightarrow> quiet t s \<Longrightarrow> quiet t s'"
  unfolding quiet_def by (metis in_set_dropD)

lemma other_step_name: "other_path op \<noteq> t \<Longrightarrow> fs_names (other_step op s) t = fs_names s t"
  by (cases op) (auto simp: put_file_def unlink_def split: option.splits)

lemma other_steps_name: "\<forall>op \<in> set ops. other_path op \<noteq> t \<Longrightarrow> fs_names (fold other_step ops s) t = fs_names s t"
  by (induction ops arbitrary: s) (simp_all add: other_step_name)

text \<open>\<open>holds t i b s\<close>: the process has the file \<open>t\<close> open as \<open>i\<close>, with content \<open>b\<close>.\<close>

definition holds :: "path \<Rightarrow> nat \<Rightarrow> bytes \<Rightarrow> file_system \<Rightarrow> bool" where
  "holds t i b s \<longleftrightarrow> fs_wf s \<and> quiet t s \<and> fs_names s t = Some i \<and> fs_data s i = b"

lemma fs_call_name:
  assumes "fs_call s = (r, s')" "quiet t s" shows "fs_names s' t = fs_names s t"
proof -
  have "s' = run_others s \<or> (\<exists>fs. s' = run_others s\<lparr>fs_faults := fs\<rparr>)"
    using assms(1) by (auto simp: fs_call_def Let_def split: list.splits option.splits)
  moreover have "fs_names (run_others s) t = fs_names s t"
    using assms(2) other_steps_name by (auto simp: run_others_def quiet_def split: list.splits)
  ultimately show ?thesis by auto
qed

lemma abs_others_quiet: "\<forall>op \<in> set ops. other_path op \<noteq> t \<Longrightarrow> fold abs_other ops m t = m t"
proof (induction ops arbitrary: m)
  case (Cons op ops)
  then show ?case by (cases op) auto
qed simp

lemma holds_call:
  assumes "holds t i b s" "fs_call s = (r, s')" shows "holds t i b s'"
proof -
  have s: "fs_wf s" "quiet t s" "fs_names s t = Some i" "fs_data s i = b" using assms(1) by (simp_all add: holds_def)
  note st = fs_call_state [OF assms(2) s(1)]
  have n: "fs_names s' t = Some i" using fs_call_name [OF assms(2) s(2)] s(3) by simp
  have "\<forall>op \<in> set (concat (take 1 (fs_others s))). other_path op \<noteq> t"
    using s(2) by (auto simp: quiet_def dest: in_set_takeD)
  then have "contents s' t = contents s t" using st abs_others_quiet by metis
  then have "fs_data s' i = b" using n s(3,4) by (simp add: contents_def)
  then show ?thesis using st n quiet_others [of s' 1 s t] s(2) by (simp add: holds_def)
qed

lemma call_contents:
  assumes "fs_call s = (r, s')" "fs_wf s" "quiet t s" shows "contents s' t = contents s t"
proof -
  have "\<forall>op \<in> set (concat (take 1 (fs_others s))). other_path op \<noteq> t"
    using assms(3) by (auto simp: quiet_def dest: in_set_takeD)
  then show ?thesis using fs_call_state [OF assms(1,2)] abs_others_quiet by metis
qed

lemma append_data_wf [simp]: "fs_wf (append_data i b s) = fs_wf s"
  and append_data_others [simp]: "fs_others (append_data i b s) = fs_others s"
  by (simp_all add: append_data_def fs_wf_def)

lemma append_data_away: "fs_wf s \<Longrightarrow> fs_names s t = Some i \<Longrightarrow> p \<noteq> t \<Longrightarrow> contents (append_data i b s) p = contents s p"
  using wf_inj [of s p i t] by (cases "fs_names s p") (auto simp: append_data_def contents_def)

lemma append_data_holds: "holds t i b s \<Longrightarrow> holds t i (b @ c) (append_data i c s)"
  by (simp add: holds_def quiet_def append_data_def fs_wf_def)

lemma file_write_holds:
  assumes "file_write i c s = (r, s')" "holds t i b s" "away t s0 s"
  shows "away t s0 s' \<and> (case r of Inr _ \<Rightarrow> holds t i (b @ c) s' | Inl _ \<Rightarrow> \<exists>b'. holds t i b' s')"
proof -
  obtain r1 s1 where call: "fs_call s = (r1, s1)" by fastforce
  have h: "holds t i b s1" "away t s0 s1" using holds_call [OF assms(2) call] away_call [OF assms(3) call] by blast+
  have "away t s0 (append_data i d s1)" for d
    by (rule away_change [OF h(2)]) (use h(1) append_data_away [of s1 t i] in \<open>auto simp: holds_def\<close>)
  then show ?thesis
    using assms(1) call append_data_holds [OF h(1)] by (auto simp: file_write_def split: sum.splits)
qed

lemma file_close_holds:
  "file_close i s = (r, s') \<Longrightarrow> holds t i b s \<Longrightarrow> away t s0 s \<Longrightarrow> holds t i b s' \<and> away t s0 s'"
  unfolding file_close_def
  by (cases "fs_call s") (auto simp: act_map_err_def dest: holds_call away_call)

lemma file_create_holds:
  assumes "file_create t s = (r, s')" "away t s0 s" "quiet t s"
  shows "away t s0 s' \<and> (\<forall>i. r = Inr i \<longrightarrow> holds t i [] s')"
proof -
  obtain r1 s1 where call: "fs_call s = (r1, s1)" by fastforce
  have a: "away t s0 s1" using away_call [OF assms(2) call] .
  then have w: "fs_wf s1" by (simp add: away_def)
  have q: "quiet t s1" using quiet_others [of s1 1 s] fs_call_state [OF call] assms(2,3) by (simp add: away_def)
  have put: "away t s0 (put_file t [] s1)"
    by (rule away_change [OF a]) (simp_all add: put_file_wf [OF w] put_file_contents [OF w])
  moreover have "holds t (case fs_names s1 t of Some i \<Rightarrow> i | None \<Rightarrow> fs_next s1) [] (put_file t [] s1)"
    using w q put_file_wf [OF w, of t "[]"] by (auto simp: holds_def quiet_def put_file_def split: option.splits)
  ultimately show ?thesis
    using assms(1) call a by (auto simp: file_create_def split: sum.splits option.splits)
qed

lemma remove_file_holds:
  assumes "remove_file t s = (r, s')" "holds t i b s" "away t s0 s"
  shows "away t s0 s' \<and> (r = Inr () \<longrightarrow> fs_names s' t = None)"
proof -
  obtain r1 s1 where call: "fs_call s = (r1, s1)" by fastforce
  have h: "holds t i b s1" "away t s0 s1" using holds_call [OF assms(2) call] away_call [OF assms(3) call] by blast+
  have "away t s0 (unlink t s1)"
    by (rule away_change [OF h(2)]) (use h(1) in \<open>simp_all add: holds_def unlink_wf unlink_contents\<close>)
  moreover have "fs_names (unlink t s1) t = None" by (simp add: unlink_def)
  ultimately show ?thesis
    using assms(1) call h by (auto simp: remove_file_def split: sum.splits option.splits)
qed

text \<open>\<open>landed t q b s0 s\<close>: the same, except that \<open>q\<close> now has the content \<open>b\<close>, and \<open>t\<close> is gone.\<close>

definition landed :: "path \<Rightarrow> path \<Rightarrow> bytes \<Rightarrow> file_system \<Rightarrow> file_system \<Rightarrow> bool" where
  "landed t q b s0 s \<longleftrightarrow> fs_wf s \<and> contents s t = None \<and> (\<exists>k. fs_others s = drop k (fs_others s0) \<and>
     (\<forall>p. p \<noteq> t \<longrightarrow> contents s p = ((fold abs_other (concat (take k (fs_others s0))) (contents s0))(q \<mapsto> b)) p))"

lemma rename_landed:
  assumes "holds t i b s" "away t s0 s" "t \<noteq> q"
  shows "landed t q b s0 (s\<lparr>fs_names := (fs_names s)(t := None, q \<mapsto> i)\<rparr>)" (is "landed t q b s0 ?s")
proof -
  have s: "fs_wf s" "fs_names s t = Some i" "fs_data s i = b" using assms(1) by (simp_all add: holds_def)
  have "fs_wf ?s" unfolding fs_wf_def
    using wf_less [OF s(1)] wf_inj [OF s(1)] s(2) assms(3) by (auto split: if_splits)
  moreover have "contents ?s p = ((contents s)(t := None, q \<mapsto> b)) p" for p
    using s(3) by (simp add: contents_def)
  ultimately show ?thesis
    using assms(2,3) unfolding landed_def away_def by auto
qed

lemma file_rename_holds:
  assumes "file_rename t q s = (r, s')" "holds t i b s" "away t s0 s" "t \<noteq> q"
  shows "case r of Inl _ \<Rightarrow> holds t i b s' \<and> away t s0 s' | Inr _ \<Rightarrow> landed t q b s0 s'"
proof -
  obtain r1 s1 where call: "fs_call s = (r1, s1)" by fastforce
  have h: "holds t i b s1" "away t s0 s1" using holds_call [OF assms(2) call] away_call [OF assms(3) call] by blast+
  have "fs_names s1 t = Some i" using h(1) by (simp add: holds_def)
  then show ?thesis
    using assms(1) call h rename_landed [OF h assms(4)] by (auto simp: file_rename_def split: sum.splits)
qed

lemma path_exists_away:
  "path_exists p s = (r, s') \<Longrightarrow> away t s0 s \<Longrightarrow> away t s0 s'"
  by (cases "fs_call s") (auto simp: path_exists_def dest: away_call split: sum.splits)

lemma path_exists_quiet:
  assumes "path_exists p s = (r, s')" "quiet t s" "fs_wf s" shows "quiet t s'"
proof -
  obtain r1 where "fs_call s = (r1, s')" using assms(1) by (cases "fs_call s") (auto simp: path_exists_def split: sum.splits)
  then show ?thesis using fs_call_state assms(2,3) quiet_others by blast
qed

lemma path_exists_contents:
  assumes "path_exists p s = (r, s')" "fs_wf s" "quiet t s" shows "contents s' t = contents s t"
proof -
  obtain r1 where "fs_call s = (r1, s')" using assms(1) by (cases "fs_call s") (auto simp: path_exists_def split: sum.splits)
  then show ?thesis using call_contents assms(2,3) by blast
qed

end
