(* ===== verification/Artifacts.thy ===== *)
theory Artifacts
  imports File_System Transport Rust_Str
begin

text \<open>
  Artifacts: the registry of providers (\<open>features/source_provider.rs\<close>), references to artifacts
  (\<open>features/artifact_reference.rs\<close>), their binding to a download
  (\<open>features/artifact_download_binding.rs\<close>) and its execution
  (\<open>features/artifact_download_execution.rs\<close>, with the request of \<open>transport.rs\<close> it makes).

  Arguments: the network (\<open>de_send\<close>: the client that is built for a policy and its answer, with
  the chunks of the body, the first error of which ends it), SHA-256, the process identifier and
  the counter of temporary names.  The secret headers of a binding are a map from names to
  values; they only reach the network.
\<close>

section \<open>Providers\<close>

datatype provider_id = ProviderId (provider_id_as_str: string)

instantiation provider_id :: linorder
begin

definition less_eq_provider_id :: "provider_id \<Rightarrow> provider_id \<Rightarrow> bool" where
  "less_eq_provider_id a b \<longleftrightarrow> provider_id_as_str a \<le> provider_id_as_str b"

definition less_provider_id :: "provider_id \<Rightarrow> provider_id \<Rightarrow> bool" where
  "less_provider_id a b \<longleftrightarrow> provider_id_as_str a < provider_id_as_str b"

instance
proof
  fix a b c :: provider_id
  show "a < b \<longleftrightarrow> a \<le> b \<and> \<not> b \<le> a" "a \<le> a" "a \<le> b \<or> b \<le> a"
    by (auto simp: less_eq_provider_id_def less_provider_id_def)
  show "a \<le> b \<Longrightarrow> b \<le> c \<Longrightarrow> a \<le> c" by (simp add: less_eq_provider_id_def)
  show "a \<le> b \<Longrightarrow> b \<le> a \<Longrightarrow> a = b" by (cases a; cases b) (simp add: less_eq_provider_id_def)
qed

end

record provider_capabilities =
  pc_items :: bool
  pc_targets :: bool
  pc_artifacts :: bool

record provider_descriptor =
  pd_id :: provider_id
  pd_display_name :: string
  pd_capabilities :: provider_capabilities

datatype provider_registry_error = DuplicateProviderId provider_id

fun provider_registry_error_display :: "provider_registry_error \<Rightarrow> string" where
  "provider_registry_error_display (DuplicateProviderId i) =
     ''source provider ID '' @ [CHR 0x22] @ provider_id_as_str i @ [CHR 0x22] @ '' is already registered''"

text \<open>The registry is an ordered map, an association list with ascending keys.\<close>

type_synonym provider_registry = "(provider_id \<times> provider_descriptor) list"

definition registry_register ::
  "provider_descriptor \<Rightarrow> provider_registry \<Rightarrow> (provider_registry_error + unit) \<times> provider_registry" where
  "registry_register d r =
     (if map_of r (pd_id d) \<noteq> None then (Inl (DuplicateProviderId (pd_id d)), r)
      else (Inr (), btree_insert (pd_id d) d r))"

definition registry_get :: "provider_registry \<Rightarrow> provider_id \<Rightarrow> provider_descriptor option" where
  "registry_get r i = map_of r i"

definition registry_iter :: "provider_registry \<Rightarrow> provider_descriptor list" where
  "registry_iter r = map snd r"

section \<open>References\<close>

datatype artifact_identity_kind = GitBlobOid | LfsSha256 | XetHash

fun identity_kind_label :: "artifact_identity_kind \<Rightarrow> string" where
  "identity_kind_label GitBlobOid = ''git_blob_oid''"
| "identity_kind_label LfsSha256 = ''lfs_sha256''"
| "identity_kind_label XetHash = ''xet_hash''"

record artifact_identity =
  ai_kind :: artifact_identity_kind
  ai_value :: string

record artifact_reference =
  ar_provider_id :: provider_id
  ar_repository_id :: string
  ar_path :: string
  ar_requested_revision :: "string option"
  ar_resolved_revision :: "string option"
  ar_size_bytes :: "nat option"
  ar_identities :: "artifact_identity list"
  ar_download_url :: "string option"
  ar_discovered_via :: "string option"

section \<open>Binding\<close>

type_synonym secret_headers = "(string \<times> bytes) list"

record artifact_binding =
  dl_artifact :: artifact_reference
  dl_resolved_url :: url
  dl_transport :: transport_policy
  dl_headers :: "secret_headers option"

datatype artifact_binding_error =
    MissingDownloadUrl
  | InvalidDownloadUrl
  | UnsupportedDownloadScheme string
  | DownloadCredentialsNotAllowed
  | DownloadTransport transport_error

fun artifact_binding_error_display :: "artifact_binding_error \<Rightarrow> string" where
  "artifact_binding_error_display MissingDownloadUrl = ''artifact has no resolved download URL''"
| "artifact_binding_error_display InvalidDownloadUrl = ''artifact download URL is invalid''"
| "artifact_binding_error_display (UnsupportedDownloadScheme scheme) =
     ''unsupported artifact download URL scheme '' @ [CHR 0x22] @ scheme @ [CHR 0x22] @
     '': only http and https are accepted''"
| "artifact_binding_error_display DownloadCredentialsNotAllowed =
     ''artifact download URL credentials are not allowed; use ephemeral request headers''"
| "artifact_binding_error_display (DownloadTransport e) = transport_error_display e"

definition bind_artifact ::
  "url_parser \<Rightarrow> artifact_reference \<Rightarrow> transport_policy \<Rightarrow> secret_headers option
    \<Rightarrow> artifact_binding_error + artifact_binding" where
  "bind_artifact parse artifact transport headers =
     res_bind (ok_or MissingDownloadUrl (ar_download_url artifact)) (\<lambda>raw_url.
     res_bind (map_err (\<lambda>_. InvalidDownloadUrl) (parse raw_url)) (\<lambda>resolved.
       if u_scheme resolved \<noteq> ''http'' \<and> u_scheme resolved \<noteq> ''https''
       then Inl (UnsupportedDownloadScheme (u_scheme resolved))
       else if u_username resolved \<noteq> [] \<or> u_password resolved \<noteq> None
       then Inl DownloadCredentialsNotAllowed
       else res_bind (map_err DownloadTransport (validate_target resolved transport)) (\<lambda>_.
         Inr \<lparr>dl_artifact = artifact, dl_resolved_url = resolved, dl_transport = transport,
              dl_headers = headers\<rparr>)))"

section \<open>Execution\<close>

record streaming_response =
  sr_status :: nat
  sr_url :: url
  sr_content_type :: "string option"
  sr_content_length :: "nat option"
  sr_body :: "(string + bytes) list"

record download_env =
  de_send :: "url \<Rightarrow> transport_policy \<Rightarrow> secret_headers \<Rightarrow> transport_error + streaming_response"
  de_sha256_hex :: "bytes \<Rightarrow> string"
  de_process_id :: nat
  de_counter :: nat

definition execute_streaming_request ::
  "download_env \<Rightarrow> url \<Rightarrow> transport_policy \<Rightarrow> secret_headers \<Rightarrow> transport_error + streaming_response" where
  "execute_streaming_request env u policy headers =
     res_bind (validate_target u policy) (\<lambda>_. de_send env u policy headers)"

datatype identity_verification = Verified | NotLocallyVerified

record verified_identity =
  vi_kind :: artifact_identity_kind
  vi_declared_value :: string
  vi_verification :: identity_verification

record acquired_artifact =
  aa_artifact :: artifact_reference
  aa_final_url :: url
  aa_status_code :: nat
  aa_content_type :: "string option"
  aa_declared_content_length :: "nat option"
  aa_destination :: path
  aa_bytes_written :: nat
  aa_sha256_hex :: string
  aa_identity_verifications :: "verified_identity list"

datatype declared_size_source = ContentLength | ProviderDeclaredSize

datatype download_error =
    DownloadTransportFailed transport_error
  | NonSuccessStatus nat url
  | DestinationAlreadyExists path
  | DestinationIoFailed string
  | StreamFailed string
  | MaxBytesExceeded nat nat
  | SizeMismatch declared_size_source nat nat
  | IdentityMismatch artifact_identity_kind string string
  | FinalizationFailed string
  | CleanupFailed download_error string

definition path_display :: "path \<Rightarrow> string" where
  "path_display p = concat (map (\<lambda>c. CHR ''/'' # c) p)"

fun identity_kind_debug :: "artifact_identity_kind \<Rightarrow> string" where
  "identity_kind_debug GitBlobOid = ''GitBlobOid''"
| "identity_kind_debug LfsSha256 = ''LfsSha256''"
| "identity_kind_debug XetHash = ''XetHash''"

fun download_error_display :: "download_error \<Rightarrow> string" where
  "download_error_display (DownloadTransportFailed e) = transport_error_display e"
| "download_error_display (NonSuccessStatus status final_url) =
     ''artifact download failed with HTTP status '' @ show_nat status @ '' at '' @ u_as_str final_url"
| "download_error_display (DestinationAlreadyExists p) =
     ''artifact destination already exists: '' @ path_display p"
| "download_error_display (DestinationIoFailed m) = ''artifact destination I/O failed: '' @ m"
| "download_error_display (StreamFailed m) = ''artifact body stream failed: '' @ m"
| "download_error_display (MaxBytesExceeded max_bytes attempted) =
     ''artifact download exceeded the '' @ show_nat max_bytes @ ''-byte budget ('' @ show_nat attempted @
     '' bytes attempted); aborted mid-stream''"
| "download_error_display (SizeMismatch source declared actual) =
     ''artifact size mismatch: '' @
     (case source of ContentLength \<Rightarrow> ''Content-Length'' | ProviderDeclaredSize \<Rightarrow> ''provider-declared size'') @
     '' declared '' @ show_nat declared @ '' bytes, actually streamed '' @ show_nat actual @ '' bytes''"
| "download_error_display (IdentityMismatch kind declared computed) =
     ''artifact identity mismatch ('' @ identity_kind_debug kind @ ''): declared '' @ declared @
     '', computed '' @ computed"
| "download_error_display (FinalizationFailed m) = ''artifact finalization failed: '' @ m"
| "download_error_display (CleanupFailed primary cleanup) =
     download_error_display primary @ ''; additionally, cleanup of the temporary artifact file failed: '' @ cleanup"

definition is_locally_verifiable :: "artifact_identity_kind \<Rightarrow> bool" where
  "is_locally_verifiable kind \<longleftrightarrow> kind = LfsSha256"

definition path_file_name :: "path \<Rightarrow> string option" where
  "path_file_name p = (if p = [] then None else Some (last p))"

definition with_file_name :: "string \<Rightarrow> path \<Rightarrow> path" where
  "with_file_name n p = butlast p @ [n]"

definition temp_path_for :: "download_env \<Rightarrow> path \<Rightarrow> path" where
  "temp_path_for env destination =
     with_file_name ((case path_file_name destination of Some n \<Rightarrow> n | None \<Rightarrow> []) @
       ''.part-'' @ show_nat (de_process_id env) @ ''-'' @ show_nat (de_counter env)) destination"

definition cleanup_and_fail_with :: "path \<Rightarrow> download_error \<Rightarrow> (file_system, download_error, 'a) act" where
  "cleanup_and_fail_with temp primary s =
     (case remove_file temp s of
        (Inr _, s) \<Rightarrow> (Inl primary, s)
      | (Inl cleanup, s) \<Rightarrow> (Inl (CleanupFailed primary cleanup), s))"

text \<open>
  The loop over the chunks; \<open>hashed\<close> is what the hasher was fed, \<open>n\<close> the number of bytes
  written so far.
\<close>

fun stream_body ::
  "nat option \<Rightarrow> path \<Rightarrow> nat \<Rightarrow> (string + bytes) list \<Rightarrow> bytes \<Rightarrow> nat
    \<Rightarrow> (file_system, download_error, bytes \<times> nat) act" where
  "stream_body max_bytes temp writer [] hashed n = act_ok (hashed, n)"
| "stream_body max_bytes temp writer (Inl e # _) hashed n = cleanup_and_fail_with temp (StreamFailed e)"
| "stream_body max_bytes temp writer (Inr chunk # chunks) hashed n =
     (\<lambda>s. case max_bytes of
        Some m \<Rightarrow>
          if n + length chunk > m then cleanup_and_fail_with temp (MaxBytesExceeded m (n + length chunk)) s
          else (case file_write writer chunk s of
                  (Inl e, s) \<Rightarrow> cleanup_and_fail_with temp (DestinationIoFailed e) s
                | (Inr _, s) \<Rightarrow> stream_body max_bytes temp writer chunks (hashed @ chunk) (n + length chunk) s)
      | None \<Rightarrow>
          (case file_write writer chunk s of
             (Inl e, s) \<Rightarrow> cleanup_and_fail_with temp (DestinationIoFailed e) s
           | (Inr _, s) \<Rightarrow> stream_body max_bytes temp writer chunks (hashed @ chunk) (n + length chunk) s))"

definition check_size ::
  "declared_size_source \<Rightarrow> nat option \<Rightarrow> nat \<Rightarrow> download_error + unit" where
  "check_size source declared n =
     (case declared of
        Some m \<Rightarrow> if m \<noteq> n then Inl (SizeMismatch source m n) else Inr ()
      | None \<Rightarrow> Inr ())"

fun verify_identities :: "string \<Rightarrow> artifact_identity list \<Rightarrow> download_error + verified_identity list" where
  "verify_identities sha [] = Inr []"
| "verify_identities sha (i # is) =
     (if \<not> is_locally_verifiable (ai_kind i) then
        res_bind (verify_identities sha is) (\<lambda>vs.
          Inr (\<lparr>vi_kind = ai_kind i, vi_declared_value = ai_value i, vi_verification = NotLocallyVerified\<rparr> # vs))
      else if \<not> eq_ignore_ascii_case (ai_value i) sha then Inl (IdentityMismatch (ai_kind i) (ai_value i) sha)
      else
        res_bind (verify_identities sha is) (\<lambda>vs.
          Inr (\<lparr>vi_kind = ai_kind i, vi_declared_value = ai_value i, vi_verification = Verified\<rparr> # vs)))"

text \<open>The checks after the body: declared sizes, then identities.\<close>

definition check_download ::
  "artifact_reference \<Rightarrow> nat option \<Rightarrow> string \<Rightarrow> nat \<Rightarrow> download_error + verified_identity list" where
  "check_download artifact content_length sha n =
     res_bind (check_size ContentLength content_length n) (\<lambda>_.
     res_bind (check_size ProviderDeclaredSize (ar_size_bytes artifact) n) (\<lambda>_.
       verify_identities sha (ar_identities artifact)))"

text \<open>From the end of the body to the rename.\<close>

definition finish_download ::
  "download_env \<Rightarrow> artifact_binding \<Rightarrow> streaming_response \<Rightarrow> path \<Rightarrow> path \<Rightarrow> nat \<Rightarrow> bytes \<Rightarrow> nat
    \<Rightarrow> (file_system, download_error, acquired_artifact) act" where
  "finish_download env binding response destination temp writer hashed n s =
     (case file_close writer s of
        (Inl e, s) \<Rightarrow> cleanup_and_fail_with temp (DestinationIoFailed e) s
      | (Inr _, s) \<Rightarrow>
          (let sha = de_sha256_hex env hashed
           in case check_download (dl_artifact binding) (sr_content_length response) sha n of
                Inl e \<Rightarrow> cleanup_and_fail_with temp e s
              | Inr verifications \<Rightarrow>
                  (case file_rename temp destination s of
                     (Inl e, s) \<Rightarrow> cleanup_and_fail_with temp (FinalizationFailed e) s
                   | (Inr _, s) \<Rightarrow>
                       (Inr \<lparr>aa_artifact = dl_artifact binding, aa_final_url = sr_url response,
                          aa_status_code = sr_status response, aa_content_type = sr_content_type response,
                          aa_declared_content_length = sr_content_length response,
                          aa_destination = destination, aa_bytes_written = n, aa_sha256_hex = sha,
                          aa_identity_verifications = verifications\<rparr>, s))))"

definition execute_download ::
  "download_env \<Rightarrow> artifact_binding \<Rightarrow> path \<Rightarrow> nat option
    \<Rightarrow> (file_system, download_error, acquired_artifact) act" where
  "execute_download env binding destination max_bytes =
     act_bind (act_lift (map_err DownloadTransportFailed
       (execute_streaming_request env (dl_resolved_url binding) (dl_transport binding)
          (case dl_headers binding of Some h \<Rightarrow> h | None \<Rightarrow> [])))) (\<lambda>response.
     if \<not> (200 \<le> sr_status response \<and> sr_status response < 300)
     then act_err (NonSuccessStatus (sr_status response) (sr_url response))
     else
       act_bind (path_exists destination) (\<lambda>exists.
       if exists then act_err (DestinationAlreadyExists destination)
       else
         (let temp = temp_path_for env destination
          in act_bind (act_map_err DestinationIoFailed (file_create temp)) (\<lambda>writer.
             act_bind (stream_body max_bytes temp writer (sr_body response) [] 0) (\<lambda>(hashed, n).
             finish_download env binding response destination temp writer hashed n)))))"

end
