(* ===== verification/Artifact_Properties.thy ===== *)
theory Artifact_Properties
  imports Artifacts
begin

text \<open>
  Properties of artifact downloads: whatever fails, and whatever other processes do meanwhile,
  nothing but the finished artifact appears under its name; what a finished artifact says is
  what was observed; and what happens to a file that gets the name during the download.
\<close>

section \<open>The temporary file\<close>

lemma temp_differs: "temp_path_for env destination \<noteq> destination"
proof
  assume eq: "temp_path_for env destination = destination"
  let ?suffix = "''.part-'' @ show_nat (de_process_id env) @ ''-'' @ show_nat (de_counter env)"
  have ne: "destination \<noteq> []" using eq by (auto simp: temp_path_for_def with_file_name_def)
  then have "last (temp_path_for env destination) = last destination @ ?suffix"
    by (simp add: temp_path_for_def with_file_name_def path_file_name_def)
  then have "last destination @ ?suffix = last destination" using eq by simp
  then show False by (simp only: append_self_conv) simp
qed

text \<open>\<open>failed t s0 e s\<close>: nothing was changed but by others, and the temporary file is gone
  unless the error says that it could not be removed.\<close>

definition failed :: "path \<Rightarrow> file_system \<Rightarrow> download_error \<Rightarrow> file_system \<Rightarrow> bool" where
  "failed t s0 e s \<longleftrightarrow> away t s0 s \<and> (contents s t = None \<or> (\<exists>p c. e = CleanupFailed p c))"

lemma cleanup_fails:
  assumes "cleanup_and_fail_with t e s = (r, s')" "holds t i b s" "away t s0 s"
  shows "\<exists>e'. r = Inl e' \<and> failed t s0 e' s'"
proof -
  obtain r1 s1 where rm: "remove_file t s = (r1, s1)" by fastforce
  show ?thesis using remove_file_holds [OF rm assms(2,3)] rm assms(1)
    by (auto simp: cleanup_and_fail_with_def failed_def split: sum.splits)
qed

section \<open>The body\<close>

fun body_of :: "(string + bytes) list \<Rightarrow> bytes option" where
  "body_of [] = Some []"
| "body_of (Inl e # cs) = None"
| "body_of (Inr c # cs) = map_option ((@) c) (body_of cs)"

definition within :: "nat option \<Rightarrow> nat \<Rightarrow> bool" where
  "within max_bytes n \<longleftrightarrow> (case max_bytes of Some m \<Rightarrow> n \<le> m | None \<Rightarrow> True)"

lemma stream_chunk:
  "stream_body max_bytes t w (Inr c # cs) h n s =
     (if within max_bytes (n + length c) then
        (case file_write w c s of
           (Inl e, s) \<Rightarrow> cleanup_and_fail_with t (DestinationIoFailed e) s
         | (Inr _, s) \<Rightarrow> stream_body max_bytes t w cs (h @ c) (n + length c) s)
      else cleanup_and_fail_with t (MaxBytesExceeded (the max_bytes) (n + length c)) s)"
  by (cases max_bytes) (auto simp: within_def)

declare stream_body.simps(3) [simp del]

lemma cleanup_error: "cleanup_and_fail_with t e s = (r, s') \<Longrightarrow> \<exists>e. r = Inl e"
  by (auto simp: cleanup_and_fail_with_def split: prod.splits sum.splits)

lemma stream_result:
  assumes "stream_body max_bytes t w cs h n s = (Inr (b, m), s')" "within max_bytes n"
  shows "\<exists>d. body_of cs = Some d \<and> b = h @ d \<and> m = n + length d \<and> within max_bytes m"
  using assms
proof (induction cs arbitrary: h n s)
  case Nil
  then show ?case by simp
next
  case (Cons x cs)
  show ?case
  proof (cases x)
    case (Inl e)
    then show ?thesis using Cons.prems(1) cleanup_error by fastforce
  next
    case (Inr c)
    then have ok: "within max_bytes (n + length c)"
      using Cons.prems(1) cleanup_error by (fastforce simp: stream_chunk split: if_splits)
    then obtain s1 where "stream_body max_bytes t w cs (h @ c) (n + length c) s1 = (Inr (b, m), s')"
      using Cons.prems(1) Inr cleanup_error by (fastforce simp: stream_chunk split: prod.splits sum.splits)
    from Cons.IH [OF this ok] show ?thesis using Inr by auto
  qed
qed

lemma stream_holds:
  assumes "stream_body max_bytes t w cs h n s = (r, s')" "holds t w h s" "away t s0 s"
  shows "case r of Inl e \<Rightarrow> failed t s0 e s' | Inr (b, m) \<Rightarrow> holds t w b s' \<and> away t s0 s'"
  using assms
proof (induction cs arbitrary: h n s)
  case (Cons x cs)
  have cleanup: "case r of Inl e \<Rightarrow> failed t s0 e s' | Inr (b, m) \<Rightarrow> holds t w b s' \<and> away t s0 s'"
    if "cleanup_and_fail_with t e s1 = (r, s')" "holds t w b s1" "away t s0 s1" for e b s1
    using cleanup_fails [OF that] by auto
  show ?case
  proof (cases x)
    case (Inl e)
    then show ?thesis using cleanup [OF _ Cons.prems(2,3)] Cons.prems(1) by simp
  next
    case (Inr c)
    show ?thesis
    proof (cases "within max_bytes (n + length c)")
      case False
      then show ?thesis using cleanup [OF _ Cons.prems(2,3)] Cons.prems(1) Inr by (simp add: stream_chunk)
    next
      case True
      obtain r1 s1 where wr: "file_write w c s = (r1, s1)" by fastforce
      note written = file_write_holds [OF wr Cons.prems(2,3)]
      show ?thesis
      proof (cases r1)
        case (Inl e)
        then obtain b' where "holds t w b' s1" using written by auto
        then show ?thesis using cleanup [of _ s1] written wr Inl True Cons.prems(1) \<open>x = Inr c\<close>
          by (simp add: stream_chunk)
      next
        case (Inr u)
        then have "stream_body max_bytes t w cs (h @ c) (n + length c) s1 = (r, s')"
          using Cons.prems(1) wr True \<open>x = Inr c\<close> by (simp add: stream_chunk)
        then show ?thesis using Cons.IH written Inr by simp
      qed
    qed
  qed
qed auto

lemma call_without_faults:
  assumes "fs_faults s = []" shows "fs_call s = (Inr (), run_others s)" "fs_faults (run_others s) = []"
proof -
  have "fs_faults (other_step op s) = fs_faults s" for op s
    by (cases op) (simp_all add: put_file_def unlink_def split: option.splits)
  then have "fs_faults (fold other_step ops s) = fs_faults s" for ops s by (induction ops arbitrary: s) simp_all
  then show f: "fs_faults (run_others s) = []" using assms by (simp add: run_others_def split: list.splits)
  show "fs_call s = (Inr (), run_others s)" by (simp add: fs_call_def f)
qed

lemma stream_without_faults:
  assumes "holds t w h s" "fs_faults s = []" "body_of cs = Some d" "within max_bytes (n + length d)"
  shows "\<exists>s'. stream_body max_bytes t w cs h n s = (Inr (h @ d, n + length d), s') \<and> fs_faults s' = []"
  using assms
proof (induction cs arbitrary: h n s d)
  case Nil
  then show ?case by simp
next
  case (Cons x cs)
  obtain c d' where x: "x = Inr c" "body_of cs = Some d'" "d = c @ d'"
    using Cons.prems(3) by (cases x) auto
  obtain s1 where wr: "file_write w c s = (Inr (), s1)" "fs_faults s1 = []"
    using call_without_faults [OF Cons.prems(2)] by (simp add: file_write_def append_data_def)
  have "holds t w (h @ c) s1"
    using file_write_holds [OF wr(1) Cons.prems(1) away_refl] Cons.prems(1) by (simp add: holds_def)
  then show ?case
    using Cons.IH [OF _ wr(2) x(2), of "h @ c" "n + length c"] Cons.prems(4) x wr(1)
    by (auto simp: stream_chunk within_def add.assoc split: option.splits)
qed

section \<open>Finishing\<close>

lemma finish_holds:
  assumes "finish_download env b resp dest t w h n s = (r, s')" "holds t w h s" "away t s0 s" "t \<noteq> dest"
  shows "case r of Inl e \<Rightarrow> failed t s0 e s' | Inr _ \<Rightarrow> landed t dest h s0 s'"
proof -
  obtain r1 s1 where cl: "file_close w s = (r1, s1)" by fastforce
  note closed = file_close_holds [OF cl assms(2,3)]
  obtain r2 s2 where rn: "file_rename t dest s1 = (r2, s2)" by fastforce
  note renamed = file_rename_holds [OF rn _ _ assms(4), of w h s0]
  show ?thesis
    using assms(1) cl rn closed renamed
    by (auto simp: finish_download_def Let_def split: sum.splits dest!: cleanup_fails)
qed

lemma finish_result:
  assumes "finish_download env b resp dest t w h n s = (Inr a, s')"
  shows "\<exists>vs. check_download (dl_artifact b) (sr_content_length resp) (de_sha256_hex env h) n = Inr vs \<and>
    a = \<lparr>aa_artifact = dl_artifact b, aa_final_url = sr_url resp, aa_status_code = sr_status resp,
      aa_content_type = sr_content_type resp, aa_declared_content_length = sr_content_length resp,
      aa_destination = dest, aa_bytes_written = n, aa_sha256_hex = de_sha256_hex env h, aa_identity_verifications = vs\<rparr>"
  using assms cleanup_error by (fastforce simp: finish_download_def Let_def split: prod.splits sum.splits)

lemma finish_without_faults:
  assumes "holds t w h s" "fs_faults s = []"
    and "check_download (dl_artifact b) (sr_content_length resp) (de_sha256_hex env h) n = Inr vs"
  shows "\<exists>a s'. finish_download env b resp dest t w h n s = (Inr a, s')"
proof -
  have cl: "file_close w s = (Inr (), run_others s)"
    using call_without_faults [OF assms(2)] by (simp add: file_close_def act_map_err_def)
  have "holds t w h (run_others (run_others s))"
    using holds_call call_without_faults assms(1,2) by metis
  then have "fs_names (run_others (run_others s)) t = Some w" by (simp add: holds_def)
  then have "\<exists>s'. file_rename t dest (run_others s) = (Inr (), s')"
    using call_without_faults [OF call_without_faults(2) [OF assms(2)]] by (simp add: file_rename_def)
  then show ?thesis using cl assms(3) by (auto simp: finish_download_def Let_def)
qed

section \<open>Whole downloads\<close>

abbreviation exists_call :: "path \<Rightarrow> (file_system, download_error, bool) act" where
  "exists_call \<equiv> path_exists"

lemma execute_cases:
  assumes "execute_download env b dest max_bytes s = (r, s')"
  obtains (early) e where "r = Inl e" "s' = s"
  | (exists) e where "exists_call dest s = (Inr True, s')" "r = Inl e"
  | (create) e s1 where "exists_call dest s = (Inr False, s1)"
      "file_create (temp_path_for env dest) s1 = (Inl e, s')" "r = Inl (DestinationIoFailed e)"
  | (stream) cs w s1 s2 e where "exists_call dest s = (Inr False, s1)"
      "file_create (temp_path_for env dest) s1 = (Inr w, s2)"
      "stream_body max_bytes (temp_path_for env dest) w cs [] 0 s2 = (Inl e, s')" "r = Inl e"
  | (finish) resp w s1 s2 h n s3 where
      "execute_streaming_request env (dl_resolved_url b) (dl_transport b)
          (case dl_headers b of Some h \<Rightarrow> h | None \<Rightarrow> []) = Inr resp"
      "200 \<le> sr_status resp" "sr_status resp < 300" "exists_call dest s = (Inr False, s1)"
      "file_create (temp_path_for env dest) s1 = (Inr w, s2)"
      "stream_body max_bytes (temp_path_for env dest) w (sr_body resp) [] 0 s2 = (Inr (h, n), s3)"
      "finish_download env b resp dest (temp_path_for env dest) w h n s3 = (r, s')"
proof -
  have "\<exists>ex s1. exists_call dest s = (Inr ex, s1)"
    by (auto simp: path_exists_def split: prod.splits sum.splits)
  then obtain ex s1 where px: "exists_call dest s = (Inr ex, s1)" by blast
  obtain cr s2 where fc: "file_create (temp_path_for env dest) s1 = (cr, s2)" by fastforce
  show ?thesis
  proof (cases "execute_streaming_request env (dl_resolved_url b) (dl_transport b)
          (case dl_headers b of Some h \<Rightarrow> h | None \<Rightarrow> [])")
    case (Inl e)
    then show ?thesis using assms early by (auto simp: execute_download_def act_bind_lift)
  next
    case (Inr resp)
    note sent = Inr
    show ?thesis
    proof (cases "200 \<le> sr_status resp \<and> sr_status resp < 300 \<and> \<not> ex")
      case False
      then show ?thesis using assms sent px early exists
        by (auto simp: execute_download_def act_bind_lift act_bind_def split: if_splits)
    next
      case True
      note ok = True
      show ?thesis
      proof (cases cr)
        case (Inl e)
        then show ?thesis using assms sent px fc ok create
          by (auto simp: execute_download_def act_bind_lift act_bind_def Let_def act_map_err_def)
      next
        case (Inr w)
        obtain sb s3 where st: "stream_body max_bytes (temp_path_for env dest) w (sr_body resp) [] 0 s2 = (sb, s3)" by fastforce
        have run: "(case sb of Inl e \<Rightarrow> (Inl e, s3)
            | Inr (h, n) \<Rightarrow> finish_download env b resp dest (temp_path_for env dest) w h n s3) = (r, s')"
          using assms sent px fc ok Inr st
          by (auto simp: execute_download_def act_bind_lift act_bind_def Let_def act_map_err_def split: sum.splits prod.splits)
        show ?thesis
        proof (cases sb)
          case (Inl e)
          then have e: "s3 = s'" "r = Inl e" using run by simp_all
          show ?thesis by (rule stream [of s1 w s2 "sr_body resp" e]) (use e Inl st px fc ok \<open>cr = Inr w\<close> in simp_all)
        next
          case (Inr hn)
          then show ?thesis using run st finish [OF sent] px fc ok \<open>cr = Inr w\<close> by (cases hn) simp
        qed
      qed
    qed
  qed
qed

text \<open>C20. A download changes nothing but its destination, and that only when it succeeds.  Whatever
  faults the file system and the network have, and whatever other processes do to files other
  than the temporary one: after a failure every other path is as the other processes left it,
  and the temporary file is gone or as before unless the error says that it could not be
  removed; after a success the temporary file is gone and the destination holds exactly the
  bytes of the body, every other path again being as the others left it.\<close>

theorem download_all_or_nothing:
  assumes "fs_wf s" "quiet (temp_path_for env dest) s" "execute_download env b dest max_bytes s = (r, s')"
  shows "case r of
      Inl e \<Rightarrow> away (temp_path_for env dest) s s' \<and>
        (contents s' (temp_path_for env dest) \<in> {None, contents s (temp_path_for env dest)} \<or>
         (\<exists>p c. e = CleanupFailed p c))
    | Inr a \<Rightarrow> (\<exists>resp body.
        execute_streaming_request env (dl_resolved_url b) (dl_transport b)
          (case dl_headers b of Some h \<Rightarrow> h | None \<Rightarrow> []) = Inr resp \<and>
        body_of (sr_body resp) = Some body \<and> landed (temp_path_for env dest) dest body s s')"
  using assms(3)
proof (cases rule: execute_cases)
  case early
  then show ?thesis using away_refl [OF assms(1)] by simp
next
  let ?t = "temp_path_for env dest"
  have untouched: "contents s1 ?t = contents s ?t" if "exists_call dest s = (x, s1)" for x s1
    by (rule path_exists_contents [OF that assms(1,2)])
  {
    case (exists e)
    then show ?thesis using path_exists_away [OF exists(1) away_refl [OF assms(1)]] untouched by simp
  next
    case (create e s1)
    note a = path_exists_away [OF create(1) away_refl [OF assms(1)], of ?t]
    note q = path_exists_quiet [OF create(1) assms(2,1)]
    have "contents s' ?t = contents s1 ?t"
      using create(2) call_contents q a by (auto simp: file_create_def away_def split: prod.splits sum.splits option.splits)
    then show ?thesis using file_create_holds [OF create(2) a q] create(3) untouched [OF create(1)] by simp
  next
    case (stream cs w s1 s2 e)
    note a = path_exists_away [OF stream(1) away_refl [OF assms(1)], of ?t]
    note q = path_exists_quiet [OF stream(1) assms(2,1)]
    note h = file_create_holds [OF stream(2) a q]
    have "failed ?t s e s'" using stream_holds [OF stream(3), of s] h by simp
    then show ?thesis using stream(4) by (auto simp: failed_def)
  next
    case (finish resp w s1 s2 h n s3)
    note a = path_exists_away [OF finish(4) away_refl [OF assms(1)], of ?t]
    note q = path_exists_quiet [OF finish(4) assms(2,1)]
    note c = file_create_holds [OF finish(5) a q]
    have st: "holds ?t w h s3" "away ?t s s3" using stream_holds [OF finish(6)] c by auto
    have "body_of (sr_body resp) = Some h"
      using stream_result [OF finish(6)] by (auto simp: within_def split: option.splits)
    then show ?thesis using finish_holds [OF finish(7) st temp_differs] finish(1)
      by (auto simp: failed_def split: sum.splits)
  }
qed

text \<open>C21. What a finished download reports is what was observed: a success status of the answer to
  a request for the validated target, the number and the hash of exactly the bytes received, no
  more than the operator allowed; the sizes that the server and the provider declared agree
  with it, every declared SHA-256 identity equals the hash up to case and is reported as
  verified, and every other identity is kept and reported as not verified.\<close>

theorem acquired_artifact_truthful:
  assumes "execute_download env b dest max_bytes s = (Inr a, s')"
  shows "\<exists>resp body. validate_target (dl_resolved_url b) (dl_transport b) = Inr () \<and>
    de_send env (dl_resolved_url b) (dl_transport b) (case dl_headers b of Some h \<Rightarrow> h | None \<Rightarrow> []) = Inr resp \<and>
    body_of (sr_body resp) = Some body \<and> within max_bytes (length body) \<and>
    aa_status_code a = sr_status resp \<and> 200 \<le> sr_status resp \<and> sr_status resp < 300 \<and>
    aa_artifact a = dl_artifact b \<and> aa_destination a = dest \<and>
    aa_bytes_written a = length body \<and> aa_sha256_hex a = de_sha256_hex env body \<and>
    sr_content_length resp \<in> {None, Some (length body)} \<and>
    ar_size_bytes (dl_artifact b) \<in> {None, Some (length body)} \<and>
    aa_identity_verifications a =
      map (\<lambda>i. \<lparr>vi_kind = ai_kind i, vi_declared_value = ai_value i,
                vi_verification = if ai_kind i = LfsSha256 then Verified else NotLocallyVerified\<rparr>)
        (ar_identities (dl_artifact b)) \<and>
    list_all (\<lambda>i. ai_kind i = LfsSha256 \<longrightarrow> eq_ignore_ascii_case (ai_value i) (de_sha256_hex env body))
      (ar_identities (dl_artifact b))"
  using assms
proof (cases rule: execute_cases)
  case (finish resp w s1 s2 h n s3)
  have h: "body_of (sr_body resp) = Some h" "n = length h" "within max_bytes n"
    using stream_result [OF finish(6)] by (auto simp: within_def split: option.splits)
  obtain vs where vs: "check_download (dl_artifact b) (sr_content_length resp) (de_sha256_hex env h) n = Inr vs"
    and a: "a = \<lparr>aa_artifact = dl_artifact b, aa_final_url = sr_url resp, aa_status_code = sr_status resp,
      aa_content_type = sr_content_type resp, aa_declared_content_length = sr_content_length resp,
      aa_destination = dest, aa_bytes_written = n, aa_sha256_hex = de_sha256_hex env h, aa_identity_verifications = vs\<rparr>"
    using finish_result [OF finish(7)] by blast
  have "vs = map (\<lambda>i. \<lparr>vi_kind = ai_kind i, vi_declared_value = ai_value i,
                vi_verification = if ai_kind i = LfsSha256 then Verified else NotLocallyVerified\<rparr>) is \<and>
      list_all (\<lambda>i. ai_kind i = LfsSha256 \<longrightarrow> eq_ignore_ascii_case (ai_value i) sha) is"
    if "verify_identities sha is = Inr vs" for sha "is" vs
    using that by (induction "is" arbitrary: vs) (auto simp: res_bind_Inr is_locally_verifiable_def split: if_splits)
  moreover have "check_size source declared n = Inr () \<longleftrightarrow> declared \<in> {None, Some n}" for source declared
    by (auto simp: check_size_def split: option.splits)
  ultimately show ?thesis
    using vs a h finish(1,2,3) by (auto simp: check_download_def res_bind_Inr execute_streaming_request_def)
qed simp_all

section \<open>A file that gets the name meanwhile\<close>

text \<open>C22. A download that meets no fault, whose destination was free when that was checked and
  whose answer agrees with what was declared, succeeds and puts its bytes at the destination -
  also when another process has created a file there in the meantime, which is lost.\<close>

theorem download_replaces_newcomer:
  assumes "fs_wf s" "quiet (temp_path_for env dest) s" "fs_faults s = []" "contents (run_others s) dest = None"
    and "execute_streaming_request env (dl_resolved_url b) (dl_transport b)
      (case dl_headers b of Some h \<Rightarrow> h | None \<Rightarrow> []) = Inr resp"
    and "200 \<le> sr_status resp" "sr_status resp < 300"
    and "body_of (sr_body resp) = Some body" "within max_bytes (length body)"
    and "check_download (dl_artifact b) (sr_content_length resp) (de_sha256_hex env body) (length body) = Inr vs"
  shows "\<exists>a s'. execute_download env b dest max_bytes s = (Inr a, s') \<and> contents s' dest = Some body"
proof -
  let ?t = "temp_path_for env dest"
  let ?s = "run_others s"
  have px: "exists_call dest s = (Inr False, ?s)"
    using call_without_faults [OF assms(3)] assms(4) by (simp add: path_exists_def)
  have q: "quiet ?t ?s" "fs_wf ?s"
    using path_exists_quiet [OF px assms(2,1)] run_others_wf [OF assms(1)] by blast+
  have a: "away ?t s ?s" by (rule path_exists_away [OF px away_refl [OF assms(1)]])
  obtain w s2 where fc: "file_create ?t ?s = (Inr w, s2)" "fs_faults s2 = []"
    using call_without_faults [OF call_without_faults(2) [OF assms(3)]]
    by (cases "fs_names (run_others ?s) ?t") (auto simp: file_create_def put_file_def)
  have c: "holds ?t w [] s2" "away ?t s s2" using file_create_holds [OF fc(1) a q(1)] by blast+
  obtain s3 where st: "stream_body max_bytes ?t w (sr_body resp) [] 0 s2 = (Inr (body, length body), s3)" "fs_faults s3 = []"
    using stream_without_faults [OF c(1) fc(2) assms(8), of max_bytes 0] assms(9) by auto
  have h: "holds ?t w body s3" "away ?t s s3" using stream_holds [OF st(1) c] by simp_all
  from finish_without_faults [OF h(1) st(2) assms(10)]
  obtain a s' where fin: "finish_download env b resp dest ?t w body (length body) s3 = (Inr a, s')" by blast
  have ex: "execute_download env b dest max_bytes s = (Inr a, s')"
    using assms(5,6,7) px fc(1) st(1) fin
    by (simp add: execute_download_def act_bind_lift act_bind_def Let_def act_map_err_def)
  have "landed ?t dest body s s'" using finish_holds [OF fin h temp_differs] by simp
  then show ?thesis using ex temp_differs [of env dest] by (auto simp: landed_def)
qed

section \<open>Binding and providers\<close>

text \<open>A bound artifact has a web URL without credentials that its transport policy admits.\<close>

theorem bound_artifact_admissible:
  assumes "bind_artifact parse artifact policy headers = Inr b"
  shows "dl_artifact b = artifact \<and> dl_transport b = policy \<and> dl_headers b = headers \<and>
    u_scheme (dl_resolved_url b) \<in> {''http'', ''https''} \<and>
    u_username (dl_resolved_url b) = [] \<and> u_password (dl_resolved_url b) = None \<and>
    validate_target (dl_resolved_url b) policy = Inr ()"
  using assms by (auto simp: bind_artifact_def res_bind_Inr split: if_splits)

text \<open>
  The registry answers with the first descriptor that was registered under an identity, and
  lists the descriptors in ascending order of their identities.
\<close>

theorem first_registration_wins:
  fixes ds :: "provider_descriptor list"
  defines "r \<equiv> fold (\<lambda>d r. snd (registry_register d r)) ds []"
  shows "btree_sorted r \<and> registry_get r i = List.find (\<lambda>d. pd_id d = i) ds"
proof -
  have "btree_sorted (fold (\<lambda>d r. snd (registry_register d r)) ds r0) \<and>
      registry_get (fold (\<lambda>d r. snd (registry_register d r)) ds r0) i =
        (case registry_get r0 i of Some d \<Rightarrow> Some d | None \<Rightarrow> List.find (\<lambda>d. pd_id d = i) ds)"
    if "btree_sorted r0" for r0
    using that
  proof (induction ds arbitrary: r0)
    case (Cons d ds)
    have "btree_sorted (snd (registry_register d r0))"
      using Cons.prems by (auto simp: registry_register_def intro: btree_sorted_insert)
    moreover have "registry_get (snd (registry_register d r0)) i =
        (case registry_get r0 i of Some d' \<Rightarrow> Some d' | None \<Rightarrow> if pd_id d = i then Some d else None)"
      by (auto simp: registry_register_def registry_get_def map_of_btree_insert split: option.splits)
    ultimately show ?case using Cons.IH [of "snd (registry_register d r0)"] by (auto split: option.splits)
  qed (simp split: option.splits)
  from this [of "[]"] show ?thesis by (simp add: r_def registry_get_def)
qed

section \<open>Witnesses\<close>

definition sample_artifact_url :: url where
  "sample_artifact_url = \<lparr>u_as_str = ''https://a.se/m'', u_scheme = ''https'', u_username = [], u_password = None,
     u_host_str = Some ''a.se'', u_port = None, u_path = ''/m'', u_query = None, u_fragment = None\<rparr>"

definition sample_artifact_binding :: artifact_binding where
  "sample_artifact_binding = \<lparr>dl_artifact = \<lparr>ar_provider_id = ProviderId ''p'', ar_repository_id = ''r'', ar_path = ''m'',
       ar_requested_revision = None, ar_resolved_revision = None, ar_size_bytes = Some 3,
       ar_identities = [\<lparr>ai_kind = LfsSha256, ai_value = ''AB''\<rparr>, \<lparr>ai_kind = XetHash, ai_value = ''x''\<rparr>],
       ar_download_url = Some ''https://a.se/m'', ar_discovered_via = None\<rparr>,
     dl_resolved_url = sample_artifact_url, dl_transport = PolicyDefault, dl_headers = None\<rparr>"

definition sample_answer :: streaming_response where
  "sample_answer = \<lparr>sr_status = 200, sr_url = sample_artifact_url, sr_content_type = None,
     sr_content_length = Some 3, sr_body = [Inr [1, 2], Inr [3]]\<rparr>"

definition sample_download_env :: download_env where
  "sample_download_env = \<lparr>de_send = (\<lambda>_ _ _. Inr sample_answer), de_sha256_hex = (\<lambda>_. ''ab''),
     de_process_id = 7, de_counter = 0\<rparr>"

text \<open>One file is there; during the download another process writes the destination, and the
  calls end with the given faults.\<close>

definition sample_files :: "(nat \<times> string) option list \<Rightarrow> file_system" where
  "sample_files faults = \<lparr>fs_names = [[''other''] \<mapsto> 0], fs_data = (\<lambda>_. [5]), fs_next = 1,
     fs_others = [[], [OtherWrite [''m''] [9]]], fs_faults = faults\<rparr>"

lemma sample_files_ok: "fs_wf (sample_files faults)" "quiet (temp_path_for sample_download_env [''m'']) (sample_files faults)"
  by (auto simp: sample_files_def fs_wf_def quiet_def temp_path_for_def with_file_name_def path_file_name_def
      split: if_splits)

lemma sample_artifact_request:
  "execute_streaming_request sample_download_env (dl_resolved_url sample_artifact_binding)
     (dl_transport sample_artifact_binding)
     (case dl_headers sample_artifact_binding of Some h \<Rightarrow> h | None \<Rightarrow> []) = Inr sample_answer"
proof -
  have "validate_target sample_artifact_url PolicyDefault = Inr ()" by code_simp
  then show ?thesis by (simp add: execute_streaming_request_def sample_artifact_binding_def sample_download_env_def)
qed

lemma sample_checks:
  "check_download (dl_artifact sample_artifact_binding) (sr_content_length sample_answer)
     (de_sha256_hex sample_download_env [1, 2, 3]) (length [1, 2, 3 :: 8 word]) =
   Inr [\<lparr>vi_kind = LfsSha256, vi_declared_value = ''AB'', vi_verification = Verified\<rparr>,
        \<lparr>vi_kind = XetHash, vi_declared_value = ''x'', vi_verification = NotLocallyVerified\<rparr>]"
proof -
  have "eq_ignore_ascii_case ''AB'' ''ab''" by code_simp
  then show ?thesis
    by (simp add: check_download_def check_size_def sample_artifact_binding_def sample_answer_def
        sample_download_env_def is_locally_verifiable_def)
qed

lemma download_replaces_newcomer_witness:
  "\<exists>a s'. execute_download sample_download_env sample_artifact_binding [''m''] (Some 3) (sample_files []) = (Inr a, s') \<and>
    contents s' [''m''] = Some [1, 2, 3]"
proof -
  have "contents (run_others (sample_files [])) [''m''] = None"
    by (simp add: sample_files_def run_others_def contents_def)
  then show ?thesis
    by (intro download_replaces_newcomer [OF sample_files_ok _ _ sample_artifact_request _ _ _ _ sample_checks])
      (simp_all add: sample_files_def sample_answer_def within_def)
qed

lemma acquired_artifact_truthful_witness:
  "case fst (execute_download sample_download_env sample_artifact_binding [''m''] None (sample_files [])) of
     Inl _ \<Rightarrow> False | Inr a \<Rightarrow> aa_bytes_written a = 3 \<and> aa_sha256_hex a = ''ab''"
proof -
  let ?run = "execute_download sample_download_env sample_artifact_binding [''m''] None (sample_files [])"
  have "\<not> isl (fst ?run)" by code_simp
  then obtain a where a: "fst ?run = Inr a" by (cases "fst ?run") auto
  then have "?run = (Inr a, snd ?run)" by (metis prod.collapse)
  from acquired_artifact_truthful [OF this]
  show ?thesis using a by (auto simp: sample_download_env_def sample_answer_def)
qed

lemma download_all_or_nothing_witness:
  "contents (snd (execute_download sample_download_env sample_artifact_binding [''m''] None
     (sample_files [None, None, Some (1, ''disk full'')]))) [''other''] = Some [5]"
proof -
  let ?s = "sample_files [None, None, Some (1, ''disk full'')]"
  let ?run = "execute_download sample_download_env sample_artifact_binding [''m''] None ?s"
  have "isl (fst ?run)" by code_simp
  then obtain e where e: "fst ?run = Inl e" by (cases "fst ?run") auto
  then have "?run = (Inl e, snd ?run)" by (metis prod.collapse)
  from download_all_or_nothing [OF sample_files_ok this]
  have "away (temp_path_for sample_download_env [''m'']) ?s (snd ?run)" by simp
  moreover have "[''other''] \<noteq> temp_path_for sample_download_env [''m'']" by code_simp
  ultimately obtain k where
    "contents (snd ?run) [''other''] = fold abs_other (concat (take k (fs_others ?s))) (contents ?s) [''other'']"
    unfolding away_def by blast
  moreover have "fold abs_other (concat (take k (fs_others ?s))) (contents ?s) [''other''] = Some [5]" for k
    by (cases k; cases "k - 1") (auto simp: sample_files_def contents_def)
  ultimately show ?thesis by simp
qed

end
