(* ===== verification/Url_Trie.thy ===== *)
theory Url_Trie
  imports Rust_Str "HOL-Library.AList"
begin

text \<open>
  The trie over URL paths (\<open>spider/src/utils/trie.rs\<close>) that selects the scripts to run on a
  page: a node has children by path segment and may have a value; segments with a dot are
  skipped.  The hash map of children is an association list.
\<close>

section \<open>Nodes\<close>

datatype 'v trie_node = TrieNode (node_children: "(string \<times> 'v trie_node) list") (node_value: "'v option")

definition new_node :: "'v trie_node" where
  "new_node = TrieNode [] None"

record 'v trie =
  tr_root :: "'v trie_node"
  tr_match_all :: bool

definition new_trie :: "'v trie" where
  "new_trie = \<lparr>tr_root = new_node, tr_match_all = False\<rparr>"

section \<open>Scanning\<close>

text \<open>The offset of the next slash (or the length), and whether a dot comes before it.\<close>

fun scan_slash :: "string \<Rightarrow> nat" where
  "scan_slash [] = 0"
| "scan_slash (c # cs) = (if c = CHR ''/'' then 0 else Suc (scan_slash cs))"

fun scan_segment :: "string \<Rightarrow> nat \<times> bool" where
  "scan_segment [] = (0, False)"
| "scan_segment (c # cs) =
     (if c = CHR ''/'' then (0, False)
      else if c = CHR ''.'' then (Suc (scan_slash cs), True)
      else (case scan_segment cs of (n, dot) \<Rightarrow> (Suc n, dot)))"

fun str_find :: "string \<Rightarrow> string \<Rightarrow> nat option" where
  "str_find p [] = (if p = [] then Some 0 else None)"
| "str_find p (c # cs) = (if prefix p (c # cs) then Some 0 else map_option Suc (str_find p cs))"

definition path_start :: "string \<Rightarrow> nat" where
  "path_start path =
     (case (if prefix ''https://'' path then Some 8
            else if prefix ''http://'' path then Some 7
            else map_option (\<lambda>pos. pos + 3) (str_find ''://'' path)) of
        None \<Rightarrow> 0
      | Some after_scheme \<Rightarrow>
          if after_scheme < length path then
            (case find_char (CHR ''/'') (drop after_scheme path) of
               None \<Rightarrow> length path
             | Some p \<Rightarrow> after_scheme + p)
          else 0)"

lemma scan_segment_start: "fst (scan_segment (c # cs)) = 0 \<longleftrightarrow> c = CHR ''/''"
  by (simp split: prod.splits)

section \<open>Insertion and search\<close>

text \<open>
  The loop of an insertion over the rest of the path; at the end of the path the node gets the
  value.
\<close>

definition child_or_new :: "string \<Rightarrow> 'v trie_node \<Rightarrow> 'v trie_node" where
  "child_or_new segment node = (case map_of (node_children node) segment of Some n \<Rightarrow> n | None \<Rightarrow> new_node)"

definition set_child :: "string \<Rightarrow> 'v trie_node \<Rightarrow> 'v trie_node \<Rightarrow> 'v trie_node" where
  "set_child segment child node = TrieNode (AList.update segment child (node_children node)) (node_value node)"

function insert_loop :: "string \<Rightarrow> 'v \<Rightarrow> 'v trie_node \<Rightarrow> 'v trie_node" where
  "insert_loop [] v node = TrieNode (node_children node) (Some v)"
| "insert_loop (c # cs) v node =
     (if c = CHR ''/'' then insert_loop cs v node
      else (case scan_segment (c # cs) of (rel_end, saw_dot) \<Rightarrow>
        (let segment = take rel_end (c # cs); rest = drop rel_end (c # cs)
         in if \<not> saw_dot then set_child segment (insert_loop rest v (child_or_new segment node)) node
            else insert_loop rest v node)))"
  by pat_completeness auto
termination
  by (relation "measure (\<lambda>(rest, _, _). length rest)") (auto split: if_splits prod.splits)

definition trie_insert :: "string \<Rightarrow> 'v \<Rightarrow> 'v trie \<Rightarrow> 'v trie" where
  "trie_insert path v t =
     \<lparr>tr_root = insert_loop (drop (path_start path) path) v (tr_root t),
      tr_match_all = (path = ''/'' \<or> tr_match_all t)\<rparr>"

function search_loop :: "bool \<Rightarrow> string \<Rightarrow> 'v trie_node \<Rightarrow> 'v option" where
  "search_loop match_all [] node = node_value node"
| "search_loop match_all (c # cs) node =
     (if c = CHR ''/'' then search_loop match_all cs node
      else (case scan_segment (c # cs) of (rel_end, saw_dot) \<Rightarrow>
        (let segment = take rel_end (c # cs); rest = drop rel_end (c # cs)
         in if saw_dot then search_loop match_all rest node
            else case map_of (node_children node) segment of
                   Some child \<Rightarrow> search_loop match_all rest child
                 | None \<Rightarrow> if \<not> match_all then None else search_loop match_all rest node)))"
  by pat_completeness auto
termination
  by (relation "measure (\<lambda>(_, rest, _). length rest)") (auto split: if_splits prod.splits)

definition trie_search :: "string \<Rightarrow> 'v trie \<Rightarrow> 'v option" where
  "trie_search input t =
     (if node_children (tr_root t) = [] \<and> node_value (tr_root t) = None then None
      else search_loop (tr_match_all t) (drop (path_start input) input) (tr_root t))"

section \<open>Segments\<close>

text \<open>The segments of a path that count: not empty and without a dot.\<close>

definition path_segments :: "string \<Rightarrow> string list" where
  "path_segments s = filter (\<lambda>g. g \<noteq> [] \<and> CHR ''.'' \<notin> set g) (split_on (CHR ''/'') s)"

definition url_segments :: "string \<Rightarrow> string list" where
  "url_segments path = path_segments (drop (path_start path) path)"

lemma scan_slash_split: "split_on (CHR ''/'') s = take (scan_slash s) s # 
    (if scan_slash s < length s then split_on (CHR ''/'') (drop (Suc (scan_slash s)) s) else [])"
  by (induction s) auto

lemma scan_segment_slash: "fst (scan_segment s) = scan_slash s"
  by (induction s) (auto split: prod.splits)

lemma scan_segment_dot: "snd (scan_segment s) \<longleftrightarrow> CHR ''.'' \<in> set (take (scan_slash s) s)"
  by (induction s) (auto split: prod.splits)

lemma path_segments_slash [simp]: "path_segments (CHR ''/'' # s) = path_segments s"
  by (simp add: path_segments_def)

lemma path_segments_Nil [simp]: "path_segments [] = []"
  by (simp add: path_segments_def)

lemma scan_slash_drop: "scan_slash s < length s \<Longrightarrow> drop (scan_slash s) s = CHR ''/'' # drop (Suc (scan_slash s)) s"
  by (induction s) auto

lemma scan_slash_le: "scan_slash s \<le> length s"
  by (induction s) auto

lemma path_segments_step:
  "c \<noteq> CHR ''/'' \<Longrightarrow> path_segments (c # cs) =
    (if snd (scan_segment (c # cs)) then [] else [take (fst (scan_segment (c # cs))) (c # cs)]) @
    path_segments (drop (fst (scan_segment (c # cs))) (c # cs))"
proof -
  assume c: "c \<noteq> CHR ''/''"
  let ?s = "c # cs"
  have pos: "take (scan_slash ?s) ?s \<noteq> []" using c by simp
  have "path_segments ?s = (if CHR ''.'' \<in> set (take (scan_slash ?s) ?s) then [] else [take (scan_slash ?s) ?s]) @
      path_segments (drop (scan_slash ?s) ?s)"
  proof (cases "scan_slash ?s < length ?s")
    case True
    then have "path_segments (drop (scan_slash ?s) ?s) = path_segments (drop (Suc (scan_slash ?s)) ?s)"
      by (simp only: scan_slash_drop path_segments_slash)
    then show ?thesis
      unfolding path_segments_def [of ?s] by (subst scan_slash_split) (use True pos in \<open>simp add: path_segments_def\<close>)
  next
    case False
    then have "drop (scan_slash ?s) ?s = []" using scan_slash_le [of ?s] by simp
    then show ?thesis
      unfolding path_segments_def [of ?s] by (subst scan_slash_split) (use False pos in \<open>simp add: path_segments_def\<close>)
  qed
  then show ?thesis by (simp only: scan_segment_dot scan_segment_slash)
qed

end
