(* ===== verification/Frontier.thy ===== *)
theory Frontier
  imports Url_Trie "HOL-Library.Multiset" "HOL-Library.Word"
begin

text \<open>
  The prioritised frontier of URLs (\<open>spider/src/utils/frontier.rs\<close>): a heap of scored URLs, the
  set of URLs seen, an optional rotation of domains, and the scoring of URLs.

  The binary heap of the standard library is the list of its elements: which of several greatest
  elements it pops is not specified, so the choice is an argument (\<open>fd_pick\<close>, an index into the
  list, cut to its length), and \<open>heap_law\<close> says that no element is greater than the chosen one.
  The order of case-insensitive strings, which breaks ties of priority, is third-party code.
\<close>

section \<open>The heap\<close>

record scored_url =
  su_priority :: int
  su_url :: string

record frontier_deps =
  fd_url_less :: "string \<Rightarrow> string \<Rightarrow> bool"
  fd_pick :: "scored_url list \<Rightarrow> nat"

definition scored_less :: "frontier_deps \<Rightarrow> scored_url \<Rightarrow> scored_url \<Rightarrow> bool" where
  "scored_less d a b \<longleftrightarrow> su_priority a < su_priority b \<or>
     su_priority a = su_priority b \<and> fd_url_less d (su_url a) (su_url b)"

definition picked :: "frontier_deps \<Rightarrow> scored_url list \<Rightarrow> nat" where
  "picked d h = min (fd_pick d h) (length h - 1)"

definition heap_law :: "frontier_deps \<Rightarrow> bool" where
  "heap_law d \<longleftrightarrow> (\<forall>h. h \<noteq> [] \<longrightarrow> (\<forall>y \<in> set h. \<not> scored_less d (h ! picked d h) y))"

definition heap_pop :: "frontier_deps \<Rightarrow> scored_url list \<Rightarrow> (scored_url \<times> scored_url list) option" where
  "heap_pop d h =
     (if h = [] then None
      else Some (h ! picked d h, take (picked d h) h @ drop (Suc (picked d h)) h))"

lemma picked_less: "h \<noteq> [] \<Longrightarrow> picked d h < length h"
  by (cases h) (auto simp: picked_def)

lemma heap_pop_length: "heap_pop d h = Some (e, h') \<Longrightarrow> length h' < length h"
  using picked_less [of h d] by (auto simp: heap_pop_def split: if_splits)

section \<open>Domains and paths\<close>

definition extract_domain :: "string \<Rightarrow> string" where
  "extract_domain url =
     (case str_find ''://'' url of
        Some start \<Rightarrow>
          (let rest = drop (start + 3) url;
               host = (case find_char (CHR ''/'') rest of Some p \<Rightarrow> take p rest | None \<Rightarrow> rest)
           in hd (split_on (CHR '':'') host))
      | None \<Rightarrow> [])"

definition url_path :: "string \<Rightarrow> string" where
  "url_path url =
     (case str_find ''://'' url of
        Some start \<Rightarrow>
          (let rest = drop (start + 3) url
           in case find_char (CHR ''/'') rest of
                Some slash \<Rightarrow>
                  (let remaining = drop (start + 3 + slash) url
                   in case find_char (CHR ''?'') remaining of
                        Some p \<Rightarrow> take p remaining
                      | None \<Rightarrow>
                          (case find_char (CHR ''#'') remaining of
                             Some p \<Rightarrow> take p remaining
                           | None \<Rightarrow> remaining))
              | None \<Rightarrow> ''/'')
      | None \<Rightarrow> url)"

definition contains_ignore_ascii_case :: "string \<Rightarrow> string \<Rightarrow> bool" where
  "contains_ignore_ascii_case haystack needle =
     (if length needle > length haystack then False
      else list_ex (\<lambda>i. eq_ignore_ascii_case (take (length needle) (drop i haystack)) needle)
        [0..<length haystack - length needle + 1])"

section \<open>Scores\<close>

text \<open>32-bit signed arithmetic that saturates.\<close>

definition sat32 :: "int \<Rightarrow> int" where
  "sat32 x = max (- (2 ^ 31)) (min (2 ^ 31 - 1) x)"

definition HIGH_VALUE :: "string list" where
  "HIGH_VALUE = [''product'', ''article'', ''item'', ''page'']"

definition LOW_VALUE :: "string list" where
  "LOW_VALUE = [''legal'', ''privacy'', ''terms'', ''cookie'', ''disclaimer'']"

definition score_url :: "string \<Rightarrow> 32 word \<Rightarrow> int" where
  "score_url url depth =
     (let base = sat32 (1000 - sat32 (sint depth * 100));
          path = url_path url;
          score = fold (\<lambda>seg score. if contains_ignore_ascii_case path seg then sat32 (score + 50) else score)
            HIGH_VALUE base;
          score = fold (\<lambda>seg score. if contains_ignore_ascii_case path seg then sat32 (score - 200) else score)
            LOW_VALUE score
      in max 0 (min 2000 score))"

section \<open>The frontier\<close>

record frontier =
  fr_heap :: "scored_url list"
  fr_visited :: "string set"
  fr_round_robin :: bool
  fr_last_domain :: "string option"
  fr_rr_buf :: "scored_url list"

definition new_frontier :: "bool \<Rightarrow> frontier" where
  "new_frontier round_robin = \<lparr>fr_heap = [], fr_visited = {}, fr_round_robin = round_robin,
     fr_last_domain = None, fr_rr_buf = []\<rparr>"

definition frontier_push :: "string \<Rightarrow> int \<Rightarrow> frontier \<Rightarrow> bool \<times> frontier" where
  "frontier_push url priority f =
     (if url \<in> fr_visited f then (False, f)
      else (True, f\<lparr>fr_visited := insert url (fr_visited f),
                   fr_heap := fr_heap f @ [\<lparr>su_priority = priority, su_url = url\<rparr>]\<rparr>))"

text \<open>
  The loop that looks for another domain: the entry found, the rest of the heap, the entries set
  aside.
\<close>

function scan_domains ::
  "frontier_deps \<Rightarrow> string option \<Rightarrow> scored_url list \<Rightarrow> scored_url list
    \<Rightarrow> scored_url option \<times> scored_url list \<times> scored_url list" where
  "scan_domains d prev heap buf =
     (case heap_pop d heap of
        None \<Rightarrow> (None, heap, buf)
      | Some (e, h) \<Rightarrow>
          if prev = Some (extract_domain (su_url e)) then scan_domains d prev h (buf @ [e])
          else (Some e, h, buf))"
  by pat_completeness auto
termination
  by (relation "measure (\<lambda>(_, _, heap, _). length heap)") (auto dest: heap_pop_length)

definition frontier_pop :: "frontier_deps \<Rightarrow> frontier \<Rightarrow> string option \<times> frontier" where
  "frontier_pop d f =
     (if \<not> fr_round_robin f then
        (case heap_pop d (fr_heap f) of
           None \<Rightarrow> (None, f)
         | Some (e, h) \<Rightarrow> (Some (su_url e), f\<lparr>fr_heap := h\<rparr>))
      else
        (case scan_domains d (fr_last_domain f) (fr_heap f) (fr_rr_buf f) of (found, heap, buf) \<Rightarrow>
         case (case found of
                 Some e \<Rightarrow> (Some e, buf)
               | None \<Rightarrow> (case buf of [] \<Rightarrow> (None, []) | b # bs \<Rightarrow> (Some b, bs))) of (found, buf) \<Rightarrow>
         (let f = f\<lparr>fr_rr_buf := [], fr_heap := heap @ buf\<rparr>
          in case found of
               None \<Rightarrow> (None, f)
             | Some e \<Rightarrow> (Some (su_url e), f\<lparr>fr_last_domain := Some (extract_domain (su_url e))\<rparr>))))"

definition extend_with_priority :: "string list \<Rightarrow> int \<Rightarrow> frontier \<Rightarrow> frontier" where
  "extend_with_priority urls priority f = fold (\<lambda>url f. snd (frontier_push url priority f)) urls f"

definition frontier_len :: "frontier \<Rightarrow> nat" where
  "frontier_len f = length (fr_heap f)"

definition frontier_is_empty :: "frontier \<Rightarrow> bool" where
  "frontier_is_empty f \<longleftrightarrow> fr_heap f = []"

section \<open>What popping takes\<close>

lemma heap_pop_None [simp]: "heap_pop d h = None \<longleftrightarrow> h = []" "heap_pop d [] = None"
  by (simp_all add: heap_pop_def)

lemma heap_pop_mset: "heap_pop d h = Some (e, h') \<Longrightarrow> mset h = add_mset e (mset h')"
proof -
  assume "heap_pop d h = Some (e, h')"
  then have h: "h \<noteq> []" "e = h ! picked d h" "h' = take (picked d h) h @ drop (Suc (picked d h)) h"
    by (auto simp: heap_pop_def split: if_splits)
  have "mset h = mset (take (picked d h) h @ h ! picked d h # drop (Suc (picked d h)) h)"
    by (simp only: id_take_nth_drop [OF picked_less [OF h(1)], symmetric])
  then show ?thesis using h by simp
qed

lemma heap_pop_max: "heap_law d \<Longrightarrow> heap_pop d h = Some (e, h') \<Longrightarrow> y \<in> set h \<Longrightarrow> su_priority y \<le> su_priority e"
  by (auto simp: heap_law_def heap_pop_def scored_less_def not_less split: if_splits)

lemma heap_pop_elem: "heap_pop d h = Some (e, h') \<Longrightarrow> e \<in> set h"
  using heap_pop_mset [of d h e h'] by (metis add_mset_add_single set_mset_mset union_single_eq_member)

declare scan_domains.simps [simp del]

definition same_domain :: "string option \<Rightarrow> scored_url \<Rightarrow> bool" where
  "same_domain prev e \<longleftrightarrow> prev = Some (extract_domain (su_url e))"

text \<open>Entries set aside have the domain \<open>prev\<close>, and the first of them has the highest priority.\<close>

definition aside_ok :: "string option \<Rightarrow> scored_url list \<Rightarrow> scored_url list \<Rightarrow> bool" where
  "aside_ok prev heap buf \<longleftrightarrow> (\<forall>x \<in> set buf. same_domain prev x) \<and>
     (\<forall>x \<in> set buf \<union> set heap. buf \<noteq> [] \<longrightarrow> su_priority x \<le> su_priority (hd buf))"

lemma aside_Nil [simp]: "aside_ok prev heap []"
  by (simp add: aside_ok_def)

lemma scan_domains_result:
  assumes "heap_law d" "scan_domains d prev heap buf = (found, rest, buf')" "aside_ok prev heap buf"
  shows "aside_ok prev rest buf' \<and>
    (case found of
       None \<Rightarrow> rest = [] \<and> mset buf' = mset buf + mset heap
     | Some e \<Rightarrow> mset heap + mset buf = add_mset e (mset rest + mset buf') \<and> \<not> same_domain prev e \<and>
         (\<forall>y \<in> set rest. su_priority y \<le> su_priority e))"
  using assms
proof (induction d prev heap buf rule: scan_domains.induct)
  case (1 d prev heap buf)
  show ?case
  proof (cases "heap_pop d heap")
    case None
    then have "heap = []" by simp
    then show ?thesis using "1.prems" by (auto simp: scan_domains.simps)
  next
    case (Some eh)
    obtain e h where eh: "heap_pop d heap = Some (e, h)" using Some by (cases eh) simp
    note m = heap_pop_mset [OF eh]
    have sets: "set heap = insert e (set h)" using arg_cong [OF m, of set_mset] by simp
    show ?thesis
    proof (cases "same_domain prev e")
      case True
      have "aside_ok prev h (buf @ [e])"
        using "1.prems"(3) True sets heap_pop_max [OF "1.prems"(1) eh]
        by (cases buf) (auto simp: aside_ok_def)
      moreover have "scan_domains d prev h (buf @ [e]) = (found, rest, buf')"
        using "1.prems"(2) True eh by (simp add: scan_domains.simps [of d prev heap] same_domain_def)
      ultimately show ?thesis
        using "1.IH" [OF eh refl True [unfolded same_domain_def] "1.prems"(1)] m
        by (auto split: option.splits)
    next
      case False
      then have r: "found = Some e" "rest = h" "buf' = buf"
        using "1.prems"(2) eh by (auto simp: scan_domains.simps [of d prev heap] same_domain_def)
      have "aside_ok prev h buf" using "1.prems"(3) sets by (simp add: aside_ok_def)
      then show ?thesis using r m False heap_pop_max [OF "1.prems"(1) eh] sets by auto
    qed
  qed
qed

text \<open>The entries among which a pop chooses: those of another domain, when rotation is on and there
  are any.\<close>

definition candidates :: "frontier \<Rightarrow> scored_url list" where
  "candidates f =
     (let others = filter (\<lambda>e. \<not> same_domain (fr_last_domain f) e) (fr_heap f)
      in if fr_round_robin f \<and> others \<noteq> [] then others else fr_heap f)"

lemma frontier_pop_cases:
  assumes "heap_law d" "fr_rr_buf f = []" "frontier_pop d f = (r, f')"
  shows "fr_rr_buf f' = [] \<and> fr_visited f' = fr_visited f \<and> fr_round_robin f' = fr_round_robin f \<and>
    (case r of
       None \<Rightarrow> fr_heap f = [] \<and> fr_heap f' = []
     | Some url \<Rightarrow> \<exists>e. su_url e = url \<and> e \<in> set (candidates f) \<and>
         (\<forall>y \<in> set (candidates f). su_priority y \<le> su_priority e) \<and>
         mset (fr_heap f) = add_mset e (mset (fr_heap f')))"
proof (cases "fr_round_robin f")
  case False
  show ?thesis
  proof (cases "heap_pop d (fr_heap f)")
    case None
    then show ?thesis using assms False by (auto simp: frontier_pop_def)
  next
    case (Some eh)
    obtain e h where eh: "heap_pop d (fr_heap f) = Some (e, h)" using Some by (cases eh) simp
    then show ?thesis
      using assms False heap_pop_max [OF assms(1) eh] heap_pop_elem [OF eh] heap_pop_mset [OF eh]
      by (auto simp: frontier_pop_def candidates_def)
  qed
next
  case True
  obtain found rest buf where scan: "scan_domains d (fr_last_domain f) (fr_heap f) [] = (found, rest, buf)"
    using prod_cases3 by blast
  note res = scan_domains_result [OF assms(1) scan aside_Nil]
  show ?thesis
  proof (cases found)
    case None
    then have m: "mset buf = mset (fr_heap f)" "aside_ok (fr_last_domain f) [] buf" using res by auto
    have s: "set buf = set (fr_heap f)" using arg_cong [OF m(1), of set_mset] by simp
    have all: "candidates f = fr_heap f"
      using m(2) s by (auto simp: candidates_def Let_def aside_ok_def filter_empty_conv)
    show ?thesis
    proof (cases buf)
      case Nil
      then show ?thesis using assms scan None True m(1) res by (auto simp: frontier_pop_def Let_def)
    next
      case (Cons b bs)
      then have "b \<in> set (fr_heap f)" "\<forall>y \<in> set (fr_heap f). su_priority y \<le> su_priority b"
        using s m(2) by (auto simp: aside_ok_def)
      moreover have "mset (fr_heap f) = add_mset b (mset bs)" using m(1) Cons by simp
      ultimately show ?thesis using assms scan None True res Cons all by (auto simp: frontier_pop_def Let_def)
    qed
  next
    case (Some e)
    then have m: "mset (fr_heap f) = add_mset e (mset rest + mset buf)" "\<not> same_domain (fr_last_domain f) e"
      "\<forall>y \<in> set rest. su_priority y \<le> su_priority e" "aside_ok (fr_last_domain f) rest buf"
      using res by auto
    have s: "set (fr_heap f) = insert e (set rest \<union> set buf)" using arg_cong [OF m(1), of set_mset] by simp
    have c: "candidates f = filter (\<lambda>e. \<not> same_domain (fr_last_domain f) e) (fr_heap f)"
      using True m(2) s by (auto simp: candidates_def Let_def filter_empty_conv)
    have "e \<in> set (candidates f)" "\<forall>y \<in> set (candidates f). su_priority y \<le> su_priority e"
      using m(2,3,4) s by (auto simp: c aside_ok_def)
    then show ?thesis using assms scan Some True m(1) by (auto simp: frontier_pop_def Let_def)
  qed
qed

section \<open>Scores without saturation\<close>

lemma add_hits:
  assumes "x + 50 * int (length segs) < 2 ^ 31" "- (2 ^ 31) \<le> x"
  shows "fold (\<lambda>seg score. if P seg then sat32 (score + 50) else score) segs x = x + 50 * int (length (filter P segs))"
  using assms
proof (induction segs arbitrary: x)
  case (Cons s segs)
  then have "sat32 (x + 50) = x + 50" by (simp add: sat32_def)
  then show ?case using Cons.IH [of "x + 50"] Cons.IH [of x] Cons.prems by simp
qed simp

lemma subtract_hits:
  assumes "x < 2 ^ 31" "- (2 ^ 31) \<le> x"
  shows "fold (\<lambda>seg score. if P seg then sat32 (score - 200) else score) segs x =
    max (- (2 ^ 31)) (x - 200 * int (length (filter P segs)))"
  using assms
proof (induction segs arbitrary: x)
  case (Cons s segs)
  let ?k = "int (length (filter P segs))"
  have sat: "sat32 (x - 200) = max (- (2 ^ 31)) (x - 200)" using Cons.prems by (simp add: sat32_def)
  show ?case
  proof (cases "P s")
    case True
    have "fold (\<lambda>seg score. if P seg then sat32 (score - 200) else score) segs (sat32 (x - 200)) =
        max (- (2 ^ 31)) (max (- (2 ^ 31)) (x - 200) - 200 * ?k)"
      using Cons.IH [of "sat32 (x - 200)"] Cons.prems sat by simp
    also have "\<dots> = max (- (2 ^ 31)) (x - 200 * (1 + ?k))" by (simp add: max_def)
    finally show ?thesis using True by simp
  qed (use Cons.IH [of x] Cons.prems in simp)
qed simp

definition hits :: "string list \<Rightarrow> string \<Rightarrow> int" where
  "hits segs url = int (length (filter (contains_ignore_ascii_case (url_path url)) segs))"

lemma hits_bounds: "0 \<le> hits segs url" "hits segs url \<le> int (length segs)"
  by (simp_all add: hits_def)

lemma add_hits_grows:
  assumes "x < 2 ^ 31" "- (2 ^ 31) \<le> x"
  shows "x \<le> fold (\<lambda>seg score. if P seg then sat32 (score + 50) else score) segs x \<and>
    fold (\<lambda>seg score. if P seg then sat32 (score + 50) else score) segs x < 2 ^ 31"
  using assms
proof (induction segs arbitrary: x)
  case (Cons s segs)
  have "x \<le> sat32 (x + 50)" "sat32 (x + 50) < 2 ^ 31" "- (2 ^ 31) \<le> sat32 (x + 50)"
    using Cons.prems by (simp_all add: sat32_def)
  then show ?case using Cons.IH [of "sat32 (x + 50)"] Cons.IH [of x] Cons.prems by auto
qed simp

lemma base_score: "0 \<le> n \<Longrightarrow> sat32 (1000 - sat32 (n * 100)) = 1000 - min (100 * n) (2 ^ 31 - 1)"
  by (simp add: sat32_def min_def max_def)

lemma clamp_score:
  assumes "0 \<le> n" "0 \<le> h" "h \<le> 4" "0 \<le> l" "l \<le> (5 :: int)"
  shows "max 0 (min 2000 (max (- (2 ^ 31)) (1000 - min (100 * n) (2 ^ 31 - 1) + 50 * h - 200 * l))) =
      max 0 (min 2000 (1000 - 100 * n + 50 * h - 200 * l))"
proof (cases "100 * n \<le> 2 ^ 31 - 1")
  case True
  then have "- (2 ^ 31) \<le> 1000 - 100 * n + 50 * h - 200 * l" using assms by simp
  then show ?thesis using True by (simp only: min_absorb1 max_absorb2)
next
  case False
  then have "1000 - 100 * n + 50 * h - 200 * l \<le> 0" "1000 - (2 ^ 31 - 1) + 50 * h - 200 * l \<le> 0"
    using assms by simp_all
  then show ?thesis using False by simp
qed

lemma negative_base: "- (2 ^ 31) \<le> n \<Longrightarrow> n < 0 \<Longrightarrow> 1100 \<le> sat32 (1000 - sat32 (n * 100))"
  by (simp add: sat32_def min_def max_def)

lemma sint_depth:
  fixes w :: "32 word"
  shows "2 ^ 31 \<le> unat w \<Longrightarrow> sint w < 0" "unat w < 2 ^ 31 \<Longrightarrow> sint w = int (unat w)"
    "- (2 ^ 31) \<le> sint w" "sint w < 2 ^ 31"
proof -
  show bounds: "- (2 ^ 31) \<le> sint w" "sint w < 2 ^ 31"
    using sint_ge [of w] sint_less [of w] by simp_all
  have u: "uint w = int (unat w)" by simp
  have s: "sint w = signed_take_bit 31 (int (unat w))" unfolding u [symmetric] by (simp only: sint_uint) simp
  show small: "sint w = int (unat w)" if "unat w < 2 ^ 31"
  proof -
    have "int (unat w) < int (2 ^ 31)" using that by (simp only: of_nat_less_iff)
    then have "int (unat w) < 2 ^ 31" by (simp only: of_nat_power of_nat_numeral)
    moreover have "- (2 ^ 31) \<le> int (unat w)" by (rule order_trans [of _ 0]) simp_all
    ultimately show ?thesis unfolding s by (intro signed_take_bit_int_eq_self)
  qed
  have pos: "int (unat w) = sint w" if "0 \<le> sint w"
  proof -
    have "uint w = take_bit 32 (sint w)" using uint_sint [of w] by (simp only: len_num1 len_bit0) simp
    also have "\<dots> = sint w" by (rule take_bit_int_eq_self) (use that bounds in simp_all)
    finally show ?thesis by (simp only: u)
  qed
  show "sint w < 0" if "2 ^ 31 \<le> unat w"
  proof (rule ccontr)
    assume "\<not> sint w < 0"
    then have "int (unat w) < 2 ^ 31" using pos bounds(2) by (metis not_less)
    then have "int (unat w) < int (2 ^ 31)" by (simp only: of_nat_power of_nat_numeral)
    then have "unat w < 2 ^ 31" by (simp only: of_nat_less_iff)
    then show False using that by simp
  qed
qed

end
