(* ===== verification/Crawl_Properties.thy ===== *)
theory Crawl_Properties
  imports Frontier
begin

text \<open>
  Properties of the crawler's URL structures: the trie of paths is a map of segment lists, and
  what its match-all entry does.
\<close>

section \<open>The trie as a map\<close>

fun insert_segments :: "string list \<Rightarrow> 'v \<Rightarrow> 'v trie_node \<Rightarrow> 'v trie_node" where
  "insert_segments [] v node = TrieNode (node_children node) (Some v)"
| "insert_segments (s # ss) v node = set_child s (insert_segments ss v (child_or_new s node)) node"

fun search_segments :: "bool \<Rightarrow> string list \<Rightarrow> 'v trie_node \<Rightarrow> 'v option" where
  "search_segments match_all [] node = node_value node"
| "search_segments match_all (s # ss) node =
     (case map_of (node_children node) s of
        Some child \<Rightarrow> search_segments match_all ss child
      | None \<Rightarrow> if \<not> match_all then None else search_segments match_all ss node)"

lemma insert_loop_segments: "insert_loop rest v node = insert_segments (path_segments rest) v node"
proof (induction rest v node rule: insert_loop.induct)
  case (2 c cs v node)
  obtain n dot where scan: "scan_segment (c # cs) = (n, dot)" by fastforce
  show ?case
  proof (cases "c = CHR ''/''")
    case False
    then show ?thesis
      using 2(2,3) [OF False scan [symmetric] refl refl] scan path_segments_step [OF False, of cs]
      by (cases dot) (simp_all add: Let_def del: scan_segment.simps)
  qed (use 2(1) in simp)
qed simp

lemma search_loop_segments: "search_loop match_all rest node = search_segments match_all (path_segments rest) node"
proof (induction match_all rest node rule: search_loop.induct)
  case (2 match_all c cs node)
  obtain n dot where scan: "scan_segment (c # cs) = (n, dot)" by fastforce
  show ?case
  proof (cases "c = CHR ''/''")
    case False
    then show ?thesis
      using 2(2-4) [OF False scan [symmetric] refl refl] scan path_segments_step [OF False, of cs]
      by (cases dot; cases "map_of (node_children node) (take n (c # cs))"; cases match_all)
        (simp_all add: Let_def del: scan_segment.simps)
  qed (use 2(1) in simp)
qed simp

lemma search_new: "search_segments False ss (TrieNode [] None) = None"
  by (cases ss) simp_all

lemma search_insert:
  "search_segments False ss (insert_segments ts v node) = (if ss = ts then Some v else search_segments False ss node)"
proof (induction ts arbitrary: ss node)
  case Nil
  then show ?case by (cases ss) simp_all
next
  case (Cons t ts)
  show ?case
  proof (cases ss)
    case (Cons s ss')
    show ?thesis
      using Cons.IH [of ss' "child_or_new t node"] \<open>ss = s # ss'\<close> search_new
      by (auto simp: set_child_def update_conv' child_or_new_def new_node_def split: option.splits)
  qed (simp add: set_child_def)
qed

lemma trie_search_segments: "trie_search input t = search_segments (tr_match_all t) (url_segments input) (tr_root t)"
  if "\<not> tr_match_all t \<or> node_children (tr_root t) \<noteq> [] \<or> node_value (tr_root t) \<noteq> None"
proof (cases "node_children (tr_root t) = [] \<and> node_value (tr_root t) = None")
  case True
  then have "tr_root t = TrieNode [] None" by (cases "tr_root t") simp
  then show ?thesis using that by (simp add: trie_search_def search_new)
qed (auto simp: trie_search_def search_loop_segments url_segments_def)

lemma trie_insert_segments:
  "tr_root (trie_insert path v t) = insert_segments (url_segments path) v (tr_root t)"
  by (simp add: trie_insert_def insert_loop_segments url_segments_def)

text \<open>C25. Without an entry for the bare slash a trie is a map from the segments of a URL's path
  (scheme, host, empty segments and segments with a dot left out): whatever was inserted, a
  search answers with the value of the last insertion whose path has the same segments.\<close>

theorem trie_refines_map:
  assumes "''/'' \<notin> fst ` set entries"
  shows "trie_search input (fold (\<lambda>(path, v). trie_insert path v) entries new_trie) =
    map_of (rev (map (\<lambda>(path, v). (url_segments path, v)) entries)) (url_segments input)"
proof -
  have "\<not> tr_match_all (fold (\<lambda>(path, v). trie_insert path v) es t) \<and>
      search_segments False ss (tr_root (fold (\<lambda>(path, v). trie_insert path v) es t)) =
        (case map_of (rev (map (\<lambda>(path, v). (url_segments path, v)) es)) ss of
           Some v \<Rightarrow> Some v | None \<Rightarrow> search_segments False ss (tr_root t))"
    if "''/'' \<notin> fst ` set es" "\<not> tr_match_all t" for es ss and t :: "'a trie"
    using that
  proof (induction es arbitrary: t)
    case (Cons e es)
    obtain path v where e: "e = (path, v)" by (cases e)
    have "\<not> tr_match_all (trie_insert path v t)" using Cons.prems e by (auto simp: trie_insert_def)
    then show ?case
      using Cons.IH [of "trie_insert path v t"] Cons.prems e
      by (auto simp: trie_insert_segments search_insert map_add_def split: option.splits)
  qed simp
  note all = this
  let ?t = "fold (\<lambda>(path, v). trie_insert path v) entries new_trie"
  have "\<not> tr_match_all (new_trie :: 'a trie)" "search_segments False ss (tr_root (new_trie :: 'a trie)) = None" for ss
    by (simp_all add: new_trie_def new_node_def search_new)
  then have "\<not> tr_match_all ?t" "search_segments False (url_segments input) (tr_root ?t) =
      map_of (rev (map (\<lambda>(path, v). (url_segments path, v)) entries)) (url_segments input)"
    using all [OF assms, of new_trie] by (auto split: option.splits)
  then show ?thesis using trie_search_segments [of ?t input] by simp
qed

section \<open>The match-all entry\<close>

definition plain_segment :: "string \<Rightarrow> bool" where
  "plain_segment s \<longleftrightarrow> s \<noteq> [] \<and> list_all (\<lambda>c. c \<noteq> CHR ''/'' \<and> c \<noteq> CHR ''.'' \<and> c \<noteq> CHR '':'') s"

definition path_of :: "string list \<Rightarrow> string" where
  "path_of ss = concat (map (\<lambda>s. CHR ''/'' # s) ss)"

lemma str_find_absent: "c \<in> set p \<Longrightarrow> c \<notin> set s \<Longrightarrow> str_find p s = None"
proof (induction s)
  case (Cons a s)
  then have "\<not> prefix p (a # s)" using set_mono_prefix by fastforce
  then show ?case using Cons by simp
qed auto

lemma plain_path_start: "list_all plain_segment ss \<Longrightarrow> path_start (path_of ss) = 0"
proof -
  assume "list_all plain_segment ss"
  then have "CHR '':'' \<notin> set (path_of ss)"
    by (auto simp: path_of_def plain_segment_def list_all_iff)
  then have "str_find ''://'' (path_of ss) = None" by (intro str_find_absent [of "CHR '':''"]) simp_all
  moreover have "\<not> prefix ''https://'' (path_of ss)" "\<not> prefix ''http://'' (path_of ss)"
    by (cases ss; simp add: path_of_def)+
  ultimately show ?thesis by (simp add: path_start_def)
qed

lemma split_plain: "CHR ''/'' \<notin> set s \<Longrightarrow> split_on (CHR ''/'') (s @ CHR ''/'' # rest) = s # split_on (CHR ''/'') rest"
  by (induction s) auto

lemma split_single: "CHR ''/'' \<notin> set s \<Longrightarrow> split_on (CHR ''/'') s = [s]"
  by (induction s) auto

lemma plain_segments: "list_all plain_segment ss \<Longrightarrow> path_segments (path_of ss) = ss"
proof (induction ss)
  case (Cons s ss)
  have s: "s \<noteq> []" "CHR ''/'' \<notin> set s" "CHR ''.'' \<notin> set s"
    using Cons.prems by (auto simp: plain_segment_def list_all_iff)
  have "path_segments (s @ path_of ss) = s # path_segments (path_of ss)"
  proof (cases ss)
    case (Cons t ts)
    then have "path_of ss = CHR ''/'' # (t @ path_of ts)" by (simp add: path_of_def)
    then show ?thesis using s by (simp add: path_segments_def split_plain)
  qed (use s in \<open>simp add: path_of_def path_segments_def split_single\<close>)
  then show ?case using Cons by (simp add: path_of_def)
qed (simp add: path_of_def)

lemma plain_url_segments: "list_all plain_segment ss \<Longrightarrow> url_segments (path_of ss) = ss"
  by (simp add: url_segments_def plain_path_start plain_segments)

text \<open>The entry for the bare slash is a default only for paths that leave the trie at its
  root: next to an entry for \<open>/a/b\<close> the path \<open>/a/x\<close> has no value at all, while a path that has
  unknown segments before \<open>a\<close> and \<open>b\<close> gets the value of \<open>/a/b\<close>.\<close>

theorem match_all_misses_siblings:
  fixes v w :: 'v
  assumes "list_all plain_segment [a, b, x]" "x \<noteq> a" "x \<noteq> b"
  defines "t \<equiv> trie_insert (path_of [a, b]) w (trie_insert ''/'' v new_trie)"
  shows "trie_search (path_of [x]) t = Some v \<and> trie_search (path_of [a, x]) t = None \<and>
    trie_search (path_of [x, a, b]) t = Some w"
proof -
  have slash: "url_segments ''/'' = []" by code_simp
  have ab: "url_segments (path_of [a, b]) = [a, b]" using plain_url_segments assms(1) by simp
  have root: "tr_root t = set_child a (insert_segments [b] w new_node) (TrieNode [] (Some v))"
    by (simp add: t_def trie_insert_segments slash ab new_trie_def new_node_def child_or_new_def)
  have m: "tr_match_all t" by (simp add: t_def trie_insert_def)
  have "trie_search (path_of ss) t = search_segments True ss (tr_root t)" if "list_all plain_segment ss" for ss
    using trie_search_segments [of t "path_of ss"] plain_url_segments [OF that] m root by (simp add: set_child_def)
  then show ?thesis
    using assms(1,2,3) by (simp add: root set_child_def child_or_new_def new_node_def)
qed

lemma trie_refines_map_witness:
  "trie_search ''https://example.com//shop/cart'' (fold (\<lambda>(path, v). trie_insert path v)
     [(''/shop/cart'', 1 :: nat), (''http://a.se/shop/index.html'', 2)] new_trie) = Some 1"
proof -
  have "url_segments ''https://example.com//shop/cart'' = [''shop'', ''cart'']"
    "url_segments ''/shop/cart'' = [''shop'', ''cart'']" "url_segments ''http://a.se/shop/index.html'' = [''shop'']"
    by code_simp+
  then show ?thesis
    using trie_refines_map [of "[(''/shop/cart'', 1 :: nat), (''http://a.se/shop/index.html'', 2)]"
        "''https://example.com//shop/cart''"] by simp
qed

section \<open>The frontier\<close>

text \<open>C24. A pop takes an entry of highest priority among those it may choose from: with rotation the
  entries of another domain than the last one popped, if there are any, and otherwise all.
  Nothing else leaves the frontier, and nothing is answered only when it is empty.\<close>

theorem frontier_pop_takes_best:
  assumes "heap_law d" "fr_rr_buf f = []" "frontier_pop d f = (r, f')"
  shows "fr_rr_buf f' = [] \<and> fr_visited f' = fr_visited f \<and>
    (case r of
       None \<Rightarrow> frontier_is_empty f \<and> frontier_is_empty f'
     | Some url \<Rightarrow> \<exists>e. su_url e = url \<and> e \<in> set (candidates f) \<and>
         (\<forall>y \<in> set (candidates f). su_priority y \<le> su_priority e) \<and>
         mset (fr_heap f) = add_mset e (mset (fr_heap f')) \<and> frontier_len f = Suc (frontier_len f'))"
proof -
  have "length (fr_heap f) = Suc (length (fr_heap f'))" if "mset (fr_heap f) = add_mset e (mset (fr_heap f'))" for e
    using arg_cong [OF that, of size] by simp
  then show ?thesis
    using frontier_pop_cases [OF assms] by (fastforce simp: frontier_is_empty_def frontier_len_def split: option.splits)
qed

datatype frontier_op = Push string int | Extend "string list" int | Pop

fun frontier_step :: "frontier_deps \<Rightarrow> frontier_op \<Rightarrow> frontier \<times> string list \<Rightarrow> frontier \<times> string list" where
  "frontier_step d (Push url p) (f, out) = (snd (frontier_push url p f), out)"
| "frontier_step d (Extend urls p) (f, out) = (extend_with_priority urls p f, out)"
| "frontier_step d Pop (f, out) =
     (case frontier_pop d f of (None, f) \<Rightarrow> (f, out) | (Some url, f) \<Rightarrow> (f, out @ [url]))"

fun pushed :: "frontier_op list \<Rightarrow> string set" where
  "pushed [] = {}"
| "pushed (Push url p # ops) = insert url (pushed ops)"
| "pushed (Extend urls p # ops) = set urls \<union> pushed ops"
| "pushed (Pop # ops) = pushed ops"

definition frontier_ok :: "string set \<Rightarrow> frontier \<times> string list \<Rightarrow> bool" where
  "frontier_ok all st \<longleftrightarrow> fr_rr_buf (fst st) = [] \<and> fr_visited (fst st) = all \<and>
     mset (snd st) + image_mset su_url (mset (fr_heap (fst st))) = mset_set all \<and> finite all"

lemma push_ok: "frontier_ok all (f, out) \<Longrightarrow> frontier_ok (insert url all) (snd (frontier_push url p f), out)"
  by (auto simp: frontier_ok_def frontier_push_def insert_absorb)

lemma step_ok:
  assumes "heap_law d" "frontier_ok all st"
  shows "frontier_ok (all \<union> pushed [op]) (frontier_step d op st)"
proof (cases op)
  case (Push url p)
  then show ?thesis using push_ok assms(2) by (cases st) (simp add: insert_is_Un [symmetric])
next
  case (Extend urls p)
  have "frontier_ok (all \<union> set urls) (extend_with_priority urls p f, out)" if "frontier_ok all (f, out)" for all f out
    using that
  proof (induction urls arbitrary: all f)
    case (Cons u us)
    from Cons.IH [OF push_ok [OF Cons.prems]] show ?case by (simp add: extend_with_priority_def)
  qed (simp add: extend_with_priority_def)
  then show ?thesis using Extend assms(2) by (cases st) simp
next
  case Pop
  obtain f out r f' where st: "st = (f, out)" "frontier_pop d f = (r, f')" by (cases st, cases "frontier_pop d (fst st)") auto
  have "fr_rr_buf f = []" using assms(2) st by (simp add: frontier_ok_def)
  note popped = frontier_pop_cases [OF assms(1) this st(2)]
  show ?thesis
  proof (cases r)
    case None
    then show ?thesis using Pop st popped assms(2) by (simp add: frontier_ok_def)
  next
    case (Some url)
    then obtain e where "su_url e = url" "mset (fr_heap f) = add_mset e (mset (fr_heap f'))" using popped by auto
    then show ?thesis using Pop st popped assms(2) Some by (simp add: frontier_ok_def)
  qed
qed

text \<open>C23. Whatever is pushed and popped in whatever order, every URL is answered at most once: the URLs
  answered and the URLs waiting are together exactly the URLs that were pushed, each once.\<close>

theorem frontier_answers_once:
  assumes "heap_law d"
  shows "case fold (frontier_step d) ops (new_frontier rr, []) of (f, out) \<Rightarrow>
    distinct (out @ map su_url (fr_heap f)) \<and> set (out @ map su_url (fr_heap f)) = pushed ops"
proof -
  have "frontier_ok (all \<union> pushed ops) (fold (frontier_step d) ops st)" if "frontier_ok all st" for all st
    using that
  proof (induction ops arbitrary: all st)
    case (Cons op ops)
    have "pushed (op # ops) = pushed [op] \<union> pushed ops" by (cases op) auto
    then show ?case using Cons.IH [OF step_ok [OF assms Cons.prems]] by (simp add: Un_assoc)
  qed simp
  from this [of "{}" "(new_frontier rr, [])"]
  have ok: "frontier_ok (pushed ops) (fold (frontier_step d) ops (new_frontier rr, []))"
    by (simp add: frontier_ok_def new_frontier_def)
  obtain f out where st: "fold (frontier_step d) ops (new_frontier rr, []) = (f, out)" by fastforce
  then have m: "mset (out @ map su_url (fr_heap f)) = mset_set (pushed ops)" "finite (pushed ops)"
    using ok by (simp_all add: frontier_ok_def)
  have "distinct (out @ map su_url (fr_heap f))"
    using m by (metis distinct_count_atmost_1 count_mset_set' One_nat_def finite_set_mset_mset_set not_in_iff set_mset_mset)
  moreover have "set (out @ map su_url (fr_heap f)) = pushed ops"
    using m by (metis finite_set_mset_mset_set set_mset_mset)
  ultimately show ?thesis by (simp add: st)
qed

text \<open>Scores lie between 0 and 2000, and up to a depth of 2^31 they are the documented value, since
  no step saturates that the final clamp would not correct; from there on the depth is read as a
  negative number, so that the score is at least 100 again.\<close>

theorem score_documented:
  "0 \<le> score_url url depth \<and> score_url url depth \<le> 2000 \<and>
   (unat depth < 2 ^ 31 \<longrightarrow> score_url url depth =
      max 0 (min 2000 (1000 - 100 * int (unat depth) + 50 * hits HIGH_VALUE url - 200 * hits LOW_VALUE url))) \<and>
   (2 ^ 31 \<le> unat depth \<longrightarrow> 100 \<le> score_url url depth)"
proof -
  have length_high: "length HIGH_VALUE = 4" by (simp add: HIGH_VALUE_def)
  let ?P = "contains_ignore_ascii_case (url_path url)"
  let ?b = "sat32 (1000 - sat32 (sint depth * 100))"
  let ?h = "fold (\<lambda>seg score. if ?P seg then sat32 (score + 50) else score) HIGH_VALUE ?b"
  have b: "- (2 ^ 31) \<le> ?b" "?b < 2 ^ 31" by (simp_all add: sat32_def)
  have h: "?b \<le> ?h" "?h < 2 ^ 31" using add_hits_grows [OF b(2,1), of ?P HIGH_VALUE] by blast+
  have score: "score_url url depth = max 0 (min 2000 (max (- (2 ^ 31)) (?h - 200 * hits LOW_VALUE url)))"
    using subtract_hits [of ?h ?P LOW_VALUE] b h by (simp add: score_url_def Let_def hits_def)
  have low: "hits LOW_VALUE url \<le> 5" and high: "hits HIGH_VALUE url \<le> 4" "0 \<le> hits LOW_VALUE url" "0 \<le> hits HIGH_VALUE url"
    using hits_bounds [of LOW_VALUE url] hits_bounds [of HIGH_VALUE url] by (simp_all add: LOW_VALUE_def HIGH_VALUE_def)
  have "score_url url depth =
      max 0 (min 2000 (1000 - 100 * int (unat depth) + 50 * hits HIGH_VALUE url - 200 * hits LOW_VALUE url))"
    if "unat depth < 2 ^ 31"
  proof -
    have s: "sint depth = int (unat depth)" using sint_depth(2) [OF that] .
    have "?b = 1000 - min (100 * int (unat depth)) (2 ^ 31 - 1)" unfolding s by (rule base_score) simp
    moreover have "0 \<le> uint depth" by simp
    ultimately have "?b \<le> 1000" "?b = 1000 - min (100 * int (unat depth)) (2 ^ 31 - 1)" by simp_all
    moreover have "?h = ?b + 50 * hits HIGH_VALUE url"
      unfolding hits_def by (rule add_hits) (use calculation b(1) in \<open>simp_all add: length_high min_def add_increasing\<close>)
    ultimately show ?thesis unfolding score using clamp_score [OF _ high(3,1,2) low, of "int (unat depth)"] by simp
  qed
  moreover have "100 \<le> score_url url depth" if "2 ^ 31 \<le> unat depth"
  proof -
    have "sint depth < 0" using sint_depth(1) [OF that] .
    then have "1100 \<le> ?b" by (rule negative_base [OF sint_depth(3)])
    then show ?thesis using h low by (simp add: score)
  qed
  ultimately show ?thesis by (simp add: score_url_def Let_def)
qed

section \<open>Witnesses\<close>

text \<open>A heap that pops the first of its greatest elements, with an order of URLs that breaks no tie.\<close>

definition sample_heap :: frontier_deps where
  "sample_heap = \<lparr>fd_url_less = (\<lambda>_ _. False),
     fd_pick = (\<lambda>h. length (takeWhile (\<lambda>e. su_priority e \<noteq> Max (set (map su_priority h))) h))\<rparr>"

lemma sample_heap_law: "heap_law sample_heap"
  unfolding heap_law_def
proof (intro allI impI)
  fix h :: "scored_url list" assume ne: "h \<noteq> []"
  let ?P = "\<lambda>e. su_priority e \<noteq> Max (set (map su_priority h))"
  have "Max (set (map su_priority h)) \<in> set (map su_priority h)" using ne by (intro Max_in) simp_all
  then obtain e where "e \<in> set h" "\<not> ?P e" by auto
  then have "dropWhile ?P h \<noteq> []" by (auto simp: dropWhile_eq_Nil_conv)
  moreover have "length (takeWhile ?P h) + length (dropWhile ?P h) = length h"
    by (simp only: length_append [symmetric] takeWhile_dropWhile_id)
  ultimately have less: "length (takeWhile ?P h) < length h" by (cases "dropWhile ?P h") simp_all
  then have "picked sample_heap h = length (takeWhile ?P h)" by (simp add: picked_def sample_heap_def)
  then have "\<not> ?P (h ! picked sample_heap h)" using nth_length_takeWhile [OF less] by simp
  then show "\<forall>y \<in> set h. \<not> scored_less sample_heap (h ! picked sample_heap h) y"
    by (auto simp: scored_less_def sample_heap_def not_less)
qed

definition sample_frontier :: frontier where
  "sample_frontier = (new_frontier True)\<lparr>fr_last_domain := Some ''a.com'',
     fr_heap := [\<lparr>su_priority = 100, su_url = ''https://a.com/1''\<rparr>, \<lparr>su_priority = 90, su_url = ''https://b.com/1''\<rparr>]\<rparr>"

lemma frontier_pop_takes_best_witness:
  "fst (frontier_pop sample_heap sample_frontier) = Some ''https://b.com/1''"
proof -
  have c: "candidates sample_frontier = [\<lparr>su_priority = 90, su_url = ''https://b.com/1''\<rparr>]"
    by code_simp
  obtain r f' where p: "frontier_pop sample_heap sample_frontier = (r, f')" by fastforce
  have "fr_rr_buf sample_frontier = []" by (simp add: sample_frontier_def new_frontier_def)
  from frontier_pop_takes_best [OF sample_heap_law this p]
  show ?thesis using c p by (cases r) (auto simp: frontier_is_empty_def sample_frontier_def)
qed

lemma frontier_answers_once_witness:
  "case fold (frontier_step sample_heap) [Push ''https://a.com/1'' 5, Push ''https://a.com/1'' 7, Pop, Pop] (new_frontier False, [])
   of (f, out) \<Rightarrow> distinct (out @ map su_url (fr_heap f)) \<and> set (out @ map su_url (fr_heap f)) = {''https://a.com/1''}"
  using frontier_answers_once [OF sample_heap_law, of "[Push ''https://a.com/1'' 5, Push ''https://a.com/1'' 7, Pop, Pop]" False]
  by (auto split: prod.splits)

end
