(* ===== verification/Source_Items.thy ===== *)
theory Source_Items
  imports Discovery
begin

text \<open>
  The source-discovery adapters of \<open>spider/src/features/\<close>: the item every adapter produces
  (\<open>source.rs\<close>), onion seeds (\<open>onion_seed.rs\<close>), the sitemaps a robots.txt declares
  (\<open>robots_sitemap.rs\<close>), standard sitemaps (\<open>sitemap.rs\<close>) and feeds (\<open>feed.rs\<close>).  The
  XML readers (\<open>quick_xml\<close>, \<open>sitemap\<close>, \<open>feed_rs\<close>) are third-party: what they answer for
  given bytes is an argument, a finite list of events whose end is the end of the document.
\<close>

section \<open>Items\<close>

record media_reference =
  mr_url :: string
  mr_mime_type :: "string option"
  mr_caption :: "string option"
  mr_width :: "nat option"
  mr_height :: "nat option"

record source_item =
  si_source_type :: string
  si_source_item_id :: "string option"
  si_url :: "string option"
  si_title :: "string option"
  si_snippet :: "string option"
  si_authors :: "string list"
  si_published_at :: "nat option"
  si_updated_at :: "nat option"
  si_discovered_via :: "string option"
  si_media_references :: "media_reference list"

text \<open>\<open>u64::try_from\<close> of an \<open>i64\<close>.\<close>

definition u64_try_from :: "int \<Rightarrow> nat option" where
  "u64_try_from i = (if i < 0 then None else Some (nat i))"

text \<open>
  \<open>spawn_blocking\<close> around \<open>catch_unwind\<close>: the parser task returns, panics (with a message
  or another payload) or cannot be joined.
\<close>

datatype task_fault = Unwound "string option" | JoinFailed string

definition contained ::
  "string \<Rightarrow> (string \<Rightarrow> 'e) \<Rightarrow> task_fault option \<Rightarrow> 'e + 'a \<Rightarrow> 'e + 'a" where
  "contained name panicked fault result =
     (case fault of
        None \<Rightarrow> result
      | Some (Unwound payload) \<Rightarrow>
          Inl (panicked (name @ '' parser panicked: '' @
            (case payload of Some message \<Rightarrow> message | None \<Rightarrow> ''unknown parser panic'')))
      | Some (JoinFailed error) \<Rightarrow> Inl (panicked (name @ '' parser task failed: '' @ error)))"

lemma contained_Inr: "contained name panicked fault r = Inr x \<longleftrightarrow> fault = None \<and> r = Inr x"
  by (simp add: contained_def split: option.splits task_fault.splits)

section \<open>Onion seeds\<close>

datatype onion_seed_error =
    OnionInvalidUrl
  | OnionUnsupportedScheme string
  | OnionCredentialsNotAllowed
  | NotOnion

fun onion_seed_error_display :: "onion_seed_error \<Rightarrow> string" where
  "onion_seed_error_display OnionInvalidUrl = ''onion seed is not a valid URL''"
| "onion_seed_error_display (OnionUnsupportedScheme scheme) =
     ''onion seed scheme '' @ [CHR 0x22] @ scheme @ [CHR 0x22] @ '' is not supported '' @ em_dash
     @ '' only http/https are accepted''"
| "onion_seed_error_display OnionCredentialsNotAllowed =
     ''onion seed must not include userinfo/credentials (user:pass@) '' @ em_dash
     @ '' rejected outright, never stripped and continued''"
| "onion_seed_error_display NotOnion = ''onion seed host is not a .onion hostname''"

definition ONION_SOURCE_TYPE :: string where
  "ONION_SOURCE_TYPE = ''onion_seed''"

definition normalize_onion_seed :: "url_parser \<Rightarrow> string \<Rightarrow> onion_seed_error + source_item" where
  "normalize_onion_seed parse seed =
     (case parse seed of
        Inl _ \<Rightarrow> Inl OnionInvalidUrl
      | Inr url \<Rightarrow>
          if u_scheme url \<noteq> ''http'' \<and> u_scheme url \<noteq> ''https''
          then Inl (OnionUnsupportedScheme (u_scheme url))
          else if u_username url \<noteq> [] \<or> u_password url \<noteq> None then Inl OnionCredentialsNotAllowed
          else if \<not> is_onion_url url then Inl NotOnion
          else Inr
            \<lparr>si_source_type = ONION_SOURCE_TYPE, si_source_item_id = None,
             si_url = Some (u_as_str url), si_title = None, si_snippet = None, si_authors = [],
             si_published_at = None, si_updated_at = None, si_discovered_via = None,
             si_media_references = []\<rparr>)"

definition normalize_onion_seeds ::
  "url_parser \<Rightarrow> string list \<Rightarrow> (onion_seed_error + source_item) list" where
  "normalize_onion_seeds parse seeds = map (normalize_onion_seed parse) seeds"

lemma normalize_onion_seed_Inr:
  assumes "normalize_onion_seed parse seed = Inr item"
  obtains u where "parse seed = Inr u" "u_scheme u = ''http'' \<or> u_scheme u = ''https''"
    "u_username u = []" "u_password u = None" "is_onion_url u" "si_url item = Some (u_as_str u)"
  using assms by (auto simp: normalize_onion_seed_def split: sum.splits if_splits)

section \<open>Sitemaps declared by a robots.txt\<close>

record robots_sitemap_reference =
  rsr_url :: string

datatype robots_sitemap_failure = RobotsSitemapPanicked string

fun robots_sitemap_failure_display :: "robots_sitemap_failure \<Rightarrow> string" where
  "robots_sitemap_failure_display (RobotsSitemapPanicked message) = message"

text \<open>
  \<open>String::from_utf8_lossy\<close>: every maximal prefix of a character that is not continued
  becomes one U+FFFD, any other wrong byte one of its own.
\<close>

definition replacement :: string where
  "replacement = [CHR 0xEF, CHR 0xBF, CHR 0xBD]"

fun utf8_lossy :: "string \<Rightarrow> string" where
  "utf8_lossy [] = []"
| "utf8_lossy (a # s) =
     (let n = of_char a :: nat
      in if n < 0x80 then a # utf8_lossy s
         else if 0xC2 \<le> n \<and> n < 0xE0 then
           (case s of [] \<Rightarrow> replacement
            | b # s1 \<Rightarrow> if \<not> continuation_byte b then replacement @ utf8_lossy s
                        else a # b # utf8_lossy s1)
         else if 0xE0 \<le> n \<and> n < 0xF0 then
           (case s of [] \<Rightarrow> replacement
            | b # s1 \<Rightarrow> if \<not> second_byte n (of_char b) then replacement @ utf8_lossy s
                        else (case s1 of [] \<Rightarrow> replacement
                          | c # s2 \<Rightarrow> if \<not> continuation_byte c then replacement @ utf8_lossy s1
                                      else a # b # c # utf8_lossy s2))
         else if 0xF0 \<le> n \<and> n < 0xF5 then
           (case s of [] \<Rightarrow> replacement
            | b # s1 \<Rightarrow> if \<not> second_byte n (of_char b) then replacement @ utf8_lossy s
                        else (case s1 of [] \<Rightarrow> replacement
                          | c # s2 \<Rightarrow> if \<not> continuation_byte c then replacement @ utf8_lossy s1
                                      else (case s2 of [] \<Rightarrow> replacement
                                        | d # s3 \<Rightarrow> if \<not> continuation_byte d
                                                    then replacement @ utf8_lossy s2
                                                    else a # b # c # d # utf8_lossy s3)))
         else replacement @ utf8_lossy s)"

text \<open>One line of \<open>parse_sync\<close>.\<close>

definition strip_comment :: "string \<Rightarrow> string" where
  "strip_comment line = (case find_char (CHR ''#'') line of None \<Rightarrow> line | Some hash \<Rightarrow> take hash line)"

definition sitemap_directive :: "url_parser \<Rightarrow> string \<Rightarrow> robots_sitemap_reference option" where
  "sitemap_directive parse raw_line =
     (let line = (case strip_suffix [CHR 0x0D] raw_line of Some l \<Rightarrow> l | None \<Rightarrow> raw_line);
          line = trim (strip_comment line)
      in if line = [] then None
         else case find_char (CHR '':'') line of
                None \<Rightarrow> None
              | Some colon \<Rightarrow>
                  (let name = trim (take colon line); value = trim (drop (Suc colon) line) in
                   if \<not> eq_ignore_ascii_case name ''sitemap'' \<or> value = [] then None
                   else case parse value of Inl _ \<Rightarrow> None | Inr _ \<Rightarrow> Some \<lparr>rsr_url = value\<rparr>))"

definition robots_sitemaps_sync :: "url_parser \<Rightarrow> string \<Rightarrow> robots_sitemap_reference list" where
  "robots_sitemaps_sync parse bytes =
     List.map_filter (sitemap_directive parse) (split_on (CHR 0x0A) (utf8_lossy bytes))"

definition robots_sitemaps ::
  "url_parser \<Rightarrow> task_fault option \<Rightarrow> string \<Rightarrow> robots_sitemap_failure + robots_sitemap_reference list" where
  "robots_sitemaps parse fault bytes =
     contained ''robots sitemap'' RobotsSitemapPanicked fault (Inr (robots_sitemaps_sync parse bytes))"

section \<open>XML events\<close>

text \<open>
  An attribute is its local name and its decoded value, if decoding succeeds; malformed
  attributes are not in the list (\<open>attributes().flatten()\<close>).  A text is decoded or an error.
\<close>

type_synonym xml_attribute = "string \<times> string option"

datatype source_event =
    XStart string "xml_attribute list"
  | XEmpty string "xml_attribute list"
  | XText "string + string"
  | XCData "string + string"
  | XGeneralRef "string + string"
  | XEnd string
  | XOther
  | XError string

end
