(* ===== verification/Feeds.thy ===== *)
theory Feeds
  imports Source_Items
begin

text \<open>
  Standard sitemaps (\<open>features/sitemap.rs\<close>) and RSS or Atom feeds (\<open>features/feed.rs\<close>) read
  into source items.  What the third-party readers answer for the bytes of a document is a
  record of arguments.
\<close>

section \<open>Standard sitemaps\<close>

record sitemap_reference =
  smr_url :: string
  smr_updated_at :: "nat option"

record sitemap_discovery_result =
  sdr_sitemap_type :: string
  sdr_entries :: "source_item list"
  sdr_child_sitemaps :: "sitemap_reference list"

datatype sitemap_parse_failure =
    SitemapNotSitemap string | SitemapParse string | SitemapPanicked string

fun sitemap_parse_failure_display :: "sitemap_parse_failure \<Rightarrow> string" where
  "sitemap_parse_failure_display (SitemapNotSitemap message) = message"
| "sitemap_parse_failure_display (SitemapParse message) = message"
| "sitemap_parse_failure_display (SitemapPanicked message) = message"

text \<open>
  An entity of \<open>SiteMapReader\<close>: the location as a URL, if it is one, and the milliseconds
  of its last modification, if it has a time.
\<close>

datatype sitemap_entity =
    UrlEntity "string option" "int option"
  | ChildEntity "string option" "int option"
  | ErrEntity string

fun classify_root :: "source_event list \<Rightarrow> sitemap_parse_failure + string" where
  "classify_root [] = Inl (SitemapParse ''sitemap XML has no root element'')"
| "classify_root (event # events) =
     (let root = (\<lambda>local_name.
        if local_name = ''urlset'' then Inr ''urlset''
        else if local_name = ''sitemapindex'' then Inr ''sitemapindex''
        else Inl (SitemapNotSitemap ''the fetched XML document is not a standard sitemap''))
      in case event of
           XStart local_name _ \<Rightarrow> root local_name
         | XEmpty local_name _ \<Rightarrow> root local_name
         | XError error \<Rightarrow> Inl (SitemapParse error)
         | _ \<Rightarrow> classify_root events)"

definition timestamp_millis :: "int option \<Rightarrow> nat option" where
  "timestamp_millis lastmod = Option.bind lastmod u64_try_from"

fun sitemap_entity_step ::
  "string \<Rightarrow> string \<Rightarrow> sitemap_entity \<Rightarrow> source_item list \<times> sitemap_reference list
    \<Rightarrow> sitemap_parse_failure + source_item list \<times> sitemap_reference list" where
  "sitemap_entity_step via sitemap_type (UrlEntity loc lastmod) (entries, children) =
     (if sitemap_type \<noteq> ''urlset''
      then Inl (SitemapParse ''sitemapindex contained an unexpected url entry'')
      else res_bind (ok_or (SitemapParse ''sitemap url entry has an invalid loc'') loc) (\<lambda>url.
        Inr (entries @
          [\<lparr>si_source_type = ''sitemap'', si_source_item_id = None, si_url = Some url,
            si_title = None, si_snippet = None, si_authors = [], si_published_at = None,
            si_updated_at = timestamp_millis lastmod, si_discovered_via = Some via,
            si_media_references = []\<rparr>], children)))"
| "sitemap_entity_step via sitemap_type (ChildEntity loc lastmod) (entries, children) =
     (if sitemap_type \<noteq> ''sitemapindex''
      then Inl (SitemapParse ''urlset contained an unexpected sitemap entry'')
      else res_bind (ok_or (SitemapParse ''sitemap index entry has an invalid loc'') loc) (\<lambda>url.
        Inr (entries, children @ [\<lparr>smr_url = url, smr_updated_at = timestamp_millis lastmod\<rparr>])))"
| "sitemap_entity_step via sitemap_type (ErrEntity error) _ = Inl (SitemapParse error)"

text \<open>\<open>quick_xml::Reader\<close> and \<open>SiteMapReader\<close> over the same bytes.\<close>

definition sitemap_parse_sync ::
  "source_event list \<Rightarrow> sitemap_entity list \<Rightarrow> string \<Rightarrow> sitemap_parse_failure + sitemap_discovery_result" where
  "sitemap_parse_sync events entities via =
     res_bind (classify_root events) (\<lambda>sitemap_type.
     res_bind (res_fold (sitemap_entity_step via sitemap_type) entities ([], []))
       (\<lambda>(entries, children).
         Inr \<lparr>sdr_sitemap_type = sitemap_type, sdr_entries = entries, sdr_child_sitemaps = children\<rparr>))"

section \<open>Feeds\<close>

text \<open>The model of \<open>feed_rs\<close>, in the fields the adapter reads; times are milliseconds.\<close>

record feed_link =
  fl_href :: string
  fl_rel :: "string option"
  fl_media_type :: "string option"
  fl_title :: "string option"

record media_content =
  mc_url :: "string option"
  mc_content_type :: "string option"
  mc_width :: "nat option"
  mc_height :: "nat option"

record media_thumbnail =
  mt_uri :: string
  mt_width :: "nat option"
  mt_height :: "nat option"

record media_object =
  mo_title :: "string option"
  mo_description :: "string option"
  mo_content :: "media_content list"
  mo_thumbnails :: "media_thumbnail list"

record feed_entry =
  fe_id :: string
  fe_title :: "string option"
  fe_links :: "feed_link list"
  fe_summary :: "string option"
  fe_authors :: "string list"
  fe_published :: "int option"
  fe_updated :: "int option"
  fe_media :: "media_object list"

datatype feed_type = FtAtom | FtJson | FtRss0 | FtRss1 | FtRss2

record feed =
  fd_feed_type :: feed_type
  fd_title :: "string option"
  fd_authors :: "string list"
  fd_language :: "string option"
  fd_entries :: "feed_entry list"

definition MISSING_ID :: string where
  "MISSING_ID = ''scorpion:feed-rs:missing-native-id''"

record feed_discovery_result =
  fdr_feed_type :: string
  fdr_feed_title :: "string option"
  fdr_feed_authors :: "string list"
  fdr_language :: "string option"
  fdr_entries :: "source_item list"

datatype feed_parse_failure = FeedNotFeed string | FeedParse string | FeedPanicked string

fun feed_parse_failure_display :: "feed_parse_failure \<Rightarrow> string" where
  "feed_parse_failure_display (FeedNotFeed message) = message"
| "feed_parse_failure_display (FeedParse message) = message"
| "feed_parse_failure_display (FeedPanicked message) = message"

fun ensure_supported_xml_root :: "source_event list \<Rightarrow> feed_parse_failure + unit" where
  "ensure_supported_xml_root [] = Inr ()"
| "ensure_supported_xml_root (event # events) =
     (let root = (\<lambda>local_name.
        if local_name = ''rss'' \<or> local_name = ''RDF'' \<or> local_name = ''feed'' then Inr ()
        else Inl (FeedNotFeed ''the fetched XML document is not an RSS or Atom feed''))
      in case event of
           XStart local_name _ \<Rightarrow> root local_name
         | XEmpty local_name _ \<Rightarrow> root local_name
         | XError _ \<Rightarrow> Inr ()
         | _ \<Rightarrow> ensure_supported_xml_root events)"

subsection \<open>Identifiers of RSS items\<close>

record rss_entry_facts =
  ref_guid :: "string option"
  ref_guid_is_permalink :: bool

definition rss_default :: rss_entry_facts where
  "rss_default = \<lparr>ref_guid = None, ref_guid_is_permalink = False\<rparr>"

text \<open>The state of the loop: the facts so far, the current item, and whether a guid is open.\<close>

record rss_scan =
  rs_facts :: "rss_entry_facts list"
  rs_current :: "rss_entry_facts option"
  rs_in_guid :: bool

definition is_permalink :: "xml_attribute list \<Rightarrow> bool" where
  "is_permalink attributes =
     list_ex (\<lambda>(key, value). key = ''isPermaLink'' \<and>
       (case value of None \<Rightarrow> False | Some v \<Rightarrow> eq_ignore_ascii_case v ''true'')) attributes"

fun rss_step :: "source_event \<Rightarrow> rss_scan \<Rightarrow> rss_scan" where
  "rss_step (XStart local_name attributes) s =
     (if local_name = ''item'' then s\<lparr>rs_current := Some rss_default\<rparr>
      else case rs_current s of
             None \<Rightarrow> s
           | Some current \<Rightarrow>
               if local_name = ''guid''
               then s\<lparr>rs_in_guid := True,
                      rs_current := Some (current\<lparr>ref_guid_is_permalink := is_permalink attributes\<rparr>)\<rparr>
               else s)"
| "rss_step (XText text) s =
     (if rs_in_guid s
      then (case (rs_current s, text) of
              (Some current, Inr value) \<Rightarrow>
                s\<lparr>rs_current := Some (current\<lparr>ref_guid := Some (trim value)\<rparr>)\<rparr>
            | _ \<Rightarrow> s)
      else s)"
| "rss_step (XEnd local_name) s =
     (if local_name = ''guid'' then s\<lparr>rs_in_guid := False\<rparr>
      else if local_name = ''item''
      then (case rs_current s of
              None \<Rightarrow> s
            | Some current \<Rightarrow> s\<lparr>rs_current := None, rs_facts := rs_facts s @ [current]\<rparr>)
      else s)"
| "rss_step _ s = s"

text \<open>An error of the reader ends the loop like the end of the document.\<close>

fun rss_loop :: "source_event list \<Rightarrow> rss_scan \<Rightarrow> rss_scan" where
  "rss_loop [] s = s"
| "rss_loop (event # events) s =
     (case event of XError _ \<Rightarrow> s | _ \<Rightarrow> rss_loop events (rss_step event s))"

definition rss_entry_facts_of :: "source_event list \<Rightarrow> rss_entry_facts list" where
  "rss_entry_facts_of events =
     rs_facts (rss_loop events \<lparr>rs_facts = [], rs_current = None, rs_in_guid = False\<rparr>)"

subsection \<open>Entries\<close>

definition media_caption :: "media_object \<Rightarrow> string option" where
  "media_caption media =
     (case mo_title media of None \<Rightarrow> mo_description media | Some title \<Rightarrow> Some title)"

definition append_media :: "media_reference list \<Rightarrow> media_object \<Rightarrow> media_reference list" where
  "append_media references media =
     (let caption = media_caption media in
      references
      @ List.map_filter (\<lambda>content. map_option (\<lambda>url.
            \<lparr>mr_url = url, mr_mime_type = mc_content_type content, mr_caption = caption,
             mr_width = mc_width content, mr_height = mc_height content\<rparr>) (mc_url content))
          (mo_content media)
      @ map (\<lambda>thumbnail.
            \<lparr>mr_url = mt_uri thumbnail, mr_mime_type = None, mr_caption = caption,
             mr_width = mt_width thumbnail, mr_height = mt_height thumbnail\<rparr>)
          (mo_thumbnails media))"

definition media_references_of :: "feed_entry \<Rightarrow> bool \<Rightarrow> media_reference list" where
  "media_references_of entry is_atom =
     foldl append_media
       (if is_atom
        then map (\<lambda>link. \<lparr>mr_url = fl_href link, mr_mime_type = fl_media_type link,
                          mr_caption = fl_title link, mr_width = None, mr_height = None\<rparr>)
               (filter (\<lambda>link. fl_rel link = Some ''enclosure'') (fe_links entry))
        else [])
       (fe_media entry)"

definition entry_url ::
  "url_parser \<Rightarrow> feed_entry \<Rightarrow> bool \<Rightarrow> rss_entry_facts option \<Rightarrow> string option" where
  "entry_url parse entry is_atom facts =
     (if is_atom
      then map_option fl_href (find (\<lambda>link. fl_rel link = Some ''alternate'') (fe_links entry))
      else case fe_links entry of
             link # _ \<Rightarrow> Some (fl_href link)
           | [] \<Rightarrow> Option.bind facts (\<lambda>facts.
               if ref_guid_is_permalink facts
               then Option.bind (ref_guid facts) (\<lambda>guid.
                      case parse guid of Inl _ \<Rightarrow> None | Inr _ \<Rightarrow> Some guid)
               else None))"

definition map_entry ::
  "url_parser \<Rightarrow> feed_entry \<Rightarrow> feed_type \<Rightarrow> string \<Rightarrow> rss_entry_facts option \<Rightarrow> source_item" where
  "map_entry parse entry feed_type feed_url facts =
     (let is_atom = (feed_type = FtAtom) in
      \<lparr>si_source_type = ''feed'',
       si_source_item_id =
         (if fe_id entry \<noteq> MISSING_ID \<and> fe_id entry \<noteq> [] then Some (fe_id entry) else None),
       si_url = entry_url parse entry is_atom facts,
       si_title = fe_title entry,
       si_snippet = fe_summary entry,
       si_authors = fe_authors entry,
       si_published_at = Option.bind (fe_published entry) u64_try_from,
       si_updated_at = (if is_atom then Option.bind (fe_updated entry) u64_try_from else None),
       si_discovered_via = Some feed_url,
       si_media_references = media_references_of entry is_atom\<rparr>)"

fun feed_type_name :: "feed_type \<Rightarrow> feed_parse_failure + string" where
  "feed_type_name FtAtom = Inr ''atom''"
| "feed_type_name FtRss0 = Inr ''rss0''"
| "feed_type_name FtRss1 = Inr ''rss1''"
| "feed_type_name FtRss2 = Inr ''rss2''"
| "feed_type_name FtJson =
     Inl (FeedNotFeed ''the fetched representation is not an RSS or Atom feed'')"

text \<open>
  \<open>events\<close> and \<open>trimmed\<close> are the readers of the bytes without and with \<open>trim_text\<close>; the
  \<open>feed_rs\<close> parser answers for a base URI and the identifier its generator gives.
\<close>

definition feed_parse_sync ::
  "url_parser \<Rightarrow> source_event list \<Rightarrow> source_event list \<Rightarrow> (string \<Rightarrow> string \<Rightarrow> string + feed) \<Rightarrow> string
    \<Rightarrow> feed_parse_failure + feed_discovery_result" where
  "feed_parse_sync parse events trimmed parser feed_url =
     res_bind (ensure_supported_xml_root events) (\<lambda>_.
     res_bind (map_err FeedParse (parser feed_url MISSING_ID)) (\<lambda>feed.
     res_bind (feed_type_name (fd_feed_type feed)) (\<lambda>feed_type.
       let rss_facts = (if fd_feed_type feed \<in> {FtRss0, FtRss1, FtRss2}
                        then rss_entry_facts_of trimmed else []);
           entries = map (\<lambda>(index, entry). map_entry parse entry (fd_feed_type feed) feed_url
                        (if index < length rss_facts then Some (rss_facts ! index) else None))
                      (enumerate 0 (fd_entries feed))
       in Inr \<lparr>fdr_feed_type = feed_type, fdr_feed_title = fd_title feed,
               fdr_feed_authors = fd_authors feed, fdr_language = fd_language feed,
               fdr_entries = entries\<rparr>)))"

end
