(* ===== verification/News_Sitemap.thy ===== *)
theory News_Sitemap
  imports Source_Items
begin

text \<open>
  The Google News sitemap parser (\<open>features/news_sitemap.rs\<close>): one pass over the resolved
  events of a namespace-aware reader, with the depth, the URL frame and the text field it
  is in as its state.  The events, unescaping and the calendar are arguments.
\<close>

section \<open>Data\<close>

record news_sitemap_metadata =
  nsm_publication_name :: "string option"
  nsm_language :: "string option"
  nsm_publication_date_raw :: "string option"

record news_sitemap_entry =
  nse_item :: source_item
  nse_news :: "news_sitemap_metadata option"

record news_sitemap_result =
  nsr_sitemap_type :: string
  nsr_entries :: "news_sitemap_entry list"

datatype news_sitemap_failure =
    NewsNotSitemap string | NewsParse string | NewsPanicked string

fun news_sitemap_failure_display :: "news_sitemap_failure \<Rightarrow> string" where
  "news_sitemap_failure_display (NewsNotSitemap message) = message"
| "news_sitemap_failure_display (NewsParse message) = message"
| "news_sitemap_failure_display (NewsPanicked message) = message"

record url_frame =
  uf_url_depth :: nat
  uf_loc :: "string option"
  uf_lastmod :: "string option"
  uf_news_present :: bool
  uf_news_depth :: "nat option"
  uf_publication_depth :: "nat option"
  uf_publication_name :: "string option"
  uf_language :: "string option"
  uf_publication_date_raw :: "string option"
  uf_title :: "string option"

definition frame_at :: "nat \<Rightarrow> url_frame" where
  "frame_at depth =
     \<lparr>uf_url_depth = depth, uf_loc = None, uf_lastmod = None, uf_news_present = False,
      uf_news_depth = None, uf_publication_depth = None, uf_publication_name = None,
      uf_language = None, uf_publication_date_raw = None, uf_title = None\<rparr>"

datatype text_field = FLoc | FLastmod | FPublicationName | FLanguage | FPublicationDate | FTitle

record active_field =
  af_kind :: text_field
  af_depth :: nat

section \<open>Events\<close>

text \<open>\<open>ResolveResult\<close>: no namespace, a bound one, or a prefix that is not declared.\<close>

datatype xml_namespace = NsUnbound | NsBound string | NsUnknown string

text \<open>
  \<open>read_resolved_event\<close>: texts, character data and references are decoded or fail; the end
  of a list of events is \<open>Eof\<close>; declarations, comments and instructions are \<open>NOther\<close>.
\<close>

datatype ns_event =
    NStart xml_namespace string
  | NEmpty xml_namespace string
  | NText "string + string"
  | NCData "string + string"
  | NGeneralRef "string + string"
  | NEnd string
  | NOther
  | NError string

text \<open>
  \<open>quick_xml::escape::unescape\<close>, \<open>url::Url::parse\<close> and \<open>chrono\<close>: a date of the form
  \<open>%Y-%m-%d\<close> as the milliseconds of its midnight in UTC, and times in the RFC 3339 form and in
  the one without seconds.
\<close>

record news_deps =
  nd_unescape :: "string \<Rightarrow> string + string"
  nd_url :: url_parser
  nd_naive_date :: "string \<Rightarrow> int option"
  nd_rfc3339 :: "string \<Rightarrow> int option"
  nd_minutes :: "string \<Rightarrow> int option"

definition NEWS_NS :: string where
  "NEWS_NS = ''http://www.google.com/schemas/sitemap-news/0.9''"

definition SITEMAP_NS :: string where
  "SITEMAP_NS = ''http://www.sitemaps.org/schemas/sitemap/0.9''"

definition is_ns :: "xml_namespace \<Rightarrow> string \<Rightarrow> bool" where
  "is_ns namespace expected = (namespace = NsBound expected)"

definition is_standard :: "xml_namespace \<Rightarrow> bool" where
  "is_standard namespace = (namespace = NsUnbound \<or> is_ns namespace SITEMAP_NS)"

section \<open>Frames\<close>

fun field_value :: "url_frame \<Rightarrow> text_field \<Rightarrow> string option" where
  "field_value fr FLoc = uf_loc fr"
| "field_value fr FLastmod = uf_lastmod fr"
| "field_value fr FPublicationName = uf_publication_name fr"
| "field_value fr FLanguage = uf_language fr"
| "field_value fr FPublicationDate = uf_publication_date_raw fr"
| "field_value fr FTitle = uf_title fr"

fun set_field_value :: "text_field \<Rightarrow> string option \<Rightarrow> url_frame \<Rightarrow> url_frame" where
  "set_field_value FLoc v fr = fr\<lparr>uf_loc := v\<rparr>"
| "set_field_value FLastmod v fr = fr\<lparr>uf_lastmod := v\<rparr>"
| "set_field_value FPublicationName v fr = fr\<lparr>uf_publication_name := v\<rparr>"
| "set_field_value FLanguage v fr = fr\<lparr>uf_language := v\<rparr>"
| "set_field_value FPublicationDate v fr = fr\<lparr>uf_publication_date_raw := v\<rparr>"
| "set_field_value FTitle v fr = fr\<lparr>uf_title := v\<rparr>"

definition append_text :: "url_frame \<Rightarrow> text_field \<Rightarrow> string \<Rightarrow> url_frame" where
  "append_text fr field fragment =
     set_field_value field
       (Some ((case field_value fr field of None \<Rightarrow> [] | Some s \<Rightarrow> s) @ fragment)) fr"

definition trim_field :: "url_frame \<Rightarrow> text_field \<Rightarrow> url_frame" where
  "trim_field fr field =
     set_field_value field
       (Option.bind (field_value fr field)
          (\<lambda>text. if trim text \<noteq> [] then Some (trim text) else None)) fr"

definition publication_timestamp_millis :: "news_deps \<Rightarrow> string \<Rightarrow> nat option" where
  "publication_timestamp_millis d raw =
     (if nd_naive_date d raw \<noteq> None then None
      else Option.bind (case nd_rfc3339 d raw of Some t \<Rightarrow> Some t | None \<Rightarrow> nd_minutes d raw) u64_try_from)"

definition lastmod_timestamp_millis :: "news_deps \<Rightarrow> string \<Rightarrow> nat option" where
  "lastmod_timestamp_millis d raw =
     Option.bind (case nd_rfc3339 d raw of Some t \<Rightarrow> Some t | None \<Rightarrow> nd_naive_date d raw) u64_try_from"

definition finish_frame ::
  "news_deps \<Rightarrow> url_frame \<Rightarrow> string \<Rightarrow> news_sitemap_failure + news_sitemap_entry" where
  "finish_frame d fr via =
     res_bind (ok_or (NewsParse ''sitemap url entry is missing loc'') (uf_loc fr)) (\<lambda>loc.
     res_bind (map_err (\<lambda>_. NewsParse ''sitemap url entry has an invalid loc'') (nd_url d loc)) (\<lambda>_.
       Inr \<lparr>nse_item =
              \<lparr>si_source_type = ''sitemap'', si_source_item_id = None, si_url = Some loc,
               si_title = uf_title fr, si_snippet = None, si_authors = [],
               si_published_at =
                 Option.bind (uf_publication_date_raw fr) (publication_timestamp_millis d),
               si_updated_at = Option.bind (uf_lastmod fr) (lastmod_timestamp_millis d),
               si_discovered_via = Some via, si_media_references = []\<rparr>,
            nse_news =
              (if uf_news_present fr
               then Some \<lparr>nsm_publication_name = uf_publication_name fr,
                          nsm_language = uf_language fr,
                          nsm_publication_date_raw = uf_publication_date_raw fr\<rparr>
               else None)\<rparr>))"

section \<open>The parser\<close>

record news_state =
  ns_root :: "string option"
  ns_frame :: "url_frame option"
  ns_field :: "active_field option"
  ns_entries :: "news_sitemap_entry list"
  ns_depth :: nat
  ns_root_closed :: bool

definition news_start :: news_state where
  "news_start =
     \<lparr>ns_root = None, ns_frame = None, ns_field = None, ns_entries = [], ns_depth = 0,
      ns_root_closed = False\<rparr>"

definition root_name :: "xml_namespace \<Rightarrow> string \<Rightarrow> string" where
  "root_name namespace local_name =
     (if local_name = ''urlset'' \<and> is_standard namespace then ''urlset''
      else if local_name = ''sitemapindex'' \<and> is_standard namespace then ''sitemapindex''
      else ''other'')"

text \<open>A start tag inside a URL: it may open a news block, a publication and a field.\<close>

definition enter_blocks :: "xml_namespace \<Rightarrow> string \<Rightarrow> nat \<Rightarrow> url_frame \<Rightarrow> url_frame" where
  "enter_blocks namespace local_name depth current =
     (let current = (if local_name = ''news'' \<and> is_ns namespace NEWS_NS
                     then current\<lparr>uf_news_present := True, uf_news_depth := Some depth\<rparr>
                     else current)
      in if local_name = ''publication'' \<and> uf_news_depth current \<noteq> None \<and> is_ns namespace NEWS_NS
         then current\<lparr>uf_publication_depth := Some depth\<rparr> else current)"

definition field_of :: "xml_namespace \<Rightarrow> string \<Rightarrow> url_frame \<Rightarrow> text_field option" where
  "field_of namespace local_name current =
     (if local_name = ''loc'' \<and> is_standard namespace then Some FLoc
      else if local_name = ''lastmod'' \<and> is_standard namespace then Some FLastmod
      else if local_name = ''name'' \<and> uf_publication_depth current \<noteq> None \<and> is_ns namespace NEWS_NS
      then Some FPublicationName
      else if local_name = ''language'' \<and> uf_publication_depth current \<noteq> None \<and> is_ns namespace NEWS_NS
      then Some FLanguage
      else if local_name = ''publication_date'' \<and> uf_news_depth current \<noteq> None \<and> is_ns namespace NEWS_NS
      then Some FPublicationDate
      else if local_name = ''title'' \<and> uf_news_depth current \<noteq> None \<and> is_ns namespace NEWS_NS
      then Some FTitle
      else None)"

definition multiple_roots :: news_sitemap_failure where
  "multiple_roots = NewsParse ''news sitemap XML contains multiple root elements''"

definition start_step ::
  "xml_namespace \<Rightarrow> string \<Rightarrow> news_state \<Rightarrow> news_sitemap_failure + news_state" where
  "start_step namespace local_name s =
     (if ns_depth s = 0 \<and> ns_root s \<noteq> None then Inl multiple_roots
      else let depth = Suc (ns_depth s); s = s\<lparr>ns_depth := depth\<rparr>
      in if ns_root s = None then Inr (s\<lparr>ns_root := Some (root_name namespace local_name)\<rparr>)
         else if ns_root s = Some ''urlset'' \<and> ns_frame s = None \<and> depth = 2 \<and> local_name = ''url''
                 \<and> is_standard namespace
         then Inr (s\<lparr>ns_frame := Some (frame_at depth)\<rparr>)
         else case ns_frame s of
                None \<Rightarrow> Inr s
              | Some current \<Rightarrow>
                  (let current = enter_blocks namespace local_name depth current in
                   Inr (s\<lparr>ns_frame := Some current,
                          ns_field := map_option (\<lambda>kind. \<lparr>af_kind = kind, af_depth = depth\<rparr>)
                                        (field_of namespace local_name current)\<rparr>)))"

definition empty_step ::
  "xml_namespace \<Rightarrow> string \<Rightarrow> news_state \<Rightarrow> news_sitemap_failure + news_state" where
  "empty_step namespace local_name s =
     (if ns_root s = None
      then Inr (s\<lparr>ns_root := Some (root_name namespace local_name), ns_root_closed := True\<rparr>)
      else if ns_depth s = 0 then Inl multiple_roots
      else case ns_frame s of
             None \<Rightarrow> Inr s
           | Some current \<Rightarrow>
               if local_name = ''news'' \<and> is_ns namespace NEWS_NS
               then Inr (s\<lparr>ns_frame := Some (current\<lparr>uf_news_present := True\<rparr>)\<rparr>)
               else Inr s)"

definition text_step ::
  "(string \<Rightarrow> string + string) \<Rightarrow> string + string \<Rightarrow> news_state \<Rightarrow> news_sitemap_failure + news_state" where
  "text_step unescape decoded s =
     (case (ns_frame s, ns_field s) of
        (Some current, Some active) \<Rightarrow>
          res_bind (map_err NewsParse decoded) (\<lambda>decoded.
          res_bind (map_err NewsParse (unescape decoded)) (\<lambda>value.
            Inr (s\<lparr>ns_frame := Some (append_text current (af_kind active) value)\<rparr>)))
      | _ \<Rightarrow> Inr s)"

definition trim_active :: "news_state \<Rightarrow> news_state" where
  "trim_active s =
     (case ns_field s of
        None \<Rightarrow> s
      | Some active \<Rightarrow>
          if af_depth active = ns_depth s
          then (case ns_frame s of
                  Some current \<Rightarrow>
                    s\<lparr>ns_frame := Some (trim_field current (af_kind active)), ns_field := None\<rparr>
                | None \<Rightarrow> s\<lparr>ns_field := None\<rparr>)
          else s)"

definition finish_url ::
  "news_deps \<Rightarrow> string \<Rightarrow> string \<Rightarrow> news_state \<Rightarrow> news_sitemap_failure + news_state" where
  "finish_url d via local_name s =
     (case ns_frame s of
        Some current \<Rightarrow>
          if local_name = ''url'' \<and> uf_url_depth current = ns_depth s
          then res_bind (finish_frame d current via) (\<lambda>entry.
                 Inr (s\<lparr>ns_frame := None, ns_entries := ns_entries s @ [entry]\<rparr>))
          else Inr s
      | None \<Rightarrow> Inr s)"

definition leave_blocks :: "nat \<Rightarrow> url_frame \<Rightarrow> url_frame" where
  "leave_blocks depth current =
     (let current = (if uf_publication_depth current = Some depth
                     then current\<lparr>uf_publication_depth := None\<rparr> else current)
      in if uf_news_depth current = Some depth then current\<lparr>uf_news_depth := None\<rparr> else current)"

definition end_step ::
  "news_deps \<Rightarrow> string \<Rightarrow> string \<Rightarrow> news_state \<Rightarrow> news_sitemap_failure + news_state" where
  "end_step d via local_name s =
     res_bind (finish_url d via local_name (trim_active s)) (\<lambda>s.
       let s = s\<lparr>ns_frame := map_option (leave_blocks (ns_depth s)) (ns_frame s)\<rparr>
       in case ns_depth s of
            0 \<Rightarrow> Inl (NewsParse ''unexpected closing XML element'')
          | Suc depth \<Rightarrow>
              Inr (s\<lparr>ns_depth := depth, ns_root_closed := (depth = 0 \<or> ns_root_closed s)\<rparr>))"

fun news_step :: "news_deps \<Rightarrow> string \<Rightarrow> ns_event \<Rightarrow> news_state \<Rightarrow> news_sitemap_failure + news_state" where
  "news_step d via (NStart namespace local_name) s = start_step namespace local_name s"
| "news_step d via (NEmpty namespace local_name) s = empty_step namespace local_name s"
| "news_step d via (NText text) s = text_step (nd_unescape d) text s"
| "news_step d via (NCData text) s = text_step Inr text s"
| "news_step d via (NGeneralRef reference) s =
     text_step (\<lambda>r. nd_unescape d (''&'' @ r @ '';'')) reference s"
| "news_step d via (NEnd local_name) s = end_step d via local_name s"
| "news_step d via NOther s = Inr s"
| "news_step d via (NError error) s = Inl (NewsParse error)"

definition news_finish :: "news_state \<Rightarrow> news_sitemap_failure + news_sitemap_result" where
  "news_finish s =
     (if ns_depth s \<noteq> 0 \<or> \<not> ns_root_closed s
      then Inl (NewsParse ''news sitemap XML ended before all elements were closed'')
      else case ns_root s of
             None \<Rightarrow> Inl (NewsParse ''news sitemap XML has no root element'')
           | Some root \<Rightarrow>
               if root = ''urlset''
               then Inr \<lparr>nsr_sitemap_type = ''urlset'', nsr_entries = ns_entries s\<rparr>
               else if root = ''sitemapindex''
               then Inr \<lparr>nsr_sitemap_type = ''sitemapindex'', nsr_entries = []\<rparr>
               else if root = ''other''
               then Inl (NewsNotSitemap ''the fetched XML document is not a sitemap'')
               else Inl (NewsParse ''news sitemap XML has no root element''))"

definition news_parse_sync ::
  "news_deps \<Rightarrow> ns_event list \<Rightarrow> string \<Rightarrow> news_sitemap_failure + news_sitemap_result" where
  "news_parse_sync d events via = res_bind (res_fold (news_step d via) events news_start) news_finish"

end
