(* ===== verification/Research_Scope.thy ===== *)
theory Research_Scope
  imports Feeds News_Sitemap
begin

text \<open>
  The discovery scope and the one seam that turns seeds and already-acquired documents into
  source items (\<open>features/research_scope.rs\<close>).  What the third-party readers answer for the
  bytes of a document is the record \<open>source_readers\<close>; a fault of the blocking parser task
  may hit any input.
\<close>

section \<open>Scopes\<close>

datatype scope_seed = OnionSeed string | Candidate source_item

record research_scope =
  rsc_seeds :: "scope_seed list"

definition research_scope_new :: research_scope where
  "research_scope_new = \<lparr>rsc_seeds = []\<rparr>"

definition scope_push :: "scope_seed \<Rightarrow> research_scope \<Rightarrow> research_scope" where
  "scope_push seed scope = scope\<lparr>rsc_seeds := rsc_seeds scope @ [seed]\<rparr>"

definition scope_is_empty :: "research_scope \<Rightarrow> bool" where
  "scope_is_empty scope = (rsc_seeds scope = [])"

definition scope_len :: "research_scope \<Rightarrow> nat" where
  "scope_len scope = length (rsc_seeds scope)"

section \<open>Inputs\<close>

record discovery_material =
  dm_bytes :: bytes
  dm_url :: string

datatype discovery_parser_intent = IntentFeed | IntentSitemap | IntentNewsSitemap

datatype discovery_input = Scope scope_seed | Material discovery_material discovery_parser_intent

definition into_inputs :: "research_scope \<Rightarrow> discovery_input list" where
  "into_inputs scope = map Scope (rsc_seeds scope)"

datatype discovery_error =
    DeOnionSeed onion_seed_error
  | DeFeed feed_parse_failure
  | DeSitemap sitemap_parse_failure
  | DeNewsSitemap news_sitemap_failure

fun discovery_error_display :: "discovery_error \<Rightarrow> string" where
  "discovery_error_display (DeOnionSeed e) = onion_seed_error_display e"
| "discovery_error_display (DeFeed e) = feed_parse_failure_display e"
| "discovery_error_display (DeSitemap e) = sitemap_parse_failure_display e"
| "discovery_error_display (DeNewsSitemap e) = news_sitemap_failure_display e"

section \<open>Parsing\<close>

record source_readers =
  sr_events :: "bytes \<Rightarrow> source_event list"
  sr_trimmed_events :: "bytes \<Rightarrow> source_event list"
  sr_feed :: "bytes \<Rightarrow> string \<Rightarrow> string \<Rightarrow> string + feed"
  sr_entities :: "bytes \<Rightarrow> sitemap_entity list"
  sr_ns_events :: "bytes \<Rightarrow> ns_event list"
  sr_news :: news_deps

definition feed_parse ::
  "source_readers \<Rightarrow> task_fault option \<Rightarrow> bytes \<Rightarrow> string \<Rightarrow> feed_parse_failure + feed_discovery_result" where
  "feed_parse r fault bytes url =
     contained ''feed'' FeedPanicked fault
       (feed_parse_sync (nd_url (sr_news r)) (sr_events r bytes) (sr_trimmed_events r bytes)
          (sr_feed r bytes) url)"

definition sitemap_parse ::
  "source_readers \<Rightarrow> task_fault option \<Rightarrow> bytes \<Rightarrow> string
    \<Rightarrow> sitemap_parse_failure + sitemap_discovery_result" where
  "sitemap_parse r fault bytes url =
     contained ''sitemap'' SitemapPanicked fault
       (sitemap_parse_sync (sr_events r bytes) (sr_entities r bytes) url)"

definition news_sitemap_parse ::
  "source_readers \<Rightarrow> task_fault option \<Rightarrow> bytes \<Rightarrow> string
    \<Rightarrow> news_sitemap_failure + news_sitemap_result" where
  "news_sitemap_parse r fault bytes url =
     contained ''news sitemap'' NewsPanicked fault
       (news_parse_sync (sr_news r) (sr_ns_events r bytes) url)"

fun parse_material ::
  "source_readers \<Rightarrow> task_fault option \<Rightarrow> discovery_material \<Rightarrow> discovery_parser_intent
    \<Rightarrow> discovery_error + source_item list" where
  "parse_material r fault material IntentFeed =
     map_sum DeFeed fdr_entries (feed_parse r fault (dm_bytes material) (dm_url material))"
| "parse_material r fault material IntentSitemap =
     map_sum DeSitemap sdr_entries (sitemap_parse r fault (dm_bytes material) (dm_url material))"
| "parse_material r fault material IntentNewsSitemap =
     map_sum DeNewsSitemap (\<lambda>result. map nse_item (nsr_entries result))
       (news_sitemap_parse r fault (dm_bytes material) (dm_url material))"

section \<open>Discovery\<close>

record discovery_outcome =
  per_input :: "(discovery_error + source_item list) list"

definition discovery_candidates :: "discovery_outcome \<Rightarrow> source_item list" where
  "discovery_candidates outcome =
     concat (List.map_filter (case_sum (\<lambda>_. None) Some) (per_input outcome))"

definition discovery_errors :: "discovery_outcome \<Rightarrow> (nat \<times> discovery_error) list" where
  "discovery_errors outcome =
     List.map_filter (\<lambda>(index, result). case_sum (\<lambda>error. Some (index, error)) (\<lambda>_. None) result)
       (enumerate 0 (per_input outcome))"

fun discover_input ::
  "source_readers \<Rightarrow> task_fault option \<Rightarrow> discovery_input \<Rightarrow> discovery_error + source_item list" where
  "discover_input r fault (Scope (OnionSeed seed)) =
     map_sum DeOnionSeed (\<lambda>item. [item]) (normalize_onion_seed (nd_url (sr_news r)) seed)"
| "discover_input r fault (Scope (Candidate item)) = Inr [item]"
| "discover_input r fault (Material material intent) = parse_material r fault material intent"

text \<open>\<open>fault i\<close> is the fault that hits the parser task of the \<open>i\<close>-th input.\<close>

definition discover ::
  "source_readers \<Rightarrow> (nat \<Rightarrow> task_fault option) \<Rightarrow> discovery_input list \<Rightarrow> discovery_outcome" where
  "discover r fault inputs =
     \<lparr>per_input = map (\<lambda>(i, input). discover_input r (fault i) input) (enumerate 0 inputs)\<rparr>"

lemma per_input_discover:
  "length (per_input (discover r fault inputs)) = length inputs"
  "i < length inputs \<Longrightarrow> per_input (discover r fault inputs) ! i = discover_input r (fault i) (inputs ! i)"
  by (simp_all add: discover_def nth_enumerate_eq)

end
