(* ===== verification/News_Reference.thy ===== *)
theory News_Reference
  imports News_Sitemap
begin

text \<open>
  A reference reading of News sitemaps: by recursion on the tree of a document instead of
  by depths in one pass.  The blocks an element lies in are arguments, a field is the
  trimmed text of its element, appended to what an earlier element of the same field gave.
\<close>

section \<open>Documents\<close>

datatype text_piece = PText string | PCData string | PReference string | PIgnored

datatype news_tree =
    Elem xml_namespace string "news_tree list"
  | EmptyElem xml_namespace string
  | Piece text_piece

fun piece_event :: "text_piece \<Rightarrow> ns_event" where
  "piece_event (PText s) = NText (Inr s)"
| "piece_event (PCData s) = NCData (Inr s)"
| "piece_event (PReference s) = NGeneralRef (Inr s)"
| "piece_event PIgnored = NOther"

fun tree_events :: "news_tree \<Rightarrow> ns_event list" where
  "tree_events (Elem namespace local_name children) =
     NStart namespace local_name # concat (map tree_events children) @ [NEnd local_name]"
| "tree_events (EmptyElem namespace local_name) = [NEmpty namespace local_name]"
| "tree_events (Piece p) = [piece_event p]"

section \<open>The reference\<close>

lemma res_fold_cong [fundef_cong]:
  "xs = ys \<Longrightarrow> b = c \<Longrightarrow> (\<And>x b. x \<in> set ys \<Longrightarrow> f x b = g x b) \<Longrightarrow> res_fold f xs b = res_fold g ys c"
  by (induction xs arbitrary: ys b c) (auto simp: res_bind_def split: sum.splits)

fun piece_text :: "news_deps \<Rightarrow> text_piece \<Rightarrow> string + string" where
  "piece_text d (PText s) = nd_unescape d s"
| "piece_text d (PCData s) = Inr s"
| "piece_text d (PReference s) = nd_unescape d (''&'' @ s @ '';'')"
| "piece_text d PIgnored = Inr []"

text \<open>The text of an element that holds text only.\<close>

fun text_of :: "news_deps \<Rightarrow> news_tree list \<Rightarrow> news_sitemap_failure + string" where
  "text_of d (Piece p # nodes) =
     res_bind (map_err NewsParse (piece_text d p)) (\<lambda>s. res_bind (text_of d nodes) (\<lambda>t. Inr (s @ t)))"
| "text_of d (_ # nodes) = text_of d nodes"
| "text_of d [] = Inr []"

definition is_news :: "xml_namespace \<Rightarrow> string \<Rightarrow> bool" where
  "is_news namespace local_name = (local_name = ''news'' \<and> is_ns namespace NEWS_NS)"

definition is_publication :: "xml_namespace \<Rightarrow> string \<Rightarrow> bool" where
  "is_publication namespace local_name = (local_name = ''publication'' \<and> is_ns namespace NEWS_NS)"

definition field_in :: "bool \<Rightarrow> bool \<Rightarrow> xml_namespace \<Rightarrow> string \<Rightarrow> text_field option" where
  "field_in in_news in_publication namespace local_name =
     (if is_standard namespace \<and> local_name = ''loc'' then Some FLoc
      else if is_standard namespace \<and> local_name = ''lastmod'' then Some FLastmod
      else if \<not> is_ns namespace NEWS_NS then None
      else if in_publication \<and> local_name = ''name'' then Some FPublicationName
      else if in_publication \<and> local_name = ''language'' then Some FLanguage
      else if in_news \<and> local_name = ''publication_date'' then Some FPublicationDate
      else if in_news \<and> local_name = ''title'' then Some FTitle
      else None)"

definition text_or_empty :: "string option \<Rightarrow> string" where
  "text_or_empty v = (case v of None \<Rightarrow> [] | Some s \<Rightarrow> s)"

definition tidy :: "string \<Rightarrow> string option" where
  "tidy text = (if trim text = [] then None else Some (trim text))"

fun read_node :: "news_deps \<Rightarrow> bool \<Rightarrow> bool \<Rightarrow> news_tree \<Rightarrow> url_frame \<Rightarrow> news_sitemap_failure + url_frame" where
  "read_node d in_news in_publication (Elem namespace local_name children) g =
     (let g = (if is_news namespace local_name then g\<lparr>uf_news_present := True\<rparr> else g);
          in_news = (in_news \<or> is_news namespace local_name);
          in_publication = (in_publication \<or> in_news \<and> is_publication namespace local_name)
      in case field_in in_news in_publication namespace local_name of
           Some kind \<Rightarrow> res_bind (text_of d children) (\<lambda>text.
             Inr (set_field_value kind (tidy (text_or_empty (field_value g kind) @ text)) g))
         | None \<Rightarrow> res_fold (read_node d in_news in_publication) children g)"
| "read_node d in_news in_publication (EmptyElem namespace local_name) g =
     Inr (if is_news namespace local_name then g\<lparr>uf_news_present := True\<rparr> else g)"
| "read_node d in_news in_publication (Piece p) g = Inr g"

definition read_url ::
  "news_deps \<Rightarrow> string \<Rightarrow> news_tree list \<Rightarrow> news_sitemap_failure + news_sitemap_entry" where
  "read_url d via children =
     res_bind (res_fold (read_node d False False) children (frame_at 2)) (\<lambda>g. finish_frame d g via)"

fun read_urls ::
  "news_deps \<Rightarrow> string \<Rightarrow> news_tree list \<Rightarrow> news_sitemap_failure + news_sitemap_entry list" where
  "read_urls d via (Elem namespace local_name children # nodes) =
     (if local_name = ''url'' \<and> is_standard namespace
      then res_bind (read_url d via children) (\<lambda>entry.
           res_bind (read_urls d via nodes) (\<lambda>entries. Inr (entry # entries)))
      else read_urls d via nodes)"
| "read_urls d via (_ # nodes) = read_urls d via nodes"
| "read_urls d via [] = Inr []"

definition read_root ::
  "news_deps \<Rightarrow> string \<Rightarrow> xml_namespace \<Rightarrow> string \<Rightarrow> news_tree list \<Rightarrow> news_sitemap_failure + news_sitemap_result" where
  "read_root d via namespace local_name children =
     (if is_standard namespace \<and> local_name = ''urlset''
      then res_bind (read_urls d via children) (\<lambda>entries.
             Inr \<lparr>nsr_sitemap_type = ''urlset'', nsr_entries = entries\<rparr>)
      else if is_standard namespace \<and> local_name = ''sitemapindex''
      then Inr \<lparr>nsr_sitemap_type = ''sitemapindex'', nsr_entries = []\<rparr>
      else Inl (NewsNotSitemap ''the fetched XML document is not a sitemap''))"

section \<open>Plain documents\<close>

text \<open>
  The fields of a URL hold text only, and news and publication blocks are not nested in
  themselves.
\<close>

fun is_piece :: "news_tree \<Rightarrow> bool" where
  "is_piece (Piece _) = True"
| "is_piece _ = False"

fun plain_node :: "bool \<Rightarrow> bool \<Rightarrow> news_tree \<Rightarrow> bool" where
  "plain_node in_news in_publication (Elem namespace local_name children) =
     (\<not> (in_news \<and> is_news namespace local_name) \<and>
      \<not> (in_publication \<and> is_publication namespace local_name) \<and>
      (let in_news = (in_news \<or> is_news namespace local_name);
           in_publication = (in_publication \<or> in_news \<and> is_publication namespace local_name)
       in if field_in in_news in_publication namespace local_name \<noteq> None
          then list_all is_piece children
          else list_all (plain_node in_news in_publication) children))"
| "plain_node in_news in_publication _ = True"

fun plain_url_node :: "news_tree \<Rightarrow> bool" where
  "plain_url_node (Elem namespace local_name children) =
     (local_name = ''url'' \<and> is_standard namespace \<longrightarrow> list_all (plain_node False False) children)"
| "plain_url_node _ = True"

section \<open>Helpers\<close>

lemma res_fold_append: "res_fold f (xs @ ys) b = res_bind (res_fold f xs b) (res_fold f ys)"
  by (induction xs arbitrary: b) (auto simp: res_bind_def split: sum.splits)

lemma res_bind_assoc: "res_bind (res_bind x f) g = res_bind x (\<lambda>v. res_bind (f v) g)"
  by (cases x) simp_all

lemma field_value_set [simp]: "field_value (set_field_value k v g) k = v"
  by (cases k) simp_all

lemma set_field_value_twice [simp]: "set_field_value k v (set_field_value k w g) = set_field_value k v g"
  by (cases k) simp_all

lemma set_field_value_same [simp]: "set_field_value k (field_value g k) g = g"
  by (cases k) simp_all

text \<open>The frame of the parser is the one of the reference, with the open blocks marked.\<close>

definition marked :: "nat option \<Rightarrow> nat option \<Rightarrow> url_frame \<Rightarrow> url_frame" where
  "marked news pub g = g\<lparr>uf_news_depth := news, uf_publication_depth := pub\<rparr>"

lemma marked_field [simp]:
  "field_value (marked m p g) k = field_value g k"
  "set_field_value k v (marked m p g) = marked m p (set_field_value k v g)"
  "uf_news_depth (marked m p g) = m" "uf_publication_depth (marked m p g) = p"
  "uf_url_depth (marked m p g) = uf_url_depth g"
  "uf_url_depth (set_field_value k v g) = uf_url_depth g"
  "marked m p g\<lparr>uf_news_present := b\<rparr> = marked m p (g\<lparr>uf_news_present := b\<rparr>)"
  by (cases k; simp add: marked_def)+

lemma finish_frame_marked [simp]: "finish_frame d (marked m p g) via = finish_frame d g via"
  by (simp add: finish_frame_def marked_def)

section \<open>Reading the text of a field\<close>

lemma trim_Nil [simp]: "trim [] = []"
  by (simp add: trim_def trim_end_def)

lemma step_piece:
  "news_step d via (piece_event p) (s\<lparr>ns_frame := Some g, ns_field := Some \<lparr>af_kind = k, af_depth = n\<rparr>\<rparr>) =
   res_bind (map_err NewsParse (piece_text d p)) (\<lambda>t.
     Inr (s\<lparr>ns_frame := Some (if p = PIgnored then g else append_text g k t),
            ns_field := Some \<lparr>af_kind = k, af_depth = n\<rparr>\<rparr>))"
  by (cases p; cases "piece_text d p") (auto simp: text_step_def)

lemma field_append_text [simp]:
  "text_or_empty (field_value (append_text g k t) k) = text_or_empty (field_value g k) @ t"
  "set_field_value k v (append_text g k t) = set_field_value k v g"
  by (simp_all add: append_text_def text_or_empty_def split: option.split)

lemma text_read:
  assumes "list_all is_piece nodes" "ns_depth s = n"
  shows "res_bind (res_fold (news_step d via) (concat (map tree_events nodes))
        (s\<lparr>ns_frame := Some g, ns_field := Some \<lparr>af_kind = k, af_depth = n\<rparr>\<rparr>))
      (\<lambda>s'. Inr (trim_active s')) =
    res_bind (text_of d nodes) (\<lambda>text.
      Inr (s\<lparr>ns_frame := Some (set_field_value k (tidy (text_or_empty (field_value g k) @ text)) g),
             ns_field := None\<rparr>))"
  using assms(1)
proof (induction nodes arbitrary: g)
  case Nil
  then show ?case
    using assms(2)
    by (simp add: trim_active_def trim_field_def tidy_def text_or_empty_def split: option.split)
next
  case (Cons a nodes)
  then obtain p where a: "a = Piece p" by (cases a) auto
  have rest: "list_all is_piece nodes" using Cons.prems by simp
  show ?case
  proof (cases "piece_text d p")
    case (Inl e)
    then show ?thesis by (simp add: a step_piece)
  next
    case (Inr t)
    have "p = PIgnored \<Longrightarrow> t = []" using Inr by auto
    then show ?thesis
      using Cons.IH [OF rest] Inr by (simp add: a step_piece res_bind_assoc)
  qed
qed

section \<open>Reading a node\<close>

lemma res_fold_keeps:
  assumes "res_fold f xs b = Inr c" "\<And>x b c. x \<in> set xs \<Longrightarrow> f x b = Inr c \<Longrightarrow> h c = h b"
  shows "h c = h b"
  using assms by (induction xs arbitrary: b) (auto simp: res_bind_Inr, metis)

lemma read_node_depth: "read_node d m p t g = Inr g' \<Longrightarrow> uf_url_depth g' = uf_url_depth g"
proof (induction t arbitrary: m p g g')
  case (Elem namespace local_name children)
  have children: "res_fold (read_node d m p) children g = Inr g' \<Longrightarrow> uf_url_depth g' = uf_url_depth g" for m p g g'
    by (rule res_fold_keeps) (use Elem.IH in blast)+
  show ?case
    using Elem.prems
    by (auto simp: Let_def res_bind_Inr split: option.splits if_splits dest!: children)
qed (auto split: if_splits)

lemma field_of_marked:
  "field_of namespace local_name (marked m p g) = field_in (m \<noteq> None) (p \<noteq> None) namespace local_name"
  by (auto simp: field_of_def field_in_def)

lemma res_bind_Inr_id [simp]: "res_bind r Inr = r"
  by (cases r) simp_all

lemma res_fold_Nil [simp]: "res_fold f [] = Inr"
  by (rule ext) simp

lemma res_fold_single [simp]: "res_fold f [x] = f x"
  by (rule ext) simp

lemma piece_skipped: "ns_field s = None \<Longrightarrow> news_step d via (piece_event p) s = Inr s"
  by (cases p) (simp_all add: text_step_def split: option.split)

lemma end_step_trim: "end_step d via local_name (trim_active s) = end_step d via local_name s"
proof -
  have "trim_active (trim_active s) = trim_active s"
    by (simp add: trim_active_def split: option.split)
  then show ?thesis by (simp add: end_step_def)
qed

lemma res_bind_trim:
  "res_bind r (end_step d via local_name) =
     res_bind (res_bind r (\<lambda>s. Inr (trim_active s))) (end_step d via local_name)"
  by (cases r) (simp_all add: end_step_trim)

text \<open>The parser inside a URL, with the blocks opened at depths \<open>m\<close> and \<open>p\<close>.\<close>

definition inside :: "news_state \<Rightarrow> nat option \<Rightarrow> nat option \<Rightarrow> url_frame \<Rightarrow> bool" where
  "inside s m p g \<longleftrightarrow> ns_frame s = Some (marked m p g) \<and> ns_field s = None
     \<and> ns_root s \<noteq> None \<and> 2 \<le> ns_depth s \<and> uf_url_depth g = 2
     \<and> (\<forall>i. m = Some i \<longrightarrow> i \<le> ns_depth s) \<and> (\<forall>i. p = Some i \<longrightarrow> i \<le> ns_depth s)"

definition opened :: "bool \<Rightarrow> nat \<Rightarrow> nat option \<Rightarrow> nat option" where
  "opened b n m = (if b then Some n else m)"

lemma enter_marked:
  "enter_blocks namespace local_name n (marked m p g) =
     (let m' = opened (is_news namespace local_name) n m in
      marked m' (opened (m' \<noteq> None \<and> is_publication namespace local_name) n p)
        (if is_news namespace local_name then g\<lparr>uf_news_present := True\<rparr> else g))"
  by (auto simp: enter_blocks_def opened_def is_news_def is_publication_def Let_def marked_def)

lemma leave_marked:
  assumes "m = None \<or> \<not> b" "\<forall>i. m = Some i \<longrightarrow> i \<le> n" "p = None \<or> \<not> c" "\<forall>i. p = Some i \<longrightarrow> i \<le> n"
  shows "leave_blocks (Suc n) (marked (opened b (Suc n) m) (opened c (Suc n) p) g) = marked m p g"
  using assms by (auto simp: leave_blocks_def opened_def marked_def Let_def)

lemma start_inside:
  assumes "inside s m p g"
  shows "start_step namespace local_name s =
    (let m' = opened (is_news namespace local_name) (Suc (ns_depth s)) m;
         p' = opened (m' \<noteq> None \<and> is_publication namespace local_name) (Suc (ns_depth s)) p;
         g' = (if is_news namespace local_name then g\<lparr>uf_news_present := True\<rparr> else g)
     in Inr (s\<lparr>ns_depth := Suc (ns_depth s), ns_frame := Some (marked m' p' g'),
             ns_field := map_option (\<lambda>kind. \<lparr>af_kind = kind, af_depth = Suc (ns_depth s)\<rparr>)
                (field_in (m' \<noteq> None) (p' \<noteq> None) namespace local_name)\<rparr>))"
  using assms by (auto simp: start_step_def inside_def Let_def enter_marked field_of_marked)

lemma end_inside:
  assumes "inside s m p g" "m = None \<or> \<not> b" "p = None \<or> \<not> c" "uf_url_depth h = 2"
  shows "end_step d via local_name
      (s\<lparr>ns_depth := Suc (ns_depth s), ns_field := None,
         ns_frame := Some (marked (opened b (Suc (ns_depth s)) m) (opened c (Suc (ns_depth s)) p) h)\<rparr>) =
    Inr (s\<lparr>ns_frame := Some (marked m p h)\<rparr>)"
  using assms
  by (simp add: end_step_def trim_active_def finish_url_def inside_def leave_marked)

lemma nodes_read:
  assumes "\<And>t s g. t \<in> set ts \<Longrightarrow> inside s m p g \<Longrightarrow>
      res_fold (news_step d via) (tree_events t) s =
      res_bind (read_node d (m \<noteq> None) (p \<noteq> None) t g) (\<lambda>g'. Inr (s\<lparr>ns_frame := Some (marked m p g')\<rparr>))"
    and "inside s m p g"
  shows "res_fold (news_step d via) (concat (map tree_events ts)) s =
      res_bind (res_fold (read_node d (m \<noteq> None) (p \<noteq> None)) ts g)
        (\<lambda>g'. Inr (s\<lparr>ns_frame := Some (marked m p g')\<rparr>))"
  using assms
proof (induction ts arbitrary: s g)
  case Nil
  then show ?case by (simp add: inside_def)
next
  case (Cons t ts)
  show ?case
  proof (cases "read_node d (m \<noteq> None) (p \<noteq> None) t g")
    case (Inl e)
    then show ?thesis using Cons.prems by (simp add: res_fold_append)
  next
    case (Inr g')
    then have "inside (s\<lparr>ns_frame := Some (marked m p g')\<rparr>) m p g'"
      using Cons.prems(2) read_node_depth [OF Inr] by (simp add: inside_def)
    then show ?thesis using Cons Inr by (simp add: res_fold_append)
  qed
qed

lemma node_read:
  assumes "plain_node (m \<noteq> None) (p \<noteq> None) t" "inside s m p g"
  shows "res_fold (news_step d via) (tree_events t) s =
      res_bind (read_node d (m \<noteq> None) (p \<noteq> None) t g) (\<lambda>g'. Inr (s\<lparr>ns_frame := Some (marked m p g')\<rparr>))"
  using assms
proof (induction t arbitrary: s m p g)
  case (Elem namespace local_name children)
  define n where "n = Suc (ns_depth s)"
  define b where "b = is_news namespace local_name"
  define m' where "m' = opened b n m"
  define c where "c = (m' \<noteq> None \<and> is_publication namespace local_name)"
  define p' where "p' = opened c n p"
  define g1 where "g1 = (if b then g\<lparr>uf_news_present := True\<rparr> else g)"
  define kind where "kind = field_in (m' \<noteq> None) (p' \<noteq> None) namespace local_name"
  define s1 where "s1 = s\<lparr>ns_depth := n, ns_frame := Some (marked m' p' g1), ns_field := None\<rparr>"
  have flags: "(m \<noteq> None \<or> is_news namespace local_name) = (m' \<noteq> None)" "(p \<noteq> None \<or> m' \<noteq> None \<and> is_publication namespace local_name) = (p' \<noteq> None)"
    by (auto simp: m'_def p'_def c_def b_def opened_def)
  have fresh: "m = None \<or> \<not> b" "p = None \<or> \<not> c"
    using Elem.prems(1) by (auto simp: b_def c_def)
  have g1: "uf_url_depth g1 = 2" using Elem.prems(2) by (simp add: g1_def inside_def)
  have s1: "inside s1 m' p' g1"
    using Elem.prems(2) g1 by (auto simp: s1_def inside_def n_def m'_def p'_def opened_def)
  have start: "start_step namespace local_name s =
      Inr (s1\<lparr>ns_field := map_option (\<lambda>k. \<lparr>af_kind = k, af_depth = n\<rparr>) kind\<rparr>)"
    using start_inside [OF Elem.prems(2), of namespace local_name]
    by (simp add: s1_def n_def m'_def p'_def b_def c_def g1_def kind_def Let_def)
  have finish: "end_step d via local_name (s1\<lparr>ns_frame := Some (marked m' p' h)\<rparr>) = Inr (s\<lparr>ns_frame := Some (marked m p h)\<rparr>)"
    if "uf_url_depth h = 2" for h
    using end_inside [OF Elem.prems(2) fresh that, of d via local_name]
    by (simp add: s1_def n_def m'_def p'_def)
  have reference: "read_node d (m \<noteq> None) (p \<noteq> None) (Elem namespace local_name children) g =
      (case kind of
         Some k \<Rightarrow> res_bind (text_of d children) (\<lambda>text.
           Inr (set_field_value k (tidy (text_or_empty (field_value g1 k) @ text)) g1))
       | None \<Rightarrow> res_fold (read_node d (m' \<noteq> None) (p' \<noteq> None)) children g1)"
    by (simp only: read_node.simps Let_def flags kind_def g1_def b_def)
  show ?case
  proof (cases kind)
    case None
    have plain: "plain_node (m' \<noteq> None) (p' \<noteq> None) t" if "t \<in> set children" for t
      using Elem.prems(1) None that
      by (simp only: plain_node.simps Let_def flags kind_def) (simp add: list_all_iff)
    have "res_fold (news_step d via) (concat (map tree_events children)) s1 =
        res_bind (res_fold (read_node d (m' \<noteq> None) (p' \<noteq> None)) children g1)
          (\<lambda>g'. Inr (s1\<lparr>ns_frame := Some (marked m' p' g')\<rparr>))"
      by (rule nodes_read [OF _ s1]) (rule Elem.IH [OF _ plain])
    moreover have "res_fold (read_node d (m' \<noteq> None) (p' \<noteq> None)) children g1 = Inr h \<Longrightarrow> uf_url_depth h = 2" for h
      using res_fold_keeps [of _ children g1 h uf_url_depth] read_node_depth g1 by metis
    moreover have "s1\<lparr>ns_field := None\<rparr> = s1" by (simp add: s1_def)
    ultimately show ?thesis
      unfolding reference
      using None start finish
      by (cases "res_fold (read_node d (m' \<noteq> None) (p' \<noteq> None)) children g1")
        (simp_all add: res_fold_append)
  next
    case (Some k)
    have "list_all is_piece children"
      using Elem.prems(1) Some by (simp only: plain_node.simps Let_def flags kind_def) simp
    then have content: "res_bind (res_fold (news_step d via) (concat (map tree_events children))
          (s1\<lparr>ns_field := Some \<lparr>af_kind = k, af_depth = n\<rparr>\<rparr>)) (\<lambda>s'. Inr (trim_active s')) =
        res_bind (text_of d children) (\<lambda>text. Inr (s1\<lparr>ns_frame :=
          Some (marked m' p' (set_field_value k (tidy (text_or_empty (field_value g1 k) @ text)) g1))\<rparr>))"
      using text_read [of children s1 n d via k "marked m' p' g1"]
      by (cases "text_of d children") (auto simp: s1_def)
    have "res_fold (news_step d via) (tree_events (Elem namespace local_name children)) s =
        res_bind (res_fold (news_step d via) (concat (map tree_events children))
          (s1\<lparr>ns_field := Some \<lparr>af_kind = k, af_depth = n\<rparr>\<rparr>)) (end_step d via local_name)"
      using Some start by (simp add: res_fold_append)
    also have "\<dots> = res_bind (text_of d children) (\<lambda>text. Inr (s\<lparr>ns_frame :=
          Some (marked m p (set_field_value k (tidy (text_or_empty (field_value g1 k) @ text)) g1))\<rparr>))"
      using finish g1 by (subst res_bind_trim) (simp add: content res_bind_assoc)
    finally show ?thesis
      unfolding reference using Some by (simp add: res_bind_assoc del: tree_events.simps)
  qed
qed (auto simp: inside_def empty_step_def is_news_def piece_skipped)


section \<open>Reading a document\<close>

text \<open>Outside of a URL the parser ignores every balanced piece of the document.\<close>

definition outside_url :: "news_state \<Rightarrow> bool" where
  "outside_url s \<longleftrightarrow> ns_frame s = None \<and> ns_field s = None \<and> ns_root s \<noteq> None \<and> 1 \<le> ns_depth s"

lemma pieces_ignored:
  "ns_frame s = None \<Longrightarrow> res_fold (news_step d via) (map piece_event ps) s = Inr s"
proof (induction ps)
  case (Cons p ps)
  then show ?case by (cases p) (simp_all add: text_step_def)
qed simp

lemma list_ignored:
  assumes "\<And>t. t \<in> set ts \<Longrightarrow> res_fold (news_step d via) (tree_events t) s = Inr s"
  shows "res_fold (news_step d via) (concat (map tree_events ts)) s = Inr s"
  using assms by (induction ts) (simp_all add: res_fold_append)

lemma end_outside:
  assumes "outside_url s"
  shows "end_step d via local_name (s\<lparr>ns_depth := Suc (ns_depth s)\<rparr>) = Inr s"
  using assms by (simp add: end_step_def trim_active_def finish_url_def outside_url_def)

lemma node_ignored:
  assumes "outside_url s" "ns_root s \<noteq> Some ''urlset'' \<or> 2 \<le> ns_depth s"
  shows "res_fold (news_step d via) (tree_events t) s = Inr s"
  using assms
proof (induction t arbitrary: s)
  case (Elem namespace local_name children)
  define s1 where "s1 = s\<lparr>ns_depth := Suc (ns_depth s)\<rparr>"
  have s1: "outside_url s1" "ns_root s1 \<noteq> Some ''urlset'' \<or> 2 \<le> ns_depth s1"
    using Elem.prems by (auto simp: s1_def outside_url_def)
  have children: "res_fold (news_step d via) (concat (map tree_events children)) s1 = Inr s1"
    by (rule list_ignored) (rule Elem.IH [OF _ s1])
  have "start_step namespace local_name s = Inr s1"
    using Elem.prems by (auto simp: start_step_def s1_def outside_url_def Let_def)
  then show ?case
    using children end_outside [OF Elem.prems(1)] by (simp add: res_fold_append s1_def)
next
  case (EmptyElem namespace local_name)
  then show ?case by (auto simp: empty_step_def outside_url_def)
next
  case (Piece p)
  then show ?case using pieces_ignored [of s d via "[p]"] by (simp add: outside_url_def)
qed

text \<open>The parser between the URLs of a urlset.\<close>

definition in_urlset :: "news_sitemap_entry list \<Rightarrow> news_state" where
  "in_urlset entries =
     \<lparr>ns_root = Some ''urlset'', ns_frame = None, ns_field = None, ns_entries = entries,
      ns_depth = 1, ns_root_closed = False\<rparr>"

lemma url_read:
  assumes "list_all (plain_node False False) children" "is_standard namespace"
  shows "res_fold (news_step d via) (tree_events (Elem namespace ''url'' children)) (in_urlset entries) =
     res_bind (read_url d via children) (\<lambda>entry. Inr (in_urlset (entries @ [entry])))"
proof -
  define s where "s = (in_urlset entries)\<lparr>ns_depth := 2, ns_frame := Some (frame_at 2)\<rparr>"
  have frame: "marked None None g = g" if "uf_news_depth g = None" "uf_publication_depth g = None" for g
    using that by (simp add: marked_def)
  have inside: "inside s None None (frame_at 2)"
    by (simp add: s_def inside_def in_urlset_def frame_at_def marked_def)
  have start: "start_step namespace ''url'' (in_urlset entries) = Inr s"
    using assms(2) by (simp add: start_step_def in_urlset_def s_def Let_def numeral_2_eq_2)
  have node: "res_fold (news_step d via) (tree_events t) s =
      res_bind (read_node d False False t g) (\<lambda>g'. Inr (s\<lparr>ns_frame := Some (marked None None g')\<rparr>))"
    if "t \<in> set children" "inside s None None g" for t s g
    using node_read [of None None t s g d via] that assms(1) by (simp add: list_all_iff)
  have children: "res_fold (news_step d via) (concat (map tree_events children)) s =
      res_bind (res_fold (read_node d False False) children (frame_at 2))
        (\<lambda>g. Inr (s\<lparr>ns_frame := Some (marked None None g)\<rparr>))"
    using nodes_read [of children None None d via s "frame_at 2"] node inside by simp
  have depth: "uf_url_depth g = 2"
    if "res_fold (read_node d False False) children (frame_at 2) = Inr g" for g
    using res_fold_keeps [OF that, of uf_url_depth] read_node_depth by (simp add: frame_at_def)
  have finish: "end_step d via ''url'' (s\<lparr>ns_frame := Some (marked None None g)\<rparr>) =
      res_bind (finish_frame d g via) (\<lambda>entry. Inr (in_urlset (entries @ [entry])))"
    if "uf_url_depth g = 2" for g
    using that
    by (cases "finish_frame d g via")
      (simp_all add: end_step_def trim_active_def finish_url_def s_def in_urlset_def)
  show ?thesis
    using depth
    by (cases "res_fold (read_node d False False) children (frame_at 2)")
      (simp_all add: start children res_fold_append finish read_url_def)
qed

lemma urls_read:
  assumes "list_all plain_url_node nodes"
  shows "res_fold (news_step d via) (concat (map tree_events nodes)) (in_urlset entries) =
     res_bind (read_urls d via nodes) (\<lambda>new. Inr (in_urlset (entries @ new)))"
  using assms
proof (induction nodes arbitrary: entries)
  case (Cons t nodes)
  have out: "outside_url (in_urlset entries)" by (simp add: outside_url_def in_urlset_def)
  show ?case
  proof (cases "\<exists>namespace children. t = Elem namespace ''url'' children \<and> is_standard namespace")
    case True
    then obtain namespace children where "t = Elem namespace ''url'' children" "is_standard namespace" by blast
    then show ?thesis
      using Cons url_read [of children namespace d via entries]
      by (cases "read_url d via children") (simp_all add: res_fold_append res_bind_assoc del: tree_events.simps)
  next
    case False
    have "res_fold (news_step d via) (tree_events t) (in_urlset entries) = Inr (in_urlset entries)"
    proof (cases t)
      case (Elem namespace local_name children)
      define s where "s = (in_urlset entries)\<lparr>ns_depth := 2\<rparr>"
      have s: "outside_url s" "2 \<le> ns_depth s" by (simp_all add: s_def outside_url_def in_urlset_def)
      have "start_step namespace local_name (in_urlset entries) = Inr s"
        using False Elem by (auto simp: start_step_def in_urlset_def s_def Let_def numeral_2_eq_2)
      moreover have "res_fold (news_step d via) (concat (map tree_events children)) s = Inr s"
        by (rule list_ignored) (simp add: node_ignored s)
      ultimately show ?thesis
        using Elem end_outside [OF out] by (simp add: res_fold_append s_def in_urlset_def numeral_2_eq_2)
    next
      case (EmptyElem namespace local_name)
      then show ?thesis by (simp add: empty_step_def in_urlset_def)
    next
      case (Piece p)
      then show ?thesis using pieces_ignored [of "in_urlset entries" d via "[p]"] by (simp add: in_urlset_def)
    qed
    moreover have "read_urls d via (t # nodes) = read_urls d via nodes"
      using False by (cases t) auto
    ultimately show ?thesis using Cons by (simp add: res_fold_append del: tree_events.simps)
  qed
qed simp


end
