(* ===== verification/Source_Properties.thy ===== *)
theory Source_Properties
  imports Research_Scope News_Reference
begin

text \<open>
  Properties of the source-discovery adapters: the one-pass News sitemap parser against the
  reference that recurses over the document, what its entries always satisfy, the guids of
  RSS items, and what an accepted onion seed is bound to.
\<close>

section \<open>News sitemaps\<close>

text \<open>C26. The one-pass parser of News sitemaps, which tracks depths, reads every document whose
  fields hold text only and whose news blocks are not nested in themselves exactly as the
  reference that recurses over the tree of the document: entries, their order, their
  fields, and the first error, whatever other elements, comments and text the document has.
\<close>

theorem news_sitemap_equals_reference:
  assumes "list_all plain_url_node children"
  shows "news_parse_sync d (map piece_event before @ tree_events (Elem namespace local_name children)
      @ map piece_event after) via = read_root d via namespace local_name children"
proof -
  have before: "res_fold (news_step d via) (map piece_event before) news_start = Inr news_start"
    by (rule pieces_ignored) (simp add: news_start_def)
  define root where "root = root_name namespace local_name"
  define s where "s = news_start\<lparr>ns_root := Some root, ns_depth := 1\<rparr>"
  have start: "start_step namespace local_name news_start = Inr s"
    by (simp add: start_step_def news_start_def s_def root_def Let_def)
  define closed where "closed = (\<lambda>entries. s\<lparr>ns_entries := entries, ns_depth := 0, ns_root_closed := True\<rparr>)"
  have finish: "end_step d via local_name (s\<lparr>ns_entries := entries\<rparr>) = Inr (closed entries)" for entries
    by (simp add: end_step_def trim_active_def finish_url_def s_def news_start_def closed_def)
  have after: "res_fold (news_step d via) (map piece_event after) (closed entries) = Inr (closed entries)" for entries
    by (rule pieces_ignored) (simp add: closed_def s_def news_start_def)
  have finished: "news_finish (closed entries) =
      (if root = ''urlset'' then Inr \<lparr>nsr_sitemap_type = ''urlset'', nsr_entries = entries\<rparr>
       else if root = ''sitemapindex'' then Inr \<lparr>nsr_sitemap_type = ''sitemapindex'', nsr_entries = []\<rparr>
       else Inl (NewsNotSitemap ''the fetched XML document is not a sitemap''))" for entries
    by (simp add: news_finish_def closed_def s_def news_start_def root_def root_name_def)
  have result: "read_root d via namespace local_name children =
      (if root = ''urlset''
       then res_bind (read_urls d via children) (\<lambda>entries.
              Inr \<lparr>nsr_sitemap_type = ''urlset'', nsr_entries = entries\<rparr>)
       else if root = ''sitemapindex'' then Inr \<lparr>nsr_sitemap_type = ''sitemapindex'', nsr_entries = []\<rparr>
       else Inl (NewsNotSitemap ''the fetched XML document is not a sitemap''))"
    by (auto simp: read_root_def root_def root_name_def)
  show ?thesis
  proof (cases "root = ''urlset''")
    case True
    then have s: "s = in_urlset []" "in_urlset []\<lparr>ns_entries := entries\<rparr> = in_urlset entries" for entries
      by (simp_all add: s_def in_urlset_def news_start_def)
    have "res_fold (news_step d via) (concat (map tree_events children)) s =
        res_bind (read_urls d via children) (\<lambda>entries. Inr (s\<lparr>ns_entries := entries\<rparr>))"
      using urls_read [OF assms, of d via "[]"] by (simp add: s)
    then show ?thesis
      using True
      by (cases "read_urls d via children")
        (simp_all add: news_parse_sync_def res_fold_append before start finish after finished result)
  next
    case False
    have "outside_url s" "ns_root s \<noteq> Some ''urlset''"
      using False by (simp_all add: s_def outside_url_def news_start_def)
    then have "res_fold (news_step d via) (concat (map tree_events children)) s = Inr s"
      by (intro list_ignored node_ignored) auto
    moreover have "s\<lparr>ns_entries := []\<rparr> = s" by (simp add: s_def news_start_def)
    ultimately show ?thesis
      using False finish [of "[]"] after [of "[]"]
      by (simp add: news_parse_sync_def res_fold_append before start finished result)
  qed
qed


text \<open>What every entry satisfies, and the invariant of the parser over any events.\<close>

definition entry_ok :: "news_deps \<Rightarrow> string \<Rightarrow> news_sitemap_entry \<Rightarrow> bool" where
  "entry_ok d via e \<longleftrightarrow>
     (\<exists>loc u. si_url (nse_item e) = Some loc \<and> nd_url d loc = Inr u)
     \<and> si_source_type (nse_item e) = ''sitemap'' \<and> si_discovered_via (nse_item e) = Some via
     \<and> (nse_news e = None \<longrightarrow> si_title (nse_item e) = None \<and> si_published_at (nse_item e) = None)"

fun tag_balance :: "ns_event list \<Rightarrow> int" where
  "tag_balance [] = 0"
| "tag_balance (NStart _ _ # events) = 1 + tag_balance events"
| "tag_balance (NEnd _ # events) = tag_balance events - 1"
| "tag_balance (_ # events) = tag_balance events"

definition url_frame_ok :: "url_frame \<Rightarrow> bool" where
  "url_frame_ok fr \<longleftrightarrow> uf_news_present fr \<or>
     uf_news_depth fr = None \<and> uf_publication_depth fr = None \<and> uf_title fr = None
     \<and> uf_publication_date_raw fr = None"

definition news_inv :: "news_deps \<Rightarrow> string \<Rightarrow> news_state \<Rightarrow> bool" where
  "news_inv d via s \<longleftrightarrow>
     (\<forall>fr. ns_frame s = Some fr \<longrightarrow> url_frame_ok fr \<and> ns_root s \<noteq> None \<and>
        (\<forall>a. ns_field s = Some a \<longrightarrow> af_kind a \<noteq> FLoc \<and> af_kind a \<noteq> FLastmod \<longrightarrow> uf_news_present fr))
     \<and> (\<forall>a. ns_field s = Some a \<longrightarrow> af_depth a = ns_depth s \<and> ns_frame s \<noteq> None)
     \<and> (\<forall>e \<in> set (ns_entries s). entry_ok d via e)"

lemma url_frame_ok_simps [simp]:
  "url_frame_ok (fr\<lparr>uf_loc := v\<rparr>) = url_frame_ok fr" "url_frame_ok (fr\<lparr>uf_lastmod := v\<rparr>) = url_frame_ok fr"
  "url_frame_ok (frame_at n)" "url_frame_ok (fr\<lparr>uf_news_present := True\<rparr>)"
  by (simp_all add: url_frame_ok_def frame_at_def)

lemma url_frame_ok_set:
  "url_frame_ok fr \<Longrightarrow> uf_news_present fr \<or> k = FLoc \<or> k = FLastmod \<Longrightarrow> url_frame_ok (set_field_value k v fr)"
  by (cases k) (auto simp: url_frame_ok_def)

lemma present_set [simp]: "uf_news_present (set_field_value k v fr) = uf_news_present fr"
  by (cases k) simp_all

lemma url_frame_ok_enter: "url_frame_ok fr \<Longrightarrow> url_frame_ok (enter_blocks namespace local_name n fr)"
  by (auto simp: url_frame_ok_def enter_blocks_def Let_def)

lemma url_frame_ok_leave: "url_frame_ok fr \<Longrightarrow> url_frame_ok (leave_blocks n fr)"
  by (auto simp: url_frame_ok_def leave_blocks_def Let_def)

lemma present_leave [simp]: "uf_news_present (leave_blocks n fr) = uf_news_present fr"
  by (auto simp: leave_blocks_def Let_def)

lemma field_of_present:
  assumes "url_frame_ok fr" "field_of namespace local_name fr = Some k" "k \<noteq> FLoc" "k \<noteq> FLastmod"
  shows "uf_news_present fr"
  using assms by (auto simp: url_frame_ok_def field_of_def split: if_splits)

lemma finish_frame_ok:
  "url_frame_ok fr \<Longrightarrow> finish_frame d fr via = Inr e \<Longrightarrow> entry_ok d via e"
  by (auto simp: finish_frame_def res_bind_Inr entry_ok_def url_frame_ok_def)

lemma trim_active_inv:
  assumes "news_inv d via s"
  shows "news_inv d via (trim_active s)" "ns_field (trim_active s) = None"
    "ns_depth (trim_active s) = ns_depth s"
  using assms
  by (auto simp: trim_active_def news_inv_def trim_field_def url_frame_ok_set split: option.splits)

lemma text_step_inv:
  assumes "news_inv d via s" "text_step unescape text s = Inr s'"
  shows "news_inv d via s' \<and> ns_depth s' = ns_depth s"
  using assms
  by (auto simp: text_step_def news_inv_def res_bind_Inr append_text_def url_frame_ok_set
      split: option.splits)

lemma start_step_inv:
  assumes "news_inv d via s" "start_step namespace local_name s = Inr s'"
  shows "news_inv d via s' \<and> ns_depth s' = Suc (ns_depth s)"
proof (cases "ns_frame s")
  case None
  then show ?thesis
    using assms by (auto simp: start_step_def news_inv_def Let_def split: if_splits)
next
  case (Some fr)
  then have fr: "url_frame_ok (enter_blocks namespace local_name (Suc (ns_depth s)) fr)"
    using assms(1) by (simp add: news_inv_def url_frame_ok_enter)
  show ?thesis
    using assms Some fr field_of_present [OF fr]
    by (auto simp: start_step_def news_inv_def Let_def split: if_splits)
qed

lemma finish_url_inv:
  assumes "news_inv d via s" "ns_field s = None" "finish_url d via local_name s = Inr s'"
  shows "news_inv d via s' \<and> ns_field s' = None \<and> ns_depth s' = ns_depth s"
  using assms
  by (auto simp: finish_url_def news_inv_def res_bind_Inr finish_frame_ok split: option.splits if_splits)

lemma end_step_inv:
  assumes "news_inv d via s" "end_step d via local_name s = Inr s'"
  shows "news_inv d via s' \<and> Suc (ns_depth s') = ns_depth s"
proof -
  obtain u where u: "finish_url d via local_name (trim_active s) = Inr u"
    using assms(2) by (auto simp: end_step_def res_bind_Inr)
  have "news_inv d via u \<and> ns_field u = None \<and> ns_depth u = ns_depth s"
    using finish_url_inv [OF trim_active_inv(1, 2) u] assms(1) trim_active_inv(3) [OF assms(1)] by simp
  then show ?thesis
    using assms(2) u
    by (auto simp: end_step_def Let_def news_inv_def url_frame_ok_leave split: nat.splits)
qed

lemma empty_step_inv:
  assumes "news_inv d via s" "empty_step namespace local_name s = Inr s'"
  shows "news_inv d via s' \<and> ns_depth s' = ns_depth s"
  using assms by (auto simp: empty_step_def news_inv_def split: option.splits if_splits)

lemma news_step_inv:
  assumes "news_inv d via s" "news_step d via event s = Inr s'"
  shows "news_inv d via s' \<and> int (ns_depth s') = int (ns_depth s) + tag_balance [event]"
  using assms start_step_inv [OF assms(1)] end_step_inv [OF assms(1)] text_step_inv [OF assms(1)]
    empty_step_inv [OF assms(1)]
  by (cases event) fastforce+

lemma news_run_inv:
  assumes "res_fold (news_step d via) events s = Inr s'" "news_inv d via s"
  shows "news_inv d via s' \<and> int (ns_depth s') = int (ns_depth s) + tag_balance events"
  using assms
proof (induction events arbitrary: s)
  case (Cons event events)
  then obtain s1 where s1: "news_step d via event s = Inr s1" "res_fold (news_step d via) events s1 = Inr s'"
    by (auto simp: res_bind_Inr)
  have "tag_balance (event # events) = tag_balance [event] + tag_balance events"
    by (cases event) simp_all
  then show ?case using Cons.IH [OF s1(2)] news_step_inv [OF Cons.prems(2) s1(1)] by simp
qed simp

text \<open>C27. Whatever events the XML reader delivers: when parsing succeeds, start and end tags
  balance, every entry names the containing sitemap and a URL that parses, an entry without
  a news block has neither title nor publication time, and an index has no entries.
\<close>

theorem news_entries_well_formed:
  assumes "news_parse_sync d events via = Inr r"
  shows "tag_balance events = 0 \<and> list_all (entry_ok d via) (nsr_entries r) \<and>
    (nsr_sitemap_type r = ''urlset'' \<or> nsr_sitemap_type r = ''sitemapindex'' \<and> nsr_entries r = [])"
proof -
  obtain s where s: "res_fold (news_step d via) events news_start = Inr s" "news_finish s = Inr r"
    using assms by (auto simp: news_parse_sync_def res_bind_Inr)
  have "news_inv d via news_start" by (simp add: news_inv_def news_start_def)
  from news_run_inv [OF s(1) this] s(2) show ?thesis
    by (auto simp: news_finish_def news_inv_def news_start_def list_all_iff split: if_splits option.splits)
qed


text \<open>
  What escapes the reference: an empty tag \<open><url/>\<close> is passed over where \<open><url></url>\<close> is
  refused, and an element inside a location ends it, so that the text after it is lost and
  the text before it is not trimmed.
\<close>

definition urlset_of :: "news_tree list \<Rightarrow> ns_event list" where
  "urlset_of nodes = tree_events (Elem NsUnbound ''urlset'' nodes)"

lemma empty_url_tag_skipped:
  "news_parse_sync d (urlset_of [EmptyElem NsUnbound ''url'']) via =
     Inr \<lparr>nsr_sitemap_type = ''urlset'', nsr_entries = []\<rparr>"
  "news_parse_sync d (urlset_of [Elem NsUnbound ''url'' []]) via =
     Inl (NewsParse ''sitemap url entry is missing loc'')"
  by (simp_all add: urlset_of_def news_parse_sync_def news_start_def start_step_def end_step_def empty_step_def
      root_name_def is_standard_def frame_at_def trim_active_def finish_url_def finish_frame_def
      news_finish_def Let_def)

lemma interrupted_location:
  assumes "nd_url d a = Inr u"
  shows "\<exists>e. news_parse_sync d (urlset_of [Elem NsUnbound ''url''
      [Elem NsUnbound ''loc'' [Piece (PCData a), Elem NsUnbound ''b'' [], Piece (PCData c)]]]) via =
      Inr \<lparr>nsr_sitemap_type = ''urlset'', nsr_entries = [e]\<rparr> \<and> si_url (nse_item e) = Some a"
  using assms
  by (simp add: urlset_of_def news_parse_sync_def news_start_def start_step_def end_step_def text_step_def
      root_name_def is_standard_def frame_at_def enter_blocks_def field_of_def trim_active_def
      finish_url_def leave_blocks_def append_text_def finish_frame_def news_finish_def Let_def)

section \<open>Guids of RSS items\<close>

text \<open>An item of an RSS document: a guid between events that open and close neither.\<close>

record rss_item =
  ri_before :: "source_event list"
  ri_guid :: "(xml_attribute list \<times> source_event list) option"
  ri_after :: "source_event list"

fun other_event :: "source_event \<Rightarrow> bool" where
  "other_event (XStart local_name _) = (local_name \<noteq> ''item'' \<and> local_name \<noteq> ''guid'')"
| "other_event (XEnd local_name) = (local_name \<noteq> ''item'' \<and> local_name \<noteq> ''guid'')"
| "other_event (XError _) = False"
| "other_event _ = True"

fun text_event :: "source_event \<Rightarrow> bool" where
  "text_event (XText _) = True"
| "text_event (XCData _) = True"
| "text_event (XGeneralRef _) = True"
| "text_event XOther = True"
| "text_event _ = False"

definition item_events :: "rss_item \<Rightarrow> source_event list" where
  "item_events i = XStart ''item'' [] # ri_before i
     @ (case ri_guid i of None \<Rightarrow> [] | Some (attributes, pieces) \<Rightarrow>
          XStart ''guid'' attributes # pieces @ [XEnd ''guid''])
     @ ri_after i @ [XEnd ''item'']"

definition plain_item :: "rss_item \<Rightarrow> bool" where
  "plain_item i \<longleftrightarrow> list_all other_event (ri_before i) \<and> list_all other_event (ri_after i)
     \<and> (case ri_guid i of None \<Rightarrow> True | Some (_, pieces) \<Rightarrow> list_all text_event pieces)"

text \<open>The texts among the pieces of a guid.\<close>

definition texts :: "source_event list \<Rightarrow> string list" where
  "texts pieces = List.map_filter (\<lambda>e. case e of XText (Inr s) \<Rightarrow> Some s | _ \<Rightarrow> None) pieces"

definition item_facts :: "rss_item \<Rightarrow> rss_entry_facts" where
  "item_facts i =
     (case ri_guid i of
        None \<Rightarrow> \<lparr>ref_guid = None, ref_guid_is_permalink = False\<rparr>
      | Some (attributes, pieces) \<Rightarrow>
          \<lparr>ref_guid = (if texts pieces = [] then None else Some (trim (last (texts pieces)))),
           ref_guid_is_permalink = is_permalink attributes\<rparr>)"

lemma other_events_ignored:
  "list_all other_event events \<Longrightarrow> \<not> rs_in_guid s \<Longrightarrow> rss_loop (events @ rest) s = rss_loop rest s"
proof (induction events)
  case (Cons e events)
  then show ?case by (cases e) (auto split: option.splits)
qed simp

lemma guid_pieces_read:
  assumes "list_all text_event pieces"
  shows "rss_loop (pieces @ rest) \<lparr>rs_facts = fs, rs_current = Some c, rs_in_guid = True\<rparr> =
    rss_loop rest \<lparr>rs_facts = fs, rs_current = Some (if texts pieces = [] then c
      else c\<lparr>ref_guid := Some (trim (last (texts pieces)))\<rparr>), rs_in_guid = True\<rparr>"
  using assms
proof (induction pieces arbitrary: c)
  case (Cons e pieces)
  then show ?case by (cases e) (auto simp: texts_def map_filter_simps split: sum.splits)
qed (simp add: texts_def map_filter_simps)

lemma item_read:
  assumes "plain_item i"
  shows "rss_loop (item_events i @ rest) \<lparr>rs_facts = fs, rs_current = None, rs_in_guid = False\<rparr> =
    rss_loop rest \<lparr>rs_facts = fs @ [item_facts i], rs_current = None, rs_in_guid = False\<rparr>"
  using assms
  by (auto simp: item_events_def plain_item_def item_facts_def rss_default_def other_events_ignored
      guid_pieces_read split: option.splits)

text \<open>C28. The facts of an RSS document are those of its items in order, and the guid of an item
  is the last piece of text of its element: whatever stands before an escaped character,
  which the reader delivers as an event of its own, is lost.
\<close>

theorem rss_guid_is_last_text:
  assumes "list_all other_event before" "list_all other_event after" "list_all plain_item items"
  shows "rss_entry_facts_of (before @ concat (map item_events items) @ after) = map item_facts items"
proof -
  have "rss_loop (concat (map item_events items) @ after)
      \<lparr>rs_facts = fs, rs_current = None, rs_in_guid = False\<rparr> =
    rss_loop after \<lparr>rs_facts = fs @ map item_facts items, rs_current = None, rs_in_guid = False\<rparr>" for fs
    using assms(3) by (induction items arbitrary: fs) (simp_all add: item_read)
  then show ?thesis
    using assms(1, 2) other_events_ignored [of after _ "[]"]
    by (simp add: rss_entry_facts_of_def other_events_ignored)
qed

text \<open>A permanent link with an escaped ampersand gives the item the URL after the ampersand.\<close>

lemma escaped_guid_truncated:
  "item_facts \<lparr>ri_before = [], ri_guid = Some ([(''isPermaLink'', Some ''true'')],
      [XText (Inr a), XGeneralRef (Inr ''amp''), XText (Inr b)]), ri_after = []\<rparr> =
   \<lparr>ref_guid = Some (trim b), ref_guid_is_permalink = True\<rparr>"
  by (simp add: item_facts_def texts_def map_filter_simps is_permalink_def eq_ignore_ascii_case_def)

section \<open>From a seed to a binding\<close>

text \<open>C29. An accepted onion seed yields one candidate; its URL can be planned as a target, and
  binding that target to a request without Tor is refused, so that every binding there is
  goes through a Tor proxy.  The serialization of a parsed URL parses to itself.
\<close>

theorem onion_seed_bound_to_tor:
  assumes "\<And>s u. nd_url (sr_news r) s = Inr u \<Longrightarrow> nd_url (sr_news r) (u_as_str u) = Inr u"
    and "i < length inputs" "inputs ! i = Scope (OnionSeed seed)"
    and "per_input (discover r fault inputs) ! i = Inr items"
  shows "\<exists>item url target. items = [item] \<and> si_url item = Some url \<and> si_discovered_via item = None \<and>
    plan_input (nd_url (sr_news r)) (PlanRequested url) = Inr target \<and> dt_url target = url \<and>
    bind_target (nd_url (sr_news r)) target \<lparr>tr_mode = ModeDefault, tr_proxy = None\<rparr> =
      Inl (BindTransport OnionRequiresTor) \<and>
    (\<forall>req b. bind_target (nd_url (sr_news r)) target req = Inr b \<longrightarrow>
       (\<exists>cfg. ab_transport b = PolicyTor cfg))"
proof -
  obtain item where item: "normalize_onion_seed (nd_url (sr_news r)) seed = Inr item" "items = [item]"
    using assms(2-4) by (auto simp: per_input_discover map_sum_def split: sum.splits)
  from item(1) obtain u where u: "nd_url (sr_news r) seed = Inr u"
      "u_scheme u = ''http'' \<or> u_scheme u = ''https''" "u_username u = []" "u_password u = None"
      "is_onion_url u" "si_url item = Some (u_as_str u)"
    by (rule normalize_onion_seed_Inr)
  have parsed: "nd_url (sr_news r) (u_as_str u) = Inr u" by (rule assms(1) [OF u(1)])
  define target where "target = \<lparr>dt_url = u_as_str u, dt_kind = Requested, dt_discovered_via = None\<rparr>"
  have plan: "plan_input (nd_url (sr_news r)) (PlanRequested (u_as_str u)) = Inr target"
    using u parsed by (auto simp: plan_one_def target_def)
  have refused: "validate_target u PolicyDefault = Inl OnionRequiresTor"
    using u(5) by (simp add: validate_target_def)
  have "bind_target (nd_url (sr_news r)) target \<lparr>tr_mode = ModeDefault, tr_proxy = None\<rparr> =
      Inl (BindTransport OnionRequiresTor)"
    using parsed refused by (simp add: bind_target_def into_policy_def target_def)
  moreover have "\<exists>cfg. ab_transport b = PolicyTor cfg"
    if "bind_target (nd_url (sr_news r)) target req = Inr b" for req b
    using bind_target_Inr [OF that] parsed refused
    by (cases "ab_transport b") (auto simp: target_def)
  moreover have "si_discovered_via item = None"
    using item(1) by (auto simp: normalize_onion_seed_def split: sum.splits if_splits)
  ultimately show ?thesis
    using item(2) u(6) plan by (auto simp: target_def)
qed


section \<open>Witnesses\<close>

definition sample_onion_url :: "string \<Rightarrow> url" where
  "sample_onion_url s =
     \<lparr>u_as_str = s, u_scheme = ''http'', u_username = [], u_password = None,
      u_host_str = Some ''abcdef.onion'', u_port = None, u_path = ''/'', u_query = None,
      u_fragment = None\<rparr>"

definition sample_news :: news_deps where
  "sample_news =
     \<lparr>nd_unescape = Inr,
      nd_url = (\<lambda>s. if prefix ''http'' s then Inr (sample_onion_url s) else Inl ''relative URL''),
      nd_naive_date = (\<lambda>_. None), nd_rfc3339 = (\<lambda>s. if s = ''T'' then Some 1000 else None),
      nd_minutes = (\<lambda>_. None)\<rparr>"

definition sample_news_url :: news_tree where
  "sample_news_url =
     Elem NsUnbound ''url''
       [Elem NsUnbound ''loc'' [Piece (PText '' http:'')], Elem NsUnbound ''loc'' [Piece (PCData ''a '')],
        Elem (NsBound NEWS_NS) ''news''
          [Elem (NsBound NEWS_NS) ''publication'' [Elem (NsBound NEWS_NS) ''name'' [Piece (PText ''N'')]],
           Elem (NsBound NEWS_NS) ''publication_date'' [Piece (PText ''T'')],
           Elem NsUnbound ''title'' [Piece (PText ''ignored'')],
           Elem (NsBound NEWS_NS) ''title'' [Piece (PText ''A''), Piece PIgnored]]]"

definition sample_news_children :: "news_tree list" where
  "sample_news_children = [Piece (PText '' ''), Elem NsUnbound ''other'' [sample_news_url], sample_news_url]"

definition sample_news_entry :: news_sitemap_entry where
  "sample_news_entry =
     \<lparr>nse_item = \<lparr>si_source_type = ''sitemap'', si_source_item_id = None, si_url = Some ''http:a'',
        si_title = Some ''A'', si_snippet = None, si_authors = [], si_published_at = Some 1000,
        si_updated_at = None, si_discovered_via = Some ''via'', si_media_references = []\<rparr>,
      nse_news = Some \<lparr>nsm_publication_name = Some ''N'', nsm_language = None,
        nsm_publication_date_raw = Some ''T''\<rparr>\<rparr>"

definition sample_news_events :: "ns_event list" where
  "sample_news_events =
     map piece_event [PIgnored] @ tree_events (Elem NsUnbound ''urlset'' sample_news_children)
       @ map piece_event []"

lemma sample_news_plain: "list_all plain_url_node sample_news_children"
  by code_simp

lemma sample_news_read:
  "read_root sample_news ''via'' NsUnbound ''urlset'' sample_news_children =
     Inr \<lparr>nsr_sitemap_type = ''urlset'', nsr_entries = [sample_news_entry]\<rparr>"
  by code_simp

theorem news_sitemap_equals_reference_witness:
  "news_parse_sync sample_news sample_news_events ''via'' =
     Inr \<lparr>nsr_sitemap_type = ''urlset'', nsr_entries = [sample_news_entry]\<rparr>"
  unfolding sample_news_events_def
  using news_sitemap_equals_reference [OF sample_news_plain] sample_news_read by metis

lemma sample_news_parsed:
  "news_parse_sync sample_news sample_news_events ''via'' =
     Inr \<lparr>nsr_sitemap_type = ''urlset'', nsr_entries = [sample_news_entry]\<rparr>"
  by code_simp

theorem news_entries_well_formed_witness:
  "tag_balance sample_news_events = 0 \<and> entry_ok sample_news ''via'' sample_news_entry"
  using news_entries_well_formed [OF sample_news_parsed] by simp

definition sample_guid_item :: rss_item where
  "sample_guid_item =
     \<lparr>ri_before = [XStart ''title'' [], XText (Inr ''t''), XEnd ''title''],
      ri_guid = Some ([(''isPermaLink'', Some ''TRUE'')],
        [XText (Inr ''http://a/?x=1''), XGeneralRef (Inr ''amp''), XText (Inr ''y=2'')]),
      ri_after = []\<rparr>"

theorem rss_guid_is_last_text_witness:
  "rss_entry_facts_of ([XStart ''rss'' []] @ concat (map item_events [sample_guid_item]) @ [XEnd ''rss'']) =
     [\<lparr>ref_guid = Some ''y=2'', ref_guid_is_permalink = True\<rparr>]"
proof -
  have "list_all other_event [XStart ''rss'' []]" "list_all other_event [XEnd ''rss'']"
    "list_all plain_item [sample_guid_item]"
    "map item_facts [sample_guid_item] = [\<lparr>ref_guid = Some ''y=2'', ref_guid_is_permalink = True\<rparr>]"
    by code_simp+
  then show ?thesis using rss_guid_is_last_text by metis
qed

definition sample_readers :: source_readers where
  "sample_readers =
     \<lparr>sr_events = (\<lambda>_. []), sr_trimmed_events = (\<lambda>_. []), sr_feed = (\<lambda>_ _ _. Inl ''no feed''),
      sr_entities = (\<lambda>_. []), sr_ns_events = (\<lambda>_. []), sr_news = sample_news\<rparr>"

definition sample_onion_input :: discovery_input where
  "sample_onion_input = Scope (OnionSeed ''http://abcdef.onion/'')"

theorem onion_seed_bound_to_tor_witness:
  "\<exists>item url target. per_input (discover sample_readers (\<lambda>_. None) [sample_onion_input]) ! 0 = Inr [item] \<and>
    si_url item = Some url \<and> dt_url target = url \<and>
    bind_target (nd_url sample_news) target \<lparr>tr_mode = ModeDefault, tr_proxy = None\<rparr> =
      Inl (BindTransport OnionRequiresTor)"
proof -
  have parse: "nd_url (sr_news sample_readers) (u_as_str u) = Inr u"
    if "nd_url (sr_news sample_readers) s = Inr u" for s u
    using that by (auto simp: sample_readers_def sample_news_def sample_onion_url_def split: if_splits)
  obtain items where items: "per_input (discover sample_readers (\<lambda>_. None) [sample_onion_input]) ! 0 = Inr items"
    by (simp add: discover_def sample_onion_input_def normalize_onion_seed_def sample_readers_def
        sample_news_def sample_onion_url_def is_onion_url_def is_onion_host_def trim_end_dots_def
        to_ascii_lowercase_def lower_char_def suffix_def)
  have "\<exists>item url target. items = [item] \<and> si_url item = Some url \<and> si_discovered_via item = None \<and>
      plan_input (nd_url (sr_news sample_readers)) (PlanRequested url) = Inr target \<and> dt_url target = url \<and>
      bind_target (nd_url (sr_news sample_readers)) target \<lparr>tr_mode = ModeDefault, tr_proxy = None\<rparr> =
        Inl (BindTransport OnionRequiresTor) \<and>
      (\<forall>req b. bind_target (nd_url (sr_news sample_readers)) target req = Inr b \<longrightarrow>
         (\<exists>cfg. ab_transport b = PolicyTor cfg))"
  proof (rule onion_seed_bound_to_tor [OF _ _ _ items])
    show "nd_url (sr_news sample_readers) (u_as_str u) = Inr u"
      if "nd_url (sr_news sample_readers) s = Inr u" for s u by (rule parse [OF that])
    show "0 < length [sample_onion_input]" by simp
    show "[sample_onion_input] ! 0 = Scope (OnionSeed ''http://abcdef.onion/'')"
      by (simp add: sample_onion_input_def)
  qed
  moreover have "sr_news sample_readers = sample_news" by (simp add: sample_readers_def)
  ultimately show ?thesis using items by metis
qed

end
