(* ===== verification/Spec2Isabelle.thy ===== *)
theory Spec2Isabelle
  imports Store_Properties Network_Properties Research_Properties Callback_Properties
    Inspection_Properties Chain_Properties Robots_Properties
    Artifact_Properties Crawl_Properties Source_Properties
begin

text \<open>
  Scorpion: a verification of its durable operations and of the research engine.

  The program (\<open>src/spider\<close>, \<open>src/spider_agent\<close>, \<open>src/spider_transport\<close>, \<open>src/spider_search\<close>)
  watches web pages on a schedule, keeps evidence of what it retrieved, compares
  retrievals, keeps authenticated sessions, and runs research sessions in which a language
  model reads acquired pages.  All of this is recorded in one SQLite store.  The theories
  follow the modules, from the bottom up.

  Foundations
  \<^item> \<open>Prelude\<close>: the monad of stateful fallible actions (\<open>act\<close>: a state transformer that
    returns a sum), the rules \<open>frame\<close> (an observation of the state is unchanged) and \<open>keeps\<close>
    (an invariant is kept), codecs.  \<open>Rust_Str\<close>: the string operations of the standard
    library that the source uses, on UTF-8 bytes.
  \<^item> \<open>Identity\<close> (\<open>features/identity.rs\<close>): identities, their printing and parsing.
  \<^item> \<open>Domain_State\<close> (\<open>features/domain_state.rs\<close>): the in-memory current state and history log.
  \<^item> \<open>Persistence\<close> (\<open>features/domain_persistence.rs\<close>): the store as two tables, a map of current
    rows and a list of history rows, with a list of backend faults that the SQL calls consume;
    opening with retries, the compare-and-swap write, the append-only history.
  \<^item> \<open>Durable\<close>: the shape that the operations of the modules above the store share, and the
    locale of a durable entity.

  Retrieval
  \<^item> \<open>Transport\<close> (\<open>spider_transport/src/transport.rs\<close>): transport policies, the classification of
    onion and internal URLs (with the parser of IP addresses it calls), redirect decisions,
    crawl boundaries.  \<open>Discovery\<close> (\<open>discovery_target.rs\<close>, \<open>acquisition_binding.rs\<close>): planned and
    bound targets.  \<open>Evidence\<close> (\<open>utils/evidence.rs\<close>): evidence bundles and their ledger.

  Operations on the store
  \<^item> \<open>Watch\<close>, \<open>Auth_Session\<close>, \<open>Change_Detection\<close>, \<open>Watch_Schedule\<close>, \<open>Watch_Health\<close> (the files of
    \<open>features\<close> with these names): one definition per public operation, composed as the code
    composes them.  A scheduled run claims its tick with a compare-and-swap on an absent row,
    fetches, records evidence, advances the watch and completes the row.

  Research
  \<^item> \<open>Agent_Usage\<close> (\<open>spider_agent/src/config.rs\<close>): counters and limits as 64-bit words.
  \<^item> \<open>Research_Excerpt\<close>, \<open>Research_Agent\<close> (\<open>spider_agent/src/agent.rs\<close>): the bounded excerpt of a
    document, and the engine: search with a fallback query, acquisition, extraction,
    synthesis, validation, diagnostics.  \<open>Excerpt_Bounds\<close> proves the excerpts bounded.
  \<^item> \<open>Research_Session\<close>, \<open>Research_Run\<close> (\<open>research_session.rs\<close>, \<open>agent_acquisition.rs\<close>): the durable
    session around the engine, and whole runs.

  Artifacts
  \<^item> \<open>File_System\<close>: files as names of inodes, with a list of faults that the calls end with and a
    list of what other processes do before each call; the laws of a process on its own file.
    \<open>Artifacts\<close> (\<open>source_provider.rs\<close>, \<open>artifact_reference.rs\<close>, \<open>artifact_download_binding.rs\<close>,
    \<open>artifact_download_execution.rs\<close>): providers, references, binding, and the download to a
    temporary file that is checked and renamed.  \<open>Artifact_Properties\<close>: all or nothing under
    faults and interference, what a report says, and what becomes of a newcomer.

  Inspection
  \<^item> \<open>Page_Audit\<close> (\<open>features/audit.rs\<close>): facts of an acquired page, eleven deterministic rules,
    content-addressed findings, technology markers, and the audit of one page.
    \<open>Transform_Lineage\<close> (\<open>features/transform_lineage.rs\<close>): content-addressed lineage facts.
  \<^item> \<open>Domain_Runtime\<close> (\<open>features/domain_runtime.rs\<close>): which database is opened.
  \<^item> \<open>Iam_Trace\<close> (\<open>features/iam_trace.rs\<close>), \<open>Iam_Facts\<close>, \<open>Iam_Saml\<close>, \<open>Iam_Store\<close>
    (\<open>scorpion_app/src/iam.rs\<close>): the callback inspector, from a request's bytes to the facts it
    keeps (secrets as digests) and the durable trace they are appended to.  \<open>Iam_Life\<close> has
    the lemmas about the life of a trace when other requests run between the reads and the
    writes of a callback, and about the stores that its successive attempts meet (\<open>rounds\<close>).

  Automation
  \<^item> \<open>Json_Value\<close>: JSON values.  \<open>Chain_Graph\<close> (\<open>concurrent_chain.rs\<close> of \<open>spider_agent_types\<close> and of
    \<open>spider_agent/src/automation\<close>): dependency graphs of actions and their execution.  The
    order in which a hash map is iterated, and in which the steps of a batch finish, are
    arguments.  The fuel of the depth-first search is the number of steps; it is enough
    because the gray nodes are distinct (\<open>dfs_enough_fuel\<close>).  \<open>Chain_Properties\<close>: acceptance
    against acyclicity, the topological order, every use of a graph (with the list of what was
    handed out and what was completed, in their order), whole executions.

  Crawling policy
  \<^item> \<open>Robots\<close> (\<open>packages/robotparser/parser.rs\<close> without the \<open>regex\<close> feature, with
    \<open>is_allowed_robots\<close> and \<open>configure_robots_parser\<close> of \<open>website.rs\<close>): rules, entries, the line
    state machine of the parser, what reading leaves, decisions and delays.
    \<open>Robots_Properties\<close>: round trip of printed files, well-formedness, the finality of the first
    read, and what files without a wildcard forbid (nothing).

  URL structures
  \<^item> \<open>Url_Trie\<close> (\<open>utils/trie.rs\<close>): the trie of URL paths that selects page scripts.  \<open>Frontier\<close>
    (\<open>utils/frontier.rs\<close>): the prioritised frontier with rotation of domains, and the scores of
    URLs in saturating 32-bit arithmetic.  \<open>Crawl_Properties\<close>: the trie as a map, its match-all
    entry, what a pop takes, that every URL is answered once, and the documented score.

  Source discovery
  \<^item> \<open>Source_Items\<close> (\<open>source.rs\<close>, \<open>onion_seed.rs\<close>, \<open>robots_sitemap.rs\<close>): items, onion seeds,
    sitemaps declared by a robots.txt.  \<open>Feeds\<close> (\<open>sitemap.rs\<close>, \<open>feed.rs\<close>) and \<open>News_Sitemap\<close>
    (\<open>news_sitemap.rs\<close>): the parsers over the events of the third-party XML readers.
    \<open>Research_Scope\<close> (\<open>research_scope.rs\<close>): scopes, inputs and discovery.  \<open>News_Reference\<close>: a
    reference that reads a News sitemap by recursion on its tree, and the simulation of it by
    the parser.  \<open>Source_Properties\<close>: equality with the reference, what entries always satisfy,
    the guids of RSS items, and the way of an onion seed to a binding under Tor.

  Properties
  \<^item> \<open>Ledger\<close> composes all durable operations into one step relation \<open>ledger_step\<close> and proves
    what every sequence of them preserves; the locale \<open>entity_property\<close> is the interface
    through which a property of one row becomes a property of all runs, interpreted for the
    transition paths, for complete histories and for the traces of callbacks.  A callback is a
    step in which other operations of the ledger run between its attempts.  This theory states the properties of the
    ledger.  \<open>Scheduled_Run\<close> has those of scheduled runs in the presence of arbitrary other
    operations, \<open>Store_Properties\<close> those of single operations on the store (with the
    refinement of the in-memory model), \<open>Network_Properties\<close> those of the transport guards and
    \<open>Research_Properties\<close> those of research, \<open>Callback_Properties\<close> those of callbacks (life of a
    trace, what is recorded of secrets) and \<open>Inspection_Properties\<close> those of the page audit
    (its rules against a reference table, identities of findings, what it leaves in the
    store) and of lineage.  \<open>Codecs\<close> has concrete codecs and sample stores
    for the witnesses.

  Conventions.  Third-party code is an argument: the \<open>serde\<close> codecs of the stored values (a
  \<open>codec\<close>; \<open>codec_ok\<close> says that reading gives back what was written), the URL parser, SHA-256,
  MIME inference, the cron parser, the network, the search provider and the model.  Minted
  identities and the clock are arguments too; the clock is one time per operation or run,
  although the code reads it several times in a research session.  Where a theorem needs a
  law of such a parameter, it is a hypothesis, and the witness instantiates the parameter.
  Revisions are naturals: the code has 64-bit numbers, stored as signed ones, so the model
  departs from it only after 2^63 writes of one row.  The free metadata of an evidence bundle
  is an opaque value, which no modelled operation reads.  Every recursion is total: opening counts its attempts (at most five), the
  excerpt loops have measures; fuel is the code's own bound of five attempts to append an
  observation, and the depth of the search for cycles.  The simulation of parallelism may
  not end, so it is a partial function.

  Not modelled: the crawler loops, the browser automation and the HTTP clients (calls of
  asynchronous third-party libraries), construction of \<open>reqwest\<close> clients, the text of model
  prompts and sampling options, the relevance score of a search result (a float), user
  interfaces.  Concurrency is modelled as interleaving of whole
  operations, and for callbacks as interleaving of whole operations with the attempts to
  append an observation; within a write the interleaving of two writers is that of its
  transaction, which SQLite makes atomic.
\<close>

section \<open>Properties of the ledger\<close>

lemma ledger_run_step: "ledger_step cs ca ci s s' \<Longrightarrow> ledger_run cs ca ci s s'"
  by (rule r_into_rtranclp)

text \<open>C2. On a backend without faults, whatever operations are called in whatever order from an
  empty store, the life of every watch and of every session is fully recorded: its
  history holds exactly the revisions from 1 to its current one, without a gap, and the
  recorded states followed by the current one are linked by transitions of the domain.\<close>

theorem histories_complete:
  assumes "faithful cs" "faithful ca" "ledger_run cs ca ci (empty_store []) s"
  shows "healthy s \<and> (\<forall>i. entity_inv cs (range watch_step) (watch_id_to_string i) s) \<and>
    (\<forall>a. entity_inv ca (range session_step) (auth_session_id_to_string a) s)"
  using complete.run [OF assms(3)] complete_empty [of cs ca] assms(1,2)
  by (simp add: complete_ledger_def watch_inv_def session_inv_def)

lemma histories_complete_witness:
  "map fst (history_of stopped_store (watch_id_to_string sample_watch)) = [1, 2]"
proof -
  have "entity_inv watch_state_codec (range watch_step) (watch_id_to_string sample_watch) stopped_store"
    using histories_complete [OF faithful_watch_state_codec faithful_session_state_codec
        ledger_run_samples(3)] by blast
  then show ?thesis by (simp add: entity_inv_def stopped_rows upt_rec)
qed

text \<open>C5. Whatever the operations and the backend faults, nothing recorded is lost or changed:
  the store stays well-formed, the history is extended only at its end, and a current
  row is kept or replaced by a row of a higher revision.\<close>

theorem ledger_only_grows:
  assumes "ledger_run cs ca ci s s'" "store_ok s"
  shows "store_ok s' \<and> prefix (history_rows s) (history_rows s') \<and>
    (\<forall>k r p. current_rows s k = Some (r, p) \<longrightarrow>
       (\<exists>r' p'. current_rows s' k = Some (r', p') \<and> ((r', p') = (r, p) \<or> r < r')))"
proof -
  have g: "grows s s'" by (rule ledger_run_grows [OF assms(1)])
  have "\<exists>r' p'. current_rows s' k = Some (r', p') \<and> ((r', p') = (r, p) \<or> r < r')"
    if "current_rows s k = Some (r, p)" for k r p
    using g that by (auto simp: grows_def current.revision_def split: option.splits dest!: spec [of _ k])
  with g assms(2) show ?thesis by (simp add: grows_def)
qed

lemma ledger_only_grows_witness: "store_ok stopped_store \<and> prefix [] (history_rows stopped_store)"
  using ledger_only_grows [OF ledger_run_samples(3) store_ok_empty] by simp

text \<open>C6. Evidence that was recorded stays resolvable, with exactly the recorded content, after
  any further operations.\<close>

theorem recorded_evidence_resolves:
  assumes "codec_ok ce" "store_ok s" "record_evidence ce fresh now b s = (Inr b', s1)"
    and "eb_id b' = Some i" "ledger_run cs ca ci s1 t" "healthy t"
  shows "resolve ce (EvidenceRef i) t = (Inr (Some b'), t)"
proof -
  have "grows s s1" using keepsD [OF keeps_grows_evidence grows_refl assms(3)] .
  moreover have "grows s1 t" by (rule ledger_run_grows [OF assms(5)])
  ultimately have "store_wf s" "store_wf t" "prefix (history_rows s1) (history_rows t)"
    using assms(2) unfolding grows_def store_ok_def by blast+
  then show ?thesis using record_then_resolve [OF assms(1) _ assms(3,4) _ assms(6)] by blast
qed

definition evidence_store :: domain_persistence where
  "evidence_store = snd (record_evidence (table_codec [sample_bundle]) sample_evidence 0
     (sample_bundle\<lparr>eb_id := None\<rparr>) (empty_store []))"

lemma evidence_recorded:
  "record_evidence (table_codec [sample_bundle]) sample_evidence 0 (sample_bundle\<lparr>eb_id := None\<rparr>)
     (empty_store []) = (Inr sample_bundle, evidence_store)"
proof -
  have "fst (record_evidence (table_codec [sample_bundle]) sample_evidence 0
      (sample_bundle\<lparr>eb_id := None\<rparr>) (empty_store [])) = Inr sample_bundle" by code_simp
  then show ?thesis unfolding evidence_store_def by (metis prod.collapse)
qed

lemma sample_bundle_id [simp]: "eb_id sample_bundle = Some sample_evidence"
  by (simp add: sample_bundle_def)

lemma recorded_evidence_resolves_witness:
  "fst (resolve (table_codec [sample_bundle]) (EvidenceRef sample_evidence)
     (snd (create_session session_state_codec sample_session ''https://a.se'' BasicAuth evidence_store)))
   = Inr (Some sample_bundle)"
proof -
  define t where "t = snd (create_session session_state_codec sample_session ''https://a.se'' BasicAuth evidence_store)"
  have "ledger_step watch_state_codec session_state_codec trace_state_codec evidence_store t"
    unfolding t_def by (rule step_create_session) (rule surjective_pairing)
  then have run: "ledger_run watch_state_codec session_state_codec trace_state_codec evidence_store t" by (rule ledger_run_step)
  have h: "healthy t" unfolding t_def by code_simp
  show ?thesis
    using recorded_evidence_resolves [OF table_codec_ok store_ok_empty evidence_recorded sample_bundle_id run h]
    by (simp add: t_def)
qed

text \<open>C3. No lost update: once a write from an expected revision has succeeded, no other write
  from the same expectation succeeds, at any later time and after any operations; the
  attempt changes neither table.\<close>

theorem overtaken_writer_rejected:
  assumes "write_current k e p s = (Inr r, s1)" "ledger_run cs ca ci s1 s2"
    and "write_current k e q s2 = (res, s3)"
  shows "(\<exists>err. res = Inl err) \<and> tables s3 = tables s2"
proof -
  note w = write_current_Inr [OF assms(1)]
  have le: "current.revision s1 k \<le> current.revision s2 k"
    using ledger_run_grows [OF assms(2)] revision_le by (simp add: grows_def)
  have "current.revision s1 k = next_revision e" by (simp add: w current.revision_def)
  then have gt: "next_revision e \<le> current.revision s2 k" using le by simp
  have "\<exists>err. res = Inl err"
  proof (cases e)
    case (Some n)
    then have "n < current.revision s2 k" using gt by (simp add: next_revision_def)
    then show ?thesis using current.stale_write_fails assms(3) Some by blast
  next
    case None
    have "map_option fst (current_rows s2 k) \<noteq> None"
      using gt by (auto simp: next_revision_def current.revision_def split: option.splits)
    then show ?thesis using write_current_Inr(1) [of k e q s2 _ s3] assms(3) None by (cases res) auto
  qed
  then show ?thesis using assms(3) write_current_Inl by blast
qed

lemma overtaken_writer_rejected_witness:
  "\<exists>err. fst (write_current ''k'' None [2] (snd (write_current ''k'' None [1] (empty_store [])))) = Inl err"
proof -
  have w: "write_current ''k'' None [1] (empty_store []) =
      (Inr 1, snd (write_current ''k'' None [1] (empty_store [])))"
    by (simp add: write_current_healthy empty_store_def next_revision_def)
  show ?thesis
    using overtaken_writer_rejected [OF w rtranclp.rtrancl_refl surjective_pairing] by blast
qed

text \<open>An identity under which evidence was recorded is never reused: a second bundle with
  the same identity is refused with \<open>HistoryAlreadyExists\<close> and nothing is written.\<close>

theorem duplicate_evidence_refused:
  assumes "store_ok s" "record_evidence ce fresh now b s = (Inr b', s1)" "eb_id b' = Some i"
    and "ledger_run cs ca ci s1 t" "healthy t" "eb_id c = Some i" "ser ce c = Inr q"
  shows "record_evidence ce fresh' now' c t = (Inl (LedgerPersistence HistoryAlreadyExists), t)"
proof -
  obtain p where "append_history (evidence_id_to_string i) 1 p now s = (Inr (), s1)"
    using record_evidence_Inr [OF assms(2)] assms(3) by (auto dest!: write_record_Inr)
  then have "(evidence_id_to_string i, 1) \<in> set (map history_key (history_rows s1))"
    using append_history_Inr(2) by (fastforce simp: history_key_def)
  moreover have "prefix (history_rows s1) (history_rows t)"
    using ledger_run_grows [OF assms(4)] by (simp add: grows_def)
  ultimately have "(evidence_id_to_string i, 1) \<in> set (map history_key (history_rows t))"
    by (auto dest: set_mono_prefix)
  moreover have same: "c\<lparr>eb_id := Some i\<rparr> = c" using assms(6) by simp
  have "record_evidence ce fresh' now' c =
      act_bind (write_record ce LedgerPersistence LedgerSerialization (evidence_id_to_string i) c now')
        (\<lambda>_. act_ok c)"
    unfolding record_evidence_def Let_def assms(6) option.case same ..
  ultimately show ?thesis
    using assms(5,7) by (simp add: write_record_def act_bind_def act_map_err_def append_history_healthy)
qed

text \<open>A stopped watch is final: no sequence of operations changes its row again, with or
  without backend faults.\<close>

theorem stopped_watch_is_final:
  assumes "current_rows s (watch_id_to_string i) = Some (r, p)" "de cs p = Inr (WatchStopped e)"
    and "ledger_run cs ca ci s s'"
  shows "current_rows s' (watch_id_to_string i) = Some (r, p)"
proof -
  have "paths cs ca s s'" by (rule paths.run [OF assms(3) paths_refl])
  then have path: "row_path cs (range watch_step) (Some (r, p)) (current_rows s' (watch_id_to_string i))"
    using assms(1) by (metis paths_def)
  show ?thesis
    by (rule row_path_final [OF path assms(2)])
       (auto intro: watch_life.terminal_rejects simp: watch_terminal_def)
qed

text \<open>A session keeps its origin and its authentication profile for its whole life, and once
  invalidated its row never changes again.\<close>

theorem session_life:
  assumes "codec_ok ca" "current_rows s (auth_session_id_to_string a) = Some (r, p)"
    and "de ca p = Inr st" "ledger_run cs ca ci s s'"
  shows "\<exists>r' p' st'. current_rows s' (auth_session_id_to_string a) = Some (r', p') \<and>
      de ca p' = Inr st' \<and> sess_origin st' = sess_origin st \<and> sess_profile st' = sess_profile st \<and>
      (session_terminal st \<longrightarrow> (r', p') = (r, p))"
proof -
  have "paths cs ca s s'" by (rule paths.run [OF assms(4) paths_refl])
  then have path: "row_path ca (range session_step) (Some (r, p)) (current_rows s' (auth_session_id_to_string a))"
    using assms(2) by (metis paths_def)
  obtain r' p' st' where row: "current_rows s' (auth_session_id_to_string a) = Some (r', p')"
    and st': "de ca p' = Inr st'" "session_owner st' = session_owner st"
    using row_path_owner [OF path assms(3,1), of session_owner] session_life.owner_kept by blast
  have "(r', p') = (r, p)" if "session_terminal st"
    using row_path_final [OF path assms(3)] session_life.terminal_rejects [OF that] row by auto
  with row st' show ?thesis by (auto simp: session_owner_def)
qed

end
